(* ===== verification/Prelude.thy ===== *)
theory Prelude
  imports Main "HOL-Library.Word" "HOL-Library.Monad_Syntax"
begin

section \<open>Shared types, automation and lemmas\<close>

text \<open>
  The vocabulary of the development. A C \<^verbatim>\<open>int\<close> is an \<open>int\<close> whose updates are
  wrapped to 32 bits by \<open>c_int_wrap\<close>; \<^verbatim>\<open>size_t\<close> and \<^verbatim>\<open>unsigned long\<close> are
  64-bit words. A pointer to a device or to a string that the code allocates and frees is
  a \<open>kptr\<close>: null, live, or dangling after \<^verbatim>\<open>kfree\<close>. Code that the C
  standard or the Linux kernel leaves undefined (a null or dangling pointer followed, an
  array indexed out of its bounds, a mutex taken twice by one thread) has the value
  \<open>None\<close>; a normal return is \<open>Some\<close> of the result, so the option monad composes
  the steps of a function and a theorem that the value is \<open>Some\<close> is memory safety.
\<close>

text \<open>
  Two collections of facts serve the composed system: \<open>call_defs\<close>, the system calls that do
  not touch the files of a process, and \<open>fine_intros\<close>, what keeps its invariant.
\<close>

unbundle bit_operations_syntax

named_theorems call_defs \<open>definitions of the system calls that leave the files of a process alone\<close>
named_theorems fine_intros \<open>preservation of the invariant of the composed system\<close>

type_synonym c_int = int
type_synonym size_t = "64 word"
type_synonym ulong = "64 word"
type_synonym pid_t = int

subsection \<open>Error numbers\<close>

abbreviation ENXIO :: c_int where "ENXIO \<equiv> 6"
abbreviation ENOEXEC :: c_int where "ENOEXEC \<equiv> 8"
abbreviation ENOMEM :: c_int where "ENOMEM \<equiv> 12"
abbreviation EBUSY :: c_int where "EBUSY \<equiv> 16"
abbreviation ENODEV :: c_int where "ENODEV \<equiv> 19"
abbreviation EINVAL :: c_int where "EINVAL \<equiv> 22"
abbreviation ENOSPC :: c_int where "ENOSPC \<equiv> 28"
abbreviation ENOSYS :: c_int where "ENOSYS \<equiv> 38"
abbreviation EBADSLT :: c_int where "EBADSLT \<equiv> 57"
abbreviation EOVERFLOW :: c_int where "EOVERFLOW \<equiv> 75"
abbreviation ETIMEDOUT :: c_int where "ETIMEDOUT \<equiv> 110"

subsection \<open>Machine integers\<close>

definition c_int_wrap :: "int \<Rightarrow> c_int" where
  "c_int_wrap i = (i + 2 ^ 31) mod 2 ^ 32 - 2 ^ 31"

lemma c_int_wrap_id [simp]: "- (2 ^ 31) \<le> i \<Longrightarrow> i < 2 ^ 31 \<Longrightarrow> c_int_wrap i = i"
  by (simp add: c_int_wrap_def)

lemma c_int_wrap_range: "- (2 ^ 31) \<le> c_int_wrap i \<and> c_int_wrap i < 2 ^ 31"
  by (simp add: c_int_wrap_def)

lemma c_int_wrap_idem [simp]: "c_int_wrap (c_int_wrap i) = c_int_wrap i"
  using c_int_wrap_range [of i] by simp

lemma c_int_wrap_pred_succ: "- (2 ^ 31) \<le> i \<Longrightarrow> i < 2 ^ 31 \<Longrightarrow> c_int_wrap (c_int_wrap (i + 1) - 1) = i"
  by (simp add: c_int_wrap_def mod_diff_left_eq)

lemma bit_int_less:
  assumes "0 \<le> k" "k < 2 ^ m" "bit (k :: int) n"
  shows "n < m"
proof -
  have "take_bit m k = k" using assms(1,2) by (simp add: take_bit_int_eq_self)
  with assms(3) show ?thesis by (metis bit_take_bit_iff)
qed

text \<open>The unsigned-to-int conversion the code performs on 64-bit sizes.\<close>

definition int_of_size :: "size_t \<Rightarrow> c_int" where
  "int_of_size n = c_int_wrap (uint n)"

lemma int_of_size_small: "unat n < 2 ^ 31 \<Longrightarrow> int_of_size n = int (unat n)"
proof -
  assume "unat n < 2 ^ 31"
  then have "int (unat n) < int (2 ^ 31)" by (simp only: of_nat_less_iff)
  moreover have "- (2 ^ 31) \<le> int (unat n)" by (rule order_trans [of _ 0]) simp_all
  ultimately have "c_int_wrap (int (unat n)) = int (unat n)" by (intro c_int_wrap_id) auto
  then show ?thesis by (simp add: int_of_size_def)
qed

subsection \<open>Pointers and arrays\<close>

datatype 'a kptr = Null | Live 'a | Freed

definition deref :: "'a kptr \<Rightarrow> 'a option" where
  "deref p = (case p of Live x \<Rightarrow> Some x | _ \<Rightarrow> None)"

text \<open>\<^verbatim>\<open>kfree\<close> accepts a null pointer and must not see a dangling one.\<close>

definition kfree :: "'a kptr \<Rightarrow> 'a kptr option" where
  "kfree p = (case p of Null \<Rightarrow> Some Null | Live _ \<Rightarrow> Some Freed | Freed \<Rightarrow> None)"

lemma deref_simps [simp]: "deref (Live x) = Some x" "deref Null = None" "deref Freed = None"
  by (simp_all add: deref_def)

lemma kfree_simps [simp]: "kfree (Live x) = Some Freed" "kfree Null = Some Null" "kfree Freed = None"
  by (simp_all add: kfree_def)

text \<open>\<open>arr_get\<close> and \<open>arr_set\<close> index an array with a C \<^verbatim>\<open>int\<close>.\<close>

definition arr_get :: "'a list \<Rightarrow> c_int \<Rightarrow> 'a option" where
  "arr_get xs i = (if 0 \<le> i \<and> i < int (length xs) then Some (xs ! nat i) else None)"

definition arr_set :: "'a list \<Rightarrow> c_int \<Rightarrow> 'a \<Rightarrow> 'a list" where
  "arr_set xs i x = xs[nat i := x]"

lemma arr_get_Some [simp]: "0 \<le> i \<Longrightarrow> i < int (length xs) \<Longrightarrow> arr_get xs i = Some (xs ! nat i)"
  by (simp add: arr_get_def)

lemma arr_get_SomeD: "arr_get xs i = Some x \<Longrightarrow> 0 \<le> i \<and> i < int (length xs) \<and> xs ! nat i = x"
  by (auto simp: arr_get_def split: if_splits)

lemma arr_get_int [simp]: "i < length xs \<Longrightarrow> arr_get xs (int i) = Some (xs ! i)"
  by simp

lemma length_arr_set [simp]: "length (arr_set xs i x) = length xs"
  by (simp add: arr_set_def)

lemma arr_get_arr_set:
  "arr_get xs i \<noteq> None \<Longrightarrow> arr_get (arr_set xs i x) j = (if j = i then Some x else arr_get xs j)"
  by (auto simp: arr_get_def arr_set_def nth_list_update split: if_splits)

lemma arr_set_same: "arr_get xs i = Some x \<Longrightarrow> arr_set xs i x = xs"
  by (auto simp: arr_get_def arr_set_def split: if_splits)

lemma arr_set_arr_set [simp]: "arr_set (arr_set xs i x) i y = arr_set xs i y"
  by (simp add: arr_set_def)

subsection \<open>Loops that look for the first match\<close>

text \<open>
  The search loops of the code all have the shape
  \<^verbatim>\<open>for (i = a; i < b; i++) { if (...) continue; found = 1; break; }\<close>.
  \<open>for_first p [a..<b]\<close> runs the test \<open>p\<close> on each index until it answers \<open>True\<close>;
  a test that is undefined makes the loop undefined.
\<close>

fun for_first :: "('i \<Rightarrow> bool option) \<Rightarrow> 'i list \<Rightarrow> 'i option option" where
  "for_first p [] = Some None"
| "for_first p (i # is) =
     (case p i of None \<Rightarrow> None
      | Some b \<Rightarrow> if b then Some (Some i) else for_first p is)"

lemma for_first_defined:
  "(\<And>i. i \<in> set is \<Longrightarrow> p i = Some (q i)) \<Longrightarrow> for_first p is = Some (List.find q is)"
  by (induction "is") auto

lemma for_first_cong [fundef_cong]:
  "is = js \<Longrightarrow> (\<And>i. i \<in> set js \<Longrightarrow> p i = q i) \<Longrightarrow> for_first p is = for_first q js"
  by (induction "is" arbitrary: js) (auto split: option.splits)

lemma for_first_SomeD:
  "for_first p is = Some (Some i) \<Longrightarrow> i \<in> set is \<and> p i = Some True"
  by (induction "is") (auto split: option.splits if_splits)

lemma for_first_NoneD:
  "for_first p is = Some None \<Longrightarrow> i \<in> set is \<Longrightarrow> p i = Some False"
  by (induction "is") (auto split: option.splits if_splits)

lemma for_first_upt_least:
  "for_first p [a..<b] = Some (Some i) \<Longrightarrow>
     a \<le> i \<and> i < b \<and> p i = Some True \<and> (\<forall>j. a \<le> j \<longrightarrow> j < i \<longrightarrow> p j = Some False)"
proof (induction "b - a" arbitrary: a)
  case 0
  then show ?case by simp
next
  case (Suc n)
  then have ab: "[a..<b] = a # [Suc a..<b]" "n = b - Suc a" "a < b"
    by (simp_all add: upt_conv_Cons)
  show ?case
  proof (cases "p a = Some True")
    case True
    with Suc.prems ab(1,3) show ?thesis by simp
  next
    case False
    with Suc.prems ab(1) have pa: "p a = Some False"
      and rest: "for_first p [Suc a..<b] = Some (Some i)"
      by (auto split: option.splits if_splits)
    from Suc.hyps(1) [OF ab(2) rest]
    have IH: "Suc a \<le> i" "i < b" "p i = Some True"
        "\<forall>j. Suc a \<le> j \<longrightarrow> j < i \<longrightarrow> p j = Some False"
      by blast+
    have "p j = Some False" if "a \<le> j" "j < i" for j
      using that pa IH(4) by (cases "j = a") simp_all
    with IH(1-3) show ?thesis by simp
  qed
qed

lemma find_upt_SomeD:
  "List.find q [a..<b] = Some i \<Longrightarrow>
     a \<le> i \<and> i < b \<and> q i \<and> (\<forall>j. a \<le> j \<longrightarrow> j < i \<longrightarrow> \<not> q j)"
  using for_first_upt_least [of "\<lambda>i. Some (q i)" a b i]
    for_first_defined [of "[a..<b]" "\<lambda>i. Some (q i)" q] by simp

lemma find_upt_None_iff: "List.find q [a..<b] = None \<longleftrightarrow> (\<forall>j. a \<le> j \<longrightarrow> j < b \<longrightarrow> \<not> q j)"
  by (auto simp: find_None_iff)

lemma find_upt_eqI:
  assumes "a \<le> i" "i < b" "q i" "\<And>j. a \<le> j \<Longrightarrow> j < i \<Longrightarrow> \<not> q j"
  shows "List.find q [a..<b] = Some i"
proof (cases "List.find q [a..<b]")
  case None
  with assms show ?thesis by (auto simp: find_upt_None_iff)
next
  case (Some k)
  from find_upt_SomeD [OF Some] assms show ?thesis
    by (metis Some linorder_neqE_nat)
qed

subsection \<open>Deleting the first match of a list\<close>

text \<open>
  \<^verbatim>\<open>list_for_each_entry_safe ... list_del ... break\<close>: the first entry that
  satisfies the test leaves the list; the flag says whether there was one.
\<close>

fun delete_first :: "('a \<Rightarrow> bool) \<Rightarrow> 'a list \<Rightarrow> bool \<times> 'a list" where
  "delete_first q [] = (False, [])"
| "delete_first q (x # xs) =
     (if q x then (True, xs)
      else (case delete_first q xs of (found, ys) \<Rightarrow> (found, x # ys)))"

definition count_where :: "('a \<Rightarrow> bool) \<Rightarrow> 'a list \<Rightarrow> nat" where
  "count_where q xs = length (filter q xs)"

lemma count_where_simps [simp]:
  "count_where q [] = 0"
  "count_where q (x # xs) = (if q x then Suc (count_where q xs) else count_where q xs)"
  by (simp_all add: count_where_def)

lemma count_where_le_length: "count_where q xs \<le> length xs"
  by (simp add: count_where_def)

lemma count_where_0_iff: "count_where q xs = 0 \<longleftrightarrow> (\<forall>x \<in> set xs. \<not> q x)"
  by (simp add: count_where_def filter_empty_conv)

lemma count_where_pos_iff: "0 < count_where q xs \<longleftrightarrow> (\<exists>x \<in> set xs. q x)"
  using count_where_0_iff [of q xs] by auto

lemma count_where_mono: "(\<And>x. x \<in> set xs \<Longrightarrow> q x \<Longrightarrow> r x) \<Longrightarrow> count_where q xs \<le> count_where r xs"
  by (induction xs) (auto simp: le_Suc_eq)

lemma delete_first_found: "fst (delete_first q xs) \<longleftrightarrow> (\<exists>x \<in> set xs. q x)"
  by (induction xs) (auto split: prod.splits)

lemma delete_first_not_found: "\<not> (\<exists>x \<in> set xs. q x) \<Longrightarrow> delete_first q xs = (False, xs)"
  by (induction xs) auto

lemma set_delete_first: "set (snd (delete_first q xs)) \<subseteq> set xs"
  by (induction xs) (auto split: prod.splits)

lemma length_delete_first: "length (snd (delete_first q xs)) \<le> length xs"
  by (induction xs) (auto split: prod.splits)

lemma count_delete_first:
  "(\<And>x. q x \<Longrightarrow> r x) \<Longrightarrow> y \<in> set xs \<Longrightarrow> q y \<Longrightarrow>
     Suc (count_where r (snd (delete_first q xs))) = count_where r xs"
proof (induction xs)
  case Nil
  then show ?case by simp
next
  case (Cons x xs)
  show ?case
  proof (cases "q x")
    case True
    with Cons.prems(1) show ?thesis by simp
  next
    case False
    with Cons.prems(2,3) have "y \<in> set xs" by auto
    from Cons.IH [OF Cons.prems(1) this Cons.prems(3)] False show ?thesis
      by (auto split: prod.splits)
  qed
qed

lemma count_delete_first_other:
  "(\<And>x. q x \<Longrightarrow> \<not> r x) \<Longrightarrow> count_where r (snd (delete_first q xs)) = count_where r xs"
  by (induction xs) (auto split: prod.splits)

end
