(* ===== verification/C_Strings.thy ===== *)
theory C_Strings
  imports Prelude
begin

section \<open>C strings and character buffers\<close>

text \<open>
  The string functions of the C library that the code calls, on lists of characters. A
  \<^verbatim>\<open>char *\<close> that points to a string is the list of its characters, and what lies
  behind its end reads as the terminator, as the terminating null byte of the literal does;
  a \<^verbatim>\<open>char\<close> array is a list of its full length. \<open>cstr\<close> is what a reader of a
  buffer sees: the characters up to the first null byte. The lemmas reduce each library
  call to \<open>cstr\<close> and show that no call writes past the buffer it is given.
\<close>

abbreviation NUL :: char where "NUL \<equiv> CHR 0x00"

definition cstr :: "string \<Rightarrow> string" where
  "cstr s = takeWhile (\<lambda>c. c \<noteq> NUL) s"

definition strnlen :: "string \<Rightarrow> nat \<Rightarrow> nat" where
  "strnlen s n = length (cstr (take n s))"

definition char_at :: "string \<Rightarrow> char" where
  "char_at s = (case s of [] \<Rightarrow> NUL | c # _ \<Rightarrow> c)"

text \<open>The difference of the first two bytes that differ, 0 when there is none.\<close>

fun strncmp :: "string \<Rightarrow> string \<Rightarrow> nat \<Rightarrow> c_int" where
  "strncmp a b 0 = 0"
| "strncmp a b (Suc n) =
     (if char_at a \<noteq> char_at b then of_char (char_at a) - of_char (char_at b)
      else if char_at a = NUL then 0
      else strncmp (tl a) (tl b) n)"

text \<open>\<open>strncpy\<close> writes exactly \<open>n\<close> bytes: it pads with null bytes, and leaves the buffer
  unterminated when the source has \<open>n\<close> characters or more.\<close>

definition strncpy :: "string \<Rightarrow> string \<Rightarrow> nat \<Rightarrow> string" where
  "strncpy dst src n =
     (let s = cstr (take n src) in s @ replicate (n - length s) NUL @ drop n dst)"

text \<open>\<open>strncat\<close> appends at most \<open>n\<close> characters and always terminates.\<close>

definition strncat :: "string \<Rightarrow> string \<Rightarrow> nat \<Rightarrow> string" where
  "strncat dst src n =
     (let s = cstr dst @ cstr (take n src) in s @ [NUL] @ drop (Suc (length s)) dst)"

text \<open>\<open>snprintf\<close> of an already formatted text: at most \<open>n - 1\<close> characters, then the
  terminator; the rest of the buffer keeps its bytes.\<close>

definition snprintf :: "string \<Rightarrow> nat \<Rightarrow> string \<Rightarrow> string" where
  "snprintf buf n s =
     (if n = 0 then buf
      else (let t = take (n - 1) s in t @ [NUL] @ drop (Suc (length t)) buf))"

subsection \<open>Decimal numbers, as \<open>%d\<close> prints them\<close>

definition digit_char :: "nat \<Rightarrow> char" where
  "digit_char d = ''0123456789'' ! d"

fun dec_nat :: "nat \<Rightarrow> string" where
  "dec_nat n = (if n < 10 then [digit_char n] else dec_nat (n div 10) @ [digit_char (n mod 10)])"

declare dec_nat.simps [simp del]

definition dec_int :: "int \<Rightarrow> string" where
  "dec_int i = (if i < 0 then CHR ''-'' # dec_nat (nat (- i)) else dec_nat (nat i))"

subsection \<open>Facts\<close>

lemma cstr_Nil [simp]: "cstr [] = []"
  by (simp add: cstr_def)

lemma cstr_Cons [simp]: "cstr (c # s) = (if c = NUL then [] else c # cstr s)"
  by (simp add: cstr_def)

lemma cstr_no_NUL [simp]: "NUL \<notin> set (cstr s)"
  by (induction s) auto

lemma cstr_id: "NUL \<notin> set s \<Longrightarrow> cstr s = s"
  by (induction s) auto

lemma cstr_cstr [simp]: "cstr (cstr s) = cstr s"
  by (simp add: cstr_id)

lemma cstr_append: "NUL \<notin> set s \<Longrightarrow> cstr (s @ t) = s @ cstr t"
  by (induction s) auto

lemma cstr_terminated: "NUL \<notin> set s \<Longrightarrow> cstr (s @ NUL # t) = s"
  by (simp add: cstr_append)

lemma length_cstr_le: "length (cstr s) \<le> length s"
  by (simp add: cstr_def length_takeWhile_le)

lemma cstr_take: "cstr (take n s) = take n (cstr s)"
  by (induction s arbitrary: n) (auto simp: take_Cons split: nat.splits)

lemma set_take_cstr: "NUL \<notin> set (take n (cstr s))"
  using cstr_no_NUL [of s] set_take_subset [of n "cstr s"] by blast

lemma strnlen_le: "strnlen s n \<le> n"
  unfolding strnlen_def using length_cstr_le [of "take n s"] by simp

lemma strnlen_eq: "strnlen s n = min n (length (cstr s))"
  by (simp add: strnlen_def cstr_take)

lemma strnlen_pos_iff: "0 < strnlen s n \<longleftrightarrow> 0 < n \<and> cstr s \<noteq> []"
  by (auto simp: strnlen_eq)

text \<open>Two strings compare equal when what their first \<open>n\<close> bytes show is equal.\<close>

lemma strncmp_0_iff: "strncmp a b n = 0 \<longleftrightarrow> take n (cstr a) = take n (cstr b)"
proof (induction n arbitrary: a b)
  case 0
  then show ?case by simp
next
  case (Suc n)
  have char_diff: "of_char c - of_char d \<noteq> (0::int)" if "c \<noteq> d" for c d :: char
    using that by simp
  have char_0: "(of_char c = (0::int)) = (c = NUL)" for c :: char
    using of_char_eq_iff [where ?'a = int, of c NUL] by simp
  show ?case
    using Suc.IH [of "tl a" "tl b"] char_diff
    by (cases a; cases b) (auto simp: char_at_def char_0)
qed

lemma strncmp_refl [simp]: "strncmp a a n = 0"
  by (simp add: strncmp_0_iff)

lemma length_strncpy: "n \<le> length dst \<Longrightarrow> length (strncpy dst src n) = length dst"
proof -
  assume "n \<le> length dst"
  moreover have "length (cstr (take n src)) \<le> n"
    using strnlen_le [of src n] by (simp add: strnlen_def)
  ultimately show ?thesis by (simp add: strncpy_def Let_def)
qed

lemma take_strncpy: "take n (strncpy dst src n) = cstr (take n src) @ replicate (n - strnlen src n) NUL"
  using strnlen_le [of src n] by (simp add: strncpy_def Let_def strnlen_def)

text \<open>A source shorter than \<open>n\<close> is copied whole and terminated.\<close>

lemma cstr_strncpy: "length (cstr src) < n \<Longrightarrow> cstr (strncpy dst src n) = cstr src"
proof -
  assume n: "length (cstr src) < n"
  then have "n - length (cstr src) = Suc (n - Suc (length (cstr src)))" by simp
  with n show ?thesis
    by (simp add: strncpy_def Let_def cstr_take cstr_append)
qed

text \<open>A source of \<open>n\<close> characters or more is cut, and nothing terminates it.\<close>

lemma cstr_strncpy_long:
  "n \<le> length (cstr src) \<Longrightarrow> cstr (strncpy dst src n) = take n (cstr src) @ cstr (drop n dst)"
  by (simp add: strncpy_def Let_def cstr_take cstr_append set_take_cstr)

lemma length_strncat:
  "length (cstr dst) + min n (length (cstr src)) < length dst \<Longrightarrow>
     length (strncat dst src n) = length dst"
  by (simp add: strncat_def Let_def cstr_take min.commute)

lemma cstr_strncat: "cstr (strncat dst src n) = cstr dst @ take n (cstr src)"
  by (simp add: strncat_def Let_def cstr_take cstr_append set_take_cstr)

lemma length_snprintf: "n \<le> length buf \<Longrightarrow> length (snprintf buf n s) = length buf"
  by (auto simp: snprintf_def Let_def)

lemma cstr_snprintf: "0 < n \<Longrightarrow> NUL \<notin> set s \<Longrightarrow> cstr (snprintf buf n s) = take (n - 1) s"
proof -
  assume "0 < n" "NUL \<notin> set s"
  moreover from this(2) have "NUL \<notin> set (take (n - 1) s)" by (meson in_set_takeD)
  ultimately show ?thesis by (simp add: snprintf_def Let_def cstr_append)
qed

lemma digit_char_inj: "d < 10 \<Longrightarrow> e < 10 \<Longrightarrow> digit_char d = digit_char e \<Longrightarrow> d = e"
proof -
  assume "d < 10" "e < 10" "digit_char d = digit_char e"
  moreover have "distinct ''0123456789''" by simp
  ultimately show "d = e"
    unfolding digit_char_def by (subst (asm) nth_eq_iff_index_eq) simp_all
qed

lemma digit_char_neq:
  assumes "d < 10"
  shows "digit_char d \<noteq> CHR ''.''" "digit_char d \<noteq> CHR ''-''" "digit_char d \<noteq> NUL"
    "digit_char d \<noteq> CHR '',''"
proof -
  have "d \<in> {0, 1, 2, 3, 4, 5, 6, 7, 8, 9}" using assms by auto
  then show "digit_char d \<noteq> CHR ''.''" "digit_char d \<noteq> CHR ''-''" "digit_char d \<noteq> NUL"
    "digit_char d \<noteq> CHR '',''"
    by (auto simp: digit_char_def)
qed

lemma dec_nat_chars: "c \<in> set (dec_nat n) \<Longrightarrow> \<exists>d < 10. c = digit_char d"
proof (induction n rule: dec_nat.induct)
  case (1 n)
  show ?case
  proof (cases "n < 10")
    case True
    with "1.prems" show ?thesis by (auto simp: dec_nat.simps [of n])
  next
    case False
    with "1.prems" have "c \<in> set (dec_nat (n div 10)) \<or> c = digit_char (n mod 10)"
      by (auto simp: dec_nat.simps [of n])
    then show ?thesis using "1.IH" [OF False] by (metis mod_less_divisor zero_less_numeral)
  qed
qed

lemma dec_nat_nonempty [simp]: "dec_nat n \<noteq> []" "[] \<noteq> dec_nat n"
  by (subst dec_nat.simps, simp)+

lemma dec_nat_inj: "dec_nat m = dec_nat n \<Longrightarrow> m = n"
proof (induction m arbitrary: n rule: dec_nat.induct)
  case (1 m)
  show ?case
  proof (cases "m < 10 \<or> n < 10")
    case True
    with "1.prems" show ?thesis
      using digit_char_inj [of m n]
      by (auto simp: dec_nat.simps [of m] dec_nat.simps [of n] split: if_splits)
  next
    case False
    with "1.prems" have "dec_nat (m div 10) = dec_nat (n div 10)"
      and "digit_char (m mod 10) = digit_char (n mod 10)"
      by (simp_all add: dec_nat.simps [of m] dec_nat.simps [of n])
    with "1.IH" [of "n div 10"] False digit_char_inj [of "m mod 10" "n mod 10"]
    have "m div 10 = n div 10" "m mod 10 = n mod 10" by simp_all
    then show ?thesis by (metis div_mult_mod_eq)
  qed
qed

lemma dec_int_inj: "dec_int i = dec_int j \<Longrightarrow> i = j"
proof -
  assume eq: "dec_int i = dec_int j"
  have "CHR ''-'' \<notin> set (dec_nat n)" for n
    using dec_nat_chars [of "CHR ''-''" n] digit_char_neq(2) by metis
  then have sign: "(i < 0) = (j < 0)"
    using eq by (auto simp: dec_int_def split: if_splits) (metis list.set_intros(1))+
  with eq have "nat \<bar>i\<bar> = nat \<bar>j\<bar>"
    by (auto simp: dec_int_def split: if_splits dest!: dec_nat_inj)
  with sign show ?thesis by auto
qed

lemma dec_int_chars: "CHR ''.'' \<notin> set (dec_int i)" "NUL \<notin> set (dec_int i)"
proof -
  have "CHR ''.'' \<notin> set (dec_nat n)" "NUL \<notin> set (dec_nat n)" for n
    using dec_nat_chars [of _ n] digit_char_neq by metis+
  then show "CHR ''.'' \<notin> set (dec_int i)" "NUL \<notin> set (dec_int i)"
    by (auto simp: dec_int_def)
qed

end
