(* ===== verification/Common_Types.thy ===== *)
theory Common_Types
  imports C_Strings
begin

section \<open>Declarations shared by user space and kernel space\<close>

text \<open>
  The headers under \<^verbatim>\<open>common/include/cuddl\<close>: version codes, tokens, resource
  identifiers, the information structures returned to user space, the data structure of
  every IOCTL and the IOCTL commands themselves. A \<^verbatim>\<open>_priv\<close> structure embedded in
  another becomes the parent record that the outer one extends.
\<close>

subsection \<open>Constants and version codes (common_impl.h)\<close>

definition CUDDLCI_MAX_STR_LEN :: nat where "CUDDLCI_MAX_STR_LEN = 256"

definition CUDDLCI_VERSION :: "int \<Rightarrow> int \<Rightarrow> int \<Rightarrow> int" where
  "CUDDLCI_VERSION major minor revision =
     (push_bit 16 major OR push_bit 8 minor) OR revision"

definition CUDDLCI_MAJOR_VERSION_FROM_CODE :: "int \<Rightarrow> int" where
  "CUDDLCI_MAJOR_VERSION_FROM_CODE code = drop_bit 16 code"

definition CUDDLCI_MINOR_VERSION_FROM_CODE :: "int \<Rightarrow> int" where
  "CUDDLCI_MINOR_VERSION_FROM_CODE code = drop_bit 8 (code AND 0xffff)"

definition CUDDLCI_REVISION_LEVEL_FROM_CODE :: "int \<Rightarrow> int" where
  "CUDDLCI_REVISION_LEVEL_FROM_CODE code = code AND 0xff"

definition CUDDLCI_VERSION_MAJOR :: int where "CUDDLCI_VERSION_MAJOR = 1"
definition CUDDLCI_VERSION_MINOR :: int where "CUDDLCI_VERSION_MINOR = 0"
definition CUDDLCI_REVISION_LEVEL :: int where "CUDDLCI_REVISION_LEVEL = 0"

definition CUDDLK_VERSION_CODE :: int where
  "CUDDLK_VERSION_CODE =
     CUDDLCI_VERSION CUDDLCI_VERSION_MAJOR CUDDLCI_VERSION_MINOR CUDDLCI_REVISION_LEVEL"

definition CUDDL_VERSION_CODE :: int where
  "CUDDL_VERSION_CODE =
     CUDDLCI_VERSION CUDDLCI_VERSION_MAJOR CUDDLCI_VERSION_MINOR CUDDLCI_REVISION_LEVEL"

subsection \<open>Tokens and resource identifiers\<close>

record cuddlci_token =
  device_index :: c_int
  resource_index :: c_int

text \<open>The three names are arrays of \<open>CUDDLCI_MAX_STR_LEN\<close> characters.\<close>

record cuddl_resource_id =
  id_group :: string
  id_device :: string
  id_resource :: string
  id_instance :: c_int

subsection \<open>Flags\<close>

definition CUDDL_MEMF_SHARED :: c_int where "CUDDL_MEMF_SHARED = 1"
definition CUDDL_MEM_CLAIMF_HOSTILE :: c_int where "CUDDL_MEM_CLAIMF_HOSTILE = 1"
definition CUDDL_EVENTSRCF_SHARED :: c_int where "CUDDL_EVENTSRCF_SHARED = 1"
definition CUDDL_EVENTSRCF_WAITABLE :: c_int where "CUDDL_EVENTSRCF_WAITABLE = 2"
definition CUDDL_EVENTSRCF_HAS_DISABLE :: c_int where "CUDDL_EVENTSRCF_HAS_DISABLE = 4"
definition CUDDL_EVENTSRCF_HAS_ENABLE :: c_int where "CUDDL_EVENTSRCF_HAS_ENABLE = 8"
definition CUDDL_EVENTSRCF_HAS_IS_ENABLED :: c_int where "CUDDL_EVENTSRCF_HAS_IS_ENABLED = 16"
definition CUDDL_EVENTSRC_CLAIMF_HOSTILE :: c_int where "CUDDL_EVENTSRC_CLAIMF_HOSTILE = 1"

definition has_flag :: "c_int \<Rightarrow> c_int \<Rightarrow> bool" where
  "has_flag flags f \<longleftrightarrow> flags AND f \<noteq> 0"

subsection \<open>Information about a claimed resource\<close>

record cuddlci_memregion_info_priv =
  mi_pa_mmap_offset :: ulong
  mi_pa_len :: size_t
  mi_start_offset :: size_t
  mi_token :: cuddlci_token
  mi_device_name :: string

record cuddl_memregion_info = cuddlci_memregion_info_priv +
  mi_len :: size_t
  mi_flags :: c_int

record cuddlci_eventsrc_info_priv =
  ei_token :: cuddlci_token
  ei_device_name :: string

record cuddl_eventsrc_info = cuddlci_eventsrc_info_priv +
  ei_flags :: c_int

subsection \<open>IOCTL data (common_impl_linux_ioctl.h)\<close>

record cuddlci_void_ioctl_data =
  vd_version_code :: c_int

record cuddlci_memregion_claim_ioctl_data =
  mc_version_code :: c_int
  mc_id :: cuddl_resource_id
  mc_info :: cuddl_memregion_info
  mc_pid :: pid_t
  mc_options :: c_int

record cuddlci_eventsrc_claim_ioctl_data =
  ec_version_code :: c_int
  ec_id :: cuddl_resource_id
  ec_info :: cuddl_eventsrc_info
  ec_pid :: pid_t
  ec_options :: c_int

record cuddlci_memregion_release_ioctl_data =
  mrel_version_code :: c_int
  mrel_token :: cuddlci_token
  mrel_pid :: pid_t

record cuddlci_eventsrc_release_ioctl_data =
  erel_version_code :: c_int
  erel_token :: cuddlci_token
  erel_pid :: pid_t

record cuddlci_get_resource_id_ioctl_data =
  gi_version_code :: c_int
  gi_device_slot :: c_int
  gi_resource_slot :: c_int
  gi_id :: cuddl_resource_id

record cuddlci_ref_count_ioctl_data =
  rc_version_code :: c_int
  rc_id :: cuddl_resource_id

record cuddlci_janitor_pid_ioctl_data =
  jp_version_code :: c_int
  jp_pid :: pid_t

record cuddlci_get_kernel_commit_id_ioctl_data =
  ci_version_code :: c_int
  ci_id_str :: string

record cuddlci_get_driver_info_ioctl_data =
  di_version_code :: c_int
  di_device_slot :: c_int
  di_info_str :: string

record cuddlci_eventsrc_is_enabled_ioctl_data =
  ie_version_code :: c_int
  ie_token :: cuddlci_token

text \<open>
  The buffer behind an IOCTL's argument: one of the structures above. The user fills it,
  the kernel copies it in as the structure the command names, and copies a result back.
\<close>

datatype ioctl_payload =
    Void_Data cuddlci_void_ioctl_data
  | Mem_Claim_Data cuddlci_memregion_claim_ioctl_data
  | Event_Claim_Data cuddlci_eventsrc_claim_ioctl_data
  | Mem_Release_Data cuddlci_memregion_release_ioctl_data
  | Event_Release_Data cuddlci_eventsrc_release_ioctl_data
  | Get_Id_Data cuddlci_get_resource_id_ioctl_data
  | Ref_Count_Data cuddlci_ref_count_ioctl_data
  | Janitor_Pid_Data cuddlci_janitor_pid_ioctl_data
  | Commit_Id_Data cuddlci_get_kernel_commit_id_ioctl_data
  | Driver_Info_Data cuddlci_get_driver_info_ioctl_data
  | Is_Enabled_Data cuddlci_eventsrc_is_enabled_ioctl_data

subsection \<open>IOCTL commands\<close>

datatype ioctl_cmd =
    CUDDLCI_MEMREGION_CLAIM_UIO_IOCTL
  | CUDDLCI_MEMREGION_CLAIM_UDD_IOCTL
  | CUDDLCI_EVENTSRC_CLAIM_UIO_IOCTL
  | CUDDLCI_EVENTSRC_CLAIM_UDD_IOCTL
  | CUDDLCI_MEMREGION_RELEASE_UIO_IOCTL
  | CUDDLCI_MEMREGION_RELEASE_UDD_IOCTL
  | CUDDLCI_EVENTSRC_RELEASE_UIO_IOCTL
  | CUDDLCI_EVENTSRC_RELEASE_UDD_IOCTL
  | CUDDLCI_GET_MAX_MANAGED_DEVICES_IOCTL
  | CUDDLCI_GET_MAX_DEV_MEM_REGIONS_IOCTL
  | CUDDLCI_GET_MAX_DEV_EVENTS_IOCTL
  | CUDDLCI_GET_MEMREGION_ID_IOCTL
  | CUDDLCI_GET_EVENTSRC_ID_IOCTL
  | CUDDLCI_GET_MEMREGION_INFO_IOCTL
  | CUDDLCI_GET_EVENTSRC_INFO_IOCTL
  | CUDDLCI_GET_MEMREGION_REF_COUNT_IOCTL
  | CUDDLCI_GET_EVENTSRC_REF_COUNT_IOCTL
  | CUDDLCI_DECREMENT_MEMREGION_REF_COUNT_IOCTL
  | CUDDLCI_DECREMENT_EVENTSRC_REF_COUNT_IOCTL
  | CUDDLCI_JANITOR_REGISTER_PID_IOCTL
  | CUDDLCI_GET_KERNEL_COMMIT_ID_IOCTL
  | CUDDLCI_GET_DRIVER_INFO_IOCTL
  | CUDDLCI_GET_HW_INFO_IOCTL
  | CUDDLCI_GET_KERNEL_VERSION_CODE_IOCTL
  | CUDDLCI_GET_KERNEL_VARIANT_IOCTL
  | CUDDLCI_EVENTSRC_IS_ENABLED_IOCTL
  | UNKNOWN_IOCTL "32 word"

text \<open>
  The sequence number of each command, the third argument of \<^verbatim>\<open>_IOWR\<close> and
  \<^verbatim>\<open>_IOW\<close>. The encoding of direction, size and number into one word is a Linux
  macro and stays outside the model; the numbers alone keep the cases of the switch apart.
\<close>

fun ioctl_nr :: "ioctl_cmd \<Rightarrow> nat option" where
  "ioctl_nr CUDDLCI_MEMREGION_CLAIM_UIO_IOCTL = Some 2"
| "ioctl_nr CUDDLCI_MEMREGION_CLAIM_UDD_IOCTL = Some 3"
| "ioctl_nr CUDDLCI_EVENTSRC_CLAIM_UIO_IOCTL = Some 4"
| "ioctl_nr CUDDLCI_EVENTSRC_CLAIM_UDD_IOCTL = Some 5"
| "ioctl_nr CUDDLCI_MEMREGION_RELEASE_UIO_IOCTL = Some 6"
| "ioctl_nr CUDDLCI_MEMREGION_RELEASE_UDD_IOCTL = Some 7"
| "ioctl_nr CUDDLCI_EVENTSRC_RELEASE_UIO_IOCTL = Some 8"
| "ioctl_nr CUDDLCI_EVENTSRC_RELEASE_UDD_IOCTL = Some 9"
| "ioctl_nr CUDDLCI_GET_MAX_MANAGED_DEVICES_IOCTL = Some 10"
| "ioctl_nr CUDDLCI_GET_MAX_DEV_MEM_REGIONS_IOCTL = Some 11"
| "ioctl_nr CUDDLCI_GET_MAX_DEV_EVENTS_IOCTL = Some 12"
| "ioctl_nr CUDDLCI_GET_MEMREGION_ID_IOCTL = Some 13"
| "ioctl_nr CUDDLCI_GET_EVENTSRC_ID_IOCTL = Some 14"
| "ioctl_nr CUDDLCI_GET_MEMREGION_INFO_IOCTL = Some 15"
| "ioctl_nr CUDDLCI_GET_EVENTSRC_INFO_IOCTL = Some 16"
| "ioctl_nr CUDDLCI_GET_MEMREGION_REF_COUNT_IOCTL = Some 17"
| "ioctl_nr CUDDLCI_GET_EVENTSRC_REF_COUNT_IOCTL = Some 18"
| "ioctl_nr CUDDLCI_DECREMENT_MEMREGION_REF_COUNT_IOCTL = Some 19"
| "ioctl_nr CUDDLCI_DECREMENT_EVENTSRC_REF_COUNT_IOCTL = Some 20"
| "ioctl_nr CUDDLCI_JANITOR_REGISTER_PID_IOCTL = Some 21"
| "ioctl_nr CUDDLCI_GET_KERNEL_COMMIT_ID_IOCTL = Some 22"
| "ioctl_nr CUDDLCI_GET_DRIVER_INFO_IOCTL = Some 23"
| "ioctl_nr CUDDLCI_GET_HW_INFO_IOCTL = Some 24"
| "ioctl_nr CUDDLCI_GET_KERNEL_VERSION_CODE_IOCTL = Some 25"
| "ioctl_nr CUDDLCI_GET_KERNEL_VARIANT_IOCTL = Some 26"
| "ioctl_nr CUDDLCI_EVENTSRC_IS_ENABLED_IOCTL = Some 27"
| "ioctl_nr (UNKNOWN_IOCTL _) = None"

lemma ioctl_nr_inj:
  assumes "ioctl_nr c = Some n" "ioctl_nr d = Some n"
  shows "c = d"
  using assms by (cases c; cases d) simp_all

subsection \<open>Facts about versions and flags\<close>

lemma CUDDLK_VERSION_CODE_eq: "CUDDLK_VERSION_CODE = 65536"
  by (simp add: CUDDLK_VERSION_CODE_def CUDDLCI_VERSION_def CUDDLCI_VERSION_MAJOR_def
      CUDDLCI_VERSION_MINOR_def CUDDLCI_REVISION_LEVEL_def)

lemma CUDDL_VERSION_CODE_eq: "CUDDL_VERSION_CODE = 65536"
  using CUDDLK_VERSION_CODE_eq by (simp add: CUDDLK_VERSION_CODE_def CUDDL_VERSION_CODE_def)

lemma CUDDLCI_VERSION_sum:
  assumes "0 \<le> minor" "minor < 256" "0 \<le> revision" "revision < 256"
  shows "CUDDLCI_VERSION major minor revision = 65536 * major + 256 * minor + revision"
proof -
  have bits: "n < 8" if "bit minor n \<or> bit revision n" for n
    using that assms bit_int_less [of minor 8 n] bit_int_less [of revision 8 n] by auto
  have "push_bit 16 major OR push_bit 8 minor = push_bit 16 major + push_bit 8 minor"
  proof (rule disjunctive_add [symmetric])
    fix n
    show "\<not> bit (push_bit 16 major) n \<or> \<not> bit (push_bit 8 minor) n"
      using bits [of "n - 8"] by (auto simp: bit_push_bit_iff)
  qed
  moreover have "(push_bit 16 major + push_bit 8 minor) OR revision =
      push_bit 16 major + push_bit 8 minor + revision"
  proof (rule disjunctive_add [symmetric])
    fix n
    have "push_bit 16 major + push_bit 8 minor = push_bit 8 (push_bit 8 major + minor)"
      by (simp add: push_bit_eq_mult)
    then show "\<not> bit (push_bit 16 major + push_bit 8 minor) n \<or> \<not> bit revision n"
      using bits [of n] by (auto simp: bit_push_bit_iff)
  qed
  ultimately show ?thesis by (simp add: CUDDLCI_VERSION_def push_bit_eq_mult mult.commute)
qed

end
