(* ===== verification/Kernel_Types.thy ===== *)
theory Kernel_Types
  imports Common_Types
begin

section \<open>Data structures of the kernel modules\<close>

text \<open>
  The headers under \<^verbatim>\<open>kernel/include/cuddlk\<close> and
  \<^verbatim>\<open>kernel/linux/include/cuddlk/impl_linux.h\<close>: memory regions, interrupts, event
  sources, devices, the manager, and the part of the Linux UIO and Xenomai UDD structures
  that the code writes. Function pointers that a driver supplies are addresses
  (\<open>fptr\<close>); what the driver's function does is a parameter where the code calls it.
  Devices live in a heap, because the manager's table, the drivers and the UIO layer
  share them by pointer.
\<close>

type_synonym dptr = nat   \<comment> \<open>\<^verbatim>\<open>struct cuddlk_device *\<close>, not null\<close>
type_synonym fptr = nat   \<comment> \<open>address of a driver's function, not null\<close>

definition CUDDLK_MAX_STR_LEN :: nat where "CUDDLK_MAX_STR_LEN = CUDDLCI_MAX_STR_LEN"
definition CUDDLK_MAX_DEV_MEM_REGIONS :: nat where "CUDDLK_MAX_DEV_MEM_REGIONS = 5"
definition CUDDLK_MAX_DEV_EVENTS :: nat where "CUDDLK_MAX_DEV_EVENTS = 1"
definition CUDDLK_MAX_MANAGED_DEVICES :: nat where "CUDDLK_MAX_MANAGED_DEVICES = 256"

datatype cuddlk_resource =
    CUDDLK_RESOURCE_UNSPECIFIED
  | CUDDLK_RESOURCE_MEMREGION
  | CUDDLK_RESOURCE_EVENTSRC

definition CUDDLK_MEMF_SHARED :: c_int where "CUDDLK_MEMF_SHARED = 1"
definition CUDDLK_EVENTSRCF_SHARED :: c_int where "CUDDLK_EVENTSRCF_SHARED = 1"
definition CUDDLK_IRQF_SHARED :: c_int where "CUDDLK_IRQF_SHARED = 1"

subsection \<open>What the build and the platform fix\<close>

text \<open>
  \<open>use_udd\<close> is \<^verbatim>\<open>CUDDLK_USE_UDD\<close>; the other fields are the platform's values
  behind the \<^verbatim>\<open>CUDDLK_*\<close> and \<^verbatim>\<open>CUDDLKI_*\<close> macros, and the strings that the
  build passes in.
\<close>

record kcfg =
  use_udd :: bool
  page_size :: ulong
  max_uio_maps :: nat
  udd_nr_maps :: nat
  memt_none :: c_int
  memt_phys :: c_int
  memt_logical :: c_int
  memt_virtual :: c_int
  udd_mem_none :: c_int
  udd_mem_phys :: c_int
  udd_mem_logical :: c_int
  udd_mem_virtual :: c_int
  irq_none :: c_int
  irq_custom :: c_int
  uio_irq_custom :: c_int
  udd_irq_custom :: c_int
  ret_intr_handled :: c_int
  linux_irqf_shared :: ulong
  this_module :: nat
  commit_hash :: string
  repo_is_dirty :: bool

definition CUDDLK_VARIANT :: "kcfg \<Rightarrow> string" where
  "CUDDLK_VARIANT cfg = (if use_udd cfg then ''Xenomai UDD'' else ''Linux UIO'')"

subsection \<open>UIO and UDD structures\<close>

text \<open>The functions that registration installs as callbacks.\<close>

datatype cuddlk_callback =
    Cb_uio_interrupt_handler
  | Cb_uio_eventsrc_or_mem_open
  | Cb_uio_eventsrc_or_mem_close
  | Cb_uio_eventsrc_or_mem_irqcontrol
  | Cb_udd_interrupt_handler
  | Cb_udd_eventsrc_open
  | Cb_udd_eventsrc_close
  | Cb_udd_eventsrc_ioctl

record uio_mem =
  um_name :: "string option"
  um_addr :: ulong
  um_offs :: ulong
  um_size :: ulong
  um_memtype :: c_int

record uio_device =
  uiod_minor :: c_int
  uiod_owner :: "nat option"

record uio_info =
  uio_name :: bool              \<comment> \<open>points to the device's \<^verbatim>\<open>priv.unique_name\<close>\<close>
  uio_version :: string
  uio_maps :: "uio_mem list"
  uio_irq :: c_int
  uio_irq_flags :: ulong
  uio_handler :: "cuddlk_callback option"
  uio_open :: "cuddlk_callback option"
  uio_release :: "cuddlk_callback option"
  uio_irqcontrol :: "cuddlk_callback option"
  uio_dev :: "uio_device kptr"

record udd_memregion =
  ux_name :: "string option"
  ux_addr :: ulong
  ux_len :: size_t
  ux_type :: c_int

record udd_device =
  udd_device_name :: bool       \<comment> \<open>points to the device's \<^verbatim>\<open>priv.unique_name\<close>\<close>
  udd_named :: bool
  udd_mem_regions :: "udd_memregion list"
  udd_irq :: c_int
  udd_interrupt :: "cuddlk_callback option"
  udd_open :: "cuddlk_callback option"
  udd_close :: "cuddlk_callback option"
  udd_ioctl :: "cuddlk_callback option"
  udd_registered :: bool

subsection \<open>Memory regions, event sources and devices\<close>

record cuddlk_memregion =
  mr_name :: "string option"
  mr_pa_addr :: ulong
  mr_pa_len :: size_t
  mr_start_offset :: size_t
  mr_len :: size_t
  mr_type :: c_int
  mr_flags :: c_int
  mr_ref_count :: c_int
  mr_uio_ptr :: "dptr option"   \<comment> \<open>the device whose \<^verbatim>\<open>priv.uio\<close> it points to\<close>

record cuddlk_interrupt =
  intr_handler :: "fptr option"
  intr_disable :: "fptr option"
  intr_enable :: "fptr option"
  intr_is_enabled :: "fptr option"
  intr_irq :: c_int
  intr_flags :: c_int

record cuddlk_eventsrc =
  ev_name :: "string option"
  ev_flags :: c_int
  ev_intr :: cuddlk_interrupt
  ev_ref_count :: c_int
  ev_uio_open_count :: c_int
  ev_udd_open_count :: c_int
  ev_uio_ptr :: "dptr option"
  ev_udd_ptr :: "dptr option"
  ev_nrt_sig :: bool            \<comment> \<open>\<^verbatim>\<open>nrt_sig\<close> is initialised\<close>

record cuddlk_device =
  d_group :: "string option"
  d_name :: "string option"
  d_driver_info :: "string option"
  d_hw_info :: "string option"
  d_instance :: c_int
  d_mem :: "cuddlk_memregion list"
  d_events :: "cuddlk_eventsrc list"
  d_parent_device_ptr :: "nat option"
  d_owner_ptr :: "nat option"
  d_unique_name :: "string kptr"
  d_uio :: uio_info
  d_udd :: udd_device

subsection \<open>The manager and the global state\<close>

text \<open>\<open>global_mutex\<close> is \<open>True\<close> while the mutex is held.\<close>

record cuddlk_manager =
  devices :: "dptr option list"
  global_mutex :: bool

record cuddlk_resource_ref =
  ref_token :: cuddlci_token
  ref_pid :: pid_t

text \<open>
  The globals of the two modules: the heap of devices, the manager, the two lists of
  references kept for clean-up, the use count of every kernel module, and the parent
  device that registration falls back to.
\<close>

record kstate =
  k_heap :: "dptr \<rightharpoonup> cuddlk_device"
  cuddlk_global_manager :: cuddlk_manager
  cuddlk_mem_refs :: "cuddlk_resource_ref list"
  cuddlk_event_refs :: "cuddlk_resource_ref list"
  k_modrefs :: "nat \<Rightarrow> c_int"
  cuddlk_manager_device :: "nat option"

abbreviation k_table :: "kstate \<Rightarrow> dptr option list" where
  "k_table st \<equiv> devices (cuddlk_global_manager st)"

abbreviation k_locked :: "kstate \<Rightarrow> bool" where
  "k_locked st \<equiv> global_mutex (cuddlk_global_manager st)"

definition set_dev :: "dptr \<Rightarrow> cuddlk_device \<Rightarrow> kstate \<Rightarrow> kstate" where
  "set_dev p d st = st\<lparr>k_heap := (k_heap st)(p \<mapsto> d)\<rparr>"

lemma set_dev_simps [simp]:
  "k_heap (set_dev p d st) = (k_heap st)(p \<mapsto> d)"
  "cuddlk_global_manager (set_dev p d st) = cuddlk_global_manager st"
  "cuddlk_mem_refs (set_dev p d st) = cuddlk_mem_refs st"
  "cuddlk_event_refs (set_dev p d st) = cuddlk_event_refs st"
  "k_modrefs (set_dev p d st) = k_modrefs st"
  "cuddlk_manager_device (set_dev p d st) = cuddlk_manager_device st"
  by (simp_all add: set_dev_def)

subsection \<open>Zero-initialised structures, as \<^verbatim>\<open>kzalloc\<close> returns them\<close>

definition zero_memregion :: cuddlk_memregion where
  "zero_memregion = \<lparr>mr_name = None, mr_pa_addr = 0, mr_pa_len = 0, mr_start_offset = 0,
     mr_len = 0, mr_type = 0, mr_flags = 0, mr_ref_count = 0, mr_uio_ptr = None\<rparr>"

definition zero_eventsrc :: cuddlk_eventsrc where
  "zero_eventsrc = \<lparr>ev_name = None, ev_flags = 0,
     ev_intr = \<lparr>intr_handler = None, intr_disable = None, intr_enable = None,
       intr_is_enabled = None, intr_irq = 0, intr_flags = 0\<rparr>,
     ev_ref_count = 0, ev_uio_open_count = 0, ev_udd_open_count = 0,
     ev_uio_ptr = None, ev_udd_ptr = None, ev_nrt_sig = False\<rparr>"

definition zero_uio :: "nat \<Rightarrow> uio_info" where
  "zero_uio maps = \<lparr>uio_name = False, uio_version = [],
     uio_maps = replicate maps \<lparr>um_name = None, um_addr = 0, um_offs = 0, um_size = 0, um_memtype = 0\<rparr>,
     uio_irq = 0, uio_irq_flags = 0, uio_handler = None, uio_open = None, uio_release = None,
     uio_irqcontrol = None, uio_dev = Null\<rparr>"

definition zero_udd :: "nat \<Rightarrow> udd_device" where
  "zero_udd maps = \<lparr>udd_device_name = False, udd_named = False,
     udd_mem_regions = replicate maps \<lparr>ux_name = None, ux_addr = 0, ux_len = 0, ux_type = 0\<rparr>,
     udd_irq = 0, udd_interrupt = None, udd_open = None, udd_close = None, udd_ioctl = None,
     udd_registered = False\<rparr>"

definition zero_device :: "nat \<Rightarrow> nat \<Rightarrow> cuddlk_device" where
  "zero_device umaps xmaps = \<lparr>d_group = None, d_name = None, d_driver_info = None, d_hw_info = None,
     d_instance = 0, d_mem = replicate CUDDLK_MAX_DEV_MEM_REGIONS zero_memregion,
     d_events = replicate CUDDLK_MAX_DEV_EVENTS zero_eventsrc,
     d_parent_device_ptr = None, d_owner_ptr = None, d_unique_name = Null,
     d_uio = zero_uio umaps, d_udd = zero_udd xmaps\<rparr>"

definition zero_manager :: cuddlk_manager where
  "zero_manager = \<lparr>devices = replicate CUDDLK_MAX_MANAGED_DEVICES None, global_mutex = False\<rparr>"

end
