(* ===== verification/Kernel_Common.thy ===== *)
theory Kernel_Common
  imports Kernel_Types
begin

section \<open>Code common to all kernel implementations (cuddlk_common.c)\<close>

text \<open>
  The commit identifier and the two searches for a resource of a device by name. The
  searches are equal to \<open>find\<close> over the slots with the predicate \<open>name_matches\<close>,
  which is what a name pattern is documented to mean: a null or empty pattern matches
  everything, any other pattern matches the names that agree with it in the first
  \<open>CUDDLK_MAX_STR_LEN\<close> characters.
\<close>

subsection \<open>The commit identifier\<close>

definition cuddlk_get_commit_id :: "kcfg \<Rightarrow> string \<Rightarrow> size_t \<Rightarrow> c_int \<times> string" where
  "cuddlk_get_commit_id cfg id_str id_len =
     (let buf0 = (if id_len > 0 then id_str[0 := NUL] else id_str);
          remaining_space = int_of_size (id_len - 1)
      in if remaining_space \<le> 0 then (0, buf0)
         else
           let buf1 = strncat buf0 (commit_hash cfg) (nat remaining_space);
               remaining_space' = int_of_size (id_len - of_nat (strnlen buf1 (unat id_len)) - 1)
           in if remaining_space' \<le> 0 then (0, buf1)
              else if repo_is_dirty cfg
                   then (0, strncat buf1 ''(M)'' (nat remaining_space'))
                   else (0, strncat buf1 [] (nat remaining_space')))"

subsection \<open>Finding a resource by name\<close>

text \<open>
  \<^verbatim>\<open>name && (strnlen(name, CUDDLK_MAX_STR_LEN) > 0)\<close>, and the comparison it guards.
  The comparison follows the field's pointer, so it is undefined on a null field.
\<close>

definition name_given :: "string option \<Rightarrow> bool" where
  "name_given name = (case name of None \<Rightarrow> False | Some s \<Rightarrow> 0 < strnlen s CUDDLK_MAX_STR_LEN)"

definition field_differs :: "string option \<Rightarrow> string option \<Rightarrow> bool option" where
  "field_differs field name =
     (case name of None \<Rightarrow> Some False
      | Some s \<Rightarrow>
          if name_given name then
            (case field of None \<Rightarrow> None
             | Some f \<Rightarrow> Some (strncmp f s CUDDLK_MAX_STR_LEN \<noteq> 0))
          else Some False)"

definition cuddlk_device_find_memregion_slot :: "cuddlk_device \<Rightarrow> string option \<Rightarrow> c_int option" where
  "cuddlk_device_find_memregion_slot dev name = do {
     found \<leftarrow> for_first (\<lambda>i. do {
         mem \<leftarrow> arr_get (d_mem dev) (int i);
         if mr_name mem = None then Some False
         else do {
           differs \<leftarrow> field_differs (mr_name mem) name;
           Some (\<not> differs)
         }
       }) [0..<CUDDLK_MAX_DEV_MEM_REGIONS];
     Some (case found of None \<Rightarrow> - ENXIO | Some i \<Rightarrow> int i)
   }"

definition cuddlk_device_find_eventsrc_slot :: "cuddlk_device \<Rightarrow> string option \<Rightarrow> c_int option" where
  "cuddlk_device_find_eventsrc_slot dev name = do {
     found \<leftarrow> for_first (\<lambda>i. do {
         eventsrc \<leftarrow> arr_get (d_events dev) (int i);
         if ev_name eventsrc = None then Some False
         else do {
           differs \<leftarrow> field_differs (ev_name eventsrc) name;
           Some (\<not> differs)
         }
       }) [0..<CUDDLK_MAX_DEV_EVENTS];
     Some (case found of None \<Rightarrow> - ENXIO | Some i \<Rightarrow> int i)
   }"

subsection \<open>What a name pattern means\<close>

definition name_matches :: "string option \<Rightarrow> string option \<Rightarrow> bool" where
  "name_matches pat field \<longleftrightarrow>
     (case pat of None \<Rightarrow> True
      | Some s \<Rightarrow> cstr s = [] \<or>
          (\<exists>f. field = Some f \<and>
             take CUDDLK_MAX_STR_LEN (cstr f) = take CUDDLK_MAX_STR_LEN (cstr s)))"

definition slot_or_enxio :: "nat option \<Rightarrow> c_int" where
  "slot_or_enxio r = (case r of None \<Rightarrow> - ENXIO | Some i \<Rightarrow> int i)"

lemma slot_or_enxio_simps [simp]:
  "slot_or_enxio None = - ENXIO" "slot_or_enxio (Some i) = int i"
  by (simp_all add: slot_or_enxio_def)

lemma slot_or_enxio_neg_iff [simp]: "slot_or_enxio r < 0 \<longleftrightarrow> r = None"
  by (simp add: slot_or_enxio_def split: option.splits)

lemma name_given_iff: "name_given (Some s) \<longleftrightarrow> cstr s \<noteq> []"
  by (simp add: name_given_def strnlen_pos_iff CUDDLK_MAX_STR_LEN_def CUDDLCI_MAX_STR_LEN_def)

lemma name_given_None [simp]: "\<not> name_given None"
  by (simp add: name_given_def)

lemma field_differs_Some:
  "field = Some f \<Longrightarrow> field_differs field pat = Some (\<not> name_matches pat field)"
  by (cases pat)
    (auto simp: field_differs_def name_matches_def name_given_iff strncmp_0_iff)

lemma name_matches_any [simp]: "name_matches None f" "name_matches (Some []) f"
  by (simp_all add: name_matches_def)

lemma name_matches_refl [simp]: "name_matches f f"
  by (cases f) (auto simp: name_matches_def)

lemma not_name_given_matches: "\<not> name_given pat \<Longrightarrow> name_matches pat f"
  by (cases pat) (auto simp: name_given_iff name_matches_def)

text \<open>
  The two searches are the same search over another array: the shared lemma below takes
  the array and the name of an entry as parameters.
\<close>

lemma find_named_slot:
  assumes "n = length xs"
  shows "for_first (\<lambda>i. do {
           x \<leftarrow> arr_get xs (int i);
           if nm x = None then Some False
           else do { differs \<leftarrow> field_differs (nm x) pat; Some (\<not> differs) }
         }) [0..<n]
       = Some (List.find (\<lambda>i. nm (xs ! i) \<noteq> None \<and> name_matches pat (nm (xs ! i))) [0..<n])"
proof (rule for_first_defined)
  fix i
  assume "i \<in> set [0..<n]"
  with assms have i: "i < length xs" by simp
  show "do {
           x \<leftarrow> arr_get xs (int i);
           if nm x = None then Some False
           else do { differs \<leftarrow> field_differs (nm x) pat; Some (\<not> differs) }
         } = Some (nm (xs ! i) \<noteq> None \<and> name_matches pat (nm (xs ! i)))"
    using i by (cases "nm (xs ! i)") (simp_all add: field_differs_Some)
qed

definition memregion_slot :: "cuddlk_device \<Rightarrow> string option \<Rightarrow> nat option" where
  "memregion_slot dev pat =
     List.find (\<lambda>i. mr_name (d_mem dev ! i) \<noteq> None \<and> name_matches pat (mr_name (d_mem dev ! i)))
       [0..<CUDDLK_MAX_DEV_MEM_REGIONS]"

definition eventsrc_slot :: "cuddlk_device \<Rightarrow> string option \<Rightarrow> nat option" where
  "eventsrc_slot dev pat =
     List.find (\<lambda>i. ev_name (d_events dev ! i) \<noteq> None \<and> name_matches pat (ev_name (d_events dev ! i)))
       [0..<CUDDLK_MAX_DEV_EVENTS]"

lemma find_memregion_slot_eq:
  "length (d_mem dev) = CUDDLK_MAX_DEV_MEM_REGIONS \<Longrightarrow>
     cuddlk_device_find_memregion_slot dev pat = Some (slot_or_enxio (memregion_slot dev pat))"
  unfolding cuddlk_device_find_memregion_slot_def memregion_slot_def slot_or_enxio_def
  by (subst find_named_slot [where nm = mr_name]) simp_all

lemma find_eventsrc_slot_eq:
  "length (d_events dev) = CUDDLK_MAX_DEV_EVENTS \<Longrightarrow>
     cuddlk_device_find_eventsrc_slot dev pat = Some (slot_or_enxio (eventsrc_slot dev pat))"
  unfolding cuddlk_device_find_eventsrc_slot_def eventsrc_slot_def slot_or_enxio_def
  by (subst find_named_slot [where nm = ev_name]) simp_all

lemma memregion_slot_SomeD:
  "memregion_slot dev pat = Some i \<Longrightarrow>
     i < CUDDLK_MAX_DEV_MEM_REGIONS \<and> mr_name (d_mem dev ! i) \<noteq> None \<and>
     name_matches pat (mr_name (d_mem dev ! i)) \<and>
     (\<forall>j < i. \<not> (mr_name (d_mem dev ! j) \<noteq> None \<and> name_matches pat (mr_name (d_mem dev ! j))))"
  unfolding memregion_slot_def by (drule find_upt_SomeD) blast

lemma eventsrc_slot_SomeD:
  "eventsrc_slot dev pat = Some i \<Longrightarrow>
     i < CUDDLK_MAX_DEV_EVENTS \<and> ev_name (d_events dev ! i) \<noteq> None \<and>
     name_matches pat (ev_name (d_events dev ! i)) \<and>
     (\<forall>j < i. \<not> (ev_name (d_events dev ! j) \<noteq> None \<and> name_matches pat (ev_name (d_events dev ! j))))"
  unfolding eventsrc_slot_def by (drule find_upt_SomeD) blast

end
