(* ===== verification/Manager_Table.thy ===== *)
theory Manager_Table
  imports Kernel_Common
begin

section \<open>The manager's table of devices (cuddlk_manager_common.c)\<close>

text \<open>
  The searches of the table, the choice of an instance number, and adding and removing a
  device. The functions work on the global manager and read the devices through the heap.
\<close>

subsection \<open>Searching the table\<close>

text \<open>The body of the search loop: \<open>True\<close> where the code reaches its \<^verbatim>\<open>break\<close>.\<close>

definition device_slot_matches ::
  "kstate \<Rightarrow> string option \<Rightarrow> string option \<Rightarrow> string option \<Rightarrow> c_int \<Rightarrow> cuddlk_resource
     \<Rightarrow> nat \<Rightarrow> bool option" where
  "device_slot_matches st grp name resource instance_id type i = do {
     entry \<leftarrow> arr_get (k_table st) (int i);
     case entry of None \<Rightarrow> Some False
     | Some p \<Rightarrow> do {
         dev \<leftarrow> k_heap st p;
         if instance_id \<noteq> 0 \<and> d_instance dev \<noteq> instance_id then Some False
         else do {
           group_differs \<leftarrow> field_differs (d_group dev) grp;
           if group_differs then Some False
           else do {
             name_differs \<leftarrow> field_differs (d_name dev) name;
             if name_differs then Some False
             else if name_given resource then
               (case type of
                  CUDDLK_RESOURCE_MEMREGION \<Rightarrow> do {
                    slot \<leftarrow> cuddlk_device_find_memregion_slot dev resource;
                    Some (\<not> slot < 0)
                  }
                | CUDDLK_RESOURCE_EVENTSRC \<Rightarrow> do {
                    slot \<leftarrow> cuddlk_device_find_eventsrc_slot dev resource;
                    Some (\<not> slot < 0)
                  }
                | CUDDLK_RESOURCE_UNSPECIFIED \<Rightarrow> Some False)
             else Some True
           }
         }
       }
   }"

definition cuddlk_manager_find_device_slot_matching ::
  "kstate \<Rightarrow> string option \<Rightarrow> string option \<Rightarrow> string option \<Rightarrow> c_int \<Rightarrow> cuddlk_resource
     \<Rightarrow> c_int \<Rightarrow> c_int option" where
  "cuddlk_manager_find_device_slot_matching st grp name resource instance_id type start_index =
     (if start_index < 0 then None
      else do {
        found \<leftarrow> for_first (device_slot_matches st grp name resource instance_id type)
          [nat start_index..<CUDDLK_MAX_MANAGED_DEVICES];
        Some (case found of None \<Rightarrow> - ENXIO | Some i \<Rightarrow> int i)
      })"

definition cuddlk_manager_find_device_slot :: "kstate \<Rightarrow> dptr option \<Rightarrow> c_int option" where
  "cuddlk_manager_find_device_slot st dev = do {
     found \<leftarrow> for_first (\<lambda>i. do {
         entry \<leftarrow> arr_get (k_table st) (int i);
         Some (entry = dev)
       }) [0..<CUDDLK_MAX_MANAGED_DEVICES];
     Some (case found of None \<Rightarrow> - ENXIO | Some i \<Rightarrow> int i)
   }"

definition cuddlk_manager_find_empty_slot :: "kstate \<Rightarrow> c_int option" where
  "cuddlk_manager_find_empty_slot st = cuddlk_manager_find_device_slot st None"

lemma find_matching_range:
  assumes "cuddlk_manager_find_device_slot_matching st g n r k t start = Some s" "0 \<le> s"
  shows "start \<le> s \<and> s < int CUDDLK_MAX_MANAGED_DEVICES"
  using assms unfolding cuddlk_manager_find_device_slot_matching_def
  by (auto split: if_splits option.splits simp: bind_eq_Some_conv nat_le_iff dest!: for_first_SomeD)

subsection \<open>The next instance number\<close>

text \<open>
  The \<^verbatim>\<open>while (1)\<close> loop: each round continues behind the slot that the last one
  found, so the distance to the end of the table shrinks.
\<close>

function next_instance_loop :: "kstate \<Rightarrow> cuddlk_device \<Rightarrow> c_int \<Rightarrow> c_int \<Rightarrow> c_int option" where
  "next_instance_loop st dev slot instance_id =
     (case cuddlk_manager_find_device_slot_matching st (d_group dev) (d_name dev) None
             instance_id CUDDLK_RESOURCE_UNSPECIFIED slot of
        None \<Rightarrow> None
      | Some slot' \<Rightarrow>
          if slot' < 0 then Some instance_id
          else if slot' < int CUDDLK_MAX_MANAGED_DEVICES - 1
               then next_instance_loop st dev (slot' + 1) (instance_id + 1)
               else Some (- ENOMEM))"
  by pat_completeness auto
termination
proof (relation "measure (\<lambda>(st, dev, slot, instance_id). nat (int CUDDLK_MAX_MANAGED_DEVICES - slot))", goal_cases)
  case 1
  then show ?case by simp
next
  case (2 st dev slot instance_id slot')
  then have "slot \<le> slot'"
    using find_matching_range [of st "d_group dev" "d_name dev" None instance_id
        CUDDLK_RESOURCE_UNSPECIFIED slot slot'] by simp
  with 2 show ?case by simp
qed

declare next_instance_loop.simps [simp del]

definition cuddlk_manager_next_available_instance_id :: "kstate \<Rightarrow> cuddlk_device \<Rightarrow> c_int option" where
  "cuddlk_manager_next_available_instance_id st dev = next_instance_loop st dev 0 1"

subsection \<open>Adding and removing a device\<close>

definition set_devices_slot :: "c_int \<Rightarrow> dptr option \<Rightarrow> kstate \<Rightarrow> kstate" where
  "set_devices_slot slot entry st =
     st\<lparr>cuddlk_global_manager := (cuddlk_global_manager st)
          \<lparr>devices := arr_set (k_table st) slot entry\<rparr>\<rparr>"

definition cuddlk_manager_add_device :: "kstate \<Rightarrow> dptr \<Rightarrow> (c_int \<times> kstate) option" where
  "cuddlk_manager_add_device st dev = do {
     slot \<leftarrow> cuddlk_manager_find_empty_slot st;
     if slot < 0 then Some (- ENOMEM, st)
     else Some (0, set_devices_slot slot (Some dev) st)
   }"

definition cuddlk_manager_remove_device :: "kstate \<Rightarrow> dptr \<Rightarrow> (c_int \<times> kstate) option" where
  "cuddlk_manager_remove_device st dev = do {
     slot \<leftarrow> cuddlk_manager_find_device_slot st (Some dev);
     if slot < 0 then Some (slot, st)
     else Some (0, set_devices_slot slot None st)
   }"

subsection \<open>Well-formed tables\<close>

text \<open>
  The table has its declared length and each occupied slot points to a live device with a
  group, a name and arrays of the declared sizes. Under this invariant the searches are
  defined, and equal to \<open>find\<close> over the slots with the documented meaning of a match.
\<close>

definition device_named :: "cuddlk_device \<Rightarrow> bool" where
  "device_named d \<longleftrightarrow> d_group d \<noteq> None \<and> d_name d \<noteq> None \<and>
     length (d_mem d) = CUDDLK_MAX_DEV_MEM_REGIONS \<and> length (d_events d) = CUDDLK_MAX_DEV_EVENTS"

definition table_ok :: "kstate \<Rightarrow> bool" where
  "table_ok st \<longleftrightarrow> length (k_table st) = CUDDLK_MAX_MANAGED_DEVICES \<and>
     (\<forall>i p. i < CUDDLK_MAX_MANAGED_DEVICES \<longrightarrow> k_table st ! i = Some p \<longrightarrow>
        (\<exists>d. k_heap st p = Some d \<and> device_named d))"

lemma table_okD:
  "table_ok st \<Longrightarrow> length (k_table st) = CUDDLK_MAX_MANAGED_DEVICES"
  "table_ok st \<Longrightarrow> i < CUDDLK_MAX_MANAGED_DEVICES \<Longrightarrow> k_table st ! i = Some p \<Longrightarrow>
     \<exists>d. k_heap st p = Some d \<and> device_named d"
  by (auto simp: table_ok_def)

text \<open>The device in a slot, and what it means for it to match a search.\<close>

definition managed_device :: "kstate \<Rightarrow> nat \<Rightarrow> cuddlk_device option" where
  "managed_device st i = Option.bind (k_table st ! i) (k_heap st)"

definition resource_matches :: "cuddlk_resource \<Rightarrow> string option \<Rightarrow> cuddlk_device \<Rightarrow> bool" where
  "resource_matches type resource d \<longleftrightarrow>
     (case type of
        CUDDLK_RESOURCE_MEMREGION \<Rightarrow> memregion_slot d resource \<noteq> None
      | CUDDLK_RESOURCE_EVENTSRC \<Rightarrow> eventsrc_slot d resource \<noteq> None
      | CUDDLK_RESOURCE_UNSPECIFIED \<Rightarrow> False)"

definition device_matches ::
  "string option \<Rightarrow> string option \<Rightarrow> string option \<Rightarrow> c_int \<Rightarrow> cuddlk_resource
     \<Rightarrow> cuddlk_device \<Rightarrow> bool" where
  "device_matches grp name resource instance_id type d \<longleftrightarrow>
     (instance_id = 0 \<or> d_instance d = instance_id) \<and>
     name_matches grp (d_group d) \<and> name_matches name (d_name d) \<and>
     (name_given resource \<longrightarrow> resource_matches type resource d)"

definition slot_matches ::
  "kstate \<Rightarrow> string option \<Rightarrow> string option \<Rightarrow> string option \<Rightarrow> c_int \<Rightarrow> cuddlk_resource
     \<Rightarrow> nat \<Rightarrow> bool" where
  "slot_matches st grp name resource instance_id type i \<longleftrightarrow>
     (case managed_device st i of None \<Rightarrow> False
      | Some d \<Rightarrow> device_matches grp name resource instance_id type d)"

definition matching_slot ::
  "kstate \<Rightarrow> string option \<Rightarrow> string option \<Rightarrow> string option \<Rightarrow> c_int \<Rightarrow> cuddlk_resource
     \<Rightarrow> nat \<Rightarrow> nat option" where
  "matching_slot st grp name resource instance_id type start =
     List.find (slot_matches st grp name resource instance_id type)
       [start..<CUDDLK_MAX_MANAGED_DEVICES]"

lemma device_slot_matches_eq:
  assumes "table_ok st" "i < CUDDLK_MAX_MANAGED_DEVICES"
  shows "device_slot_matches st grp name resource k type i =
    Some (slot_matches st grp name resource k type i)"
proof (cases "k_table st ! i")
  case None
  with assms show ?thesis
    by (simp add: device_slot_matches_def slot_matches_def managed_device_def table_okD)
next
  case (Some p)
  with assms obtain d where d: "k_heap st p = Some d" "device_named d"
    by (blast dest: table_okD)
  then obtain g n where gn: "d_group d = Some g" "d_name d = Some n"
    and len: "length (d_mem d) = CUDDLK_MAX_DEV_MEM_REGIONS" "length (d_events d) = CUDDLK_MAX_DEV_EVENTS"
    by (auto simp: device_named_def)
  from Some d(1) have m: "managed_device st i = Some d" by (simp add: managed_device_def)
  show ?thesis
    using assms Some d(1) len
    by (auto simp: device_slot_matches_def slot_matches_def m device_matches_def table_okD
        field_differs_Some [OF gn(1)] field_differs_Some [OF gn(2)] resource_matches_def
        find_memregion_slot_eq find_eventsrc_slot_eq split: cuddlk_resource.splits)
qed

lemma find_device_slot_matching_eq:
  assumes "table_ok st" "0 \<le> start"
  shows "cuddlk_manager_find_device_slot_matching st grp name resource k type start =
    Some (slot_or_enxio (matching_slot st grp name resource k type (nat start)))"
  using assms
  unfolding cuddlk_manager_find_device_slot_matching_def matching_slot_def slot_or_enxio_def
  by (subst for_first_defined [where q = "slot_matches st grp name resource k type"])
    (simp_all add: device_slot_matches_eq)

lemma matching_slot_SomeD:
  "matching_slot st grp name resource k type start = Some i \<Longrightarrow>
     start \<le> i \<and> i < CUDDLK_MAX_MANAGED_DEVICES \<and> slot_matches st grp name resource k type i \<and>
     (\<forall>j. start \<le> j \<longrightarrow> j < i \<longrightarrow> \<not> slot_matches st grp name resource k type j)"
  unfolding matching_slot_def by (rule find_upt_SomeD)

lemma find_device_slot_eq:
  assumes "length (k_table st) = CUDDLK_MAX_MANAGED_DEVICES"
  shows "cuddlk_manager_find_device_slot st dev =
    Some (slot_or_enxio (List.find (\<lambda>i. k_table st ! i = dev) [0..<CUDDLK_MAX_MANAGED_DEVICES]))"
  using assms
  unfolding cuddlk_manager_find_device_slot_def slot_or_enxio_def
  by (subst for_first_defined [where q = "\<lambda>i. k_table st ! i = dev"]) (simp_all add: assms)

subsection \<open>The contract of the table\<close>

text \<open>
  What the registration code relies on, stated once for any table of slots: a device goes
  into the first free slot, a search returns the first slot that holds the pointer, and
  removal frees that slot.
\<close>

definition occupied_distinct :: "'p option list \<Rightarrow> bool" where
  "occupied_distinct xs \<longleftrightarrow> (\<forall>i j p. i < length xs \<longrightarrow> j < length xs \<longrightarrow>
     xs ! i = Some p \<longrightarrow> xs ! j = Some p \<longrightarrow> i = j)"

lemma occupied_distinctD:
  "occupied_distinct xs \<Longrightarrow> i < length xs \<Longrightarrow> j < length xs \<Longrightarrow>
     xs ! i = Some p \<Longrightarrow> xs ! j = Some p \<Longrightarrow> i = j"
  unfolding occupied_distinct_def by blast

lemma occupied_distinct_update_None:
  "occupied_distinct xs \<Longrightarrow> occupied_distinct (xs[i := None])"
  unfolding occupied_distinct_def
  by (metis length_list_update nth_list_update_eq nth_list_update_neq option.distinct(1))

lemma occupied_distinct_update_Some:
  "occupied_distinct xs \<Longrightarrow> Some p \<notin> set xs \<Longrightarrow> occupied_distinct (xs[i := Some p])"
  unfolding occupied_distinct_def
  by (metis length_list_update nth_list_update_eq nth_list_update_neq nth_mem option.inject)

locale slot_table =
  fixes slots :: "'s \<Rightarrow> 'p option list"
    and inv :: "'s \<Rightarrow> bool"
    and find_slot :: "'s \<Rightarrow> 'p option \<Rightarrow> c_int option"
    and add :: "'s \<Rightarrow> 'p \<Rightarrow> (c_int \<times> 's) option"
    and remove :: "'s \<Rightarrow> 'p \<Rightarrow> (c_int \<times> 's) option"
  assumes find_first: "inv s \<Longrightarrow>
      find_slot s x = Some (slot_or_enxio (List.find (\<lambda>i. slots s ! i = x) [0..<length (slots s)]))"
    and add_full: "inv s \<Longrightarrow> find_slot s None = Some i \<Longrightarrow> i < 0 \<Longrightarrow> add s p = Some (- ENOMEM, s)"
    and add_free: "inv s \<Longrightarrow> find_slot s None = Some i \<Longrightarrow> 0 \<le> i \<Longrightarrow>
      \<exists>s'. add s p = Some (0, s') \<and> slots s' = (slots s)[nat i := Some p] \<and> inv s'"
    and remove_missing: "inv s \<Longrightarrow> find_slot s (Some p) = Some i \<Longrightarrow> i < 0 \<Longrightarrow>
      remove s p = Some (i, s)"
    and remove_found: "inv s \<Longrightarrow> find_slot s (Some p) = Some i \<Longrightarrow> 0 \<le> i \<Longrightarrow>
      \<exists>s'. remove s p = Some (0, s') \<and> slots s' = (slots s)[nat i := None] \<and> inv s'"
begin

lemma find_member:
  "inv s \<Longrightarrow> x \<in> set (slots s) \<Longrightarrow>
     \<exists>i. find_slot s x = Some (int i) \<and> i < length (slots s) \<and> slots s ! i = x \<and>
         (\<forall>j < i. slots s ! j \<noteq> x)"
proof -
  assume s: "inv s" "x \<in> set (slots s)"
  then have "List.find (\<lambda>i. slots s ! i = x) [0..<length (slots s)] \<noteq> None"
    by (auto simp: find_upt_None_iff in_set_conv_nth)
  then obtain i where i: "List.find (\<lambda>i. slots s ! i = x) [0..<length (slots s)] = Some i"
    by auto
  from find_upt_SomeD [OF i] show ?thesis
    by (intro exI [of _ i]) (simp add: find_first s(1) i)
qed

lemma find_not_member: "inv s \<Longrightarrow> x \<notin> set (slots s) \<Longrightarrow> find_slot s x = Some (- ENXIO)"
proof -
  assume s: "inv s" "x \<notin> set (slots s)"
  then have "List.find (\<lambda>i. slots s ! i = x) [0..<length (slots s)] = None"
    by (auto simp: find_upt_None_iff in_set_conv_nth)
  then show ?thesis by (simp add: find_first s(1))
qed

lemma add_cases:
  assumes "inv s"
  shows "(None \<notin> set (slots s) \<and> add s p = Some (- ENOMEM, s)) \<or>
    (\<exists>i s'. i < length (slots s) \<and> slots s ! i = None \<and> (\<forall>j < i. slots s ! j \<noteq> None) \<and>
       add s p = Some (0, s') \<and> slots s' = (slots s)[i := Some p] \<and> inv s')"
proof (cases "None \<in> set (slots s)")
  case True
  from find_member [OF assms True] obtain i where i: "find_slot s None = Some (int i)"
    "i < length (slots s)" "slots s ! i = None" "\<forall>j < i. slots s ! j \<noteq> None" by auto
  from add_free [OF assms i(1), of p] i show ?thesis by auto
next
  case False
  from add_full [OF assms find_not_member [OF assms False]] False show ?thesis by simp
qed

lemma remove_cases:
  assumes "inv s"
  shows "(Some p \<notin> set (slots s) \<and> remove s p = Some (- ENXIO, s)) \<or>
    (\<exists>i s'. i < length (slots s) \<and> slots s ! i = Some p \<and> remove s p = Some (0, s') \<and>
       slots s' = (slots s)[i := None] \<and> inv s')"
proof (cases "Some p \<in> set (slots s)")
  case True
  from find_member [OF assms True] obtain i where i: "find_slot s (Some p) = Some (int i)"
    "i < length (slots s)" "slots s ! i = Some p" by auto
  from remove_found [OF assms i(1)] i show ?thesis by auto
next
  case False
  from remove_missing [OF assms find_not_member [OF assms False]] False show ?thesis by simp
qed

lemma add_remove_restores:
  assumes s: "inv s" "Some p \<notin> set (slots s)" and add: "add s p = Some (0, s')"
  shows "\<exists>s''. remove s' p = Some (0, s'') \<and> slots s'' = slots s \<and> inv s''"
proof -
  from add_cases [OF s(1), of p] add obtain i where i: "i < length (slots s)"
    "slots s ! i = None" "slots s' = (slots s)[i := Some p]" "inv s'" by auto
  have only: "j = i" if "j < length (slots s')" "slots s' ! j = Some p" for j
    using that i s(2) by (auto simp: nth_list_update in_set_conv_nth split: if_splits)
  from i have "Some p \<in> set (slots s')" by (simp add: set_update_memI)
  with remove_cases [OF i(4), of p] obtain j s'' where j: "j < length (slots s')"
    "slots s' ! j = Some p" "remove s' p = Some (0, s'')" "slots s'' = (slots s')[j := None]"
    "inv s''" by auto
  from only [OF j(1,2)] j i show ?thesis
    by (metis list_update_id list_update_overwrite)
qed

end

subsection \<open>The code's table meets the contract\<close>

definition table_len :: "kstate \<Rightarrow> bool" where
  "table_len st \<longleftrightarrow> length (k_table st) = CUDDLK_MAX_MANAGED_DEVICES"

lemma set_devices_slot_simps [simp]:
  "k_table (set_devices_slot i e st) = arr_set (k_table st) i e"
  "k_heap (set_devices_slot i e st) = k_heap st"
  "k_locked (set_devices_slot i e st) = k_locked st"
  "cuddlk_mem_refs (set_devices_slot i e st) = cuddlk_mem_refs st"
  "cuddlk_event_refs (set_devices_slot i e st) = cuddlk_event_refs st"
  "k_modrefs (set_devices_slot i e st) = k_modrefs st"
  "cuddlk_manager_device (set_devices_slot i e st) = cuddlk_manager_device st"
  by (simp_all add: set_devices_slot_def)

interpretation tbl: slot_table k_table table_len cuddlk_manager_find_device_slot
  cuddlk_manager_add_device cuddlk_manager_remove_device
  by unfold_locales
    (auto simp: table_len_def find_device_slot_eq cuddlk_manager_add_device_def
      cuddlk_manager_remove_device_def cuddlk_manager_find_empty_slot_def arr_set_def)

text \<open>Frame facts: both operations touch nothing but the table.\<close>

lemma add_device_frame:
  "cuddlk_manager_add_device st p = Some (r, st') \<Longrightarrow>
     st' = st \<or> (\<exists>i. st' = set_devices_slot i (Some p) st)"
  by (auto simp: cuddlk_manager_add_device_def bind_eq_Some_conv split: if_splits)

lemma remove_device_frame:
  "cuddlk_manager_remove_device st p = Some (r, st') \<Longrightarrow>
     st' = st \<or> (\<exists>i. st' = set_devices_slot i None st)"
  by (auto simp: cuddlk_manager_remove_device_def bind_eq_Some_conv split: if_splits)

subsection \<open>The next instance number\<close>

text \<open>
  The devices the loop competes with: those whose group and name match the patterns that
  the new device's own group and name are. The loop's answer is a fresh number when the
  instance numbers of these devices grow with their slots; each round then has every
  smaller number behind it.
\<close>

definition same_family :: "kstate \<Rightarrow> cuddlk_device \<Rightarrow> nat \<Rightarrow> cuddlk_device \<Rightarrow> bool" where
  "same_family st dev i d \<longleftrightarrow> i < CUDDLK_MAX_MANAGED_DEVICES \<and> managed_device st i = Some d \<and>
     name_matches (d_group dev) (d_group d) \<and> name_matches (d_name dev) (d_name d)"

definition instances_ascending :: "kstate \<Rightarrow> cuddlk_device \<Rightarrow> bool" where
  "instances_ascending st dev \<longleftrightarrow>
     (\<forall>i j d e. same_family st dev i d \<longrightarrow> same_family st dev j e \<longrightarrow> i < j \<longrightarrow>
        d_instance d < d_instance e)"

lemma slot_matches_family:
  "k \<noteq> 0 \<Longrightarrow> i < CUDDLK_MAX_MANAGED_DEVICES \<Longrightarrow>
     slot_matches st (d_group dev) (d_name dev) None k CUDDLK_RESOURCE_UNSPECIFIED i \<longleftrightarrow>
     (\<exists>d. same_family st dev i d \<and> d_instance d = k)"
  by (auto simp: slot_matches_def device_matches_def same_family_def split: option.splits)

text \<open>One round of the loop on a well-formed table.\<close>

lemma next_instance_loop_unfold:
  assumes "table_ok st" "0 \<le> slot"
  shows "next_instance_loop st dev slot k =
    (case matching_slot st (d_group dev) (d_name dev) None k CUDDLK_RESOURCE_UNSPECIFIED (nat slot) of
       None \<Rightarrow> Some k
     | Some i \<Rightarrow>
         if i < CUDDLK_MAX_MANAGED_DEVICES - 1 then next_instance_loop st dev (int i + 1) (k + 1)
         else Some (- ENOMEM))"
  by (subst next_instance_loop.simps)
    (auto simp: find_device_slot_matching_eq [OF assms] CUDDLK_MAX_MANAGED_DEVICES_def
      split: option.splits)

text \<open>The loop returns on every well-formed table, with a positive number or \<open>-ENOMEM\<close>.\<close>

lemma next_instance_loop_total:
  assumes "table_ok st" "0 \<le> slot" "slot < 256" "1 \<le> k" "k \<le> slot + 1"
  shows "\<exists>r. next_instance_loop st dev slot k = Some r \<and> (r = - ENOMEM \<or> (1 \<le> r \<and> r \<le> 256))"
  using assms
proof (induction st dev slot k rule: next_instance_loop.induct)
  case (1 st dev slot k)
  let ?m = "matching_slot st (d_group dev) (d_name dev) None k CUDDLK_RESOURCE_UNSPECIFIED (nat slot)"
  show ?case
  proof (cases ?m)
    case None
    with "1.prems" show ?thesis by (simp add: next_instance_loop_unfold)
  next
    case (Some i)
    note i = matching_slot_SomeD [OF Some]
    show ?thesis
    proof (cases "i < CUDDLK_MAX_MANAGED_DEVICES - 1")
      case False
      with Some "1.prems" show ?thesis by (simp add: next_instance_loop_unfold)
    next
      case True
      from Some "1.prems"(1,2)
      have f: "cuddlk_manager_find_device_slot_matching st (d_group dev) (d_name dev) None
          k CUDDLK_RESOURCE_UNSPECIFIED slot = Some (int i)"
        by (simp add: find_device_slot_matching_eq)
      from i "1.prems" True have b: "0 \<le> int i + 1" "int i + 1 < 256" "1 \<le> k + 1" "k + 1 \<le> int i + 1 + 1"
        by (auto simp: CUDDLK_MAX_MANAGED_DEVICES_def)
      have "\<exists>r. next_instance_loop st dev (int i + 1) (k + 1) = Some r \<and>
          (r = - ENOMEM \<or> (1 \<le> r \<and> r \<le> 256))"
        by (rule "1.IH" [OF f]) (use b True "1.prems"(1) in \<open>auto simp: CUDDLK_MAX_MANAGED_DEVICES_def\<close>)
      with Some True "1.prems"(1,2) show ?thesis by (simp add: next_instance_loop_unfold)
    qed
  qed
qed

lemma next_instance_loop_fresh:
  assumes "table_ok st" "0 \<le> slot" "1 \<le> k" "instances_ascending st dev"
    and below: "\<And>i d. i < nat slot \<Longrightarrow> same_family st dev i d \<Longrightarrow> d_instance d < k"
    and ret: "next_instance_loop st dev slot k = Some r" "r \<noteq> - ENOMEM"
  shows "k \<le> r \<and> (\<forall>i d. same_family st dev i d \<longrightarrow> d_instance d \<noteq> r)"
  using assms
proof (induction st dev slot k rule: next_instance_loop.induct)
  case (1 st dev slot k)
  let ?m = "matching_slot st (d_group dev) (d_name dev) None k CUDDLK_RESOURCE_UNSPECIFIED (nat slot)"
  show ?case
  proof (cases ?m)
    case None
    have "d_instance d \<noteq> k" if d: "same_family st dev i d" for i d
    proof (cases "i < nat slot")
      case True
      from "1.prems"(5) [OF this d] show ?thesis by simp
    next
      case False
      with None d have "\<not> slot_matches st (d_group dev) (d_name dev) None k CUDDLK_RESOURCE_UNSPECIFIED i"
        by (auto simp: matching_slot_def find_upt_None_iff same_family_def)
      with d "1.prems"(3) show ?thesis
        using slot_matches_family [of k i st dev] by (auto simp: same_family_def)
    qed
    with None "1.prems" show ?thesis by (simp add: next_instance_loop_unfold)
  next
    case (Some i)
    note i = matching_slot_SomeD [OF Some]
    from i "1.prems"(3) slot_matches_family [of k i st dev]
    obtain d where d: "same_family st dev i d" "d_instance d = k" by auto
    from "1.prems"(6,7) Some "1.prems"(1,2) have lt: "i < CUDDLK_MAX_MANAGED_DEVICES - 1"
      and rest: "next_instance_loop st dev (int i + 1) (k + 1) = Some r"
      by (auto simp: next_instance_loop_unfold split: if_splits)
    have below': "d_instance e < k + 1" if e: "j < nat (int i + 1)" "same_family st dev j e" for j e
    proof (cases "j = i")
      case True
      with e(2) d show ?thesis by (simp add: same_family_def)
    next
      case False
      with e(1) have "j < i" by linarith
      with "1.prems"(4) e(2) d show ?thesis unfolding instances_ascending_def by fastforce
    qed
    from Some "1.prems"(1,2)
    have f: "cuddlk_manager_find_device_slot_matching st (d_group dev) (d_name dev) None
        k CUDDLK_RESOURCE_UNSPECIFIED slot = Some (int i)"
      by (simp add: find_device_slot_matching_eq)
    have "k + 1 \<le> r \<and> (\<forall>i d. same_family st dev i d \<longrightarrow> d_instance d \<noteq> r)"
      by (rule "1.IH" [OF f])
        (use "1.prems" lt rest below' in \<open>auto simp: CUDDLK_MAX_MANAGED_DEVICES_def\<close>)
    then show ?thesis by auto
  qed
qed

end
