(* ===== verification/Ref_Counting.thy ===== *)
theory Ref_Counting
  imports Manager_Table
begin

section \<open>Reference counts and the clean-up lists (cuddlk_manager_linux.c)\<close>

text \<open>
  Claiming and releasing a memory region or an event source. The two pairs of functions
  of the code differ in the structure they work on only; the locale \<open>ref_counted\<close> is
  the protocol they share, with the list of references that the clean-up uses, and both
  pairs are interpretations of it. Every function runs under the manager's global mutex,
  so the inner \<^verbatim>\<open>ref_mutex\<close> of a resource, taken and dropped within one function, is
  the atomicity of that function here.
\<close>

subsection \<open>Module use counts\<close>

text \<open>
  \<^verbatim>\<open>try_module_get\<close> and \<^verbatim>\<open>module_put\<close> of Linux, on the use count of a module;
  taking a reference may fail (\<open>ok\<close> is false) while the module is being removed.
\<close>

definition try_module_get :: "bool \<Rightarrow> nat \<Rightarrow> kstate \<Rightarrow> kstate" where
  "try_module_get ok m st =
     (if ok then st\<lparr>k_modrefs := (k_modrefs st)(m := k_modrefs st m + 1)\<rparr> else st)"

definition module_put :: "nat \<Rightarrow> kstate \<Rightarrow> kstate" where
  "module_put m st = st\<lparr>k_modrefs := (k_modrefs st)(m := k_modrefs st m - 1)\<rparr>"

text \<open>\<^verbatim>\<open>priv.uio_ptr->uio_dev->owner\<close>, following both pointers.\<close>

definition uio_dev_owner :: "kstate \<Rightarrow> dptr option \<Rightarrow> nat option option" where
  "uio_dev_owner st uio_ptr = do {
     p \<leftarrow> uio_ptr;
     d \<leftarrow> k_heap st p;
     dev \<leftarrow> deref (uio_dev (d_uio d));
     Some (uiod_owner dev)
   }"

subsection \<open>Claim and decrement\<close>

definition get_memregion :: "kstate \<Rightarrow> dptr \<Rightarrow> c_int \<Rightarrow> cuddlk_memregion option" where
  "get_memregion st p i = do { d \<leftarrow> k_heap st p; arr_get (d_mem d) i }"

definition put_memregion :: "dptr \<Rightarrow> c_int \<Rightarrow> cuddlk_memregion \<Rightarrow> kstate \<Rightarrow> kstate" where
  "put_memregion p i m st =
     (case k_heap st p of None \<Rightarrow> st
      | Some d \<Rightarrow> set_dev p (d\<lparr>d_mem := arr_set (d_mem d) i m\<rparr>) st)"

definition get_eventsrc :: "kstate \<Rightarrow> dptr \<Rightarrow> c_int \<Rightarrow> cuddlk_eventsrc option" where
  "get_eventsrc st p i = do { d \<leftarrow> k_heap st p; arr_get (d_events d) i }"

definition put_eventsrc :: "dptr \<Rightarrow> c_int \<Rightarrow> cuddlk_eventsrc \<Rightarrow> kstate \<Rightarrow> kstate" where
  "put_eventsrc p i e st =
     (case k_heap st p of None \<Rightarrow> st
      | Some d \<Rightarrow> set_dev p (d\<lparr>d_events := arr_set (d_events d) i e\<rparr>) st)"

definition eventsrc_claim :: "bool \<Rightarrow> dptr \<Rightarrow> c_int \<Rightarrow> c_int \<Rightarrow> kstate \<Rightarrow> (c_int \<times> kstate) option" where
  "eventsrc_claim get_ok p i hostile st = do {
     eventsrc \<leftarrow> get_eventsrc st p i;
     if ev_ref_count eventsrc > 0 \<and> \<not> has_flag (ev_flags eventsrc) CUDDLK_EVENTSRCF_SHARED \<and> hostile = 0
     then Some (- EBUSY, st)
     else do {
       owner \<leftarrow> uio_dev_owner st (ev_uio_ptr eventsrc);
       let st' = put_eventsrc p i (eventsrc\<lparr>ev_ref_count := c_int_wrap (ev_ref_count eventsrc + 1)\<rparr>) st;
       Some (0, case owner of None \<Rightarrow> st' | Some m \<Rightarrow> try_module_get get_ok m st')
     }
   }"

definition eventsrc_decr_ref_count :: "dptr \<Rightarrow> c_int \<Rightarrow> kstate \<Rightarrow> (c_int \<times> kstate) option" where
  "eventsrc_decr_ref_count p i st = do {
     eventsrc \<leftarrow> get_eventsrc st p i;
     if ev_ref_count eventsrc = 0 then Some (- ENOSPC, st)
     else do {
       owner \<leftarrow> uio_dev_owner st (ev_uio_ptr eventsrc);
       let st' = put_eventsrc p i (eventsrc\<lparr>ev_ref_count := c_int_wrap (ev_ref_count eventsrc - 1)\<rparr>) st;
       Some (0, case owner of None \<Rightarrow> st' | Some m \<Rightarrow> module_put m st')
     }
   }"

definition memregion_claim :: "bool \<Rightarrow> dptr \<Rightarrow> c_int \<Rightarrow> c_int \<Rightarrow> kstate \<Rightarrow> (c_int \<times> kstate) option" where
  "memregion_claim get_ok p i hostile st = do {
     memregion \<leftarrow> get_memregion st p i;
     if mr_ref_count memregion > 0 \<and> \<not> has_flag (mr_flags memregion) CUDDLK_MEMF_SHARED \<and> hostile = 0
     then Some (- EBUSY, st)
     else do {
       owner \<leftarrow> uio_dev_owner st (mr_uio_ptr memregion);
       let st' = put_memregion p i (memregion\<lparr>mr_ref_count := c_int_wrap (mr_ref_count memregion + 1)\<rparr>) st;
       Some (0, case owner of None \<Rightarrow> st' | Some m \<Rightarrow> try_module_get get_ok m st')
     }
   }"

definition memregion_decr_ref_count :: "dptr \<Rightarrow> c_int \<Rightarrow> kstate \<Rightarrow> (c_int \<times> kstate) option" where
  "memregion_decr_ref_count p i st = do {
     memregion \<leftarrow> get_memregion st p i;
     if mr_ref_count memregion = 0 then Some (- ENOSPC, st)
     else do {
       owner \<leftarrow> uio_dev_owner st (mr_uio_ptr memregion);
       let st' = put_memregion p i (memregion\<lparr>mr_ref_count := c_int_wrap (mr_ref_count memregion - 1)\<rparr>) st;
       Some (0, case owner of None \<Rightarrow> st' | Some m \<Rightarrow> module_put m st')
     }
   }"

subsection \<open>The manager's mutex\<close>

text \<open>
  Locking a mutex that is already held by the same flow of control never returns, and
  unlocking one that is not held is an error: both are undefined here.
\<close>

definition set_mutex :: "bool \<Rightarrow> kstate \<Rightarrow> kstate" where
  "set_mutex b st = st\<lparr>cuddlk_global_manager := (cuddlk_global_manager st)\<lparr>global_mutex := b\<rparr>\<rparr>"

definition cuddlk_manager_lock :: "kstate \<Rightarrow> kstate option" where
  "cuddlk_manager_lock st = (if k_locked st then None else Some (set_mutex True st))"

definition cuddlk_manager_unlock :: "kstate \<Rightarrow> kstate option" where
  "cuddlk_manager_unlock st = (if k_locked st then Some (set_mutex False st) else None)"

subsection \<open>Cleaning up after a process\<close>

text \<open>
  \<^verbatim>\<open>list_for_each_entry_safe\<close> over one of the two lists: an entry of the process is
  dropped after its reference count went down; the entries of other processes stay.
\<close>

fun free_mem_refs :: "pid_t \<Rightarrow> cuddlk_resource_ref list \<Rightarrow> kstate \<Rightarrow> (cuddlk_resource_ref list \<times> kstate) option" where
  "free_mem_refs pid [] st = Some ([], st)"
| "free_mem_refs pid (pos # rest) st =
     (if ref_pid pos = pid then do {
        entry \<leftarrow> arr_get (k_table st) (device_index (ref_token pos));
        dev \<leftarrow> entry;
        (ret, st') \<leftarrow> memregion_decr_ref_count dev (resource_index (ref_token pos)) st;
        free_mem_refs pid rest st'
      } else do {
        (kept, st') \<leftarrow> free_mem_refs pid rest st;
        Some (pos # kept, st')
      })"

fun free_event_refs :: "pid_t \<Rightarrow> cuddlk_resource_ref list \<Rightarrow> kstate \<Rightarrow> (cuddlk_resource_ref list \<times> kstate) option" where
  "free_event_refs pid [] st = Some ([], st)"
| "free_event_refs pid (pos # rest) st =
     (if ref_pid pos = pid then do {
        entry \<leftarrow> arr_get (k_table st) (device_index (ref_token pos));
        dev \<leftarrow> entry;
        (ret, st') \<leftarrow> eventsrc_decr_ref_count dev (resource_index (ref_token pos)) st;
        free_event_refs pid rest st'
      } else do {
        (kept, st') \<leftarrow> free_event_refs pid rest st;
        Some (pos # kept, st')
      })"

definition cuddlk_manager_free_refs_for_pid :: "pid_t \<Rightarrow> kstate \<Rightarrow> kstate option" where
  "cuddlk_manager_free_refs_for_pid pid st = do {
     st \<leftarrow> cuddlk_manager_lock st;
     (refs, st) \<leftarrow> free_mem_refs pid (cuddlk_mem_refs st) st;
     let st = st\<lparr>cuddlk_mem_refs := refs\<rparr>;
     (refs, st) \<leftarrow> free_event_refs pid (cuddlk_event_refs st) st;
     let st = st\<lparr>cuddlk_event_refs := refs\<rparr>;
     cuddlk_manager_unlock st
   }"

subsection \<open>What reference counting leaves alone\<close>

text \<open>
  \<open>k_shape\<close> is the state without reference counts, reference lists and module use
  counts. Every operation of this theory keeps it, and the searches, the well-formedness
  of the table and the owners of the resources depend on nothing else.
\<close>

definition erase_counts :: "cuddlk_device \<Rightarrow> cuddlk_device" where
  "erase_counts d = d\<lparr>d_mem := map (\<lambda>m. m\<lparr>mr_ref_count := 0\<rparr>) (d_mem d),
     d_events := map (\<lambda>e. e\<lparr>ev_ref_count := 0\<rparr>) (d_events d)\<rparr>"

definition k_shape :: "kstate \<Rightarrow> cuddlk_manager \<times> nat option \<times> (dptr \<Rightarrow> cuddlk_device option)" where
  "k_shape st = (cuddlk_global_manager st, cuddlk_manager_device st,
     \<lambda>p. map_option erase_counts (k_heap st p))"

definition device_at :: "kstate \<Rightarrow> c_int \<Rightarrow> dptr option" where
  "device_at st i = do { entry \<leftarrow> arr_get (k_table st) i; entry }"

lemma erase_counts_simps [simp]:
  "d_group (erase_counts d) = d_group d" "d_name (erase_counts d) = d_name d"
  "d_driver_info (erase_counts d) = d_driver_info d" "d_hw_info (erase_counts d) = d_hw_info d"
  "d_instance (erase_counts d) = d_instance d" "d_uio (erase_counts d) = d_uio d"
  "d_udd (erase_counts d) = d_udd d" "d_unique_name (erase_counts d) = d_unique_name d"
  "length (d_mem (erase_counts d)) = length (d_mem d)"
  "length (d_events (erase_counts d)) = length (d_events d)"
  "d_parent_device_ptr (erase_counts d) = d_parent_device_ptr d"
  "d_owner_ptr (erase_counts d) = d_owner_ptr d"
  by (simp_all add: erase_counts_def)

lemma k_shape_heap:
  "k_shape st = k_shape st' \<Longrightarrow> map_option erase_counts (k_heap st p) = map_option erase_counts (k_heap st' p)"
proof -
  assume "k_shape st = k_shape st'"
  then have "snd (snd (k_shape st)) p = snd (snd (k_shape st')) p" by simp
  then show ?thesis by (simp add: k_shape_def)
qed

lemma k_shape_table: "k_shape st = k_shape st' \<Longrightarrow> cuddlk_global_manager st = cuddlk_global_manager st'"
  by (simp add: k_shape_def)

lemma k_shape_device_at: "k_shape st = k_shape st' \<Longrightarrow> device_at st = device_at st'"
  by (simp add: k_shape_def device_at_def fun_eq_iff)

lemma k_shape_heap_Some:
  assumes "k_shape st' = k_shape st" "k_heap st p = Some d"
  shows "\<exists>d'. k_heap st' p = Some d' \<and> erase_counts d' = erase_counts d"
  using k_shape_heap [OF assms(1), of p] assms(2) by (cases "k_heap st' p") auto

lemma erase_counts_uio: "erase_counts d' = erase_counts d \<Longrightarrow> d_uio d' = d_uio d"
  by (metis erase_counts_simps(6))

lemma uio_dev_owner_cong:
  assumes "k_shape st' = k_shape st"
  shows "uio_dev_owner st' x = uio_dev_owner st x"
proof (cases x)
  case None
  then show ?thesis by (simp add: uio_dev_owner_def)
next
  case (Some p)
  from k_shape_heap [OF assms, of p] show ?thesis
    using Some
    by (cases "k_heap st p"; cases "k_heap st' p") (auto simp: uio_dev_owner_def dest: erase_counts_uio)
qed

lemma k_shape_modrefs [simp]: "k_shape (st\<lparr>k_modrefs := f\<rparr>) = k_shape st"
  by (simp add: k_shape_def)

lemma k_shape_refs [simp]:
  "k_shape (st\<lparr>cuddlk_mem_refs := l\<rparr>) = k_shape st"
  "k_shape (st\<lparr>cuddlk_event_refs := l\<rparr>) = k_shape st"
  by (simp_all add: k_shape_def)

lemma map_arr_set_same: "arr_get xs i = Some x \<Longrightarrow> f y = f x \<Longrightarrow> map f (arr_set xs i y) = map f xs"
proof -
  assume x: "arr_get xs i = Some x" "f y = f x"
  then have "nat i < length xs" "x = xs ! nat i" by (auto dest: arr_get_SomeD)
  with x(2) have "(map f xs)[nat i := f y] = map f xs" by (simp add: list_update_same_conv)
  then show ?thesis by (simp add: arr_set_def map_update)
qed

lemma put_memregion_shape:
  "get_memregion st p i = Some m \<Longrightarrow> k_shape (put_memregion p i (m\<lparr>mr_ref_count := c\<rparr>) st) = k_shape st"
  by (auto simp: get_memregion_def put_memregion_def k_shape_def fun_eq_iff bind_eq_Some_conv
      erase_counts_def map_arr_set_same)

lemma put_eventsrc_shape:
  "get_eventsrc st p i = Some e \<Longrightarrow> k_shape (put_eventsrc p i (e\<lparr>ev_ref_count := c\<rparr>) st) = k_shape st"
  by (auto simp: get_eventsrc_def put_eventsrc_def k_shape_def fun_eq_iff bind_eq_Some_conv
      erase_counts_def map_arr_set_same)

lemma put_memregion_fields [simp]:
  "cuddlk_mem_refs (put_memregion p i m st) = cuddlk_mem_refs st"
  "cuddlk_event_refs (put_memregion p i m st) = cuddlk_event_refs st"
  "k_modrefs (put_memregion p i m st) = k_modrefs st"
  "cuddlk_global_manager (put_memregion p i m st) = cuddlk_global_manager st"
  "get_eventsrc (put_memregion p i m st) = get_eventsrc st"
  by (auto simp: put_memregion_def get_eventsrc_def fun_eq_iff split: option.splits)

lemma put_eventsrc_fields [simp]:
  "cuddlk_mem_refs (put_eventsrc p i e st) = cuddlk_mem_refs st"
  "cuddlk_event_refs (put_eventsrc p i e st) = cuddlk_event_refs st"
  "k_modrefs (put_eventsrc p i e st) = k_modrefs st"
  "cuddlk_global_manager (put_eventsrc p i e st) = cuddlk_global_manager st"
  "get_memregion (put_eventsrc p i e st) = get_memregion st"
  by (auto simp: put_eventsrc_def get_memregion_def fun_eq_iff split: option.splits)

lemma get_fields [simp]:
  "get_memregion (st\<lparr>k_modrefs := f\<rparr>) = get_memregion st"
  "get_memregion (st\<lparr>cuddlk_mem_refs := l\<rparr>) = get_memregion st"
  "get_memregion (st\<lparr>cuddlk_event_refs := l\<rparr>) = get_memregion st"
  "get_eventsrc (st\<lparr>k_modrefs := f\<rparr>) = get_eventsrc st"
  "get_eventsrc (st\<lparr>cuddlk_mem_refs := l\<rparr>) = get_eventsrc st"
  "get_eventsrc (st\<lparr>cuddlk_event_refs := l\<rparr>) = get_eventsrc st"
  by (simp_all add: get_memregion_def get_eventsrc_def fun_eq_iff)

subsection \<open>The invariants of reference counting\<close>

text \<open>
  The references of a list to one resource, and two relations between the counts in the
  devices and the list: bounded (no count exceeds the references that are recorded) and
  exact (each count is the number of references).
\<close>

definition tok_at :: "c_int \<Rightarrow> c_int \<Rightarrow> cuddlk_resource_ref \<Rightarrow> bool" where
  "tok_at i j r \<longleftrightarrow> device_index (ref_token r) = i \<and> resource_index (ref_token r) = j"

definition memregion_count :: "kstate \<Rightarrow> dptr \<Rightarrow> c_int \<Rightarrow> c_int option" where
  "memregion_count st p i = map_option mr_ref_count (get_memregion st p i)"

definition eventsrc_count :: "kstate \<Rightarrow> dptr \<Rightarrow> c_int \<Rightarrow> c_int option" where
  "eventsrc_count st p i = map_option ev_ref_count (get_eventsrc st p i)"

definition counts_bounded ::
  "(kstate \<Rightarrow> dptr \<Rightarrow> c_int \<Rightarrow> c_int option) \<Rightarrow> (kstate \<Rightarrow> cuddlk_resource_ref list) \<Rightarrow> kstate \<Rightarrow> bool" where
  "counts_bounded cnt refs st \<longleftrightarrow>
     (\<forall>i p j c. device_at st i = Some p \<longrightarrow> cnt st p j = Some c \<longrightarrow>
        0 \<le> c \<and> c \<le> int (count_where (tok_at i j) (refs st)))"

definition counts_exact ::
  "(kstate \<Rightarrow> dptr \<Rightarrow> c_int \<Rightarrow> c_int option) \<Rightarrow> (kstate \<Rightarrow> cuddlk_resource_ref list) \<Rightarrow> kstate \<Rightarrow> bool" where
  "counts_exact cnt refs st \<longleftrightarrow>
     (\<forall>i p j c. device_at st i = Some p \<longrightarrow> cnt st p j = Some c \<longrightarrow>
        c = int (count_where (tok_at i j) (refs st)))"

definition refs_placed ::
  "(kstate \<Rightarrow> dptr \<Rightarrow> c_int \<Rightarrow> c_int option) \<Rightarrow> cuddlk_resource_ref list \<Rightarrow> kstate \<Rightarrow> bool" where
  "refs_placed cnt l st \<longleftrightarrow>
     (\<forall>r \<in> set l. \<exists>p. device_at st (device_index (ref_token r)) = Some p \<and>
        cnt st p (resource_index (ref_token r)) \<noteq> None)"

lemma counts_boundedD:
  "counts_bounded cnt refs st \<Longrightarrow> device_at st i = Some p \<Longrightarrow> cnt st p j = Some c \<Longrightarrow>
     0 \<le> c \<and> c \<le> int (count_where (tok_at i j) (refs st))"
  unfolding counts_bounded_def by blast

lemma counts_exactD:
  "counts_exact cnt refs st \<Longrightarrow> device_at st i = Some p \<Longrightarrow> cnt st p j = Some c \<Longrightarrow>
     c = int (count_where (tok_at i j) (refs st))"
  unfolding counts_exact_def by blast

lemma counts_exact_bounded: "counts_exact cnt refs st \<Longrightarrow> counts_bounded cnt refs st"
  unfolding counts_exact_def counts_bounded_def by (metis of_nat_0_le_iff order_refl)

lemma device_at_arr_get: "device_at st i = Some p \<Longrightarrow> arr_get (k_table st) i = Some (Some p)"
  by (simp add: device_at_def bind_eq_Some_conv)

lemma device_at_inj:
  "occupied_distinct (k_table st) \<Longrightarrow> device_at st i = Some p \<Longrightarrow> device_at st j = Some p \<Longrightarrow> i = j"
  by (auto dest!: device_at_arr_get arr_get_SomeD dest: occupied_distinctD [of _ "nat i" "nat j"])

text \<open>The module reference of a claim: none is taken when the UIO device has no owner.\<close>

definition pin :: "bool \<Rightarrow> nat option \<Rightarrow> kstate \<Rightarrow> kstate" where
  "pin ok owner st = (case owner of None \<Rightarrow> st | Some m \<Rightarrow> try_module_get ok m st)"

definition unpin :: "nat option \<Rightarrow> kstate \<Rightarrow> kstate" where
  "unpin owner st = (case owner of None \<Rightarrow> st | Some m \<Rightarrow> module_put m st)"

lemma pin_modrefs: "\<exists>f. pin ok owner st = st\<lparr>k_modrefs := f\<rparr>"
  by (cases owner) (auto simp: pin_def try_module_get_def intro: exI [of _ "k_modrefs st"])

lemma unpin_modrefs: "\<exists>f. unpin owner st = st\<lparr>k_modrefs := f\<rparr>"
  by (cases owner) (auto simp: unpin_def module_put_def intro: exI [of _ "k_modrefs st"])

lemma unpin_pin [simp]: "unpin owner (pin True owner st) = st"
  by (cases owner) (auto simp: pin_def unpin_def try_module_get_def module_put_def)

text \<open>Changing one count, and the references to its resource with it.\<close>

lemma counts_bounded_update:
  assumes b: "counts_bounded cnt refs st" and d: "occupied_distinct (k_table st)"
    and p: "device_at st i = Some p" and sh: "k_shape st' = k_shape st"
    and cnt': "\<And>q j. cnt st' q j = (if q = p \<and> j = k then Some c' else cnt st q j)"
    and others: "\<And>i' j'. (i', j') \<noteq> (i, k) \<Longrightarrow>
      count_where (tok_at i' j') (refs st) \<le> count_where (tok_at i' j') (refs st')"
    and c': "0 \<le> c'" "c' \<le> int (count_where (tok_at i k) (refs st'))"
  shows "counts_bounded cnt refs st'"
  unfolding counts_bounded_def
proof (intro allI impI)
  fix i' q j c
  assume q: "device_at st' i' = Some q" and c: "cnt st' q j = Some c"
  from q have q': "device_at st i' = Some q" using k_shape_device_at [OF sh] by simp
  show "0 \<le> c \<and> c \<le> int (count_where (tok_at i' j) (refs st'))"
  proof (cases "q = p \<and> j = k")
    case True
    with q' p device_at_inj [OF d] have "i' = i" by blast
    with True c c' cnt' show ?thesis by simp
  next
    case False
    with q' p have "(i', j) \<noteq> (i, k)" by auto
    with others have "count_where (tok_at i' j) (refs st) \<le> count_where (tok_at i' j) (refs st')" .
    moreover from False c cnt' have "cnt st q j = Some c" by (auto split: if_splits)
    ultimately show ?thesis using counts_boundedD [OF b q', of j c] by simp
  qed
qed

lemma counts_exact_update:
  assumes b: "counts_exact cnt refs st" and d: "occupied_distinct (k_table st)"
    and p: "device_at st i = Some p" and sh: "k_shape st' = k_shape st"
    and cnt': "\<And>q j. cnt st' q j = (if q = p \<and> j = k then Some c' else cnt st q j)"
    and others: "\<And>i' j'. (i', j') \<noteq> (i, k) \<Longrightarrow>
      count_where (tok_at i' j') (refs st') = count_where (tok_at i' j') (refs st)"
    and c': "c' = int (count_where (tok_at i k) (refs st'))"
  shows "counts_exact cnt refs st'"
  unfolding counts_exact_def
proof (intro allI impI)
  fix i' q j c
  assume q: "device_at st' i' = Some q" and c: "cnt st' q j = Some c"
  from q have q': "device_at st i' = Some q" using k_shape_device_at [OF sh] by simp
  show "c = int (count_where (tok_at i' j) (refs st'))"
  proof (cases "q = p \<and> j = k")
    case True
    with q' p device_at_inj [OF d] have "i' = i" by blast
    with True c c' cnt' show ?thesis by simp
  next
    case False
    with q' p have "(i', j) \<noteq> (i, k)" by auto
    with others have "count_where (tok_at i' j) (refs st') = count_where (tok_at i' j) (refs st)" .
    moreover from False c cnt' have "cnt st q j = Some c" by (auto split: if_splits)
    ultimately show ?thesis using counts_exactD [OF b q', of j c] by simp
  qed
qed

lemma count_where_split:
  "count_where q l = count_where (\<lambda>x. q x \<and> r x) l + count_where q (filter (\<lambda>x. \<not> r x) l)"
  by (induction l) auto

lemma tok_at_other: "(i', j') \<noteq> (i, k) \<Longrightarrow> tok_at i k x \<Longrightarrow> \<not> tok_at i' j' x"
  by (auto simp: tok_at_def)

subsection \<open>The shared protocol\<close>

text \<open>
  \<open>get\<close> and \<open>put\<close> reach one resource of one device; \<open>refs\<close> is the list of references of
  its kind, \<open>other\<close> any observation of the other kind. The laws say how the accessors
  interact, and that \<open>claim\<close>, \<open>decr\<close> and the clean-up loop \<open>free\<close> are the protocol.
\<close>

locale ref_counted =
  fixes get :: "kstate \<Rightarrow> dptr \<Rightarrow> c_int \<Rightarrow> 'r option"
    and put :: "dptr \<Rightarrow> c_int \<Rightarrow> 'r \<Rightarrow> kstate \<Rightarrow> kstate"
    and cnt :: "kstate \<Rightarrow> dptr \<Rightarrow> c_int \<Rightarrow> c_int option"
    and count :: "'r \<Rightarrow> c_int"
    and with_count :: "c_int \<Rightarrow> 'r \<Rightarrow> 'r"
    and shared :: "'r \<Rightarrow> bool"
    and uio_ptr :: "'r \<Rightarrow> dptr option"
    and refs :: "kstate \<Rightarrow> cuddlk_resource_ref list"
    and put_refs :: "cuddlk_resource_ref list \<Rightarrow> kstate \<Rightarrow> kstate"
    and other :: "kstate \<Rightarrow> 'o"
    and claim :: "bool \<Rightarrow> dptr \<Rightarrow> c_int \<Rightarrow> c_int \<Rightarrow> kstate \<Rightarrow> (c_int \<times> kstate) option"
    and decr :: "dptr \<Rightarrow> c_int \<Rightarrow> kstate \<Rightarrow> (c_int \<times> kstate) option"
    and free :: "pid_t \<Rightarrow> cuddlk_resource_ref list \<Rightarrow> kstate \<Rightarrow> (cuddlk_resource_ref list \<times> kstate) option"
  assumes cnt_get: "cnt st p i = map_option count (get st p i)"
    and get_put: "get st p i = Some r \<Longrightarrow>
      get (put p i r' st) q j = (if q = p \<and> j = i then Some r' else get st q j)"
    and put_same: "get st p i = Some r \<Longrightarrow> put p i r st = st"
    and put_put: "put p i r'' (put p i r' st) = put p i r'' st"
    and put_shape: "get st p i = Some r \<Longrightarrow> k_shape (put p i (with_count c r) st) = k_shape st"
    and refs_put: "refs (put p i r st) = refs st"
    and other_put: "other (put p i r st) = other st"
    and get_modrefs: "get (st\<lparr>k_modrefs := f\<rparr>) = get st"
    and put_modrefs: "put p i r (st\<lparr>k_modrefs := f\<rparr>) = (put p i r st)\<lparr>k_modrefs := f\<rparr>"
    and modrefs_put: "k_modrefs (put p i r st) = k_modrefs st"
    and refs_modrefs: "refs (st\<lparr>k_modrefs := f\<rparr>) = refs st"
    and other_modrefs: "other (st\<lparr>k_modrefs := f\<rparr>) = other st"
    and refs_put_refs: "refs (put_refs l st) = l"
    and get_put_refs: "get (put_refs l st) = get st"
    and shape_put_refs: "k_shape (put_refs l st) = k_shape st"
    and other_put_refs: "other (put_refs l st) = other st"
    and count_laws: "count (with_count c r) = c" "with_count c (with_count c' r) = with_count c r"
      "with_count (count r) r = r" "shared (with_count c r) = shared r"
      "uio_ptr (with_count c r) = uio_ptr r"
    and claim_protocol: "claim ok p i hostile st = do {
        r \<leftarrow> get st p i;
        if count r > 0 \<and> \<not> shared r \<and> hostile = 0 then Some (- EBUSY, st)
        else do {
          owner \<leftarrow> uio_dev_owner st (uio_ptr r);
          Some (0, pin ok owner (put p i (with_count (c_int_wrap (count r + 1)) r) st))
        }
      }"
    and decr_protocol: "decr p i st = do {
        r \<leftarrow> get st p i;
        if count r = 0 then Some (- ENOSPC, st)
        else do {
          owner \<leftarrow> uio_dev_owner st (uio_ptr r);
          Some (0, unpin owner (put p i (with_count (c_int_wrap (count r - 1)) r) st))
        }
      }"
    and free_Nil: "free pid [] st = Some ([], st)"
    and free_Cons: "free pid (x # rest) st =
      (if ref_pid x = pid then do {
         dev \<leftarrow> device_at st (device_index (ref_token x));
         (ret, st') \<leftarrow> decr dev (resource_index (ref_token x)) st;
         free pid rest st'
       } else do {
         (kept, st') \<leftarrow> free pid rest st;
         Some (x # kept, st')
       })"
begin

lemma pin_simps:
  "get (pin ok owner st) = get st" "refs (pin ok owner st) = refs st"
  "other (pin ok owner st) = other st" "k_shape (pin ok owner st) = k_shape st"
  "get (unpin owner st) = get st" "refs (unpin owner st) = refs st"
  "other (unpin owner st) = other st" "k_shape (unpin owner st) = k_shape st"
  using pin_modrefs [of ok owner st] unpin_modrefs [of owner st]
  by (auto simp: get_modrefs refs_modrefs other_modrefs)

text \<open>The two outcomes of a claim.\<close>

lemma claim_busy:
  assumes "get st p i = Some r" "0 < count r" "\<not> shared r"
  shows "claim ok p i 0 st = Some (- EBUSY, st)"
  using assms by (simp add: claim_protocol)

lemma claim_granted:
  assumes "get st p i = Some r" "count r \<le> 0 \<or> shared r \<or> hostile \<noteq> 0"
    "uio_dev_owner st (uio_ptr r) = Some owner"
  shows "claim ok p i hostile st =
    Some (0, pin ok owner (put p i (with_count (c_int_wrap (count r + 1)) r) st))"
  using assms by (auto simp: claim_protocol)

lemma claim_total:
  assumes "get st p i = Some r" "uio_dev_owner st (uio_ptr r) \<noteq> None"
  shows "\<exists>ret st'. claim ok p i hostile st = Some (ret, st') \<and> (ret = 0 \<or> ret = - EBUSY)"
  using assms by (auto simp: claim_protocol)

text \<open>Whatever a claim returns, it changed at most the count of its resource.\<close>

lemma claim_effect:
  assumes "claim ok p i hostile st = Some (ret, st')" "get st p i = Some r"
  shows "k_shape st' = k_shape st" "refs st' = refs st" "other st' = other st"
    "ret = 0 \<Longrightarrow> get st' q j =
       (if q = p \<and> j = i then Some (with_count (c_int_wrap (count r + 1)) r) else get st q j)"
    "ret \<noteq> 0 \<Longrightarrow> st' = st \<and> ret = - EBUSY"
    "ret = 0 \<Longrightarrow> count r \<le> 0 \<or> shared r \<or> hostile \<noteq> 0"
  using assms
  by (auto simp: claim_protocol bind_eq_Some_conv pin_simps put_shape [OF assms(2)] refs_put
      other_put get_put [OF assms(2)] split: if_splits)

lemma zero_count: "count r = 0 \<Longrightarrow> with_count 0 r = r"
  using count_laws(3) [of r] by simp

lemma decr_effect:
  assumes "decr p i st = Some (ret, st')" "get st p i = Some r" "0 \<le> count r" "count r < 2 ^ 31"
  shows "k_shape st' = k_shape st" "refs st' = refs st" "other st' = other st"
    "get st' q j =
       (if q = p \<and> j = i then Some (with_count (max 0 (count r - 1)) r) else get st q j)"
    "ret = (if count r = 0 then - ENOSPC else 0)"
  using assms zero_count
  by (auto simp: decr_protocol bind_eq_Some_conv pin_simps put_shape [OF assms(2)] refs_put
      other_put get_put [OF assms(2)] count_laws(3) max_def split: if_splits)

lemma decr_total:
  assumes "get st p i = Some r" "uio_dev_owner st (uio_ptr r) \<noteq> None"
  shows "\<exists>ret st'. decr p i st = Some (ret, st')"
  using assms by (auto simp: decr_protocol)

text \<open>
  A granted claim that is undone leaves no trace, when the module could be pinned. (When
  it could not, the module's use count ends up one too low.)
\<close>

lemma claim_decr:
  assumes c: "claim ok p i hostile st = Some (0, st')" and r: "get st p i = Some r"
    and range: "0 \<le> count r" "count r < 2 ^ 31"
  shows "\<exists>owner. uio_dev_owner st (uio_ptr r) = Some owner \<and>
    decr p i st' = Some (0, unpin owner (pin ok owner st))"
proof -
  from c r obtain owner where o: "uio_dev_owner st (uio_ptr r) = Some owner"
    and st': "st' = pin ok owner (put p i (with_count (c_int_wrap (count r + 1)) r) st)"
    by (auto simp: claim_protocol bind_eq_Some_conv split: if_splits)
  have nz: "c_int_wrap (count r + 1) \<noteq> 0"
  proof (cases "count r = 2 ^ 31 - 1")
    case False
    with range have "c_int_wrap (count r + 1) = count r + 1" by (intro c_int_wrap_id) auto
    with range show ?thesis by simp
  qed (simp add: c_int_wrap_def)
  have get': "get st' p i = Some (with_count (c_int_wrap (count r + 1)) r)"
    using r by (simp add: st' pin_simps get_put)
  have sh: "k_shape st' = k_shape st" using claim_effect(1) [OF c r] .
  obtain f where f: "pin ok owner st = st\<lparr>k_modrefs := f\<rparr>"
    "pin ok owner (put p i (with_count (c_int_wrap (count r + 1)) r) st) =
       (put p i (with_count (c_int_wrap (count r + 1)) r) st)\<lparr>k_modrefs := f\<rparr>"
    by (cases owner; cases ok) (auto simp: pin_def try_module_get_def modrefs_put
        intro: that [of "k_modrefs st"])
  have "put p i (with_count (count r) r) st' = pin ok owner st"
    by (simp add: st' f put_modrefs put_put count_laws put_same [OF r])
  with get' o nz range show ?thesis
    by (simp add: decr_protocol count_laws uio_dev_owner_cong [OF sh] c_int_wrap_pred_succ)
qed

text \<open>A granted claim and the reference that the IOCTL records for it.\<close>

lemma claim_add_bounded:
  assumes c: "claim ok p j hostile st = Some (0, st')" and r: "get st p j = Some r"
    and p: "device_at st i = Some p" and d: "occupied_distinct (k_table st)"
    and b: "counts_bounded cnt refs st" and len: "length (refs st) < 2 ^ 31 - 1"
    and x: "tok_at i j x"
  shows "counts_bounded cnt refs (put_refs (x # refs st') st')"
proof -
  note eff = claim_effect(1-4) [OF c r]
  from r have c0: "cnt st p j = Some (count r)" by (simp add: cnt_get)
  from counts_boundedD [OF b p c0] count_where_le_length [of "tok_at i j" "refs st"] len
  have cr: "0 \<le> count r" "count r < 2 ^ 31 - 1" "count r \<le> int (count_where (tok_at i j) (refs st))"
    by auto
  show ?thesis
  proof (rule counts_bounded_update [OF b d p, where c' = "count r + 1" and k = j])
    show "k_shape (put_refs (x # refs st') st') = k_shape st"
      by (simp add: shape_put_refs eff)
    show "cnt (put_refs (x # refs st') st') q j' =
        (if q = p \<and> j' = j then Some (count r + 1) else cnt st q j')" for q j'
      using cr by (simp add: cnt_get get_put_refs eff(4) count_laws)
  qed (use cr x in \<open>auto simp: refs_put_refs eff(2) tok_at_other\<close>)
qed

lemma claim_add_exact:
  assumes c: "claim ok p j hostile st = Some (0, st')" and r: "get st p j = Some r"
    and p: "device_at st i = Some p" and d: "occupied_distinct (k_table st)"
    and b: "counts_exact cnt refs st" and len: "length (refs st) < 2 ^ 31 - 1"
    and x: "tok_at i j x"
  shows "counts_exact cnt refs (put_refs (x # refs st') st')"
proof -
  note eff = claim_effect(1-4) [OF c r]
  from r have c0: "cnt st p j = Some (count r)" by (simp add: cnt_get)
  from counts_exactD [OF b p c0] count_where_le_length [of "tok_at i j" "refs st"] len
  have cr: "0 \<le> count r" "count r < 2 ^ 31 - 1" "count r = int (count_where (tok_at i j) (refs st))"
    by auto
  show ?thesis
  proof (rule counts_exact_update [OF b d p, where c' = "count r + 1" and k = j])
    show "k_shape (put_refs (x # refs st') st') = k_shape st"
      by (simp add: shape_put_refs eff)
    show "cnt (put_refs (x # refs st') st') q j' =
        (if q = p \<and> j' = j then Some (count r + 1) else cnt st q j')" for q j'
      using cr by (simp add: cnt_get get_put_refs eff(4) count_laws)
  qed (use cr x in \<open>auto simp: refs_put_refs eff(2) tok_at_other\<close>)
qed

text \<open>A decrement, alone and followed by the removal of one reference.\<close>

lemma decr_bounded:
  assumes c: "decr p j st = Some (ret, st')" and r: "get st p j = Some r"
    and p: "device_at st i = Some p" and d: "occupied_distinct (k_table st)"
    and b: "counts_bounded cnt refs st" and range: "count r < 2 ^ 31"
  shows "counts_bounded cnt refs st'"
proof -
  from r have c0: "cnt st p j = Some (count r)" by (simp add: cnt_get)
  note cr = counts_boundedD [OF b p c0]
  note eff = decr_effect(1-4) [OF c r conjunct1 [OF cr] range]
  show ?thesis
  proof (rule counts_bounded_update [OF b d p eff(1), where c' = "max 0 (count r - 1)" and k = j])
    show "cnt st' q j' = (if q = p \<and> j' = j then Some (max 0 (count r - 1)) else cnt st q j')" for q j'
      by (simp add: cnt_get eff(4) count_laws)
  qed (use cr in \<open>auto simp: eff(2)\<close>)
qed

lemma decr_delete_bounded:
  assumes c: "decr p j st = Some (ret, st')" and r: "get st p j = Some r"
    and p: "device_at st i = Some p" and d: "occupied_distinct (k_table st)"
    and b: "counts_bounded cnt refs st" and range: "count r < 2 ^ 31"
    and q: "\<And>x. q x \<Longrightarrow> tok_at i j x"
  shows "counts_bounded cnt refs (put_refs (snd (delete_first q (refs st'))) st')"
proof -
  from r have c0: "cnt st p j = Some (count r)" by (simp add: cnt_get)
  note cr = counts_boundedD [OF b p c0]
  note eff = decr_effect(1-4) [OF c r conjunct1 [OF cr] range]
  have "count_where (tok_at i j) (refs st) \<le> Suc (count_where (tok_at i j) (snd (delete_first q (refs st))))"
  proof (cases "\<exists>y \<in> set (refs st). q y")
    case True
    then show ?thesis using count_delete_first [of q "tok_at i j" _ "refs st"] q by fastforce
  qed (simp add: delete_first_not_found)
  with cr have c': "max 0 (count r - 1) \<le> int (count_where (tok_at i j) (snd (delete_first q (refs st))))"
    by auto
  show ?thesis
  proof (rule counts_bounded_update [OF b d p, where c' = "max 0 (count r - 1)" and k = j])
    show "k_shape (put_refs (snd (delete_first q (refs st'))) st') = k_shape st"
      by (simp add: shape_put_refs eff)
    show "cnt (put_refs (snd (delete_first q (refs st'))) st') q' j' =
        (if q' = p \<and> j' = j then Some (max 0 (count r - 1)) else cnt st q' j')" for q' j'
      by (simp add: cnt_get get_put_refs eff(4) count_laws)
    show "count_where (tok_at i' j') (refs st)
        \<le> count_where (tok_at i' j') (refs (put_refs (snd (delete_first q (refs st'))) st'))"
      if "(i', j') \<noteq> (i, j)" for i' j'
      using tok_at_other [OF that] q
      by (simp add: refs_put_refs eff(2) count_delete_first_other)
  qed (use c' in \<open>simp_all add: refs_put_refs eff(2)\<close>)
qed

lemma decr_delete_exact:
  assumes c: "decr p j st = Some (ret, st')" and r: "get st p j = Some r"
    and p: "device_at st i = Some p" and d: "occupied_distinct (k_table st)"
    and b: "counts_exact cnt refs st" and range: "count r < 2 ^ 31"
    and q: "\<And>x. q x \<Longrightarrow> tok_at i j x" and held: "y \<in> set (refs st)" "q y"
  shows "counts_exact cnt refs (put_refs (snd (delete_first q (refs st'))) st')"
proof -
  from r have c0: "cnt st p j = Some (count r)" by (simp add: cnt_get)
  note cr = counts_exactD [OF b p c0]
  with range have cr0: "0 \<le> count r" by simp
  note eff = decr_effect(1-4) [OF c r cr0 range]
  from count_delete_first [of q "tok_at i j" y "refs st", OF q held]
  have c': "max 0 (count r - 1) = int (count_where (tok_at i j) (snd (delete_first q (refs st))))"
    using cr by simp
  show ?thesis
  proof (rule counts_exact_update [OF b d p, where c' = "max 0 (count r - 1)" and k = j])
    show "k_shape (put_refs (snd (delete_first q (refs st'))) st') = k_shape st"
      by (simp add: shape_put_refs eff)
    show "cnt (put_refs (snd (delete_first q (refs st'))) st') q' j' =
        (if q' = p \<and> j' = j then Some (max 0 (count r - 1)) else cnt st q' j')" for q' j'
      by (simp add: cnt_get get_put_refs eff(4) count_laws)
    show "count_where (tok_at i' j') (refs (put_refs (snd (delete_first q (refs st'))) st'))
        = count_where (tok_at i' j') (refs st)"
      if "(i', j') \<noteq> (i, j)" for i' j'
      using tok_at_other [OF that] q
      by (simp add: refs_put_refs eff(2) count_delete_first_other)
  qed (use c' in \<open>simp_all add: refs_put_refs eff(2)\<close>)
qed

text \<open>No operation makes a resource appear.\<close>

lemma none_decr: "decr p i st = Some (ret, st') \<Longrightarrow> get st q j = None \<Longrightarrow> get st' q j = None"
  by (auto simp: decr_protocol bind_eq_Some_conv pin_simps get_put split: if_splits)

lemma none_get: "free pid l st = Some (kept, st') \<Longrightarrow> get st q j = None \<Longrightarrow> get st' q j = None"
proof (induction l arbitrary: st kept)
  case Nil
  then show ?case by (simp add: free_Nil)
next
  case (Cons x l)
  then show ?case
    by (fastforce simp: free_Cons bind_eq_Some_conv split: if_splits prod.splits dest: none_decr)
qed

text \<open>
  The clean-up loop. Where every reference points to a managed resource with an owner and
  a count in range, it returns, keeps the references of other processes in order, and
  takes the references of the process off the counts, stopping at zero.
\<close>

lemma free_effect:
  assumes "refs_placed cnt l st" "occupied_distinct (k_table st)"
    and "\<forall>i p j r. device_at st i = Some p \<longrightarrow> get st p j = Some r \<longrightarrow>
      uio_dev_owner st (uio_ptr r) \<noteq> None \<and> 0 \<le> count r \<and> count r < 2 ^ 31"
  shows "\<exists>st'. free pid l st = Some (filter (\<lambda>x. ref_pid x \<noteq> pid) l, st') \<and>
    k_shape st' = k_shape st \<and> refs st' = refs st \<and> other st' = other st \<and>
    (\<forall>i p j r. device_at st i = Some p \<longrightarrow> get st p j = Some r \<longrightarrow>
       get st' p j = Some (with_count
         (max 0 (count r - int (count_where (\<lambda>x. tok_at i j x \<and> ref_pid x = pid) l))) r))"
  using assms
proof (induction l arbitrary: st)
  case Nil
  then show ?case by (force simp: free_Nil count_laws(3) max_def)
next
  case (Cons x l)
  let ?i = "device_index (ref_token x)" and ?j = "resource_index (ref_token x)"
  show ?case
  proof (cases "ref_pid x = pid")
    case False
    from Cons.prems(1) have "refs_placed cnt l st" by (simp add: refs_placed_def)
    from Cons.IH [OF this Cons.prems(2,3)] obtain st' where
      "free pid l st = Some (filter (\<lambda>x. ref_pid x \<noteq> pid) l, st')"
      "k_shape st' = k_shape st" "refs st' = refs st" "other st' = other st"
      "\<forall>i p j r. device_at st i = Some p \<longrightarrow> get st p j = Some r \<longrightarrow>
         get st' p j = Some (with_count
           (max 0 (count r - int (count_where (\<lambda>x. tok_at i j x \<and> ref_pid x = pid) l))) r)"
      by blast
    with False show ?thesis by (auto simp: free_Cons)
  next
    case True
    from Cons.prems(1) obtain p r where p: "device_at st ?i = Some p" and r: "get st p ?j = Some r"
      by (auto simp: refs_placed_def cnt_get)
    from Cons.prems(3) p r
    have ok: "uio_dev_owner st (uio_ptr r) \<noteq> None \<and> 0 \<le> count r \<and> count r < 2 ^ 31" by blast
    from decr_total [OF r] ok obtain ret st1 where d: "decr p ?j st = Some (ret, st1)" by blast
    note eff = decr_effect(1-4) [OF d r]
    have eff': "k_shape st1 = k_shape st" "refs st1 = refs st" "other st1 = other st"
      "\<And>q j. get st1 q j = (if q = p \<and> j = ?j then Some (with_count (max 0 (count r - 1)) r) else get st q j)"
      using eff ok by auto
    have at: "device_at st1 = device_at st" using k_shape_device_at [OF eff'(1)] .
    have placed: "refs_placed cnt l st1"
      unfolding refs_placed_def
    proof
      fix y
      assume "y \<in> set l"
      with Cons.prems(1) obtain q where "device_at st (device_index (ref_token y)) = Some q"
        "cnt st q (resource_index (ref_token y)) \<noteq> None"
        by (auto simp: refs_placed_def)
      then show "\<exists>p. device_at st1 (device_index (ref_token y)) = Some p \<and>
          cnt st1 p (resource_index (ref_token y)) \<noteq> None"
        by (simp add: at cnt_get eff'(4))
    qed
    have dist: "occupied_distinct (k_table st1)"
      using Cons.prems(2) k_shape_table [OF eff'(1)] by simp
    have ok1: "uio_dev_owner st1 (uio_ptr r1) \<noteq> None \<and> 0 \<le> count r1 \<and> count r1 < 2 ^ 31"
      if "device_at st1 i = Some q" "get st1 q j = Some r1" for i q j r1
    proof -
      from that have q: "device_at st i = Some q" by (simp add: at)
      show ?thesis
        using that(2) Cons.prems(3) q ok
        by (auto simp: eff'(4) uio_dev_owner_cong [OF eff'(1)] count_laws split: if_splits)
    qed
    from ok1 have ok1': "\<forall>i p j r. device_at st1 i = Some p \<longrightarrow> get st1 p j = Some r \<longrightarrow>
      uio_dev_owner st1 (uio_ptr r) \<noteq> None \<and> 0 \<le> count r \<and> count r < 2 ^ 31"
      by blast
    from Cons.IH [OF placed dist ok1'] obtain st' where
      st': "free pid l st1 = Some (filter (\<lambda>x. ref_pid x \<noteq> pid) l, st')"
      and fr: "k_shape st' = k_shape st1" "refs st' = refs st1" "other st' = other st1"
      and get': "\<And>i p j r. device_at st1 i = Some p \<Longrightarrow> get st1 p j = Some r \<Longrightarrow>
       get st' p j = Some (with_count
         (max 0 (count r - int (count_where (\<lambda>x. tok_at i j x \<and> ref_pid x = pid) l))) r)"
      by blast
    have "get st' q j = Some (with_count
         (max 0 (count s - int (count_where (\<lambda>x. tok_at i j x \<and> ref_pid x = pid) (x # l)))) s)"
      if q: "device_at st i = Some q" and s: "get st q j = Some s" for i q j s
    proof (cases "q = p \<and> j = ?j")
      case same: True
      with q p device_at_inj [OF Cons.prems(2)] have "i = ?i" by blast
      with same r s True have "tok_at i j x" "s = r" by (simp_all add: tok_at_def)
      moreover have "get st' q j = Some (with_count
          (max 0 (max 0 (count r - 1) - int (count_where (\<lambda>x. tok_at i j x \<and> ref_pid x = pid) l))) r)"
        using get' [of i q j] q same by (simp add: at eff'(4) count_laws)
      moreover have "max 0 (max 0 (count r - 1) - int n) = max 0 (count r - int (Suc n))" for n
        by linarith
      ultimately show ?thesis using True by simp
    next
      case diff: False
      with q p have "\<not> tok_at i j x" by (auto simp: tok_at_def)
      with get' [of i q j s] q s diff show ?thesis by (simp add: at eff'(4))
    qed
    with True p d st' fr eff' show ?thesis by (simp add: free_Cons)
  qed
qed

text \<open>Both relations between counts and references survive the clean-up.\<close>

lemma free_counts:
  assumes "refs_placed cnt (refs st) st" "occupied_distinct (k_table st)"
    and "\<forall>i p j r. device_at st i = Some p \<longrightarrow> get st p j = Some r \<longrightarrow>
      uio_dev_owner st (uio_ptr r) \<noteq> None"
    and b: "counts_bounded cnt refs st" and len: "length (refs st) < 2 ^ 31"
  shows "\<exists>st'. free pid (refs st) st = Some (filter (\<lambda>x. ref_pid x \<noteq> pid) (refs st), st') \<and>
    k_shape st' = k_shape st \<and> other st' = other st \<and>
    counts_bounded cnt refs (put_refs (filter (\<lambda>x. ref_pid x \<noteq> pid) (refs st)) st') \<and>
    (counts_exact cnt refs st \<longrightarrow>
       counts_exact cnt refs (put_refs (filter (\<lambda>x. ref_pid x \<noteq> pid) (refs st)) st'))"
proof -
  let ?kept = "filter (\<lambda>x. ref_pid x \<noteq> pid) (refs st)"
  have "0 \<le> count r \<and> count r < 2 ^ 31" if "device_at st i = Some p" "get st p j = Some r" for i p j r
    using counts_boundedD [OF b that(1), of j "count r"] that(2) len
      count_where_le_length [of "tok_at i j" "refs st"] by (simp add: cnt_get)
  with assms(3) have "\<forall>i p j r. device_at st i = Some p \<longrightarrow> get st p j = Some r \<longrightarrow>
      uio_dev_owner st (uio_ptr r) \<noteq> None \<and> 0 \<le> count r \<and> count r < 2 ^ 31" by blast
  from free_effect [OF assms(1,2) this] obtain st' where
    fr: "free pid (refs st) st = Some (?kept, st')" "k_shape st' = k_shape st" "other st' = other st"
    and get': "\<And>i p j r. device_at st i = Some p \<Longrightarrow> get st p j = Some r \<Longrightarrow>
       get st' p j = Some (with_count
         (max 0 (count r - int (count_where (\<lambda>x. tok_at i j x \<and> ref_pid x = pid) (refs st)))) r)"
    by blast
  have at: "device_at (put_refs ?kept st') = device_at st"
    using k_shape_device_at [of "put_refs ?kept st'" st] by (simp add: shape_put_refs fr(2))
  have shp: "k_shape (put_refs ?kept st') = k_shape st" by (simp add: shape_put_refs fr(2))
  have old: "\<exists>r. get st p j = Some r \<and>
      c = max 0 (count r - int (count_where (\<lambda>x. tok_at i j x \<and> ref_pid x = pid) (refs st)))"
    if p: "device_at (put_refs ?kept st') i = Some p" and c: "cnt (put_refs ?kept st') p j = Some c"
    for i p j c
  proof -
    from c obtain r' where r': "get st' p j = Some r'" by (auto simp: cnt_get get_put_refs)
    have "get st p j \<noteq> None"
    proof
      assume none: "get st p j = None"
      from none_get [OF fr(1) none] r' show False by simp
    qed
    then obtain r where "get st p j = Some r" by auto
    with get' [of i p j r] p c show ?thesis by (simp add: at cnt_get get_put_refs count_laws)
  qed
  have split: "count_where (tok_at i j) (refs st) =
      count_where (\<lambda>x. tok_at i j x \<and> ref_pid x = pid) (refs st) + count_where (tok_at i j) ?kept" for i j
    using count_where_split [of "tok_at i j" "refs st" "\<lambda>x. ref_pid x = pid"] .
  have "counts_bounded cnt refs (put_refs ?kept st')"
    unfolding counts_bounded_def
  proof (intro allI impI)
    fix i p j c
    assume p: "device_at (put_refs ?kept st') i = Some p" and c: "cnt (put_refs ?kept st') p j = Some c"
    from old [OF p c] obtain r where r: "get st p j = Some r"
      "c = max 0 (count r - int (count_where (\<lambda>x. tok_at i j x \<and> ref_pid x = pid) (refs st)))"
      by blast
    with counts_boundedD [OF b, of i p j "count r"] p split [of i j]
    show "0 \<le> c \<and> c \<le> int (count_where (tok_at i j) (refs (put_refs ?kept st')))"
      by (simp add: at cnt_get refs_put_refs)
  qed
  moreover have "counts_exact cnt refs (put_refs ?kept st')" if e: "counts_exact cnt refs st"
    unfolding counts_exact_def
  proof (intro allI impI)
    fix i p j c
    assume p: "device_at (put_refs ?kept st') i = Some p" and c: "cnt (put_refs ?kept st') p j = Some c"
    from old [OF p c] obtain r where r: "get st p j = Some r"
      "c = max 0 (count r - int (count_where (\<lambda>x. tok_at i j x \<and> ref_pid x = pid) (refs st)))"
      by blast
    with counts_exactD [OF e, of i p j "count r"] p split [of i j]
    show "c = int (count_where (tok_at i j) (refs (put_refs ?kept st')))"
      by (simp add: at cnt_get refs_put_refs)
  qed
  ultimately show ?thesis using fr by blast
qed

text \<open>
  Exclusive use. With exact counts, a resource that is not shared and that some process
  holds is refused to everybody else, and one that nobody holds is granted.
\<close>

lemma held_refused:
  assumes "counts_exact cnt refs st" "device_at st i = Some p" "get st p j = Some r"
    and "\<not> shared r" "x \<in> set (refs st)" "tok_at i j x"
  shows "claim ok p j 0 st = Some (- EBUSY, st)"
proof -
  from counts_exactD [OF assms(1,2), of j "count r"] assms(3)
  have "count r = int (count_where (tok_at i j) (refs st))" by (simp add: cnt_get)
  moreover have "0 < count_where (tok_at i j) (refs st)"
    using assms(5,6) by (auto simp: count_where_pos_iff)
  ultimately show ?thesis using claim_busy [OF assms(3)] assms(4) by simp
qed

lemma free_granted:
  assumes "counts_bounded cnt refs st" "device_at st i = Some p" "get st p j = Some r"
    and "uio_dev_owner st (uio_ptr r) \<noteq> None" "\<And>x. x \<in> set (refs st) \<Longrightarrow> \<not> tok_at i j x"
  shows "\<exists>st'. claim ok p j hostile st = Some (0, st')"
proof -
  from counts_boundedD [OF assms(1,2), of j "count r"] assms(3)
  have "count r \<le> int (count_where (tok_at i j) (refs st))" by (simp add: cnt_get)
  moreover have "count_where (tok_at i j) (refs st) = 0"
    using assms(5) by (simp add: count_where_0_iff)
  ultimately show ?thesis using claim_granted [OF assms(3)] assms(4) by auto
qed

end

text \<open>Memory regions and event sources are reference counted in this sense.\<close>

lemma get_put_memregion:
  "get_memregion st p i = Some m \<Longrightarrow>
     get_memregion (put_memregion p i m' st) q j = (if q = p \<and> j = i then Some m' else get_memregion st q j)"
  by (auto simp: get_memregion_def put_memregion_def arr_get_arr_set bind_eq_Some_conv)

lemma get_put_eventsrc:
  "get_eventsrc st p i = Some m \<Longrightarrow>
     get_eventsrc (put_eventsrc p i m' st) q j = (if q = p \<and> j = i then Some m' else get_eventsrc st q j)"
  by (auto simp: get_eventsrc_def put_eventsrc_def arr_get_arr_set bind_eq_Some_conv)

lemma set_dev_same: "k_heap st p = Some d \<Longrightarrow> set_dev p d st = st"
  by (simp add: set_dev_def fun_upd_idem)

lemma put_memregion_same: "get_memregion st p i = Some m \<Longrightarrow> put_memregion p i m st = st"
  by (auto simp: get_memregion_def put_memregion_def arr_set_same set_dev_same bind_eq_Some_conv)

lemma put_eventsrc_same: "get_eventsrc st p i = Some m \<Longrightarrow> put_eventsrc p i m st = st"
  by (auto simp: get_eventsrc_def put_eventsrc_def arr_set_same set_dev_same bind_eq_Some_conv)

lemma put_memregion_put:
  "put_memregion p i m' (put_memregion p i m st) = put_memregion p i m' st"
  by (auto simp: put_memregion_def set_dev_def split: option.splits)

lemma put_eventsrc_put:
  "put_eventsrc p i e' (put_eventsrc p i e st) = put_eventsrc p i e' st"
  by (auto simp: put_eventsrc_def set_dev_def split: option.splits)

lemma put_modrefs:
  "put_memregion p i m (st\<lparr>k_modrefs := f\<rparr>) = (put_memregion p i m st)\<lparr>k_modrefs := f\<rparr>"
  "put_eventsrc p i e (st\<lparr>k_modrefs := f\<rparr>) = (put_eventsrc p i e st)\<lparr>k_modrefs := f\<rparr>"
  by (auto simp: put_memregion_def put_eventsrc_def set_dev_def split: option.splits)

lemma memregion_protocol:
  "memregion_claim ok p i hostile st = do {
     r \<leftarrow> get_memregion st p i;
     if mr_ref_count r > 0 \<and> \<not> has_flag (mr_flags r) CUDDLK_MEMF_SHARED \<and> hostile = 0
     then Some (- EBUSY, st)
     else do {
       owner \<leftarrow> uio_dev_owner st (mr_uio_ptr r);
       Some (0, pin ok owner
         (put_memregion p i (r\<lparr>mr_ref_count := c_int_wrap (mr_ref_count r + 1)\<rparr>) st))
     }
   }"
  "memregion_decr_ref_count p i st = do {
     r \<leftarrow> get_memregion st p i;
     if mr_ref_count r = 0 then Some (- ENOSPC, st)
     else do {
       owner \<leftarrow> uio_dev_owner st (mr_uio_ptr r);
       Some (0, unpin owner
         (put_memregion p i (r\<lparr>mr_ref_count := c_int_wrap (mr_ref_count r - 1)\<rparr>) st))
     }
   }"
  unfolding memregion_claim_def memregion_decr_ref_count_def pin_def unpin_def Let_def by (rule refl)+

lemma eventsrc_protocol:
  "eventsrc_claim ok p i hostile st = do {
     r \<leftarrow> get_eventsrc st p i;
     if ev_ref_count r > 0 \<and> \<not> has_flag (ev_flags r) CUDDLK_EVENTSRCF_SHARED \<and> hostile = 0
     then Some (- EBUSY, st)
     else do {
       owner \<leftarrow> uio_dev_owner st (ev_uio_ptr r);
       Some (0, pin ok owner
         (put_eventsrc p i (r\<lparr>ev_ref_count := c_int_wrap (ev_ref_count r + 1)\<rparr>) st))
     }
   }"
  "eventsrc_decr_ref_count p i st = do {
     r \<leftarrow> get_eventsrc st p i;
     if ev_ref_count r = 0 then Some (- ENOSPC, st)
     else do {
       owner \<leftarrow> uio_dev_owner st (ev_uio_ptr r);
       Some (0, unpin owner
         (put_eventsrc p i (r\<lparr>ev_ref_count := c_int_wrap (ev_ref_count r - 1)\<rparr>) st))
     }
   }"
  unfolding eventsrc_claim_def eventsrc_decr_ref_count_def pin_def unpin_def Let_def by (rule refl)+

lemmas memregion_laws = memregion_count_def get_put_memregion put_memregion_same put_memregion_shape
  put_memregion_put put_modrefs memregion_protocol device_at_def

lemmas eventsrc_laws = eventsrc_count_def get_put_eventsrc put_eventsrc_same put_eventsrc_shape
  put_eventsrc_put put_modrefs eventsrc_protocol device_at_def

interpretation mem: ref_counted get_memregion put_memregion memregion_count mr_ref_count
  "\<lambda>c m. m\<lparr>mr_ref_count := c\<rparr>" "\<lambda>m. has_flag (mr_flags m) CUDDLK_MEMF_SHARED" mr_uio_ptr
  cuddlk_mem_refs "\<lambda>l st. st\<lparr>cuddlk_mem_refs := l\<rparr>"
  "\<lambda>st. (get_eventsrc st, cuddlk_event_refs st)"
  memregion_claim memregion_decr_ref_count free_mem_refs
  by unfold_locales (simp_all add: memregion_laws)

interpretation ev: ref_counted get_eventsrc put_eventsrc eventsrc_count ev_ref_count
  "\<lambda>c e. e\<lparr>ev_ref_count := c\<rparr>" "\<lambda>e. has_flag (ev_flags e) CUDDLK_EVENTSRCF_SHARED" ev_uio_ptr
  cuddlk_event_refs "\<lambda>l st. st\<lparr>cuddlk_event_refs := l\<rparr>"
  "\<lambda>st. (get_memregion st, cuddlk_mem_refs st)"
  eventsrc_claim eventsrc_decr_ref_count free_event_refs
  by unfold_locales (simp_all add: eventsrc_laws)

end
