(* ===== verification/Device_Registration.thy ===== *)
theory Device_Registration
  imports Ref_Counting
begin

section \<open>Registering devices with UIO and UDD (cuddlk_linux.c)\<close>

text \<open>
  Registration fills in the UIO and UDD structures of a device and registers them; its
  clean-up function undoes the steps that were reached. The kernel services it calls are
  parameters: \<open>reg_env\<close> says whether each of them succeeds and what it returns. What a
  service is documented to leave behind is written out: a registered UIO device is live
  until \<^verbatim>\<open>uio_unregister_device\<close>, which accepts a structure that was never
  registered and must not see one that was unregistered before.
\<close>

record reg_env =
  kasprintf_ok :: bool
  uio_register_ret :: c_int
  uio_register_minor :: c_int
  udd_register_ret :: c_int
  udd_unregister_ret :: c_int

subsection \<open>Sizes\<close>

text \<open>\<^verbatim>\<open>int lower\<close> truncates the page number, and \<^verbatim>\<open>lower + 1\<close> is an \<^verbatim>\<open>int\<close> sum.\<close>

definition page_size_aligned :: "kcfg \<Rightarrow> size_t \<Rightarrow> size_t" where
  "page_size_aligned cfg i =
     (if i mod page_size cfg = 0 then i
      else let lower = int_of_size (i div page_size cfg)
           in page_size cfg * word_of_int (c_int_wrap (lower + 1)))"

text \<open>The compile-time assertions, as a condition on the configuration.\<close>

definition check_assertions :: "kcfg \<Rightarrow> bool" where
  "check_assertions cfg \<longleftrightarrow> memt_none cfg = 0 \<and> irq_none cfg = 0 \<and>
     (use_udd cfg \<longrightarrow> memt_none cfg = udd_mem_none cfg \<and> memt_phys cfg = udd_mem_phys cfg \<and>
        memt_logical cfg = udd_mem_logical cfg \<and> memt_virtual cfg = udd_mem_virtual cfg)"

subsection \<open>Undoing a registration\<close>

datatype cuddlk_registration_failure =
    CUDDLK_FAIL_NULL_GROUP
  | CUDDLK_FAIL_NULL_NAME
  | CUDDLK_FAIL_UNIQUE_NAME
  | CUDDLK_FAIL_UIO_REGISTER
  | CUDDLK_FAIL_UDD_REGISTER
  | CUDDLK_NO_FAILURE

definition udd_unregister_device :: "reg_env \<Rightarrow> cuddlk_device \<Rightarrow> (c_int \<times> cuddlk_device) option" where
  "udd_unregister_device env dev =
     (if udd_registered (d_udd dev)
      then Some (udd_unregister_ret env, dev\<lparr>d_udd := (d_udd dev)\<lparr>udd_registered := False\<rparr>\<rparr>)
      else None)"

definition rtdm_nrtsig_destroy :: "cuddlk_device \<Rightarrow> cuddlk_device option" where
  "rtdm_nrtsig_destroy dev = do {
     eventsrc \<leftarrow> arr_get (d_events dev) 0;
     if ev_nrt_sig eventsrc
     then Some (dev\<lparr>d_events := arr_set (d_events dev) 0 (eventsrc\<lparr>ev_nrt_sig := False\<rparr>)\<rparr>)
     else None
   }"

definition uio_unregister_device :: "cuddlk_device \<Rightarrow> cuddlk_device option" where
  "uio_unregister_device dev =
     (case uio_dev (d_uio dev) of
        Null \<Rightarrow> Some dev
      | Live _ \<Rightarrow> Some (dev\<lparr>d_uio := (d_uio dev)\<lparr>uio_dev := Freed\<rparr>\<rparr>)
      | Freed \<Rightarrow> None)"

text \<open>The cases of the switch fall through from \<open>CUDDLK_NO_FAILURE\<close> downwards.\<close>

definition cuddlk_cleanup ::
  "kcfg \<Rightarrow> reg_env \<Rightarrow> dptr \<Rightarrow> cuddlk_registration_failure \<Rightarrow> kstate \<Rightarrow> (c_int \<times> kstate) option" where
  "cuddlk_cleanup cfg env p failure st = do {
     dev \<leftarrow> k_heap st p;
     (ret, dev) \<leftarrow>
       (if failure = CUDDLK_NO_FAILURE \<and> use_udd cfg then udd_unregister_device env dev
        else Some (0, dev));
     dev \<leftarrow>
       (if failure \<in> {CUDDLK_NO_FAILURE, CUDDLK_FAIL_UDD_REGISTER} then do {
          dev \<leftarrow> (if use_udd cfg then rtdm_nrtsig_destroy dev else Some dev);
          uio_unregister_device dev
        } else Some dev);
     dev \<leftarrow>
       (if failure \<in> {CUDDLK_NO_FAILURE, CUDDLK_FAIL_UDD_REGISTER, CUDDLK_FAIL_UIO_REGISTER} then do {
          unique_name \<leftarrow> kfree (d_unique_name dev);
          Some (dev\<lparr>d_unique_name := unique_name\<rparr>)
        } else Some dev);
     Some (ret, set_dev p dev st)
   }"

subsection \<open>Registration\<close>

text \<open>One round of the loop over the memory regions.\<close>

definition region_setup :: "kcfg \<Rightarrow> dptr \<Rightarrow> cuddlk_memregion \<Rightarrow> cuddlk_memregion" where
  "region_setup cfg p m =
     (let m1 = m\<lparr>mr_uio_ptr := Some p\<rparr>;
          m2 = (if mr_len m1 = 0 then m1\<lparr>mr_len := mr_pa_len m1\<rparr> else m1)
      in if mr_pa_len m2 = 0
         then m2\<lparr>mr_pa_len := page_size_aligned cfg (mr_len m2 + mr_start_offset m2)\<rparr>
         else m2)"

definition uio_mem_of :: "cuddlk_memregion \<Rightarrow> uio_mem" where
  "uio_mem_of m = \<lparr>um_name = mr_name m, um_addr = mr_pa_addr m, um_offs = mr_start_offset m,
     um_size = mr_pa_len m, um_memtype = mr_type m\<rparr>"

definition udd_memregion_of :: "cuddlk_memregion \<Rightarrow> udd_memregion" where
  "udd_memregion_of m = \<lparr>ux_name = mr_name m, ux_addr = mr_pa_addr m, ux_len = mr_pa_len m,
     ux_type = mr_type m\<rparr>"

definition uio_with_map :: "kcfg \<Rightarrow> nat \<Rightarrow> cuddlk_memregion \<Rightarrow> uio_info \<Rightarrow> uio_info" where
  "uio_with_map cfg i m uio =
     (if i < max_uio_maps cfg
      then uio\<lparr>uio_maps := arr_set (uio_maps uio) (int i) (uio_mem_of m)\<rparr> else uio)"

definition udd_with_map :: "kcfg \<Rightarrow> nat \<Rightarrow> cuddlk_memregion \<Rightarrow> udd_device \<Rightarrow> udd_device" where
  "udd_with_map cfg i m udd =
     (if use_udd cfg \<and> i < udd_nr_maps cfg
      then udd\<lparr>udd_mem_regions := arr_set (udd_mem_regions udd) (int i) (udd_memregion_of m)\<rparr> else udd)"

fun register_regions :: "kcfg \<Rightarrow> dptr \<Rightarrow> nat list \<Rightarrow> cuddlk_device \<Rightarrow> cuddlk_device option" where
  "register_regions cfg p [] dev = Some dev"
| "register_regions cfg p (i # is) dev = do {
     mem_i \<leftarrow> arr_get (d_mem dev) (int i);
     let m = region_setup cfg p mem_i;
     register_regions cfg p is
       (dev\<lparr>d_mem := arr_set (d_mem dev) (int i) m,
            d_uio := uio_with_map cfg i m (d_uio dev),
            d_udd := udd_with_map cfg i m (d_udd dev)\<rparr>)
   }"

text \<open>The interrupt part: which number and which callbacks UIO and UDD get.\<close>

definition uio_setup_irq :: "kcfg \<Rightarrow> cuddlk_interrupt \<Rightarrow> uio_info \<Rightarrow> uio_info" where
  "uio_setup_irq cfg intr uio0 =
     (let uio1 =
        (if intr_irq intr > 0 \<and> intr_handler intr \<noteq> None then
           (if use_udd cfg then uio0\<lparr>uio_irq := uio_irq_custom cfg\<rparr>
            else uio0\<lparr>uio_irq := intr_irq intr,
                     uio_irq_flags :=
                       (if has_flag (intr_flags intr) CUDDLK_IRQF_SHARED
                        then uio_irq_flags uio0 OR linux_irqf_shared cfg else uio_irq_flags uio0),
                     uio_handler := Some Cb_uio_interrupt_handler\<rparr>)
         else uio0);
          uio2 = (if intr_irq intr = irq_custom cfg then uio1\<lparr>uio_irq := uio_irq_custom cfg\<rparr> else uio1)
      in if intr_irq intr > 0 \<or> intr_irq intr = irq_custom cfg
         then uio2\<lparr>uio_open := Some Cb_uio_eventsrc_or_mem_open,
                   uio_release := Some Cb_uio_eventsrc_or_mem_close,
                   uio_irqcontrol := Some Cb_uio_eventsrc_or_mem_irqcontrol\<rparr>
         else uio2)"

definition udd_setup_irq :: "kcfg \<Rightarrow> cuddlk_interrupt \<Rightarrow> udd_device \<Rightarrow> udd_device" where
  "udd_setup_irq cfg intr udd0 =
     (if \<not> use_udd cfg then udd0
      else
        let udd1 =
          (if intr_irq intr > 0 \<and> intr_handler intr \<noteq> None
           then udd0\<lparr>udd_irq := intr_irq intr, udd_interrupt := Some Cb_udd_interrupt_handler\<rparr>
           else udd0);
            udd2 = (if intr_irq intr = irq_custom cfg then udd1\<lparr>udd_irq := udd_irq_custom cfg\<rparr> else udd1)
        in if intr_irq intr > 0 \<or> intr_irq intr = irq_custom cfg
           then udd2\<lparr>udd_open := Some Cb_udd_eventsrc_open,
                     udd_close := Some Cb_udd_eventsrc_close,
                     udd_ioctl := Some Cb_udd_eventsrc_ioctl\<rparr>
           else udd2)"

definition unique_name_of :: "string \<Rightarrow> string \<Rightarrow> c_int \<Rightarrow> string" where
  "unique_name_of group_name name instance_id =
     cstr group_name @ ''.'' @ cstr name @ ''.'' @ dec_int instance_id"

text \<open>
  Everything between the allocation of the name and the first registration call: the
  pointers and names, the loop over the regions, and the interrupt with the defaults of
  parent and owner.
\<close>

definition setup_pointers :: "kcfg \<Rightarrow> dptr \<Rightarrow> cuddlk_device \<Rightarrow> cuddlk_device option" where
  "setup_pointers cfg p dev = do {
     eventsrc \<leftarrow> arr_get (d_events dev) 0;
     let eventsrc = eventsrc\<lparr>ev_uio_ptr := Some p\<rparr>;
     let eventsrc = (if use_udd cfg then eventsrc\<lparr>ev_udd_ptr := Some p\<rparr> else eventsrc);
     Some (dev\<lparr>d_events := arr_set (d_events dev) 0 eventsrc,
               d_uio := (d_uio dev)\<lparr>uio_name := True, uio_version := ''0.0.1''\<rparr>,
               d_udd := (if use_udd cfg
                         then (d_udd dev)\<lparr>udd_device_name := True, udd_named := True\<rparr>
                         else d_udd dev)\<rparr>)
   }"

definition setup_interrupt :: "kcfg \<Rightarrow> nat option \<Rightarrow> cuddlk_device \<Rightarrow> cuddlk_device option" where
  "setup_interrupt cfg manager_device dev = do {
     eventsrc \<leftarrow> arr_get (d_events dev) 0;
     Some (dev\<lparr>d_uio := uio_setup_irq cfg (ev_intr eventsrc) (d_uio dev),
               d_udd := udd_setup_irq cfg (ev_intr eventsrc) (d_udd dev),
               d_parent_device_ptr :=
                 (if d_parent_device_ptr dev = None then manager_device else d_parent_device_ptr dev),
               d_owner_ptr :=
                 (if d_owner_ptr dev = None then Some (this_module cfg) else d_owner_ptr dev)\<rparr>)
   }"

definition register_setup :: "kcfg \<Rightarrow> nat option \<Rightarrow> dptr \<Rightarrow> cuddlk_device \<Rightarrow> cuddlk_device option" where
  "register_setup cfg manager_device p dev = do {
     dev \<leftarrow> setup_pointers cfg p dev;
     dev \<leftarrow> register_regions cfg p [0..<CUDDLK_MAX_DEV_MEM_REGIONS] dev;
     setup_interrupt cfg manager_device dev
   }"

definition rtdm_nrtsig_init :: "cuddlk_device \<Rightarrow> cuddlk_device option" where
  "rtdm_nrtsig_init dev = do {
     eventsrc \<leftarrow> arr_get (d_events dev) 0;
     Some (dev\<lparr>d_events := arr_set (d_events dev) 0 (eventsrc\<lparr>ev_nrt_sig := True\<rparr>)\<rparr>)
   }"

definition cuddlk_device_register ::
  "kcfg \<Rightarrow> reg_env \<Rightarrow> dptr \<Rightarrow> kstate \<Rightarrow> (c_int \<times> kstate) option" where
  "cuddlk_device_register cfg env p st = do {
     dev \<leftarrow> k_heap st p;
     case (d_group dev, d_name dev) of
       (None, _) \<Rightarrow> do {
         (_, st) \<leftarrow> cuddlk_cleanup cfg env p CUDDLK_FAIL_NULL_GROUP st;
         Some (- EINVAL, st)
       }
     | (Some _, None) \<Rightarrow> do {
         (_, st) \<leftarrow> cuddlk_cleanup cfg env p CUDDLK_FAIL_NULL_NAME st;
         Some (- EINVAL, st)
       }
     | (Some g, Some n) \<Rightarrow>
         if \<not> kasprintf_ok env then do {
           (_, st) \<leftarrow> cuddlk_cleanup cfg env p CUDDLK_FAIL_UNIQUE_NAME
             (set_dev p (dev\<lparr>d_unique_name := Null\<rparr>) st);
           Some (- ENOMEM, st)
         }
         else do {
           dev \<leftarrow> register_setup cfg (cuddlk_manager_device st) p
             (dev\<lparr>d_unique_name := Live (unique_name_of g n (d_instance dev))\<rparr>);
           if uio_register_ret env \<noteq> 0 then do {
             (_, st) \<leftarrow> cuddlk_cleanup cfg env p CUDDLK_FAIL_UIO_REGISTER (set_dev p dev st);
             Some (uio_register_ret env, st)
           }
           else do {
             let dev = dev\<lparr>d_uio := (d_uio dev)\<lparr>uio_dev :=
               Live \<lparr>uiod_minor = uio_register_minor env, uiod_owner = d_owner_ptr dev\<rparr>\<rparr>\<rparr>;
             if \<not> use_udd cfg then Some (0, set_dev p dev st)
             else do {
               dev \<leftarrow> rtdm_nrtsig_init dev;
               if udd_register_ret env \<noteq> 0 then do {
                 (_, st) \<leftarrow> cuddlk_cleanup cfg env p CUDDLK_FAIL_UDD_REGISTER (set_dev p dev st);
                 Some (udd_register_ret env, st)
               }
               else Some (0, set_dev p (dev\<lparr>d_udd := (d_udd dev)\<lparr>udd_registered := True\<rparr>\<rparr>) st)
             }
           }
         }
   }"

definition cuddlk_device_unregister ::
  "kcfg \<Rightarrow> reg_env \<Rightarrow> dptr \<Rightarrow> kstate \<Rightarrow> (c_int \<times> kstate) option" where
  "cuddlk_device_unregister cfg env p st = cuddlk_cleanup cfg env p CUDDLK_NO_FAILURE st"

subsection \<open>Page alignment\<close>

lemma page_size_aligned_bounds:
  assumes ps: "0 < unat (page_size cfg)" "unat (page_size cfg) \<le> 2 ^ 32"
    and small: "unat i div unat (page_size cfg) < 2 ^ 31 - 1"
  shows "unat (page_size_aligned cfg i) mod unat (page_size cfg) = 0 \<and>
    unat i \<le> unat (page_size_aligned cfg i) \<and>
    unat (page_size_aligned cfg i) < unat i + unat (page_size cfg)"
proof (cases "i mod page_size cfg = 0")
  case True
  then have "unat i mod unat (page_size cfg) = 0" by (metis unat_0 unat_mod)
  with True ps(1) show ?thesis by (simp add: page_size_aligned_def)
next
  case False
  let ?p = "unat (page_size cfg)" and ?k = "unat i div unat (page_size cfg)"
  have k: "unat (i div page_size cfg) = ?k" by (simp add: unat_div)
  have lower: "int_of_size (i div page_size cfg) = int ?k"
    using int_of_size_small [of "i div page_size cfg"] small unfolding k by simp
  have "int ?k + 1 < 2 ^ 31"
    using small by simp
  then have wrap: "c_int_wrap (int ?k + 1) = int (Suc ?k)" by simp
  have "?p * Suc ?k \<le> 2 ^ 32 * 2 ^ 31"
    by (rule mult_mono) (use ps small in auto)
  then have fits: "?p * Suc ?k < 2 ^ 64" by simp
  have "page_size_aligned cfg i = page_size cfg * of_nat (Suc ?k)"
    unfolding page_size_aligned_def Let_def lower wrap using False by simp
  also have "\<dots> = of_nat (?p * Suc ?k)"
    by (simp add: algebra_simps)
  finally have eq: "page_size_aligned cfg i = of_nat (?p * Suc ?k)" .
  have unat_of: "unat (of_nat n :: size_t) = n" if "n < 2 ^ 64" for n
    using that by (simp add: unat_of_nat take_bit_nat_eq_self)
  have r: "unat (page_size_aligned cfg i) = ?p * Suc ?k"
    using unat_of [OF fits] unfolding eq .
  have rem: "unat i mod ?p \<noteq> 0" using False by (metis unat_mod unat_eq_zero)
  have "unat i = ?p * ?k + unat i mod ?p" "unat i mod ?p < ?p" using ps(1) by simp_all
  moreover have "?p * Suc ?k = ?p * ?k + ?p" by simp
  ultimately have "unat i \<le> ?p * Suc ?k" "?p * Suc ?k < unat i + ?p"
    using rem by linarith+
  with r show ?thesis by simp
qed

subsection \<open>What the loop over the memory regions does\<close>

definition arrays_ok :: "cuddlk_device \<Rightarrow> bool" where
  "arrays_ok d \<longleftrightarrow> length (d_mem d) = CUDDLK_MAX_DEV_MEM_REGIONS \<and>
     length (d_events d) = CUDDLK_MAX_DEV_EVENTS"

lemma arrays_ok_event0: "arrays_ok d \<Longrightarrow> arr_get (d_events d) 0 = Some (d_events d ! 0)"
  by (simp add: arrays_ok_def CUDDLK_MAX_DEV_EVENTS_def)

lemma arrays_ok_event0_only: "arrays_ok d \<Longrightarrow> e \<in> set (d_events d) \<Longrightarrow> e = d_events d ! 0"
  by (auto simp: arrays_ok_def CUDDLK_MAX_DEV_EVENTS_def in_set_conv_nth)

text \<open>The loop rewrites the listed regions and the maps, and nothing else.\<close>

lemma uio_with_map_frame:
  "uio_with_map cfg i m uio = uio\<lparr>uio_maps := uio_maps (uio_with_map cfg i m uio)\<rparr>"
  by (simp add: uio_with_map_def)

lemma udd_with_map_frame:
  "udd_with_map cfg i m udd = udd\<lparr>udd_mem_regions := udd_mem_regions (udd_with_map cfg i m udd)\<rparr>"
  by (simp add: udd_with_map_def)

lemma register_regions_effect:
  "distinct is \<Longrightarrow> set is \<subseteq> {..<length (d_mem dev)} \<Longrightarrow>
   \<exists>mem maps xmaps. register_regions cfg p is dev =
     Some (dev\<lparr>d_mem := mem, d_uio := (d_uio dev)\<lparr>uio_maps := maps\<rparr>,
       d_udd := (d_udd dev)\<lparr>udd_mem_regions := xmaps\<rparr>\<rparr>) \<and>
     length mem = length (d_mem dev) \<and> length maps = length (uio_maps (d_uio dev)) \<and>
     (\<forall>j < length mem. mem ! j = (if j \<in> set is then region_setup cfg p (d_mem dev ! j) else d_mem dev ! j)) \<and>
     (\<forall>j < length maps. maps ! j = (if j \<in> set is \<and> j < max_uio_maps cfg
        then uio_mem_of (region_setup cfg p (d_mem dev ! j)) else uio_maps (d_uio dev) ! j))"
proof (induction "is" arbitrary: dev)
  case Nil
  show ?case
    by (rule exI [of _ "d_mem dev"], rule exI [of _ "uio_maps (d_uio dev)"],
        rule exI [of _ "udd_mem_regions (d_udd dev)"]) simp
next
  case (Cons i "is")
  let ?m = "region_setup cfg p (d_mem dev ! i)"
  let ?d = "dev\<lparr>d_mem := arr_set (d_mem dev) (int i) ?m,
    d_uio := uio_with_map cfg i ?m (d_uio dev), d_udd := udd_with_map cfg i ?m (d_udd dev)\<rparr>"
  from Cons.prems have i: "i < length (d_mem dev)" "i \<notin> set is" by auto
  have "set is \<subseteq> {..<length (d_mem ?d)}" "distinct is" using Cons.prems by auto
  from Cons.IH [OF this(2,1)] obtain mem maps xmaps where
    r: "register_regions cfg p is ?d =
      Some (?d\<lparr>d_mem := mem, d_uio := (d_uio ?d)\<lparr>uio_maps := maps\<rparr>,
        d_udd := (d_udd ?d)\<lparr>udd_mem_regions := xmaps\<rparr>\<rparr>)"
    and len': "length mem = length (d_mem ?d)" "length maps = length (uio_maps (d_uio ?d))"
    and mem: "\<And>j. j < length mem \<Longrightarrow>
      mem ! j = (if j \<in> set is then region_setup cfg p (d_mem ?d ! j) else d_mem ?d ! j)"
    and maps: "\<And>j. j < length maps \<Longrightarrow> maps ! j = (if j \<in> set is \<and> j < max_uio_maps cfg
        then uio_mem_of (region_setup cfg p (d_mem ?d ! j)) else uio_maps (d_uio ?d) ! j)"
    by blast
  from len' have len: "length mem = length (d_mem dev)" "length maps = length (uio_maps (d_uio ?d))"
    by simp_all
  have "(d_uio ?d)\<lparr>uio_maps := maps\<rparr> = (d_uio dev)\<lparr>uio_maps := maps\<rparr>"
    "(d_udd ?d)\<lparr>udd_mem_regions := xmaps\<rparr> = (d_udd dev)\<lparr>udd_mem_regions := xmaps\<rparr>"
    by (simp_all add: uio_with_map_def udd_with_map_def)
  then have "register_regions cfg p (i # is) dev =
      Some (dev\<lparr>d_mem := mem, d_uio := (d_uio dev)\<lparr>uio_maps := maps\<rparr>,
        d_udd := (d_udd dev)\<lparr>udd_mem_regions := xmaps\<rparr>\<rparr>)"
    using r i by simp
  moreover have "length maps = length (uio_maps (d_uio dev))"
    using len(2) by (simp add: uio_with_map_def)
  moreover have "mem ! j = (if j \<in> set (i # is) then region_setup cfg p (d_mem dev ! j) else d_mem dev ! j)"
    if "j < length mem" for j
    using mem [OF that] i that len by (auto simp: arr_set_def nth_list_update)
  moreover have "maps ! j = (if j \<in> set (i # is) \<and> j < max_uio_maps cfg
      then uio_mem_of (region_setup cfg p (d_mem dev ! j)) else uio_maps (d_uio dev) ! j)"
    if "j < length maps" for j
    using maps [OF that] i that len(2)
    by (auto simp: arr_set_def nth_list_update uio_with_map_def)
  ultimately show ?case using len(1) by blast
qed

lemma register_regions_all:
  assumes "arrays_ok dev"
  shows "\<exists>maps xmaps. register_regions cfg p [0..<CUDDLK_MAX_DEV_MEM_REGIONS] dev =
     Some (dev\<lparr>d_mem := map (region_setup cfg p) (d_mem dev), d_uio := (d_uio dev)\<lparr>uio_maps := maps\<rparr>,
       d_udd := (d_udd dev)\<lparr>udd_mem_regions := xmaps\<rparr>\<rparr>) \<and>
     length maps = length (uio_maps (d_uio dev)) \<and>
     (\<forall>j < length maps. j < CUDDLK_MAX_DEV_MEM_REGIONS \<longrightarrow> j < max_uio_maps cfg \<longrightarrow>
        maps ! j = uio_mem_of (region_setup cfg p (d_mem dev ! j)))"
proof -
  from assms have len: "length (d_mem dev) = CUDDLK_MAX_DEV_MEM_REGIONS" by (simp add: arrays_ok_def)
  then have "distinct [0..<CUDDLK_MAX_DEV_MEM_REGIONS]"
    "set [0..<CUDDLK_MAX_DEV_MEM_REGIONS] \<subseteq> {..<length (d_mem dev)}" by auto
  from register_regions_effect [OF this, of cfg p]
  obtain mem maps xmaps where r: "register_regions cfg p [0..<CUDDLK_MAX_DEV_MEM_REGIONS] dev =
     Some (dev\<lparr>d_mem := mem, d_uio := (d_uio dev)\<lparr>uio_maps := maps\<rparr>,
       d_udd := (d_udd dev)\<lparr>udd_mem_regions := xmaps\<rparr>\<rparr>)"
    and l: "length mem = length (d_mem dev)" "length maps = length (uio_maps (d_uio dev))"
    and mem: "\<forall>j < length mem. mem ! j =
      (if j \<in> set [0..<CUDDLK_MAX_DEV_MEM_REGIONS] then region_setup cfg p (d_mem dev ! j) else d_mem dev ! j)"
    and maps: "\<forall>j < length maps. maps ! j =
      (if j \<in> set [0..<CUDDLK_MAX_DEV_MEM_REGIONS] \<and> j < max_uio_maps cfg
        then uio_mem_of (region_setup cfg p (d_mem dev ! j)) else uio_maps (d_uio dev) ! j)"
    by blast
  have "mem = map (region_setup cfg p) (d_mem dev)"
    using l mem len by (intro nth_equalityI) auto
  with r l(2) maps show ?thesis by (intro exI [of _ maps] exI [of _ xmaps]) simp
qed

subsection \<open>The outcome of a registration\<close>

text \<open>
  \<open>same_identity\<close>: the fields a driver sets and registration must not change, reference
  counts among them. \<open>registered\<close>: what claims, look-ups and the UIO layer rely on.
  \<open>holds_nothing\<close>: the device owns no kernel resource.
\<close>

definition same_identity :: "cuddlk_device \<Rightarrow> cuddlk_device \<Rightarrow> bool" where
  "same_identity d' d \<longleftrightarrow> d_group d' = d_group d \<and> d_name d' = d_name d \<and>
     d_instance d' = d_instance d \<and> d_driver_info d' = d_driver_info d \<and> d_hw_info d' = d_hw_info d \<and>
     map (\<lambda>m. (mr_name m, mr_pa_addr m, mr_start_offset m, mr_type m, mr_flags m, mr_ref_count m)) (d_mem d') =
     map (\<lambda>m. (mr_name m, mr_pa_addr m, mr_start_offset m, mr_type m, mr_flags m, mr_ref_count m)) (d_mem d) \<and>
     map (\<lambda>e. (ev_name e, ev_flags e, ev_intr e, ev_ref_count e, ev_uio_open_count e, ev_udd_open_count e)) (d_events d') =
     map (\<lambda>e. (ev_name e, ev_flags e, ev_intr e, ev_ref_count e, ev_uio_open_count e, ev_udd_open_count e)) (d_events d)"

definition registered :: "kcfg \<Rightarrow> dptr \<Rightarrow> cuddlk_device \<Rightarrow> bool" where
  "registered cfg p d \<longleftrightarrow> device_named d \<and> (\<exists>u. d_unique_name d = Live u) \<and>
     (\<exists>v. uio_dev (d_uio d) = Live v \<and> uiod_owner v = d_owner_ptr d) \<and>
     (\<forall>m \<in> set (d_mem d). mr_uio_ptr m = Some p) \<and>
     (\<forall>e \<in> set (d_events d). ev_uio_ptr e = Some p \<and>
        (use_udd cfg \<longrightarrow> ev_udd_ptr e = Some p) \<and> ev_nrt_sig e = use_udd cfg) \<and>
     udd_registered (d_udd d) = use_udd cfg"

definition holds_nothing :: "cuddlk_device \<Rightarrow> bool" where
  "holds_nothing d \<longleftrightarrow> (\<forall>u. d_unique_name d \<noteq> Live u) \<and> (\<forall>v. uio_dev (d_uio d) \<noteq> Live v) \<and>
     \<not> udd_registered (d_udd d) \<and> (\<forall>e \<in> set (d_events d). \<not> ev_nrt_sig e)"

definition registration_result :: "kcfg \<Rightarrow> reg_env \<Rightarrow> cuddlk_device \<Rightarrow> c_int" where
  "registration_result cfg env d =
     (if d_group d = None \<or> d_name d = None then - EINVAL
      else if \<not> kasprintf_ok env then - ENOMEM
      else if uio_register_ret env \<noteq> 0 then uio_register_ret env
      else if use_udd cfg then udd_register_ret env else 0)"

lemma same_identity_refl [simp]: "same_identity d d"
  by (simp add: same_identity_def)

lemma same_identity_trans: "same_identity a b \<Longrightarrow> same_identity b c \<Longrightarrow> same_identity a c"
  by (simp add: same_identity_def)

lemma same_identity_arrays: "same_identity a b \<Longrightarrow> arrays_ok a = arrays_ok b"
  unfolding same_identity_def arrays_ok_def by (auto dest!: map_eq_imp_length_eq)

lemma region_setup_keeps [simp]:
  "mr_name (region_setup cfg p m) = mr_name m" "mr_pa_addr (region_setup cfg p m) = mr_pa_addr m"
  "mr_start_offset (region_setup cfg p m) = mr_start_offset m" "mr_type (region_setup cfg p m) = mr_type m"
  "mr_flags (region_setup cfg p m) = mr_flags m" "mr_ref_count (region_setup cfg p m) = mr_ref_count m"
  "mr_uio_ptr (region_setup cfg p m) = Some p"
  by (simp_all add: region_setup_def Let_def)

lemma setup_irq_keeps [simp]:
  "uio_dev (uio_setup_irq cfg intr u) = uio_dev u" "uio_maps (uio_setup_irq cfg intr u) = uio_maps u"
  "uio_name (uio_setup_irq cfg intr u) = uio_name u"
  "udd_registered (udd_setup_irq cfg intr x) = udd_registered x"
  by (simp_all add: uio_setup_irq_def udd_setup_irq_def Let_def)

lemma arrays_ok_single: "arrays_ok d \<Longrightarrow> \<exists>e. d_events d = [e]"
  by (auto simp: arrays_ok_def CUDDLK_MAX_DEV_EVENTS_def length_Suc_conv)

lemma setup_pointers_effect:
  assumes "arrays_ok d"
  obtains d' where "setup_pointers cfg p d = Some d'"
    "same_identity d' d" "d_unique_name d' = d_unique_name d" "d_mem d' = d_mem d"
    "d_owner_ptr d' = d_owner_ptr d" "uio_maps (d_uio d') = uio_maps (d_uio d)"
    "uio_dev (d_uio d') = uio_dev (d_uio d)" "udd_registered (d_udd d') = udd_registered (d_udd d)"
    "ev_uio_ptr (d_events d' ! 0) = Some p" "use_udd cfg \<Longrightarrow> ev_udd_ptr (d_events d' ! 0) = Some p"
    "ev_nrt_sig (d_events d' ! 0) = ev_nrt_sig (d_events d ! 0)"
proof -
  from arrays_ok_single [OF assms] obtain e where e: "d_events d = [e]" ..
  show ?thesis
    by (rule that [of "the (setup_pointers cfg p d)"])
      (simp_all add: setup_pointers_def same_identity_def e arr_set_def)
qed

lemma setup_interrupt_effect:
  assumes "arrays_ok d"
  obtains d' where "setup_interrupt cfg md d = Some d'"
    "same_identity d' d" "d_unique_name d' = d_unique_name d" "d_mem d' = d_mem d"
    "d_owner_ptr d' \<noteq> None" "uio_maps (d_uio d') = uio_maps (d_uio d)"
    "uio_dev (d_uio d') = uio_dev (d_uio d)" "udd_registered (d_udd d') = udd_registered (d_udd d)"
    "d_events d' = d_events d"
proof -
  from arrays_ok_single [OF assms] obtain e where e: "d_events d = [e]" ..
  show ?thesis
    by (rule that [of "the (setup_interrupt cfg md d)"])
      (simp_all add: setup_interrupt_def same_identity_def e)
qed

lemma register_setup_effect:
  assumes "arrays_ok d"
  obtains d' where "register_setup cfg md p d = Some d'"
    "same_identity d' d" "d_unique_name d' = d_unique_name d"
    "uio_dev (d_uio d') = uio_dev (d_uio d)" "udd_registered (d_udd d') = udd_registered (d_udd d)"
    "d_mem d' = map (region_setup cfg p) (d_mem d)"
    "ev_uio_ptr (d_events d' ! 0) = Some p" "use_udd cfg \<Longrightarrow> ev_udd_ptr (d_events d' ! 0) = Some p"
    "ev_nrt_sig (d_events d' ! 0) = ev_nrt_sig (d_events d ! 0)"
    "d_owner_ptr d' \<noteq> None"
    "\<And>j. j < length (uio_maps (d_uio d)) \<Longrightarrow> j < CUDDLK_MAX_DEV_MEM_REGIONS \<Longrightarrow>
       j < max_uio_maps cfg \<Longrightarrow> uio_maps (d_uio d') ! j = uio_mem_of (d_mem d' ! j)"
    "length (uio_maps (d_uio d')) = length (uio_maps (d_uio d))"
proof -
  obtain d1 where d1: "setup_pointers cfg p d = Some d1"
    "same_identity d1 d" "d_unique_name d1 = d_unique_name d" "d_mem d1 = d_mem d"
    "uio_maps (d_uio d1) = uio_maps (d_uio d)"
    "uio_dev (d_uio d1) = uio_dev (d_uio d)" "udd_registered (d_udd d1) = udd_registered (d_udd d)"
    "ev_uio_ptr (d_events d1 ! 0) = Some p" "use_udd cfg \<Longrightarrow> ev_udd_ptr (d_events d1 ! 0) = Some p"
    "ev_nrt_sig (d_events d1 ! 0) = ev_nrt_sig (d_events d ! 0)"
    using setup_pointers_effect [OF assms, of cfg p] by metis
  have a1: "arrays_ok d1" using assms same_identity_arrays [OF d1(2)] by simp
  from register_regions_all [OF a1, of cfg p] obtain maps xmaps where
    r: "register_regions cfg p [0..<CUDDLK_MAX_DEV_MEM_REGIONS] d1 =
      Some (d1\<lparr>d_mem := map (region_setup cfg p) (d_mem d1), d_uio := (d_uio d1)\<lparr>uio_maps := maps\<rparr>,
       d_udd := (d_udd d1)\<lparr>udd_mem_regions := xmaps\<rparr>\<rparr>)" (is "_ = Some ?d2")
    and maps: "length maps = length (uio_maps (d_uio d1))"
     "\<forall>j < length maps. j < CUDDLK_MAX_DEV_MEM_REGIONS \<longrightarrow> j < max_uio_maps cfg \<longrightarrow>
        maps ! j = uio_mem_of (region_setup cfg p (d_mem d1 ! j))"
    by blast
  have id2: "same_identity ?d2 d1" by (simp add: same_identity_def)
  have a2: "arrays_ok ?d2" using a1 same_identity_arrays [OF id2] by simp
  obtain d3 where d3: "setup_interrupt cfg md ?d2 = Some d3"
    "same_identity d3 ?d2" "d_unique_name d3 = d_unique_name ?d2" "d_mem d3 = d_mem ?d2"
    "d_owner_ptr d3 \<noteq> None" "uio_maps (d_uio d3) = uio_maps (d_uio ?d2)"
    "uio_dev (d_uio d3) = uio_dev (d_uio ?d2)" "udd_registered (d_udd d3) = udd_registered (d_udd ?d2)"
    "d_events d3 = d_events ?d2"
    using setup_interrupt_effect [OF a2, of cfg md] by metis
  have len: "length (d_mem d) = CUDDLK_MAX_DEV_MEM_REGIONS" using assms by (simp add: arrays_ok_def)
  show ?thesis
  proof (rule that [of d3])
    show "register_setup cfg md p d = Some d3" by (simp add: register_setup_def d1(1) r d3(1))
    show "same_identity d3 d" using same_identity_trans [OF d3(2) same_identity_trans [OF id2 d1(2)]] .
  qed (use d1 d3 maps len in simp_all)
qed

subsection \<open>Clean-up, one lemma per entry of the switch\<close>

lemma cleanup_early:
  "k_heap st p = Some d \<Longrightarrow>
     f \<in> {CUDDLK_FAIL_NULL_GROUP, CUDDLK_FAIL_NULL_NAME, CUDDLK_FAIL_UNIQUE_NAME} \<Longrightarrow>
     cuddlk_cleanup cfg env p f st = Some (0, st)"
  by (auto simp: cuddlk_cleanup_def set_dev_same)

lemma cleanup_uio_failed:
  "k_heap st p = Some d \<Longrightarrow> d_unique_name d = Live u \<Longrightarrow>
     cuddlk_cleanup cfg env p CUDDLK_FAIL_UIO_REGISTER st =
     Some (0, set_dev p (d\<lparr>d_unique_name := Freed\<rparr>) st)"
  by (simp add: cuddlk_cleanup_def)

lemma cleanup_full_effect:
  assumes "k_heap st p = Some d" "arrays_ok d" "d_unique_name d = Live u" "uio_dev (d_uio d) = Live v"
    and sig: "use_udd cfg \<Longrightarrow> ev_nrt_sig (d_events d ! 0)"
    and f: "f = CUDDLK_FAIL_UDD_REGISTER \<or> f = CUDDLK_NO_FAILURE \<and> (use_udd cfg \<longrightarrow> udd_registered (d_udd d))"
  obtains d' where "cuddlk_cleanup cfg env p f st =
      Some (if f = CUDDLK_NO_FAILURE \<and> use_udd cfg then udd_unregister_ret env else 0, set_dev p d' st)"
    "same_identity d' d" "d_unique_name d' = Freed" "uio_dev (d_uio d') = Freed"
    "udd_registered (d_udd d') = (udd_registered (d_udd d) \<and> \<not> (f = CUDDLK_NO_FAILURE \<and> use_udd cfg))"
    "ev_nrt_sig (d_events d' ! 0) = (ev_nrt_sig (d_events d ! 0) \<and> \<not> use_udd cfg)"
proof -
  from arrays_ok_single [OF assms(2)] obtain e where e: "d_events d = [e]" ..
  let ?d1 = "if f = CUDDLK_NO_FAILURE \<and> use_udd cfg then d\<lparr>d_udd := (d_udd d)\<lparr>udd_registered := False\<rparr>\<rparr> else d"
  let ?d2 = "if use_udd cfg then ?d1\<lparr>d_events := [e\<lparr>ev_nrt_sig := False\<rparr>]\<rparr> else ?d1"
  let ?d3 = "?d2\<lparr>d_uio := (d_uio ?d2)\<lparr>uio_dev := Freed\<rparr>, d_unique_name := Freed\<rparr>"
  have "cuddlk_cleanup cfg env p f st =
      Some (if f = CUDDLK_NO_FAILURE \<and> use_udd cfg then udd_unregister_ret env else 0, set_dev p ?d3 st)"
    using f sig assms(1,3,4)
    by (auto simp: cuddlk_cleanup_def udd_unregister_device_def rtdm_nrtsig_destroy_def
        uio_unregister_device_def e arr_set_def)
  then show ?thesis
    by (rule that) (simp_all add: same_identity_def e)
qed

subsection \<open>Registration as a whole\<close>

lemma registered_arrays: "registered cfg p d \<Longrightarrow> arrays_ok d"
  by (simp add: registered_def device_named_def arrays_ok_def)

lemma all_events0: "arrays_ok d \<Longrightarrow> (\<forall>e \<in> set (d_events d). P e) \<longleftrightarrow> P (d_events d ! 0)"
  using arrays_ok_single [of d] by auto

lemma register_outcome:
  assumes d: "k_heap st p = Some d" "arrays_ok d" and clean: "holds_nothing d"
  shows "\<exists>d'. cuddlk_device_register cfg env p st = Some (registration_result cfg env d, set_dev p d' st) \<and>
    same_identity d' d \<and>
    (if registration_result cfg env d = 0 then registered cfg p d' else holds_nothing d')"
proof -
  consider (null) "d_group d = None \<or> d_name d = None"
    | (oom) g n where "d_group d = Some g" "d_name d = Some n" "\<not> kasprintf_ok env"
    | (ready) g n where "d_group d = Some g" "d_name d = Some n" "kasprintf_ok env" by fastforce
  then show ?thesis
  proof cases
    case null
    then have "cuddlk_device_register cfg env p st = Some (registration_result cfg env d, set_dev p d st)"
      using d by (auto simp: cuddlk_device_register_def registration_result_def set_dev_same
          cleanup_early split: option.splits)
    with null clean show ?thesis by (intro exI [of _ d]) (simp add: registration_result_def)
  next
    case oom
    let ?d = "d\<lparr>d_unique_name := Null\<rparr>"
    have "cuddlk_device_register cfg env p st = Some (registration_result cfg env d, set_dev p ?d st)"
      using d oom by (simp add: cuddlk_device_register_def registration_result_def cleanup_early)
    moreover have "holds_nothing ?d" "same_identity ?d d"
      using clean by (simp_all add: holds_nothing_def same_identity_def)
    ultimately show ?thesis using oom
      by (intro exI [of _ ?d]) (simp add: registration_result_def)
  next
    case ready
    let ?d0 = "d\<lparr>d_unique_name := Live (unique_name_of g n (d_instance d))\<rparr>"
    have id0: "same_identity ?d0 d" by (simp add: same_identity_def)
    have a0: "arrays_ok ?d0" using d(2) by (simp add: arrays_ok_def)
    obtain d1 where d1: "register_setup cfg (cuddlk_manager_device st) p ?d0 = Some d1"
      "same_identity d1 ?d0" "d_unique_name d1 = d_unique_name ?d0"
      "uio_dev (d_uio d1) = uio_dev (d_uio ?d0)" "udd_registered (d_udd d1) = udd_registered (d_udd ?d0)"
      "d_mem d1 = map (region_setup cfg p) (d_mem ?d0)"
      "ev_uio_ptr (d_events d1 ! 0) = Some p" "use_udd cfg \<Longrightarrow> ev_udd_ptr (d_events d1 ! 0) = Some p"
      "ev_nrt_sig (d_events d1 ! 0) = ev_nrt_sig (d_events ?d0 ! 0)"
      using register_setup_effect [OF a0, of cfg "cuddlk_manager_device st" p] by metis
    have id1: "same_identity d1 d" using same_identity_trans [OF d1(2) id0] .
    have a1: "arrays_ok d1" using same_identity_arrays [OF id1] d(2) by simp
    from clean have c1: "\<not> udd_registered (d_udd d1)" "\<not> ev_nrt_sig (d_events d1 ! 0)"
      "\<And>v. uio_dev (d_uio d1) \<noteq> Live v"
      using d1 by (simp_all add: holds_nothing_def all_events0 [OF d(2)])
    show ?thesis
    proof (cases "uio_register_ret env = 0")
      case False
      let ?d2 = "d1\<lparr>d_unique_name := Freed\<rparr>"
      have "cuddlk_device_register cfg env p st = Some (registration_result cfg env d, set_dev p ?d2 st)"
        using d ready False d1(1,3)
        by (simp add: cuddlk_device_register_def registration_result_def cleanup_uio_failed [of _ p d1] set_dev_def)
      moreover have "holds_nothing ?d2"
        using c1 all_events0 [OF a1] by (simp add: holds_nothing_def)
      moreover have "same_identity ?d2 d" using id1 by (simp add: same_identity_def)
      ultimately show ?thesis using ready False
        by (intro exI [of _ ?d2]) (simp add: registration_result_def)
    next
      case True
      let ?d2 = "d1\<lparr>d_uio := (d_uio d1)\<lparr>uio_dev :=
               Live \<lparr>uiod_minor = uio_register_minor env, uiod_owner = d_owner_ptr d1\<rparr>\<rparr>\<rparr>"
      have id2: "same_identity ?d2 d" using id1 by (simp add: same_identity_def)
      from same_identity_arrays [OF id2] d(2) have a2: "arrays_ok ?d2" by simp
      have reg_mem: "\<forall>m \<in> set (d_mem d1). mr_uio_ptr m = Some p" using d1(6) by auto
      have named: "device_named d'" if "same_identity d' d" for d'
        using same_identity_arrays [OF that] that d(2) ready(1,2)
        by (simp add: device_named_def same_identity_def arrays_ok_def)
      show ?thesis
      proof (cases "use_udd cfg")
        case plain: False
        have "cuddlk_device_register cfg env p st = Some (registration_result cfg env d, set_dev p ?d2 st)"
          using d ready True plain d1(1) by (simp add: cuddlk_device_register_def registration_result_def)
        moreover have "registered cfg p ?d2"
          using named [OF id2] d1(3,7) reg_mem plain all_events0 [OF a1] c1 by (simp add: registered_def)
        moreover have "registration_result cfg env d = 0"
          using ready True plain by (simp add: registration_result_def)
        ultimately show ?thesis using id2 by auto
      next
        case udd: True
        from arrays_ok_single [OF a1] obtain e where e: "d_events d1 = [e]" ..
        let ?d3 = "?d2\<lparr>d_events := [e\<lparr>ev_nrt_sig := True\<rparr>]\<rparr>"
        have sig: "rtdm_nrtsig_init ?d2 = Some ?d3"
          by (simp add: rtdm_nrtsig_init_def e arr_set_def)
        have id3: "same_identity ?d3 d" using id2 e by (simp add: same_identity_def)
        from same_identity_arrays [OF id3] d(2) have a3: "arrays_ok ?d3" by simp
        show ?thesis
        proof (cases "udd_register_ret env = 0")
          case ok: True
          let ?d4 = "?d3\<lparr>d_udd := (d_udd ?d3)\<lparr>udd_registered := True\<rparr>\<rparr>"
          have id4: "same_identity ?d4 d" using id3 by (simp add: same_identity_def)
          have "cuddlk_device_register cfg env p st = Some (registration_result cfg env d, set_dev p ?d4 st)"
            using d ready True udd ok d1(1) sig
            by (simp add: cuddlk_device_register_def registration_result_def)
          moreover have "registered cfg p ?d4"
            using named [OF id4] d1(3,7,8) reg_mem udd e by (simp add: registered_def)
          moreover have "registration_result cfg env d = 0"
            using ready True ok by (simp add: registration_result_def)
          ultimately show ?thesis using id4 by auto
        next
          case bad: False
          have h: "k_heap (set_dev p ?d3 st) p = Some ?d3" by simp
          obtain d' where d': "cuddlk_cleanup cfg env p CUDDLK_FAIL_UDD_REGISTER (set_dev p ?d3 st) =
              Some (0, set_dev p d' (set_dev p ?d3 st))"
            "same_identity d' ?d3" "d_unique_name d' = Freed" "uio_dev (d_uio d') = Freed"
            "\<not> udd_registered (d_udd d')" "\<not> ev_nrt_sig (d_events d' ! 0)"
            by (rule cleanup_full_effect [OF h a3, of "unique_name_of g n (d_instance d)" _ cfg
                  CUDDLK_FAIL_UDD_REGISTER env])
              (use d1(3) c1(1) udd in auto)
          have "cuddlk_device_register cfg env p st = Some (registration_result cfg env d, set_dev p d' st)"
            using d ready True udd bad d1(1) sig d'(1)
            by (simp add: cuddlk_device_register_def registration_result_def set_dev_def)
          moreover have id': "same_identity d' d" using same_identity_trans [OF d'(2) id3] .
          moreover have "holds_nothing d'"
            using d'(3-6) all_events0 [of d'] same_identity_arrays [OF id'] d(2)
            by (simp add: holds_nothing_def)
          moreover have "registration_result cfg env d \<noteq> 0"
            using ready True udd bad by (simp add: registration_result_def)
          ultimately show ?thesis by auto
        qed
      qed
    qed
  qed
qed

lemma unregister_outcome:
  assumes d: "k_heap st p = Some d" "registered cfg p d"
  shows "\<exists>d'. cuddlk_device_unregister cfg env p st =
      Some (if use_udd cfg then udd_unregister_ret env else 0, set_dev p d' st) \<and>
    same_identity d' d \<and> holds_nothing d' \<and> d_unique_name d' = Freed \<and> uio_dev (d_uio d') = Freed"
proof -
  have a: "arrays_ok d" using d(2) by (rule registered_arrays)
  from d(2) obtain u v where uv: "d_unique_name d = Live u" "uio_dev (d_uio d) = Live v"
    by (auto simp: registered_def)
  have s: "ev_nrt_sig (d_events d ! 0) = use_udd cfg" "udd_registered (d_udd d) = use_udd cfg"
    using d(2) all_events0 [OF a] by (auto simp: registered_def)
  obtain d' where d': "cuddlk_cleanup cfg env p CUDDLK_NO_FAILURE st =
      Some (if use_udd cfg then udd_unregister_ret env else 0, set_dev p d' st)"
    "same_identity d' d" "d_unique_name d' = Freed" "uio_dev (d_uio d') = Freed"
    "\<not> udd_registered (d_udd d')" "\<not> ev_nrt_sig (d_events d' ! 0)"
    by (rule cleanup_full_effect [OF d(1) a uv, of cfg CUDDLK_NO_FAILURE env]) (use s in auto)
  have "holds_nothing d'"
    using d'(3-6) all_events0 [of d'] same_identity_arrays [OF d'(2)] a by (simp add: holds_nothing_def)
  with d' show ?thesis unfolding cuddlk_device_unregister_def by blast
qed

text \<open>
  A second unregistration follows the dangling name or the UIO structure that is gone.
\<close>

lemma unregister_twice_undefined:
  assumes "k_heap st p = Some d" "arrays_ok d" "uio_dev (d_uio d) = Freed"
  shows "cuddlk_device_unregister cfg env p st = None"
proof -
  from arrays_ok_single [OF assms(2)] obtain e where "d_events d = [e]" ..
  with assms show ?thesis
    by (auto simp: cuddlk_device_unregister_def cuddlk_cleanup_def udd_unregister_device_def
        rtdm_nrtsig_destroy_def uio_unregister_device_def arr_set_def)
qed

subsection \<open>The unique name\<close>

text \<open>Names without a dot keep apart devices that differ in group, name or instance.\<close>

definition dot_free :: "string \<Rightarrow> bool" where
  "dot_free s \<longleftrightarrow> CHR ''.'' \<notin> set (cstr s)"

lemma dot_split_inj:
  "CHR ''.'' \<notin> set a \<Longrightarrow> CHR ''.'' \<notin> set b \<Longrightarrow> a @ ''.'' @ x = b @ ''.'' @ y \<Longrightarrow> a = b \<and> x = y"
proof (induction a arbitrary: b)
  case Nil
  then show ?case by (cases b) auto
next
  case (Cons c a)
  then show ?case by (cases b) auto
qed

lemma unique_name_of_inj:
  assumes "dot_free g" "dot_free g'" "dot_free n" "dot_free n'"
    and eq: "unique_name_of g n i = unique_name_of g' n' i'"
  shows "cstr g = cstr g' \<and> cstr n = cstr n' \<and> i = i'"
proof -
  from eq assms(1,2) have "cstr g = cstr g'" and
    "cstr n @ ''.'' @ dec_int i = cstr n' @ ''.'' @ dec_int i'"
    using dot_split_inj [of "cstr g" "cstr g'"] unfolding unique_name_of_def dot_free_def by blast+
  moreover from this(2) assms(3,4) have "cstr n = cstr n'" "dec_int i = dec_int i'"
    using dot_split_inj [of "cstr n" "cstr n'"] unfolding dot_free_def by blast+
  ultimately show ?thesis using dec_int_inj by blast
qed

end
