(* ===== verification/Device_Lifecycle.thy ===== *)
theory Device_Lifecycle
  imports Device_Registration
begin

section \<open>Managing and releasing a device (cuddlk_manager_common.c)\<close>

text \<open>
  The two functions a driver calls: \<^verbatim>\<open>cuddlk_device_manage\<close> numbers, registers and
  enters a device into the manager's table, \<^verbatim>\<open>cuddlk_device_release\<close> undoes it. Both
  hold the manager's mutex from the first to the last statement. The invariant of the
  manager is stated here and shown to survive both.
\<close>

subsection \<open>The operations\<close>

text \<open>The block under \<^verbatim>\<open>if (!dev->instance)\<close>; a negative result is its \<^verbatim>\<open>goto\<close>.\<close>

definition manage_instance :: "dptr \<Rightarrow> cuddlk_device \<Rightarrow> kstate \<Rightarrow> (c_int \<times> kstate) option" where
  "manage_instance p dev st =
     (if d_instance dev = 0 then do {
        ret \<leftarrow> cuddlk_manager_next_available_instance_id st dev;
        if ret < 0 then Some (ret, st)
        else Some (0, set_dev p (dev\<lparr>d_instance := ret\<rparr>) st)
      }
      else Some (0, st))"

definition cuddlk_device_manage ::
  "kcfg \<Rightarrow> reg_env \<Rightarrow> dptr \<Rightarrow> kstate \<Rightarrow> (c_int \<times> kstate) option" where
  "cuddlk_device_manage cfg env p st = do {
     st \<leftarrow> cuddlk_manager_lock st;
     dev \<leftarrow> k_heap st p;
     (ret, st) \<leftarrow>
       (if d_group dev = None then Some (- EINVAL, st)
        else if d_name dev = None then Some (- EINVAL, st)
        else do {
          (ret, st) \<leftarrow> manage_instance p dev st;
          if ret < 0 then Some (ret, st)
          else do {
            (ret, st) \<leftarrow> cuddlk_device_register cfg env p st;
            if ret \<noteq> 0 then Some (ret, st)
            else do {
              (ret, st) \<leftarrow> cuddlk_manager_add_device st p;
              if ret \<noteq> 0 then do {
                (_, st) \<leftarrow> cuddlk_device_unregister cfg env p st;
                Some (ret, st)
              }
              else Some (0, st)
            }
          }
        });
     st \<leftarrow> cuddlk_manager_unlock st;
     Some (ret, st)
   }"

definition cuddlk_device_release ::
  "kcfg \<Rightarrow> reg_env \<Rightarrow> dptr \<Rightarrow> kstate \<Rightarrow> (c_int \<times> kstate) option" where
  "cuddlk_device_release cfg env p st = do {
     st \<leftarrow> cuddlk_manager_lock st;
     (ret1, st) \<leftarrow> cuddlk_manager_remove_device st p;
     (ret2, st) \<leftarrow> cuddlk_device_unregister cfg env p st;
     st \<leftarrow> cuddlk_manager_unlock st;
     Some (if ret1 \<noteq> 0 then ret1 else ret2, st)
   }"

subsection \<open>The invariant of the manager\<close>

text \<open>
  Every occupied slot holds a live registered device, no device sits in two slots, the
  reference counts are at most the number of recorded references, and each recorded
  reference points to a managed resource. The mutex is free between two operations.
\<close>

definition devices_registered :: "kcfg \<Rightarrow> kstate \<Rightarrow> bool" where
  "devices_registered cfg st \<longleftrightarrow>
     (\<forall>i p. device_at st i = Some p \<longrightarrow> (\<exists>d. k_heap st p = Some d \<and> registered cfg p d))"

definition refs_ok :: "kstate \<Rightarrow> bool" where
  "refs_ok st \<longleftrightarrow>
     counts_bounded memregion_count cuddlk_mem_refs st \<and>
     counts_bounded eventsrc_count cuddlk_event_refs st \<and>
     refs_placed memregion_count (cuddlk_mem_refs st) st \<and>
     refs_placed eventsrc_count (cuddlk_event_refs st) st"

definition refs_few :: "kstate \<Rightarrow> bool" where
  "refs_few st \<longleftrightarrow> length (cuddlk_mem_refs st) < 2 ^ 31 - 1 \<and> length (cuddlk_event_refs st) < 2 ^ 31 - 1"

definition manager_inv :: "kcfg \<Rightarrow> kstate \<Rightarrow> bool" where
  "manager_inv cfg st \<longleftrightarrow> table_len st \<and> occupied_distinct (k_table st) \<and>
     devices_registered cfg st \<and> refs_ok st"

lemma manager_invD:
  assumes "manager_inv cfg st"
  shows "table_len st" "occupied_distinct (k_table st)" "devices_registered cfg st" "refs_ok st"
  using assms by (simp_all add: manager_inv_def)

lemma devices_registeredD:
  "devices_registered cfg st \<Longrightarrow> device_at st i = Some p \<Longrightarrow>
     \<exists>d. k_heap st p = Some d \<and> registered cfg p d"
  unfolding devices_registered_def by blast

lemma device_at_nth:
  "table_len st \<Longrightarrow> i < CUDDLK_MAX_MANAGED_DEVICES \<Longrightarrow> device_at st (int i) = k_table st ! i"
  by (simp add: device_at_def table_len_def)

lemma device_at_iff:
  "table_len st \<Longrightarrow> device_at st i = Some p \<longleftrightarrow>
     0 \<le> i \<and> i < int CUDDLK_MAX_MANAGED_DEVICES \<and> k_table st ! nat i = Some p"
  by (auto simp: device_at_def table_len_def bind_eq_Some_conv arr_get_def split: if_splits)

lemma registered_table_ok: "table_len st \<Longrightarrow> devices_registered cfg st \<Longrightarrow> table_ok st"
  unfolding table_ok_def table_len_def
  by (metis device_at_nth devices_registeredD registered_def table_len_def)

lemma manager_inv_table_ok: "manager_inv cfg st \<Longrightarrow> table_ok st"
  by (rule registered_table_ok [OF manager_invD(1,3)])

text \<open>A device as a driver hands it over: nothing allocated, nothing claimed.\<close>

definition fresh_device :: "cuddlk_device \<Rightarrow> bool" where
  "fresh_device d \<longleftrightarrow> arrays_ok d \<and> holds_nothing d \<and>
     (\<forall>m \<in> set (d_mem d). mr_ref_count m = 0) \<and> (\<forall>e \<in> set (d_events d). ev_ref_count e = 0)"

definition not_managed :: "dptr \<Rightarrow> kstate \<Rightarrow> bool" where
  "not_managed p st \<longleftrightarrow> Some p \<notin> set (k_table st)"

lemma not_managed_at: "not_managed p st \<Longrightarrow> device_at st i \<noteq> Some p"
  unfolding not_managed_def by (auto dest!: device_at_arr_get arr_get_SomeD)
    (metis nat_less_iff nth_mem)

subsection \<open>The outcome of a call\<close>

lemma set_mutex_simps [simp]:
  "k_heap (set_mutex b st) = k_heap st" "k_table (set_mutex b st) = k_table st"
  "k_locked (set_mutex b st) = b" "cuddlk_mem_refs (set_mutex b st) = cuddlk_mem_refs st"
  "cuddlk_event_refs (set_mutex b st) = cuddlk_event_refs st"
  "k_modrefs (set_mutex b st) = k_modrefs st"
  "cuddlk_manager_device (set_mutex b st) = cuddlk_manager_device st"
  by (simp_all add: set_mutex_def)

lemma lock_simps [simp]:
  "\<not> k_locked st \<Longrightarrow> cuddlk_manager_lock st = Some (set_mutex True st)"
  "k_locked st \<Longrightarrow> cuddlk_manager_lock st = None"
  "k_locked st \<Longrightarrow> cuddlk_manager_unlock st = Some (set_mutex False st)"
  by (simp_all add: cuddlk_manager_lock_def cuddlk_manager_unlock_def)

lemma find_matching_mutex [simp]:
  "cuddlk_manager_find_device_slot_matching (set_mutex b st) = cuddlk_manager_find_device_slot_matching st"
proof -
  have "device_slot_matches (set_mutex b st) = device_slot_matches st"
    unfolding device_slot_matches_def set_mutex_simps ..
  then show ?thesis by (intro ext) (simp add: cuddlk_manager_find_device_slot_matching_def)
qed

lemma next_instance_loop_mutex:
  "next_instance_loop (set_mutex b st) d slot k = next_instance_loop st d slot k"
proof (induction st d slot k rule: next_instance_loop.induct)
  case (1 st d slot k)
  show ?case
    by (subst next_instance_loop.simps, subst (2) next_instance_loop.simps)
      (auto split: option.splits simp: "1.IH")
qed

lemma next_instance_mutex [simp]:
  "cuddlk_manager_next_available_instance_id (set_mutex b st) d =
     cuddlk_manager_next_available_instance_id st d"
  by (simp add: cuddlk_manager_next_available_instance_id_def next_instance_loop_mutex)

text \<open>
  Two states agree \<open>but_for\<close> a device and the table when everything else is the same.
\<close>

definition but_for :: "dptr \<Rightarrow> kstate \<Rightarrow> kstate \<Rightarrow> bool" where
  "but_for p st' st \<longleftrightarrow> (\<forall>q. q \<noteq> p \<longrightarrow> k_heap st' q = k_heap st q) \<and>
     cuddlk_mem_refs st' = cuddlk_mem_refs st \<and> cuddlk_event_refs st' = cuddlk_event_refs st \<and>
     k_modrefs st' = k_modrefs st \<and> cuddlk_manager_device st' = cuddlk_manager_device st"

lemma but_for_refl [simp]: "but_for p st st"
  by (simp add: but_for_def)

lemma but_for_steps [simp]:
  "but_for p (set_dev p d st') st = but_for p st' st"
  "but_for p (set_mutex b st') st = but_for p st' st"
  "but_for p (set_devices_slot i e st') st = but_for p st' st"
  by (auto simp: but_for_def)

lemma table_ok_set_dev: "table_ok st \<Longrightarrow> not_managed p st \<Longrightarrow> table_ok (set_dev p d st)"
  unfolding table_ok_def not_managed_def by (metis fun_upd_apply nth_mem set_dev_simps(1,2))

lemma table_ok_mutex [simp]: "table_ok (set_mutex b st) = table_ok st"
  by (simp add: table_ok_def)

lemma table_len_simps [simp]:
  "table_len (set_mutex b st) = table_len st" "table_len (set_dev p d st) = table_len st"
  by (simp_all add: table_len_def)

lemma table_ok_len: "table_ok st \<Longrightarrow> table_len st"
  by (simp add: table_ok_def table_len_def)

lemma next_instance_total:
  assumes "table_ok st"
  obtains r where "cuddlk_manager_next_available_instance_id st d = Some r"
    "r = - ENOMEM \<or> 1 \<le> r \<and> r \<le> 256"
  using next_instance_loop_total [OF assms, of 0 1 d]
  unfolding cuddlk_manager_next_available_instance_id_def by auto

text \<open>The number a device ends up with.\<close>

definition instance_given :: "kstate \<Rightarrow> cuddlk_device \<Rightarrow> c_int" where
  "instance_given st d =
     (if d_instance d \<noteq> 0 then d_instance d
      else case cuddlk_manager_next_available_instance_id st d of Some r \<Rightarrow> r | None \<Rightarrow> 0)"

definition manage_result :: "kcfg \<Rightarrow> reg_env \<Rightarrow> kstate \<Rightarrow> cuddlk_device \<Rightarrow> c_int" where
  "manage_result cfg env st d =
     (if d_group d = None \<or> d_name d = None then - EINVAL
      else if d_instance d = 0 \<and> instance_given st d < 0 then - ENOMEM
      else if registration_result cfg env d \<noteq> 0 then registration_result cfg env d
      else if None \<notin> set (k_table st) then - ENOMEM else 0)"

lemma manage_instance_effect:
  assumes "table_ok st" "k_heap st p = Some d"
  obtains (bad) "d_instance d = 0" "instance_given st d < 0" "manage_instance p d st = Some (- ENOMEM, st)"
    | (good) "instance_given st d \<noteq> 0" "d_instance d = 0 \<longrightarrow> 0 < instance_given st d"
        "manage_instance p d st = Some (0, set_dev p (d\<lparr>d_instance := instance_given st d\<rparr>) st)"
proof (cases "d_instance d = 0")
  case True
  obtain r where r: "cuddlk_manager_next_available_instance_id st d = Some r"
    "r = - ENOMEM \<or> 1 \<le> r \<and> r \<le> 256" using next_instance_total [OF assms(1)] .
  from r(2) show ?thesis
  proof
    assume "r = - ENOMEM"
    with True r(1) show ?thesis by (intro bad) (simp_all add: manage_instance_def instance_given_def)
  next
    assume "1 \<le> r \<and> r \<le> 256"
    with True r(1) show ?thesis by (intro good) (simp_all add: manage_instance_def instance_given_def)
  qed
next
  case False
  then show ?thesis
    using set_dev_same [OF assms(2)] by (intro good) (simp_all add: manage_instance_def instance_given_def)
qed

lemma manage_outcome:
  assumes inv: "table_ok st" "\<not> k_locked st" and p: "not_managed p st"
    and d: "k_heap st p = Some d" "arrays_ok d" "holds_nothing d"
  obtains ret st' d' where "cuddlk_device_manage cfg env p st = Some (ret, st')"
    "ret = manage_result cfg env st d" "\<not> k_locked st'" "but_for p st' st" "k_heap st' p = Some d'"
    "ret \<noteq> 0 \<Longrightarrow> k_table st' = k_table st \<and> holds_nothing d'"
    "ret = 0 \<Longrightarrow> registered cfg p d' \<and> same_identity d' (d\<lparr>d_instance := instance_given st d\<rparr>) \<and>
       (\<exists>i < CUDDLK_MAX_MANAGED_DEVICES. k_table st ! i = None \<and> (\<forall>j < i. k_table st ! j \<noteq> None) \<and>
          k_table st' = (k_table st)[i := Some p])"
proof -
  let ?s = "set_mutex True st"
  have s: "table_ok ?s" "k_heap ?s p = Some d" using inv d by simp_all
  consider "d_group d = None \<or> d_name d = None" | "d_group d \<noteq> None" "d_name d \<noteq> None" by blast
  then show ?thesis
  proof cases
    case 1
    then have "cuddlk_device_manage cfg env p st = Some (- EINVAL, set_mutex False ?s)"
      using inv d by (auto simp: cuddlk_device_manage_def)
    from that [OF this, of d] d 1 show ?thesis by (simp add: manage_result_def)
  next
    case named: 2
    have ig: "instance_given ?s d = instance_given st d"
      by (simp add: instance_given_def)
    from s show ?thesis
    proof (cases rule: manage_instance_effect)
      case bad
      then have "cuddlk_device_manage cfg env p st = Some (- ENOMEM, set_mutex False ?s)"
        using inv d named by (auto simp: cuddlk_device_manage_def)
      from that [OF this, of d] d named bad(1,2) show ?thesis by (simp add: manage_result_def ig)
    next
      case good
      let ?d = "d\<lparr>d_instance := instance_given ?s d\<rparr>"
      let ?s1 = "set_dev p ?d ?s"
      have fr: "arrays_ok ?d" "holds_nothing ?d" using d by (simp_all add: arrays_ok_def holds_nothing_def)
      from register_outcome [of ?s1 p ?d cfg env] fr obtain d1 where
        d1: "cuddlk_device_register cfg env p ?s1 = Some (registration_result cfg env ?d, set_dev p d1 ?s1)"
        "same_identity d1 ?d"
        "if registration_result cfg env ?d = 0 then registered cfg p d1 else holds_nothing d1" by auto
      let ?s2 = "set_dev p d1 ?s1"
      have rr: "registration_result cfg env ?d = registration_result cfg env d"
        by (simp add: registration_result_def)
      have not_bad: "\<not> (d_instance d = 0 \<and> instance_given st d < 0)" using good(2) ig by auto
      have tl: "table_len ?s2" using inv(1) by (simp add: table_ok_len)
      have start: "cuddlk_device_manage cfg env p st =
        (if registration_result cfg env ?d \<noteq> 0
         then Some (registration_result cfg env ?d, set_mutex False ?s2)
         else do {
           (ret, st) \<leftarrow> cuddlk_manager_add_device ?s2 p;
           (ret, st) \<leftarrow> (if ret \<noteq> 0 then do {
                (_, st) \<leftarrow> cuddlk_device_unregister cfg env p st;
                Some (ret, st)
              } else Some (0, st));
           st \<leftarrow> cuddlk_manager_unlock st;
           Some (ret, st)
         })"
        using inv(2) d(1) named good(3) d1(1)
        by (cases "cuddlk_manager_add_device ?s2 p") (auto simp: cuddlk_device_manage_def)
      show ?thesis
      proof (cases "registration_result cfg env ?d = 0")
        case False
        with start have "cuddlk_device_manage cfg env p st =
          Some (registration_result cfg env ?d, set_mutex False ?s2)" by simp
        from that [OF this, of d1] False d1 named not_bad show ?thesis by (simp add: manage_result_def rr)
      next
        case reg: True
        with d1 have reg1: "registered cfg p d1" by simp
        from tbl.add_cases [OF tl, of p] show ?thesis
        proof (elim disjE exE conjE)
          assume none: "None \<notin> set (k_table ?s2)" and full: "cuddlk_manager_add_device ?s2 p = Some (- ENOMEM, ?s2)"
          from unregister_outcome [of ?s2 p d1 cfg env] reg1 obtain d2 where
            "cuddlk_device_unregister cfg env p ?s2 =
               Some (if use_udd cfg then udd_unregister_ret env else 0, set_dev p d2 ?s2)"
            "holds_nothing d2" by auto
          with start reg full have "cuddlk_device_manage cfg env p st =
              Some (- ENOMEM, set_mutex False (set_dev p d2 ?s2))" by simp
          from that [OF this, of d2] \<open>holds_nothing d2\<close> reg none named not_bad
          show ?thesis by (simp add: manage_result_def rr)
        next
          fix i s'
          assume i: "i < length (k_table ?s2)" "k_table ?s2 ! i = None" "\<forall>j < i. k_table ?s2 ! j \<noteq> None"
            and add: "cuddlk_manager_add_device ?s2 p = Some (0, s')"
            and tab: "k_table s' = (k_table ?s2)[i := Some p]"
          from add_device_frame [OF add] have s': "k_locked s'" "but_for p s' st" "k_heap s' p = Some d1"
            by auto
          with start reg add have "cuddlk_device_manage cfg env p st = Some (0, set_mutex False s')"
            by simp
          moreover from i have "None \<in> set (k_table st)" by (metis nth_mem set_dev_simps(2) set_mutex_simps(2))
          moreover have "\<exists>i < CUDDLK_MAX_MANAGED_DEVICES. k_table st ! i = None \<and>
              (\<forall>j < i. k_table st ! j \<noteq> None) \<and> k_table (set_mutex False s') = (k_table st)[i := Some p]"
            using i tab tl by (intro exI [of _ i]) (simp add: table_len_def)
          ultimately show ?thesis
            using that [of 0 "set_mutex False s'" d1] s' reg1 d1(2) reg [unfolded rr] named not_bad
            by (simp add: manage_result_def ig)
        qed
      qed
    qed
  qed
qed

lemma release_outcome:
  assumes inv: "table_len st" "\<not> k_locked st" and d: "k_heap st p = Some d" "registered cfg p d"
    and p: "\<not> not_managed p st"
  obtains i st' d' where
    "cuddlk_device_release cfg env p st = Some (if use_udd cfg then udd_unregister_ret env else 0, st')"
    "\<not> k_locked st'" "but_for p st' st" "k_heap st' p = Some d'" "holds_nothing d'" "same_identity d' d"
    "i < CUDDLK_MAX_MANAGED_DEVICES" "k_table st ! i = Some p" "k_table st' = (k_table st)[i := None]"
proof -
  let ?s = "set_mutex True st"
  have "table_len ?s" using inv by simp
  from tbl.remove_cases [OF this, of p] p obtain i s1 where
    i: "i < length (k_table st)" "k_table st ! i = Some p"
    and rem: "cuddlk_manager_remove_device ?s p = Some (0, s1)"
    and tab: "k_table s1 = (k_table st)[i := None]" by (auto simp: not_managed_def)
  from remove_device_frame [OF rem] have s1: "k_locked s1" "but_for p s1 st" "k_heap s1 p = Some d"
    using d(1) by auto
  from unregister_outcome [OF s1(3) d(2), of env] obtain d' where
    u: "cuddlk_device_unregister cfg env p s1 =
      Some (if use_udd cfg then udd_unregister_ret env else 0, set_dev p d' s1)"
    "same_identity d' d" "holds_nothing d'" by blast
  have "cuddlk_device_release cfg env p st =
      Some (if use_udd cfg then udd_unregister_ret env else 0, set_mutex False (set_dev p d' s1))"
    using inv(2) rem u(1) s1(1) by (simp add: cuddlk_device_release_def)
  from that [OF this, of d' i] s1(2) u tab i inv(1) show ?thesis by (simp add: table_len_def)
qed

text \<open>A device that is registered but not managed is unregistered, and \<open>-ENXIO\<close> returned.\<close>

lemma release_unmanaged:
  assumes "table_len st" "\<not> k_locked st" "k_heap st p = Some d" "registered cfg p d" "not_managed p st"
  shows "\<exists>d'. cuddlk_device_release cfg env p st = Some (- ENXIO, set_mutex False (set_dev p d' (set_mutex True st))) \<and>
    holds_nothing d'"
proof -
  let ?s = "set_mutex True st"
  from assms(5) have "Some p \<notin> set (k_table ?s)" by (simp add: not_managed_def)
  then have rem: "cuddlk_manager_remove_device ?s p = Some (- ENXIO, ?s)"
    using tbl.remove_cases [of ?s p] assms(1) by (metis nth_mem table_len_simps(1))
  from unregister_outcome [of ?s p d cfg env] assms(3,4) obtain d' where
    "cuddlk_device_unregister cfg env p ?s =
      Some (if use_udd cfg then udd_unregister_ret env else 0, set_dev p d' ?s)" "holds_nothing d'" by auto
  with rem assms(2) show ?thesis by (auto simp: cuddlk_device_release_def)
qed

subsection \<open>Preservation of the invariant\<close>

lemma get_but_for:
  assumes "but_for p st' st" "q \<noteq> p"
  shows "k_heap st' q = k_heap st q" "get_memregion st' q j = get_memregion st q j"
    "get_eventsrc st' q j = get_eventsrc st q j"
    "memregion_count st' q j = memregion_count st q j" "eventsrc_count st' q j = eventsrc_count st q j"
  using assms by (simp_all add: but_for_def get_memregion_def get_eventsrc_def memregion_count_def
      eventsrc_count_def)

lemma device_at_update:
  assumes "table_len st" "i < CUDDLK_MAX_MANAGED_DEVICES" "k_table st' = (k_table st)[i := e]"
  shows "device_at st' k = (if k = int i then e else device_at st k)"
proof -
  have len: "length (k_table st') = length (k_table st)" using assms(3) by simp
  show ?thesis
    using assms len
    by (auto simp: device_at_def arr_get_def table_len_def nth_list_update nat_eq_iff)
qed

lemma map_eq_comp: "map f xs = map f ys \<Longrightarrow> (\<And>x. g x = h (f x)) \<Longrightarrow> map g xs = map g ys"
  by (metis (no_types, lifting) ext list.map_comp comp_apply map_eq_conv)

lemma zero_counts:
  assumes "fresh_device d" "same_identity d' d" "k_heap st p = Some d'"
  shows "memregion_count st p j = Some c \<Longrightarrow> c = 0" "eventsrc_count st p j = Some c \<Longrightarrow> c = 0"
proof -
  from assms(2) have m: "map (\<lambda>m. (mr_name m, mr_pa_addr m, mr_start_offset m, mr_type m, mr_flags m, mr_ref_count m)) (d_mem d') =
     map (\<lambda>m. (mr_name m, mr_pa_addr m, mr_start_offset m, mr_type m, mr_flags m, mr_ref_count m)) (d_mem d)"
    and e: "map (\<lambda>e. (ev_name e, ev_flags e, ev_intr e, ev_ref_count e, ev_uio_open_count e, ev_udd_open_count e)) (d_events d') =
     map (\<lambda>e. (ev_name e, ev_flags e, ev_intr e, ev_ref_count e, ev_uio_open_count e, ev_udd_open_count e)) (d_events d)"
    unfolding same_identity_def by blast+
  have "map mr_ref_count (d_mem d') = map mr_ref_count (d_mem d)"
    by (rule map_eq_comp [OF m, where h = "\<lambda>(a, b, c, d, e, f). f"]) simp
  moreover have "map ev_ref_count (d_events d') = map ev_ref_count (d_events d)"
    by (rule map_eq_comp [OF e, where h = "\<lambda>(a, b, c, d, e, f). d"]) simp
  ultimately have z: "\<forall>m \<in> set (d_mem d'). mr_ref_count m = 0" "\<forall>e \<in> set (d_events d'). ev_ref_count e = 0"
    using assms(1) unfolding fresh_device_def by (metis imageE imageI list.set_map)+
  show "memregion_count st p j = Some c \<Longrightarrow> c = 0" "eventsrc_count st p j = Some c \<Longrightarrow> c = 0"
    using z assms(3)
    by (auto simp: memregion_count_def eventsrc_count_def get_memregion_def get_eventsrc_def
        dest!: arr_get_SomeD)
qed

text \<open>Entering and clearing one slot, for either kind of count.\<close>

lemma counts_bounded_enter:
  assumes b: "counts_bounded cnt refs st" and r: "refs st' = refs st"
    and at: "\<And>k. device_at st' k = (if k = i then Some p else device_at st k)"
    and cnt: "\<And>q j. q \<noteq> p \<Longrightarrow> cnt st' q j = cnt st q j" "\<And>j c. cnt st' p j = Some c \<Longrightarrow> c = 0"
    and nm: "\<And>k. device_at st k \<noteq> Some p"
  shows "counts_bounded cnt refs st'"
  unfolding counts_bounded_def
proof (intro allI impI)
  fix k q j c
  assume q: "device_at st' k = Some q" and c: "cnt st' q j = Some c"
  show "0 \<le> c \<and> c \<le> int (count_where (tok_at k j) (refs st'))"
  proof (cases "q = p")
    case True
    with c cnt(2) [of j c] show ?thesis by simp
  next
    case False
    with q at have "device_at st k = Some q" by (auto split: if_splits)
    with c False cnt(1) counts_boundedD [OF b] show ?thesis by (simp add: r)
  qed
qed

lemma refs_placed_enter:
  assumes b: "refs_placed cnt l st"
    and at: "\<And>k. device_at st' k = (if k = i then Some p else device_at st k)"
    and cnt: "\<And>q j. q \<noteq> p \<Longrightarrow> cnt st' q j = cnt st q j"
    and nm: "\<And>k. device_at st k \<noteq> Some p" and free: "device_at st i = None"
  shows "refs_placed cnt l st'"
  unfolding refs_placed_def
proof
  fix r
  assume "r \<in> set l"
  with b obtain q where q: "device_at st (device_index (ref_token r)) = Some q"
    "cnt st q (resource_index (ref_token r)) \<noteq> None" unfolding refs_placed_def by blast
  with nm free have "q \<noteq> p" "device_index (ref_token r) \<noteq> i" by auto
  with q show "\<exists>p. device_at st' (device_index (ref_token r)) = Some p \<and>
      cnt st' p (resource_index (ref_token r)) \<noteq> None"
    by (simp add: at cnt)
qed

lemma counts_bounded_clear:
  assumes b: "counts_bounded cnt refs st" and r: "refs st' = refs st"
    and at: "\<And>k. device_at st' k = (if k = i then None else device_at st k)"
    and cnt: "\<And>q j. q \<noteq> p \<Longrightarrow> cnt st' q j = cnt st q j"
    and only: "\<And>k. device_at st k = Some p \<Longrightarrow> k = i"
  shows "counts_bounded cnt refs st'"
  unfolding counts_bounded_def
proof (intro allI impI)
  fix k q j c
  assume q: "device_at st' k = Some q" and c: "cnt st' q j = Some c"
  from q at have k: "device_at st k = Some q" "k \<noteq> i" by (auto split: if_splits)
  with only have "q \<noteq> p" by blast
  with c k cnt counts_boundedD [OF b k(1)] show "0 \<le> c \<and> c \<le> int (count_where (tok_at k j) (refs st'))"
    by (simp add: r)
qed

lemma refs_placed_clear:
  assumes b: "refs_placed cnt l st"
    and at: "\<And>k. device_at st' k = (if k = i then None else device_at st k)"
    and cnt: "\<And>q j. q \<noteq> p \<Longrightarrow> cnt st' q j = cnt st q j"
    and only: "\<And>k. device_at st k = Some p \<Longrightarrow> k = i"
    and none: "\<And>r. r \<in> set l \<Longrightarrow> device_index (ref_token r) \<noteq> i"
  shows "refs_placed cnt l st'"
  unfolding refs_placed_def
proof
  fix r
  assume r: "r \<in> set l"
  with b obtain q where q: "device_at st (device_index (ref_token r)) = Some q"
    "cnt st q (resource_index (ref_token r)) \<noteq> None" unfolding refs_placed_def by blast
  with none [OF r] only have "q \<noteq> p" by blast
  with q none [OF r] show "\<exists>p. device_at st' (device_index (ref_token r)) = Some p \<and>
      cnt st' p (resource_index (ref_token r)) \<noteq> None"
    by (simp add: at cnt)
qed

lemma manager_inv_same_table:
  assumes inv: "manager_inv cfg st" and p: "not_managed p st" "but_for p st' st" "k_table st' = k_table st"
  shows "manager_inv cfg st'"
proof -
  have at: "device_at st' = device_at st" using p(3) by (simp add: device_at_def fun_eq_iff)
  note nm = not_managed_at [OF p(1)]
  have refs: "cuddlk_mem_refs st' = cuddlk_mem_refs st" "cuddlk_event_refs st' = cuddlk_event_refs st"
    using p(2) by (simp_all add: but_for_def)
  have ok: "table_len st" "occupied_distinct (k_table st)" "devices_registered cfg st" "refs_ok st"
    using manager_invD [OF inv] .
  have other: "q \<noteq> p" if "device_at st k = Some q" for k q using that nm by auto
  have "devices_registered cfg st'"
    unfolding devices_registered_def at
    using devices_registeredD [OF ok(3)] get_but_for(1) [OF p(2)] other by fastforce
  moreover have "counts_bounded memregion_count cuddlk_mem_refs st'"
    "counts_bounded eventsrc_count cuddlk_event_refs st'"
    using ok(4) get_but_for(4,5) [OF p(2)] other
    unfolding refs_ok_def counts_bounded_def at refs by fastforce+
  moreover have "refs_placed memregion_count (cuddlk_mem_refs st) st'"
    "refs_placed eventsrc_count (cuddlk_event_refs st) st'"
    using ok(4) get_but_for(4,5) [OF p(2)] other
    unfolding refs_ok_def refs_placed_def at by fastforce+
  ultimately have "devices_registered cfg st'" "refs_ok st'" by (simp_all add: refs_ok_def refs)
  then show ?thesis using ok p(3) by (simp add: manager_inv_def table_len_def)
qed

lemma manager_inv_enter:
  assumes inv: "manager_inv cfg st" and p: "not_managed p st" "but_for p st' st"
    and i: "i < CUDDLK_MAX_MANAGED_DEVICES" "k_table st ! i = None" "k_table st' = (k_table st)[i := Some p]"
    and d: "k_heap st' p = Some d'" "registered cfg p d'" "fresh_device d" "same_identity d' d"
  shows "manager_inv cfg st'"
proof -
  note ok = manager_invD [OF inv]
  note at = device_at_update [OF ok(1) i(1,3)]
  note nm = not_managed_at [OF p(1)]
  have refs: "cuddlk_mem_refs st' = cuddlk_mem_refs st" "cuddlk_event_refs st' = cuddlk_event_refs st"
    using p(2) by (simp_all add: but_for_def)
  have free: "device_at st (int i) = None" using device_at_nth [OF ok(1) i(1)] i(2) by simp
  have "devices_registered cfg st'"
    unfolding devices_registered_def
  proof (intro allI impI)
    fix k q
    assume "device_at st' k = Some q"
    then show "\<exists>d. k_heap st' q = Some d \<and> registered cfg q d"
      using at [of k] d(1,2) devices_registeredD [OF ok(3), of k q] get_but_for(1) [OF p(2), of q] nm [of k]
      by (cases "q = p") (auto split: if_splits)
  qed
  moreover from ok(4) have "counts_bounded memregion_count cuddlk_mem_refs st'"
    "counts_bounded eventsrc_count cuddlk_event_refs st'"
    unfolding refs_ok_def
    by (auto intro!: counts_bounded_enter [OF _ _ at] nm simp: refs get_but_for [OF p(2)]
        dest: zero_counts [OF d(3,4,1)])
  moreover from ok(4) have "refs_placed memregion_count (cuddlk_mem_refs st') st'"
    "refs_placed eventsrc_count (cuddlk_event_refs st') st'"
    unfolding refs_ok_def refs
    by (auto intro: refs_placed_enter [OF _ at _ nm free] simp: get_but_for [OF p(2)])
  moreover have "occupied_distinct (k_table st')" "table_len st'"
    using occupied_distinct_update_Some [OF ok(2)] p(1) ok(1) i(3)
    by (simp_all add: not_managed_def table_len_def)
  ultimately show ?thesis by (simp add: manager_inv_def refs_ok_def)
qed

text \<open>No recorded reference points to the slot of the device.\<close>

definition unreferenced :: "dptr \<Rightarrow> kstate \<Rightarrow> bool" where
  "unreferenced p st \<longleftrightarrow> (\<forall>r \<in> set (cuddlk_mem_refs st) \<union> set (cuddlk_event_refs st).
     device_at st (device_index (ref_token r)) \<noteq> Some p)"

lemma manager_inv_clear:
  assumes inv: "manager_inv cfg st" and p: "but_for p st' st"
    and i: "i < CUDDLK_MAX_MANAGED_DEVICES" "k_table st ! i = Some p" "k_table st' = (k_table st)[i := None]"
    and unref: "unreferenced p st"
  shows "manager_inv cfg st'"
proof -
  note ok = manager_invD [OF inv]
  note at = device_at_update [OF ok(1) i(1,3)]
  have refs: "cuddlk_mem_refs st' = cuddlk_mem_refs st" "cuddlk_event_refs st' = cuddlk_event_refs st"
    using p by (simp_all add: but_for_def)
  have here: "device_at st (int i) = Some p" using device_at_nth [OF ok(1) i(1)] i(2) by simp
  have only: "k = int i" if "device_at st k = Some p" for k
    using device_at_inj [OF ok(2) that here] .
  have none: "device_index (ref_token r) \<noteq> int i"
    if "r \<in> set (cuddlk_mem_refs st) \<union> set (cuddlk_event_refs st)" for r
    using unref that here unfolding unreferenced_def by metis
  have "devices_registered cfg st'"
    unfolding devices_registered_def
  proof (intro allI impI)
    fix k q
    assume "device_at st' k = Some q"
    with at [of k] have k: "device_at st k = Some q" "k \<noteq> int i" by (auto split: if_splits)
    with only have "q \<noteq> p" by blast
    with get_but_for(1) [OF p this] devices_registeredD [OF ok(3) k(1)]
    show "\<exists>d. k_heap st' q = Some d \<and> registered cfg q d" by simp
  qed
  moreover from ok(4) have "counts_bounded memregion_count cuddlk_mem_refs st'"
    "counts_bounded eventsrc_count cuddlk_event_refs st'"
    unfolding refs_ok_def
    by (auto intro!: counts_bounded_clear [OF _ _ at _ only] simp: refs get_but_for [OF p])
  moreover from ok(4) have "refs_placed memregion_count (cuddlk_mem_refs st') st'"
    "refs_placed eventsrc_count (cuddlk_event_refs st') st'"
    unfolding refs_ok_def refs
    by (auto intro!: refs_placed_clear [OF _ at _ only none] simp: get_but_for [OF p])
  moreover have "occupied_distinct (k_table st')" "table_len st'"
    using occupied_distinct_update_None [OF ok(2)] ok(1) i(3) by (simp_all add: table_len_def)
  ultimately show ?thesis by (simp add: manager_inv_def refs_ok_def)
qed

lemma manage_keeps_inv:
  assumes "manager_inv cfg st" "\<not> k_locked st" "not_managed p st" "k_heap st p = Some d" "fresh_device d"
  obtains ret st' where "cuddlk_device_manage cfg env p st = Some (ret, st')"
    "manager_inv cfg st'" "\<not> k_locked st'"
proof -
  have d: "arrays_ok d" "holds_nothing d" using assms(5) by (simp_all add: fresh_device_def)
  obtain ret st' d' where m: "cuddlk_device_manage cfg env p st = Some (ret, st')"
    "\<not> k_locked st'" "but_for p st' st" "k_heap st' p = Some d'"
    and bad: "ret \<noteq> 0 \<Longrightarrow> k_table st' = k_table st"
    and good: "ret = 0 \<Longrightarrow> registered cfg p d' \<and> same_identity d' (d\<lparr>d_instance := instance_given st d\<rparr>) \<and>
       (\<exists>i < CUDDLK_MAX_MANAGED_DEVICES. k_table st ! i = None \<and> (\<forall>j < i. k_table st ! j \<noteq> None) \<and>
          k_table st' = (k_table st)[i := Some p])"
    using manage_outcome [OF manager_inv_table_ok [OF assms(1)] assms(2-4) d, of cfg env] by metis
  have "manager_inv cfg st'"
  proof (cases "ret = 0")
    case True
    have "fresh_device (d\<lparr>d_instance := instance_given st d\<rparr>)"
      using assms(5) by (simp add: fresh_device_def arrays_ok_def holds_nothing_def)
    with good [OF True] show ?thesis
      using manager_inv_enter [OF assms(1,3) m(3) _ _ _ m(4)] by blast
  next
    case False
    from manager_inv_same_table [OF assms(1,3) m(3) bad [OF False]] show ?thesis .
  qed
  with that m show ?thesis by blast
qed

lemma release_keeps_inv:
  assumes "manager_inv cfg st" "\<not> k_locked st" "\<not> not_managed p st" "unreferenced p st"
  obtains ret st' where "cuddlk_device_release cfg env p st = Some (ret, st')"
    "manager_inv cfg st'" "\<not> k_locked st'"
proof -
  note ok = manager_invD [OF assms(1)]
  from assms(3) obtain k where k: "k < length (k_table st)" "k_table st ! k = Some p"
    by (auto simp: not_managed_def in_set_conv_nth)
  with ok(1) have "device_at st (int k) = Some p" by (simp add: device_at_nth table_len_def)
  with devices_registeredD [OF ok(3)] obtain d where d: "k_heap st p = Some d" "registered cfg p d" by blast
  obtain ret i st' where r: "cuddlk_device_release cfg env p st = Some (ret, st')"
    "\<not> k_locked st'" "but_for p st' st"
    "i < CUDDLK_MAX_MANAGED_DEVICES" "k_table st ! i = Some p" "k_table st' = (k_table st)[i := None]"
    using release_outcome [OF ok(1) assms(2) d assms(3), of env] by metis
  from manager_inv_clear [OF assms(1) r(3-6) assms(4)] that r show ?thesis by blast
qed

subsection \<open>A concrete manager\<close>

text \<open>
  The state after the manager's module was loaded, a platform, and a device as a driver
  would declare it; they are used where a property is applied to concrete data.
\<close>

definition empty_kstate :: "(dptr \<rightharpoonup> cuddlk_device) \<Rightarrow> kstate" where
  "empty_kstate heap = \<lparr>k_heap = heap, cuddlk_global_manager = zero_manager, cuddlk_mem_refs = [],
     cuddlk_event_refs = [], k_modrefs = (\<lambda>_. 0), cuddlk_manager_device = Some 0\<rparr>"

definition sample_cfg :: kcfg where
  "sample_cfg = \<lparr>use_udd = False, page_size = 4096, max_uio_maps = 5, udd_nr_maps = 5,
     memt_none = 0, memt_phys = 1, memt_logical = 2, memt_virtual = 3,
     udd_mem_none = 0, udd_mem_phys = 1, udd_mem_logical = 2, udd_mem_virtual = 3,
     irq_none = 0, irq_custom = -1, uio_irq_custom = -1, udd_irq_custom = -1, ret_intr_handled = 1,
     linux_irqf_shared = 128, this_module = 7, commit_hash = ''0123abc'', repo_is_dirty = False\<rparr>"

definition sample_env :: reg_env where
  "sample_env = \<lparr>kasprintf_ok = True, uio_register_ret = 0, uio_register_minor = 3,
     udd_register_ret = 0, udd_unregister_ret = 0\<rparr>"

definition sample_device :: cuddlk_device where
  "sample_device = (zero_device 5 5)\<lparr>d_group := Some ''mfg'', d_name := Some ''card'', d_instance := 1,
     d_mem := (replicate CUDDLK_MAX_DEV_MEM_REGIONS zero_memregion)
       [0 := zero_memregion\<lparr>mr_name := Some ''regs'', mr_pa_addr := 0x10000, mr_len := 100, mr_type := 1\<rparr>],
     d_events := [zero_eventsrc\<lparr>ev_name := Some ''irq'',
       ev_intr := \<lparr>intr_handler = Some 1, intr_disable = Some 2, intr_enable = Some 3,
         intr_is_enabled = Some 4, intr_irq = 5, intr_flags = 0\<rparr>\<rparr>]\<rparr>"

definition sample_heap :: "dptr \<rightharpoonup> cuddlk_device" where
  "sample_heap = (\<lambda>p. if p = 1 \<or> p = 2 then Some sample_device else None)"

definition sample_state :: kstate where
  "sample_state = (case cuddlk_device_manage sample_cfg sample_env 1 (empty_kstate sample_heap) of
     Some (_, st) \<Rightarrow> st | None \<Rightarrow> empty_kstate sample_heap)"

lemma empty_kstate_simps [simp]:
  "k_heap (empty_kstate h) = h" "k_table (empty_kstate h) = replicate CUDDLK_MAX_MANAGED_DEVICES None"
  "\<not> k_locked (empty_kstate h)" "cuddlk_mem_refs (empty_kstate h) = []"
  "cuddlk_event_refs (empty_kstate h) = []" "not_managed p (empty_kstate h)"
  by (simp_all add: empty_kstate_def zero_manager_def not_managed_def)

lemma empty_device_at [simp]: "device_at (empty_kstate h) i = None"
  by (auto simp: device_at_def arr_get_def)

lemma manager_inv_empty: "manager_inv cfg (empty_kstate h)"
  by (simp add: manager_inv_def table_len_def occupied_distinct_def devices_registered_def refs_ok_def
      counts_bounded_def refs_placed_def)

lemma fresh_sample: "fresh_device sample_device"
  by (simp add: fresh_device_def sample_device_def zero_device_def zero_memregion_def zero_eventsrc_def
      arrays_ok_def holds_nothing_def zero_uio_def zero_udd_def CUDDLK_MAX_DEV_MEM_REGIONS_def
      CUDDLK_MAX_DEV_EVENTS_def eval_nat_numeral)

lemma sample_heap_simps [simp]:
  "sample_heap 1 = Some sample_device" "sample_heap (Suc 0) = Some sample_device" "sample_heap 2 = Some sample_device"
  by (simp_all add: sample_heap_def)

lemma sample_state_facts:
  "cuddlk_device_manage sample_cfg sample_env 1 (empty_kstate sample_heap) = Some (0, sample_state)"
  "manager_inv sample_cfg sample_state" "\<not> k_locked sample_state"
  "k_table sample_state = (replicate CUDDLK_MAX_MANAGED_DEVICES None)[0 := Some 1]"
  "cuddlk_mem_refs sample_state = []" "cuddlk_event_refs sample_state = []"
  "\<exists>d. k_heap sample_state 1 = Some d \<and> registered sample_cfg 1 d \<and> same_identity d sample_device"
  "k_heap sample_state 2 = Some sample_device"
proof -
  let ?e = "empty_kstate sample_heap"
  have d: "k_heap ?e 1 = Some sample_device" "arrays_ok sample_device" "holds_nothing sample_device"
    using fresh_sample by (simp_all add: fresh_device_def)
  have ig: "instance_given ?e sample_device = 1" "sample_device\<lparr>d_instance := 1\<rparr> = sample_device"
    by (simp_all add: instance_given_def sample_device_def)
  have res: "manage_result sample_cfg sample_env ?e sample_device = 0"
    by (simp add: manage_result_def registration_result_def sample_device_def sample_env_def sample_cfg_def
        CUDDLK_MAX_MANAGED_DEVICES_def)
  obtain ret st' d' where m: "cuddlk_device_manage sample_cfg sample_env 1 ?e = Some (ret, st')"
    "ret = manage_result sample_cfg sample_env ?e sample_device" "\<not> k_locked st'" "but_for 1 st' ?e"
    "k_heap st' 1 = Some d'"
    "ret = 0 \<Longrightarrow> registered sample_cfg 1 d' \<and>
       same_identity d' (sample_device\<lparr>d_instance := instance_given ?e sample_device\<rparr>) \<and>
       (\<exists>i < CUDDLK_MAX_MANAGED_DEVICES. k_table ?e ! i = None \<and> (\<forall>j < i. k_table ?e ! j \<noteq> None) \<and>
          k_table st' = (k_table ?e)[i := Some 1])"
    using manage_outcome [OF manager_inv_table_ok [OF manager_inv_empty] _ _ d, of sample_cfg sample_env]
    by (metis empty_kstate_simps(3,6))
  from m(1) have s: "sample_state = st'" by (simp add: sample_state_def)
  from m(2) res have z: "ret = 0" by simp
  with m(1) s show "cuddlk_device_manage sample_cfg sample_env 1 ?e = Some (0, sample_state)" by simp
  from m(6) [OF z] obtain i where i: "i < CUDDLK_MAX_MANAGED_DEVICES" "\<forall>j < i. k_table ?e ! j \<noteq> None"
    "k_table st' = (k_table ?e)[i := Some 1]" and r: "registered sample_cfg 1 d'"
    "same_identity d' sample_device" by (auto simp: ig)
  from i(1,2) have "i = 0" by (metis empty_kstate_simps(2) not_gr_zero nth_replicate order.strict_trans)
  with i(3) s show "k_table sample_state = (replicate CUDDLK_MAX_MANAGED_DEVICES None)[0 := Some 1]" by simp
  from manage_keeps_inv [OF manager_inv_empty _ _ d(1) fresh_sample, of sample_cfg sample_env] m(1) s
  show "manager_inv sample_cfg sample_state" by (metis empty_kstate_simps(3,6) option.inject prod.inject)
  from m(3) s show "\<not> k_locked sample_state" by simp
  from m(4) s show "cuddlk_mem_refs sample_state = []" "cuddlk_event_refs sample_state = []"
    "k_heap sample_state 2 = Some sample_device" by (simp_all add: but_for_def)
  from m(5) r s show "\<exists>d. k_heap sample_state 1 = Some d \<and> registered sample_cfg 1 d \<and> same_identity d sample_device"
    by auto
qed

subsection \<open>Properties of sizes, names and registration\<close>

text \<open>A size that is rounded up to whole pages is a multiple of the page size, not smaller
  than the size asked for, and less than one page larger, as long as the page number stays
  below \<open>2\<^sup>3\<^sup>1 - 1\<close> and a page is at most 4 GiB.\<close>

theorem page_size_aligned_rounds_up:
  assumes "0 < unat (page_size cfg)" "unat (page_size cfg) \<le> 2 ^ 32"
    and "unat i div unat (page_size cfg) < 2 ^ 31 - 1"
  shows "unat (page_size_aligned cfg i) mod unat (page_size cfg) = 0 \<and>
    unat i \<le> unat (page_size_aligned cfg i) \<and>
    unat (page_size_aligned cfg i) < unat i + unat (page_size cfg)"
  by (rule page_size_aligned_bounds [OF assms])

theorem page_size_aligned_rounds_up_witness:
  "unat (page_size_aligned sample_cfg 5000) mod 4096 = 0 \<and>
   5000 \<le> unat (page_size_aligned sample_cfg 5000) \<and> unat (page_size_aligned sample_cfg 5000) < 5000 + 4096"
  using page_size_aligned_rounds_up [of sample_cfg 5000] by (simp add: sample_cfg_def)

text \<open>Above that bound the \<^verbatim>\<open>int\<close> that holds the page number loses its upper half: a
  region of 16 TiB and one byte is given the length of one page.\<close>

theorem page_size_aligned_truncates:
  "page_size_aligned sample_cfg (2 ^ 44 + 1) = 4096"
  by (simp add: page_size_aligned_def sample_cfg_def int_of_size_def c_int_wrap_def uint_div Let_def)

text \<open>C23: registration is all or nothing. From a device that owns no kernel resource it
  returns the first error on its way, or zero; on zero the device is registered with UIO (and
  UDD), named and linked to its resources; on an error it owns nothing. Either way no other
  device and no global changes, and the identity of the device, its reference counts included,
  is kept.\<close>

theorem register_all_or_nothing:
  assumes "k_heap st p = Some d" "arrays_ok d" "holds_nothing d"
  shows "\<exists>d'. cuddlk_device_register cfg env p st = Some (registration_result cfg env d, set_dev p d' st) \<and>
    same_identity d' d \<and>
    (if registration_result cfg env d = 0 then registered cfg p d' else holds_nothing d')"
  by (rule register_outcome [OF assms])

theorem register_all_or_nothing_witness:
  "\<exists>d'. cuddlk_device_register sample_cfg sample_env 1 (empty_kstate sample_heap) =
      Some (registration_result sample_cfg sample_env sample_device, set_dev 1 d' (empty_kstate sample_heap)) \<and>
    same_identity d' sample_device \<and>
    (if registration_result sample_cfg sample_env sample_device = 0
     then registered sample_cfg 1 d' else holds_nothing d')"
  using fresh_sample
  by (intro register_all_or_nothing) (simp_all add: fresh_device_def)

text \<open>A registered device that is unregistered gives back everything it owned; what
  \<^verbatim>\<open>udd_unregister_device\<close> returns (zero without UDD) is the result. A second
  unregistration is undefined: it would follow pointers to freed memory.\<close>

theorem unregister_gives_back:
  assumes "k_heap st p = Some d" "registered cfg p d"
  shows "\<exists>d'. cuddlk_device_unregister cfg env p st =
      Some (if use_udd cfg then udd_unregister_ret env else 0, set_dev p d' st) \<and>
    same_identity d' d \<and> holds_nothing d' \<and>
    cuddlk_device_unregister cfg env' p (set_dev p d' st) = None"
proof -
  from unregister_outcome [OF assms, of env] obtain d' where
    d': "cuddlk_device_unregister cfg env p st =
      Some (if use_udd cfg then udd_unregister_ret env else 0, set_dev p d' st)"
    "same_identity d' d" "holds_nothing d'" "uio_dev (d_uio d') = Freed" by blast
  have "arrays_ok d'" using same_identity_arrays [OF d'(2)] registered_arrays [OF assms(2)] by simp
  with d' show ?thesis using unregister_twice_undefined [of "set_dev p d' st" p d'] by auto
qed

theorem unregister_gives_back_witness:
  "\<exists>d d'. cuddlk_device_unregister sample_cfg sample_env 1 sample_state = Some (0, set_dev 1 d' sample_state) \<and>
    k_heap sample_state 1 = Some d \<and> same_identity d' d \<and> holds_nothing d' \<and>
    cuddlk_device_unregister sample_cfg sample_env 1 (set_dev 1 d' sample_state) = None"
proof -
  from sample_state_facts(7) obtain d where "k_heap sample_state 1 = Some d" "registered sample_cfg 1 d" by blast
  with unregister_gives_back [OF this, of sample_env sample_env] show ?thesis
    by (auto simp: sample_cfg_def)
qed

text \<open>Two devices get the same unique name only if they agree in group, name and
  instance, provided no group and no name contains a dot.\<close>

theorem unique_name_identifies:
  assumes "dot_free g" "dot_free g'" "dot_free n" "dot_free n'"
    and "unique_name_of g n i = unique_name_of g' n' i'"
  shows "cstr g = cstr g' \<and> cstr n = cstr n' \<and> i = i'"
  by (rule unique_name_of_inj [OF assms])

theorem unique_name_identifies_witness:
  "cstr (''mfg'' @ NUL # ''x'') = cstr ''mfg'' \<and> cstr ''card'' = cstr ''card'' \<and> (1::c_int) = 1"
  by (rule unique_name_identifies) (simp_all add: dot_free_def unique_name_of_def cstr_def)

text \<open>With dots the names of different devices can coincide; the UIO layer is then given
  the same name twice.\<close>

theorem unique_name_collision:
  "unique_name_of ''a.b'' ''c'' 1 = unique_name_of ''a'' ''b.c'' 1"
  by (simp add: unique_name_of_def cstr_def)

subsection \<open>Properties of managing and releasing\<close>



text \<open>Managing a fresh device keeps the invariant of the manager, whether it succeeds or not.\<close>

theorem manage_preserves_inv:
  assumes "manager_inv cfg st" "\<not> k_locked st" "not_managed p st" "k_heap st p = Some d" "fresh_device d"
  shows "\<exists>ret st'. cuddlk_device_manage cfg env p st = Some (ret, st') \<and> manager_inv cfg st' \<and> \<not> k_locked st'"
  using manage_keeps_inv [OF assms] by metis

theorem manage_preserves_inv_witness:
  "\<exists>ret st'. cuddlk_device_manage sample_cfg sample_env 1 (empty_kstate sample_heap) = Some (ret, st') \<and>
     manager_inv sample_cfg st' \<and> \<not> k_locked st'"
  using manage_preserves_inv [of sample_cfg "empty_kstate sample_heap" 1 sample_device sample_env]
    manager_inv_empty fresh_sample by simp

text \<open>Releasing a managed device that no recorded reference points to empties its slot,
  returns what unregistration returns, leaves the device without kernel resources and keeps the
  invariant.\<close>

theorem release_preserves_inv:
  assumes "manager_inv cfg st" "\<not> k_locked st" "\<not> not_managed p st" "unreferenced p st"
  shows "\<exists>ret st' d'. cuddlk_device_release cfg env p st = Some (ret, st') \<and>
    ret = (if use_udd cfg then udd_unregister_ret env else 0) \<and> k_heap st' p = Some d' \<and>
    holds_nothing d' \<and> not_managed p st' \<and> manager_inv cfg st' \<and> \<not> k_locked st'"
proof -
  note ok = manager_invD [OF assms(1)]
  from assms(3) obtain k where k: "k < length (k_table st)" "k_table st ! k = Some p"
    by (auto simp: not_managed_def in_set_conv_nth)
  with ok(1) have "device_at st (int k) = Some p" by (simp add: device_at_nth table_len_def)
  with devices_registeredD [OF ok(3)] obtain d where d: "k_heap st p = Some d" "registered cfg p d" by blast
  obtain i st' d' where
    r: "cuddlk_device_release cfg env p st = Some (if use_udd cfg then udd_unregister_ret env else 0, st')"
    "\<not> k_locked st'" "but_for p st' st" "k_heap st' p = Some d'" "holds_nothing d'"
    "i < CUDDLK_MAX_MANAGED_DEVICES" "k_table st ! i = Some p" "k_table st' = (k_table st)[i := None]"
    using release_outcome [OF ok(1) assms(2) d assms(3), of env] by metis
  have "not_managed p st'"
    using r(6-8) ok(1,2) by (auto simp: not_managed_def in_set_conv_nth nth_list_update table_len_def
        dest: occupied_distinctD split: if_splits)
  with manager_inv_clear [OF assms(1) r(3,6-8) assms(4)] r show ?thesis by blast
qed

lemma sample_managed: "\<not> not_managed 1 sample_state"
  by (simp add: not_managed_def sample_state_facts(4) CUDDLK_MAX_MANAGED_DEVICES_def set_update_memI)

theorem release_preserves_inv_witness:
  "\<exists>ret st' d'. cuddlk_device_release sample_cfg sample_env 1 sample_state = Some (ret, st') \<and>
    ret = (if use_udd sample_cfg then udd_unregister_ret sample_env else 0) \<and> k_heap st' 1 = Some d' \<and>
    holds_nothing d' \<and> not_managed 1 st' \<and> manager_inv sample_cfg st' \<and> \<not> k_locked st'"
  by (rule release_preserves_inv [OF sample_state_facts(2,3) sample_managed])
    (simp add: unreferenced_def sample_state_facts(5,6))

text \<open>C24: managing a device and releasing it again restores the table of the manager and
  leaves every other device and global as it was.\<close>

theorem manage_release_roundtrip:
  assumes "table_ok st" "\<not> k_locked st" "not_managed p st" "k_heap st p = Some d" "fresh_device d"
    and "cuddlk_device_manage cfg env p st = Some (0, st1)"
  shows "\<exists>st2 d'. cuddlk_device_release cfg env' p st1 =
      Some (if use_udd cfg then udd_unregister_ret env' else 0, st2) \<and>
    k_table st2 = k_table st \<and> but_for p st2 st \<and> k_heap st2 p = Some d' \<and> holds_nothing d'"
proof -
  from assms(5) have f: "arrays_ok d" "holds_nothing d" by (simp_all add: fresh_device_def)
  obtain d1 i where m: "\<not> k_locked st1" "but_for p st1 st" "k_heap st1 p = Some d1" "registered cfg p d1"
    "i < CUDDLK_MAX_MANAGED_DEVICES" "k_table st ! i = None" "k_table st1 = (k_table st)[i := Some p]"
    by (rule manage_outcome [OF assms(1-4) f, of cfg env]) (use assms(6) in auto)
  have len: "length (k_table st) = CUDDLK_MAX_MANAGED_DEVICES" using assms(1) by (rule table_okD)
  have tl: "table_len st1" using m(7) len by (simp add: table_len_def)
  have in1: "\<not> not_managed p st1" using m(5,7) len by (simp add: not_managed_def set_update_memI)
  obtain st2 d2 j where r: "cuddlk_device_release cfg env' p st1 =
      Some (if use_udd cfg then udd_unregister_ret env' else 0, st2)"
    "but_for p st2 st1" "k_heap st2 p = Some d2" "holds_nothing d2"
    "j < CUDDLK_MAX_MANAGED_DEVICES" "k_table st1 ! j = Some p" "k_table st2 = (k_table st1)[j := None]"
    using release_outcome [OF tl m(1,3,4) in1, of env'] by metis
  have "j = i" using r(5,6) m(7) len assms(3) unfolding not_managed_def
    by (metis nth_list_update_neq nth_mem)
  then have "k_table st2 = k_table st" using r(7) m(6,7) by (simp add: list_update_same_conv m(5) len)
  moreover have "but_for p st2 st" using r(2) m(2) by (simp add: but_for_def)
  ultimately show ?thesis using r by blast
qed

theorem manage_release_roundtrip_witness:
  "\<exists>st2 d'. cuddlk_device_release sample_cfg sample_env 1 sample_state = Some (0, st2) \<and>
    k_table st2 = replicate CUDDLK_MAX_MANAGED_DEVICES None \<and>
    but_for 1 st2 (empty_kstate sample_heap) \<and> k_heap st2 1 = Some d' \<and> holds_nothing d'"
  using manage_release_roundtrip [OF _ _ _ _ fresh_sample sample_state_facts(1), of sample_env]
    manager_inv_table_ok [OF manager_inv_empty] by (simp add: sample_cfg_def)

text \<open>The number chosen for a device without one is positive and used by no managed device
  of its group and name, provided the numbers of those devices grow with their slots. The search
  returns on every well-formed table.\<close>

theorem next_instance_fresh:
  assumes "table_ok st" "instances_ascending st dev"
  shows "\<exists>r. cuddlk_manager_next_available_instance_id st dev = Some r \<and>
    (r = - ENOMEM \<or> 1 \<le> r \<and> r \<le> 256 \<and> (\<forall>i d. same_family st dev i d \<longrightarrow> d_instance d \<noteq> r))"
proof -
  obtain r where r: "cuddlk_manager_next_available_instance_id st dev = Some r"
    "r = - ENOMEM \<or> 1 \<le> r \<and> r \<le> 256" using next_instance_total [OF assms(1)] .
  with next_instance_loop_fresh [OF assms(1) _ _ assms(2), of 0 1 r] show ?thesis
    unfolding cuddlk_manager_next_available_instance_id_def by auto
qed

lemma sample_managed_device:
  "managed_device sample_state i = Some d \<Longrightarrow> i < CUDDLK_MAX_MANAGED_DEVICES \<Longrightarrow>
     i = 0 \<and> k_heap sample_state 1 = Some d"
  by (cases "i = 0") (auto simp: managed_device_def sample_state_facts(4) nth_list_update)

theorem next_instance_fresh_witness:
  "\<exists>r. cuddlk_manager_next_available_instance_id sample_state sample_device = Some r \<and>
    (r = - ENOMEM \<or> 1 \<le> r \<and> r \<le> 256 \<and>
       (\<forall>i d. same_family sample_state sample_device i d \<longrightarrow> d_instance d \<noteq> r))"
  by (rule next_instance_fresh [OF manager_inv_table_ok [OF sample_state_facts(2)]])
    (auto simp: instances_ascending_def same_family_def dest!: sample_managed_device)

definition collision_state :: kstate where
  "collision_state = (empty_kstate (\<lambda>p. Some (sample_device\<lparr>d_instance := (if p = 0 then 3 else int p)\<rparr>)))
     \<lparr>cuddlk_global_manager := zero_manager
       \<lparr>devices := [Some 0, Some 1, Some 2] @ replicate (CUDDLK_MAX_MANAGED_DEVICES - 3) None\<rparr>\<rparr>"

text \<open>Without that proviso the number can be taken. The table of the example arises when
  three devices of one family are managed while slot 0 is held by another device and the third
  comes after its release: the numbers by slot are 3, 1, 2, and the next device is given 3.\<close>

theorem next_instance_collision:
  "table_ok collision_state \<and> cuddlk_manager_next_available_instance_id collision_state sample_device = Some 3 \<and>
   (\<exists>d. same_family collision_state sample_device 0 d \<and> d_instance d = 3)"
proof -
  let ?st = "collision_state" and ?d = "\<lambda>p. sample_device\<lparr>d_instance := (if p = 0 then 3 else int p)\<rparr>"
  have tab: "k_table ?st = [Some 0, Some 1, Some 2] @ replicate 253 None" and heap: "k_heap ?st p = Some (?d p)" for p
    by (simp_all add: collision_state_def empty_kstate_def CUDDLK_MAX_MANAGED_DEVICES_def)
  have named: "device_named (?d p)" for p
    by (simp add: device_named_def sample_device_def CUDDLK_MAX_DEV_EVENTS_def)
  have md: "managed_device ?st i = (if i < 3 then Some (?d i) else None)" if "i < 256" for i
  proof -
    consider "i = 0" | "i = 1" | "i = 2" | "3 \<le> i" by linarith
    then show ?thesis
      using that by cases (simp_all add: managed_device_def tab heap nth_append nth_Cons split: nat.splits)
  qed
  have ok: "table_ok ?st" using named heap tab by (auto simp: table_ok_def CUDDLK_MAX_MANAGED_DEVICES_def)
  have sm: "slot_matches ?st (d_group sample_device) (d_name sample_device) None k CUDDLK_RESOURCE_UNSPECIFIED i \<longleftrightarrow>
      i < 3 \<and> k = (if i = 0 then 3 else int i)" if "i < 256" "k \<noteq> 0" for i k
    using that by (auto simp: slot_matches_def md device_matches_def sample_device_def)
  have ms: "matching_slot ?st (d_group sample_device) (d_name sample_device) None 1 CUDDLK_RESOURCE_UNSPECIFIED 0 = Some 1"
    "matching_slot ?st (d_group sample_device) (d_name sample_device) None 2 CUDDLK_RESOURCE_UNSPECIFIED 2 = Some 2"
    unfolding matching_slot_def
    by (rule find_upt_eqI; simp add: sm CUDDLK_MAX_MANAGED_DEVICES_def)+
  have ms3: "matching_slot ?st (d_group sample_device) (d_name sample_device) None 3 CUDDLK_RESOURCE_UNSPECIFIED 3 = None"
    unfolding matching_slot_def by (auto simp: find_upt_None_iff sm CUDDLK_MAX_MANAGED_DEVICES_def)
  have "next_instance_loop ?st sample_device 0 1 = Some 3"
    by (simp add: next_instance_loop_unfold [OF ok] ms ms3 CUDDLK_MAX_MANAGED_DEVICES_def)
  moreover have "same_family ?st sample_device 0 (?d 0)"
    by (simp add: same_family_def md CUDDLK_MAX_MANAGED_DEVICES_def)
  ultimately show ?thesis
    using ok by (auto simp: cuddlk_manager_next_available_instance_id_def)
qed

end
