(* ===== verification/Event_Delivery.thy ===== *)
theory Event_Delivery
  imports Device_Lifecycle
begin

section \<open>Interrupts and event notification (cuddlk_linux.c)\<close>

text \<open>
  The callbacks that registration installs and the functions a driver calls to signal an
  event. A driver's own functions are reached through pointers: \<open>drv f\<close> is what the
  function at address \<open>f\<close> returns, and calling a null pointer is undefined. Effects
  outside the module (a driver's function called, a reader of the UIO or UDD device woken,
  the non-real-time signal pended) are recorded in order as a list of \<open>event_action\<close>.
  Every callback is given its device by \<^verbatim>\<open>container_of\<close>, so it takes the device's
  pointer; each of them uses the device's first event source.
\<close>

datatype event_action =
    Driver_call fptr
  | Rtdm_nrtsig_pend dptr
  | Uio_event_notify dptr
  | Udd_notify_event dptr

type_synonym driver_fns = "fptr \<Rightarrow> c_int"

subsection \<open>Interrupt handlers\<close>

definition call_handler :: "driver_fns \<Rightarrow> cuddlk_interrupt \<Rightarrow> (c_int \<times> event_action list) option" where
  "call_handler drv intr = do { f \<leftarrow> intr_handler intr; Some (drv f, [Driver_call f]) }"

definition cuddlk_udd_interrupt_handler ::
  "kcfg \<Rightarrow> driver_fns \<Rightarrow> dptr \<Rightarrow> kstate \<Rightarrow> (c_int \<times> event_action list) option" where
  "cuddlk_udd_interrupt_handler cfg drv dev st = do {
     eventsrc \<leftarrow> get_eventsrc st dev 0;
     (ret, acts) \<leftarrow> call_handler drv (ev_intr eventsrc);
     Some (ret, acts @ (if ev_uio_open_count eventsrc > 0 \<and> ret = ret_intr_handled cfg
                        then [Rtdm_nrtsig_pend dev] else []))
   }"

definition cuddlk_uio_interrupt_handler ::
  "driver_fns \<Rightarrow> dptr \<Rightarrow> kstate \<Rightarrow> (c_int \<times> event_action list) option" where
  "cuddlk_uio_interrupt_handler drv dev st = do {
     eventsrc \<leftarrow> get_eventsrc st dev 0;
     call_handler drv (ev_intr eventsrc)
   }"

definition cuddlk_xenomai_interrupt_handler ::
  "driver_fns \<Rightarrow> cuddlk_interrupt \<Rightarrow> (c_int \<times> event_action list) option" where
  "cuddlk_xenomai_interrupt_handler drv intr = call_handler drv intr"

definition cuddlk_linux_interrupt_handler ::
  "driver_fns \<Rightarrow> cuddlk_interrupt \<Rightarrow> (c_int \<times> event_action list) option" where
  "cuddlk_linux_interrupt_handler drv intr = call_handler drv intr"

text \<open>The handler of the pended signal; its data is the device's UIO structure.\<close>

definition event_nrtsig_handler :: "dptr \<Rightarrow> event_action list" where
  "event_nrtsig_handler uinfo = [Uio_event_notify uinfo]"

subsection \<open>Opening and closing\<close>

definition cuddlk_udd_eventsrc_open :: "dptr \<Rightarrow> kstate \<Rightarrow> (c_int \<times> kstate) option" where
  "cuddlk_udd_eventsrc_open dev st = do {
     eventsrc \<leftarrow> get_eventsrc st dev 0;
     Some (0, put_eventsrc dev 0
       (eventsrc\<lparr>ev_udd_open_count := c_int_wrap (ev_udd_open_count eventsrc + 1)\<rparr>) st)
   }"

definition cuddlk_uio_eventsrc_or_mem_open :: "dptr \<Rightarrow> kstate \<Rightarrow> (c_int \<times> kstate) option" where
  "cuddlk_uio_eventsrc_or_mem_open dev st = do {
     eventsrc \<leftarrow> get_eventsrc st dev 0;
     Some (0, put_eventsrc dev 0
       (eventsrc\<lparr>ev_uio_open_count := c_int_wrap (ev_uio_open_count eventsrc + 1)\<rparr>) st)
   }"

definition cuddlk_udd_eventsrc_close :: "dptr \<Rightarrow> kstate \<Rightarrow> kstate option" where
  "cuddlk_udd_eventsrc_close dev st = do {
     eventsrc \<leftarrow> get_eventsrc st dev 0;
     Some (put_eventsrc dev 0
       (eventsrc\<lparr>ev_udd_open_count := c_int_wrap (ev_udd_open_count eventsrc - 1)\<rparr>) st)
   }"

definition cuddlk_uio_eventsrc_or_mem_close :: "dptr \<Rightarrow> kstate \<Rightarrow> (c_int \<times> kstate) option" where
  "cuddlk_uio_eventsrc_or_mem_close dev st = do {
     eventsrc \<leftarrow> get_eventsrc st dev 0;
     Some (0, put_eventsrc dev 0
       (eventsrc\<lparr>ev_uio_open_count := c_int_wrap (ev_uio_open_count eventsrc - 1)\<rparr>) st)
   }"

subsection \<open>Enabling and disabling\<close>

datatype udd_request = UDD_RTIOC_IRQEN | UDD_RTIOC_IRQDIS | UDD_RTIOC_other

definition call_if_set :: "driver_fns \<Rightarrow> fptr option \<Rightarrow> c_int \<times> event_action list" where
  "call_if_set drv f = (case f of Some f \<Rightarrow> (drv f, [Driver_call f]) | None \<Rightarrow> (- EINVAL, []))"

definition cuddlk_udd_eventsrc_ioctl ::
  "driver_fns \<Rightarrow> dptr \<Rightarrow> udd_request \<Rightarrow> kstate \<Rightarrow> (c_int \<times> event_action list) option" where
  "cuddlk_udd_eventsrc_ioctl drv dev request st = do {
     eventsrc \<leftarrow> get_eventsrc st dev 0;
     let intr = ev_intr eventsrc;
     Some (case request of
        UDD_RTIOC_IRQEN \<Rightarrow> call_if_set drv (intr_enable intr)
      | UDD_RTIOC_IRQDIS \<Rightarrow> call_if_set drv (intr_disable intr)
      | UDD_RTIOC_other \<Rightarrow> (- EINVAL, []))
   }"

definition cuddlk_uio_eventsrc_or_mem_irqcontrol ::
  "driver_fns \<Rightarrow> dptr \<Rightarrow> c_int \<Rightarrow> kstate \<Rightarrow> (c_int \<times> event_action list) option" where
  "cuddlk_uio_eventsrc_or_mem_irqcontrol drv dev irq_on st = do {
     eventsrc \<leftarrow> get_eventsrc st dev 0;
     let intr = ev_intr eventsrc;
     Some (if irq_on \<noteq> 0 then call_if_set drv (intr_enable intr)
           else call_if_set drv (intr_disable intr))
   }"

subsection \<open>What a driver calls\<close>

definition cuddlk_eventsrc_notify :: "kcfg \<Rightarrow> dptr \<Rightarrow> cuddlk_eventsrc \<Rightarrow> event_action list option" where
  "cuddlk_eventsrc_notify cfg dev eventsrc =
     (if use_udd cfg then do {
        udd \<leftarrow> ev_udd_ptr eventsrc;
        Some (Udd_notify_event udd #
          (if ev_uio_open_count eventsrc > 0 then [Rtdm_nrtsig_pend dev] else []))
      } else do {
        uio \<leftarrow> ev_uio_ptr eventsrc;
        Some [Uio_event_notify uio]
      })"

text \<open>
  \<^verbatim>\<open>request_irq\<close> and \<^verbatim>\<open>rtdm_irq_request\<close> with their arguments; what they return is a
  parameter, as is the result of \<^verbatim>\<open>rtdm_irq_free\<close>.
\<close>

record irq_request =
  rq_irq :: c_int
  rq_xenomai :: bool
  rq_flags :: ulong
  rq_name :: string

definition cuddlk_interrupt_register ::
  "kcfg \<Rightarrow> (irq_request \<Rightarrow> c_int) \<Rightarrow> cuddlk_interrupt \<Rightarrow> string \<Rightarrow> c_int \<times> irq_request" where
  "cuddlk_interrupt_register cfg request intr name =
     (let flags = (if \<not> use_udd cfg \<and> has_flag (intr_flags intr) CUDDLK_IRQF_SHARED
                   then 0 OR linux_irqf_shared cfg else 0);
          rq = \<lparr>rq_irq = intr_irq intr, rq_xenomai = use_udd cfg, rq_flags = flags, rq_name = name\<rparr>
      in (request rq, rq))"

definition cuddlk_interrupt_unregister :: "kcfg \<Rightarrow> c_int \<Rightarrow> cuddlk_interrupt \<Rightarrow> c_int \<times> c_int option" where
  "cuddlk_interrupt_unregister cfg rtdm_ret intr =
     (if use_udd cfg then (rtdm_ret, None) else (0, Some (intr_irq intr)))"

subsection \<open>Counting the readers\<close>

text \<open>
  A history of the UIO file of a device: \<open>True\<close> is an open, \<open>False\<close> a close. The count
  in the event source is the number of readers, as long as fewer than \<open>2\<^sup>3\<^sup>1\<close> files are open.
\<close>

fun uio_history :: "dptr \<Rightarrow> bool list \<Rightarrow> kstate \<Rightarrow> kstate option" where
  "uio_history dev [] st = Some st"
| "uio_history dev (opens # rest) st = do {
     (ret, st) \<leftarrow> (if opens then cuddlk_uio_eventsrc_or_mem_open dev st
                   else cuddlk_uio_eventsrc_or_mem_close dev st);
     uio_history dev rest st
   }"

fun readers_after :: "int \<Rightarrow> bool list \<Rightarrow> int" where
  "readers_after n [] = n"
| "readers_after n (opens # rest) = readers_after (if opens then n + 1 else n - 1) rest"

fun readers_bounded :: "int \<Rightarrow> bool list \<Rightarrow> bool" where
  "readers_bounded n [] \<longleftrightarrow> 0 \<le> n \<and> n < 2 ^ 31"
| "readers_bounded n (opens # rest) \<longleftrightarrow> 0 \<le> n \<and> n < 2 ^ 31 \<and>
     readers_bounded (if opens then n + 1 else n - 1) rest"

lemma readers_bounded_range: "readers_bounded n h \<Longrightarrow> 0 \<le> n \<and> n < 2 ^ 31"
  by (cases h) auto

lemma uio_history_count:
  assumes "get_eventsrc st dev 0 = Some e" "readers_bounded (ev_uio_open_count e) h"
  shows "\<exists>st'. uio_history dev h st = Some st' \<and>
    get_eventsrc st' dev 0 = Some (e\<lparr>ev_uio_open_count := readers_after (ev_uio_open_count e) h\<rparr>)"
  using assms
proof (induction h arbitrary: st e)
  case Nil
  then show ?case by simp
next
  case (Cons opens h)
  let ?n = "if opens then ev_uio_open_count e + 1 else ev_uio_open_count e - 1"
  let ?e = "e\<lparr>ev_uio_open_count := ?n\<rparr>" and ?st = "put_eventsrc dev 0 (e\<lparr>ev_uio_open_count := ?n\<rparr>) st"
  from Cons.prems(2) readers_bounded_range [of ?n h] have n: "c_int_wrap ?n = ?n" by simp
  have get': "get_eventsrc ?st dev 0 = Some ?e" by (simp add: get_put_eventsrc [OF Cons.prems(1)])
  from Cons.prems(2) have "readers_bounded (ev_uio_open_count ?e) h" by simp
  from Cons.IH [OF get' this] show ?case
    using Cons.prems(1) n
    by (auto simp: cuddlk_uio_eventsrc_or_mem_open_def cuddlk_uio_eventsrc_or_mem_close_def)
qed

text \<open>The signals that were pended are handled: what finally happens.\<close>

definition delivered :: "event_action list \<Rightarrow> event_action list" where
  "delivered acts = concat (map (\<lambda>a. case a of Rtdm_nrtsig_pend d \<Rightarrow> event_nrtsig_handler d | _ \<Rightarrow> [a]) acts)"

lemma delivered_simps [simp]:
  "delivered [] = []" "delivered (Rtdm_nrtsig_pend d # acts) = Uio_event_notify d # delivered acts"
  "delivered (Driver_call f # acts) = Driver_call f # delivered acts"
  "delivered (Uio_event_notify d # acts) = Uio_event_notify d # delivered acts"
  "delivered (Udd_notify_event d # acts) = Udd_notify_event d # delivered acts"
  by (simp_all add: delivered_def event_nrtsig_handler_def)

lemma registered_event0:
  assumes "k_heap st p = Some d" "registered cfg p d"
  obtains e where "get_eventsrc st p 0 = Some e" "e = d_events d ! 0" "ev_uio_ptr e = Some p"
    "use_udd cfg \<Longrightarrow> ev_udd_ptr e = Some p"
proof -
  from arrays_ok_single [OF registered_arrays [OF assms(2)]] obtain e where e: "d_events d = [e]" ..
  from assms e show ?thesis by (intro that [of e]) (simp_all add: get_eventsrc_def registered_def)
qed

subsection \<open>Properties\<close>

text \<open>A notification reaches whoever waits. After any history of opens and closes of the
  UIO file of a registered device, without overflow, a notification is defined; with UDD it
  wakes the UDD readers, and through the signal the UIO readers exactly when a file is still
  open; without UDD it wakes the UIO readers.\<close>

theorem notify_reaches_readers:
  assumes "k_heap st p = Some d" "registered cfg p d" "ev_uio_open_count (d_events d ! 0) = 0"
    and "readers_bounded 0 h"
  shows "\<exists>st' e acts. uio_history p h st = Some st' \<and> get_eventsrc st' p 0 = Some e \<and>
    cuddlk_eventsrc_notify cfg p e = Some acts \<and>
    delivered acts = (if \<not> use_udd cfg then [Uio_event_notify p]
      else Udd_notify_event p # (if 0 < readers_after 0 h then [Uio_event_notify p] else []))"
proof -
  obtain e where e: "get_eventsrc st p 0 = Some e" "e = d_events d ! 0" "ev_uio_ptr e = Some p"
    "use_udd cfg \<Longrightarrow> ev_udd_ptr e = Some p" using registered_event0 [OF assms(1,2)] by metis
  from assms(3) have z: "ev_uio_open_count e = 0" unfolding e(2) .
  from uio_history_count [OF e(1), of h] obtain st' where "uio_history p h st = Some st'"
    "get_eventsrc st' p 0 = Some (e\<lparr>ev_uio_open_count := readers_after 0 h\<rparr>)"
    using assms(4) unfolding z by blast
  with e(3,4) show ?thesis by (simp add: cuddlk_eventsrc_notify_def)
qed

theorem notify_reaches_readers_witness:
  "\<exists>st' e acts. uio_history 1 [True, True, False] sample_state = Some st' \<and>
    get_eventsrc st' 1 0 = Some e \<and> cuddlk_eventsrc_notify sample_cfg 1 e = Some acts \<and>
    delivered acts = [Uio_event_notify 1]"
proof -
  from sample_state_facts(7) obtain d where d: "k_heap sample_state 1 = Some d"
    "registered sample_cfg 1 d" "same_identity d sample_device" by blast
  from arrays_ok_single [OF registered_arrays [OF d(2)]] obtain e where "d_events d = [e]" ..
  with d(3) have "ev_uio_open_count (d_events d ! 0) = 0"
    by (simp add: same_identity_def sample_device_def zero_eventsrc_def)
  from notify_reaches_readers [OF d(1,2) this, of "[True, True, False]"] show ?thesis
    by (simp add: sample_cfg_def)
qed

text \<open>The UDD interrupt handler calls the driver's handler once and returns its result; it
  pends the signal for the UIO readers exactly when the interrupt was handled and a UIO file
  is open. The UIO handler only calls the driver's handler.\<close>

theorem interrupt_handlers_call_driver:
  assumes "get_eventsrc st p 0 = Some e" "intr_handler (ev_intr e) = Some f"
  shows "cuddlk_uio_interrupt_handler drv p st = Some (drv f, [Driver_call f]) \<and>
    cuddlk_udd_interrupt_handler cfg drv p st = Some (drv f,
      if drv f = ret_intr_handled cfg \<and> 0 < ev_uio_open_count e
      then [Driver_call f, Rtdm_nrtsig_pend p] else [Driver_call f])"
  using assms
  by (simp_all add: cuddlk_uio_interrupt_handler_def cuddlk_udd_interrupt_handler_def call_handler_def)

theorem interrupt_handlers_call_driver_witness:
  "cuddlk_uio_interrupt_handler (\<lambda>f. 1) 2 (empty_kstate sample_heap) = Some (1, [Driver_call 1])"
  using interrupt_handlers_call_driver [of "empty_kstate sample_heap" 2 "d_events sample_device ! 0" 1 "\<lambda>f. 1"]
  by (simp add: get_eventsrc_def sample_device_def)

text \<open>The two ways to switch a device's interrupt on and off, the UIO \<^verbatim>\<open>irqcontrol\<close> and
  the UDD IOCTL, do the same: they call the driver's function if there is one and return
  \<open>-EINVAL\<close> without calling anything if there is none.\<close>

theorem irq_switches_agree:
  "cuddlk_uio_eventsrc_or_mem_irqcontrol drv p irq_on st =
     cuddlk_udd_eventsrc_ioctl drv p (if irq_on \<noteq> 0 then UDD_RTIOC_IRQEN else UDD_RTIOC_IRQDIS) st \<and>
   cuddlk_uio_eventsrc_or_mem_irqcontrol drv p irq_on st =
     map_option (\<lambda>e. case (if irq_on \<noteq> 0 then intr_enable (ev_intr e) else intr_disable (ev_intr e)) of
         None \<Rightarrow> (- EINVAL, []) | Some f \<Rightarrow> (drv f, [Driver_call f])) (get_eventsrc st p 0)"
  by (cases "get_eventsrc st p 0")
    (simp_all add: cuddlk_uio_eventsrc_or_mem_irqcontrol_def cuddlk_udd_eventsrc_ioctl_def call_if_set_def)

end
