(* ===== verification/Manager_Ioctl.thy ===== *)
theory Manager_Ioctl
  imports Device_Lifecycle
begin

section \<open>The manager's IOCTL handler (cuddlk_manager_linux.c)\<close>

text \<open>
  One definition per group of cases of \<^verbatim>\<open>cuddlk_manager_ioctl\<close>, and the dispatcher that
  allocates the buffers, takes the mutex, runs the case and releases both. A call returns
  the result of the system call, what was copied to the user's buffer (if anything was),
  and the new state.

  \<open>ioctl_env\<close> is what the surroundings decide in one call: which allocations succeed, what
  \<^verbatim>\<open>copy_from_user\<close> finds in the user's buffer when it is read as each of the structures
  (\<open>None\<close> when it fails), whether \<^verbatim>\<open>copy_to_user\<close> and \<^verbatim>\<open>try_module_get\<close> succeed, what
  the driver's \<^verbatim>\<open>is_enabled\<close> functions return, and which bytes follow a string in
  kernel memory.
\<close>

record ioctl_env =
  kz_ok :: "nat \<Rightarrow> bool"
  ref_kz_ok :: bool
  mod_get_ok :: bool
  ctu_ok :: bool
  cfu_void :: "cuddlci_void_ioctl_data option"
  cfu_mem_claim :: "cuddlci_memregion_claim_ioctl_data option"
  cfu_event_claim :: "cuddlci_eventsrc_claim_ioctl_data option"
  cfu_mem_release :: "cuddlci_memregion_release_ioctl_data option"
  cfu_event_release :: "cuddlci_eventsrc_release_ioctl_data option"
  cfu_get_id :: "cuddlci_get_resource_id_ioctl_data option"
  cfu_ref_count :: "cuddlci_ref_count_ioctl_data option"
  cfu_commit :: "cuddlci_get_kernel_commit_id_ioctl_data option"
  cfu_driver_info :: "cuddlci_get_driver_info_ioctl_data option"
  cfu_is_enabled :: "cuddlci_eventsrc_is_enabled_ioctl_data option"
  driver_ret :: "fptr \<Rightarrow> c_int"
  beyond :: "string \<Rightarrow> nat \<Rightarrow> char"

type_synonym ioctl_result = "(c_int \<times> ioctl_payload option \<times> kstate) option"

subsection \<open>The start of every case\<close>

definition version_code_is_compat :: "c_int \<Rightarrow> bool" where
  "version_code_is_compat user_version_code \<longleftrightarrow>
     (let user = CUDDLCI_MAJOR_VERSION_FROM_CODE user_version_code;
          kernel = CUDDLCI_MAJOR_VERSION_FROM_CODE CUDDLK_VERSION_CODE
      in user = kernel \<or> (user = 0 \<and> kernel = 1) \<or> (user = 1 \<and> kernel = 0))"

definition with_user_data ::
  "'a option \<Rightarrow> ('a \<Rightarrow> c_int) \<Rightarrow> kstate \<Rightarrow> ('a \<Rightarrow> ioctl_result) \<Rightarrow> ioctl_result" where
  "with_user_data copied version_code st body =
     (case copied of
        None \<Rightarrow> Some (- EOVERFLOW, None, st)
      | Some data \<Rightarrow>
          if \<not> version_code_is_compat (version_code data) then Some (- ENOEXEC, None, st)
          else body data)"

text \<open>The copy at the end: on failure the result is \<open>-EOVERFLOW\<close>.\<close>

definition copy_result :: "ioctl_env \<Rightarrow> ioctl_payload \<Rightarrow> kstate \<Rightarrow> ioctl_result" where
  "copy_result env payload st =
     (if ctu_ok env then Some (0, Some payload, st) else Some (- EOVERFLOW, None, st))"

subsection \<open>Finding what a request is about\<close>

text \<open>
  By identifier: the first device that matches, then the first resource in it; the body
  gets the two slots, the device's pointer and the device. By token or slot: the entry of
  the table, which must not be empty.
\<close>

definition with_memregion ::
  "kstate \<Rightarrow> cuddl_resource_id \<Rightarrow> (c_int \<Rightarrow> c_int \<Rightarrow> dptr \<Rightarrow> cuddlk_device \<Rightarrow> ioctl_result) \<Rightarrow> ioctl_result" where
  "with_memregion st rid body = do {
     slot \<leftarrow> cuddlk_manager_find_device_slot_matching st
       (Some (id_group rid)) (Some (id_device rid)) (Some (id_resource rid)) (id_instance rid)
       CUDDLK_RESOURCE_MEMREGION 0;
     if slot < 0 then Some (slot, None, st)
     else do {
       dev \<leftarrow> device_at st slot;
       d \<leftarrow> k_heap st dev;
       mslot \<leftarrow> cuddlk_device_find_memregion_slot d (Some (id_resource rid));
       if mslot < 0 then Some (mslot, None, st)
       else body slot mslot dev d
     }
   }"

definition with_eventsrc ::
  "kstate \<Rightarrow> cuddl_resource_id \<Rightarrow> (c_int \<Rightarrow> c_int \<Rightarrow> dptr \<Rightarrow> cuddlk_device \<Rightarrow> ioctl_result) \<Rightarrow> ioctl_result" where
  "with_eventsrc st rid body = do {
     slot \<leftarrow> cuddlk_manager_find_device_slot_matching st
       (Some (id_group rid)) (Some (id_device rid)) (Some (id_resource rid)) (id_instance rid)
       CUDDLK_RESOURCE_EVENTSRC 0;
     if slot < 0 then Some (slot, None, st)
     else do {
       dev \<leftarrow> device_at st slot;
       d \<leftarrow> k_heap st dev;
       eslot \<leftarrow> cuddlk_device_find_eventsrc_slot d (Some (id_resource rid));
       if eslot < 0 then Some (eslot, None, st)
       else body slot eslot dev d
     }
   }"

definition out_of_range :: "c_int \<Rightarrow> nat \<Rightarrow> bool" where
  "out_of_range slot bound \<longleftrightarrow> slot \<ge> int bound \<or> slot < 0"

definition with_entry :: "kstate \<Rightarrow> c_int \<Rightarrow> (dptr \<Rightarrow> ioctl_result) \<Rightarrow> ioctl_result" where
  "with_entry st slot body = do {
     entry \<leftarrow> arr_get (k_table st) slot;
     case entry of None \<Rightarrow> Some (- ENODEV, None, st) | Some dev \<Rightarrow> body dev
   }"

subsection \<open>Claiming and describing a memory region\<close>

definition uio_minor :: "cuddlk_device \<Rightarrow> c_int option" where
  "uio_minor d = do { dev \<leftarrow> deref (uio_dev (d_uio d)); Some (uiod_minor dev) }"

definition memregion_device_name :: "bool \<Rightarrow> cuddlk_device \<Rightarrow> c_int \<Rightarrow> string option" where
  "memregion_device_name rt d mslot =
     (if rt then do {
        name \<leftarrow> deref (d_unique_name d);
        Some (''/dev/rtdm/'' @ cstr name @ '',mapper'' @ dec_int mslot)
      } else do {
        minor \<leftarrow> uio_minor d;
        Some (''/dev/uio'' @ dec_int minor)
      })"

definition fill_memregion_info ::
  "kcfg \<Rightarrow> bool \<Rightarrow> c_int \<Rightarrow> c_int \<Rightarrow> cuddlk_device \<Rightarrow> cuddl_memregion_info \<Rightarrow> cuddl_memregion_info option" where
  "fill_memregion_info cfg rt slot mslot d info = do {
     m \<leftarrow> arr_get (d_mem d) mslot;
     name \<leftarrow> memregion_device_name rt d mslot;
     Some (info\<lparr>
       mi_token := \<lparr>device_index = slot, resource_index = mslot\<rparr>,
       mi_pa_len := mr_pa_len m,
       mi_start_offset := mr_start_offset m,
       mi_len := mr_len m,
       mi_flags := (if has_flag (mr_flags m) CUDDLK_MEMF_SHARED then 0 OR CUDDL_MEMF_SHARED else 0),
       mi_pa_mmap_offset := (if rt then 0 else word_of_int mslot * page_size cfg),
       mi_device_name := snprintf (mi_device_name info) CUDDLCI_MAX_STR_LEN name\<rparr>)
   }"

definition memregion_claim_found ::
  "kcfg \<Rightarrow> ioctl_env \<Rightarrow> bool \<Rightarrow> bool \<Rightarrow> cuddlci_memregion_claim_ioctl_data \<Rightarrow> kstate
     \<Rightarrow> c_int \<Rightarrow> c_int \<Rightarrow> dptr \<Rightarrow> cuddlk_device \<Rightarrow> ioctl_result" where
  "memregion_claim_found cfg env rt claim mdata st slot mslot dev d = do {
     (ret, st) \<leftarrow>
       (if claim then memregion_claim (mod_get_ok env) dev mslot
                        (mc_options mdata AND CUDDL_MEM_CLAIMF_HOSTILE) st
        else Some (0, st));
     if ret \<noteq> 0 then Some (ret, None, st)
     else do {
       info \<leftarrow> fill_memregion_info cfg rt slot mslot d (mc_info mdata);
       let mdata = mdata\<lparr>mc_info := info\<rparr>;
       if \<not> ctu_ok env then do {
         (_, st) \<leftarrow> memregion_decr_ref_count dev mslot st;
         Some (- EOVERFLOW, None, st)
       }
       else if \<not> claim then Some (0, Some (Mem_Claim_Data mdata), st)
       else if \<not> ref_kz_ok env then do {
         (_, st) \<leftarrow> memregion_decr_ref_count dev mslot st;
         Some (- ENOMEM, Some (Mem_Claim_Data mdata), st)
       }
       else Some (0, Some (Mem_Claim_Data mdata),
         st\<lparr>cuddlk_mem_refs := \<lparr>ref_token = mi_token info, ref_pid = mc_pid mdata\<rparr> # cuddlk_mem_refs st\<rparr>)
     }
   }"

definition memregion_claim_case :: "kcfg \<Rightarrow> ioctl_env \<Rightarrow> bool \<Rightarrow> bool \<Rightarrow> kstate \<Rightarrow> ioctl_result" where
  "memregion_claim_case cfg env rt claim st =
     with_user_data (cfu_mem_claim env) mc_version_code st (\<lambda>mdata.
       with_memregion st (mc_id mdata) (memregion_claim_found cfg env rt claim mdata st))"

subsection \<open>Claiming and describing an event source\<close>

definition eventsrc_device_name :: "bool \<Rightarrow> cuddlk_device \<Rightarrow> string option" where
  "eventsrc_device_name rt d =
     (if rt then do {
        name \<leftarrow> deref (d_unique_name d);
        Some (''/dev/rtdm/'' @ cstr name)
      } else do {
        minor \<leftarrow> uio_minor d;
        Some (''/dev/uio'' @ dec_int minor)
      })"

definition eventsrc_info_flags :: "cuddlk_eventsrc \<Rightarrow> c_int" where
  "eventsrc_info_flags e =
     (let flags = 0 OR CUDDL_EVENTSRCF_WAITABLE;
          flags = (if has_flag (ev_flags e) CUDDLK_EVENTSRCF_SHARED then flags OR CUDDL_EVENTSRCF_SHARED else flags);
          flags = (if intr_enable (ev_intr e) \<noteq> None then flags OR CUDDL_EVENTSRCF_HAS_ENABLE else flags);
          flags = (if intr_disable (ev_intr e) \<noteq> None then flags OR CUDDL_EVENTSRCF_HAS_DISABLE else flags)
      in if intr_is_enabled (ev_intr e) \<noteq> None then flags OR CUDDL_EVENTSRCF_HAS_IS_ENABLED else flags)"

definition fill_eventsrc_info ::
  "bool \<Rightarrow> c_int \<Rightarrow> c_int \<Rightarrow> cuddlk_device \<Rightarrow> cuddl_eventsrc_info \<Rightarrow> cuddl_eventsrc_info option" where
  "fill_eventsrc_info rt slot eslot d info = do {
     e \<leftarrow> arr_get (d_events d) eslot;
     name \<leftarrow> eventsrc_device_name rt d;
     Some (info\<lparr>
       ei_token := \<lparr>device_index = slot, resource_index = eslot\<rparr>,
       ei_flags := eventsrc_info_flags e,
       ei_device_name := snprintf (ei_device_name info) CUDDLCI_MAX_STR_LEN name\<rparr>)
   }"

definition eventsrc_claim_found ::
  "ioctl_env \<Rightarrow> bool \<Rightarrow> bool \<Rightarrow> cuddlci_eventsrc_claim_ioctl_data \<Rightarrow> kstate
     \<Rightarrow> c_int \<Rightarrow> c_int \<Rightarrow> dptr \<Rightarrow> cuddlk_device \<Rightarrow> ioctl_result" where
  "eventsrc_claim_found env rt claim edata st slot eslot dev d = do {
     (ret, st) \<leftarrow>
       (if claim then eventsrc_claim (mod_get_ok env) dev eslot
                        (ec_options edata AND CUDDL_EVENTSRC_CLAIMF_HOSTILE) st
        else Some (0, st));
     if ret \<noteq> 0 then Some (ret, None, st)
     else do {
       info \<leftarrow> fill_eventsrc_info rt slot eslot d (ec_info edata);
       let edata = edata\<lparr>ec_info := info\<rparr>;
       if \<not> ctu_ok env then do {
         (_, st) \<leftarrow> eventsrc_decr_ref_count dev eslot st;
         Some (- EOVERFLOW, None, st)
       }
       else if \<not> claim then Some (0, Some (Event_Claim_Data edata), st)
       else if \<not> ref_kz_ok env then do {
         (_, st) \<leftarrow> eventsrc_decr_ref_count dev eslot st;
         Some (- ENOMEM, Some (Event_Claim_Data edata), st)
       }
       else Some (0, Some (Event_Claim_Data edata),
         st\<lparr>cuddlk_event_refs := \<lparr>ref_token = ei_token info, ref_pid = ec_pid edata\<rparr> # cuddlk_event_refs st\<rparr>)
     }
   }"

definition eventsrc_claim_case :: "ioctl_env \<Rightarrow> bool \<Rightarrow> bool \<Rightarrow> kstate \<Rightarrow> ioctl_result" where
  "eventsrc_claim_case env rt claim st =
     with_user_data (cfu_event_claim env) ec_version_code st (\<lambda>edata.
       with_eventsrc st (ec_id edata) (eventsrc_claim_found env rt claim edata st))"

subsection \<open>Releasing a resource\<close>

text \<open>
  The entry that the release removes from the list: the first one with the token and the
  process of the request. The outcome of the decrement is not looked at.
\<close>

definition ref_is :: "c_int \<Rightarrow> c_int \<Rightarrow> pid_t \<Rightarrow> cuddlk_resource_ref \<Rightarrow> bool" where
  "ref_is slot rslot pid pos \<longleftrightarrow>
     slot = device_index (ref_token pos) \<and> rslot = resource_index (ref_token pos) \<and> pid = ref_pid pos"

definition memregion_release_case :: "ioctl_env \<Rightarrow> kstate \<Rightarrow> ioctl_result" where
  "memregion_release_case env st =
     with_user_data (cfu_mem_release env) mrel_version_code st (\<lambda>mrdata.
       let slot = device_index (mrel_token mrdata);
           mslot = resource_index (mrel_token mrdata)
       in if out_of_range slot CUDDLK_MAX_MANAGED_DEVICES then Some (- EBADSLT, None, st)
          else with_entry st slot (\<lambda>dev.
            if out_of_range mslot CUDDLK_MAX_DEV_MEM_REGIONS then Some (- EBADSLT, None, st)
            else do {
              (_, st) \<leftarrow> memregion_decr_ref_count dev mslot st;
              Some (0, None, st\<lparr>cuddlk_mem_refs :=
                snd (delete_first (ref_is slot mslot (mrel_pid mrdata)) (cuddlk_mem_refs st))\<rparr>)
            }))"

definition eventsrc_release_case :: "ioctl_env \<Rightarrow> kstate \<Rightarrow> ioctl_result" where
  "eventsrc_release_case env st =
     with_user_data (cfu_event_release env) erel_version_code st (\<lambda>erdata.
       let slot = device_index (erel_token erdata);
           eslot = resource_index (erel_token erdata)
       in if out_of_range slot CUDDLK_MAX_MANAGED_DEVICES then Some (- EBADSLT, None, st)
          else with_entry st slot (\<lambda>dev.
            if out_of_range eslot CUDDLK_MAX_DEV_EVENTS then Some (- EBADSLT, None, st)
            else do {
              (_, st) \<leftarrow> eventsrc_decr_ref_count dev eslot st;
              Some (0, None, st\<lparr>cuddlk_event_refs :=
                snd (delete_first (ref_is slot eslot (erel_pid erdata)) (cuddlk_event_refs st))\<rparr>)
            }))"

subsection \<open>Constants\<close>

text \<open>The three limits and the kernel's version code.\<close>

definition constant_case :: "ioctl_env \<Rightarrow> c_int \<Rightarrow> kstate \<Rightarrow> ioctl_result" where
  "constant_case env n st =
     with_user_data (cfu_void env) vd_version_code st (\<lambda>void_data. Some (n, None, st))"

subsection \<open>Identifiers of resources\<close>

text \<open>
  \<^verbatim>\<open>memcpy(dst, s, 256)\<close> from a string: its characters, the terminator, and whatever
  memory holds behind it. A null pointer is undefined.
\<close>

definition memcpy_name :: "ioctl_env \<Rightarrow> string option \<Rightarrow> string option" where
  "memcpy_name env src = do {
     s \<leftarrow> src;
     Some (take CUDDLCI_MAX_STR_LEN (cstr s @ NUL # map (beyond env s) [0..<CUDDLCI_MAX_STR_LEN]))
   }"

definition fill_resource_id ::
  "ioctl_env \<Rightarrow> cuddlk_device \<Rightarrow> string option \<Rightarrow> cuddl_resource_id \<Rightarrow> cuddl_resource_id option" where
  "fill_resource_id env d resource rid = do {
     g \<leftarrow> memcpy_name env (d_group d);
     n \<leftarrow> memcpy_name env (d_name d);
     r \<leftarrow> memcpy_name env resource;
     Some (rid\<lparr>id_group := g, id_device := n, id_resource := r, id_instance := d_instance d\<rparr>)
   }"

definition memregion_id_case :: "kcfg \<Rightarrow> ioctl_env \<Rightarrow> kstate \<Rightarrow> ioctl_result" where
  "memregion_id_case cfg env st =
     with_user_data (cfu_get_id env) gi_version_code st (\<lambda>get_id_data.
       let slot = gi_device_slot get_id_data;
           mslot = gi_resource_slot get_id_data
       in if out_of_range slot CUDDLK_MAX_MANAGED_DEVICES then Some (- EBADSLT, None, st)
          else if out_of_range mslot CUDDLK_MAX_DEV_MEM_REGIONS then Some (- EBADSLT, None, st)
          else with_entry st slot (\<lambda>dev. do {
            d \<leftarrow> k_heap st dev;
            m \<leftarrow> arr_get (d_mem d) mslot;
            if mr_type m = memt_none cfg then Some (- EINVAL, None, st)
            else do {
              rid \<leftarrow> fill_resource_id env d (mr_name m) (gi_id get_id_data);
              copy_result env (Get_Id_Data (get_id_data\<lparr>gi_id := rid\<rparr>)) st
            }
          }))"

definition eventsrc_id_case :: "kcfg \<Rightarrow> ioctl_env \<Rightarrow> kstate \<Rightarrow> ioctl_result" where
  "eventsrc_id_case cfg env st =
     with_user_data (cfu_get_id env) gi_version_code st (\<lambda>get_id_data.
       let slot = gi_device_slot get_id_data;
           eslot = gi_resource_slot get_id_data
       in if out_of_range slot CUDDLK_MAX_MANAGED_DEVICES then Some (- EBADSLT, None, st)
          else if out_of_range eslot CUDDLK_MAX_DEV_EVENTS then Some (- EBADSLT, None, st)
          else with_entry st slot (\<lambda>dev. do {
            d \<leftarrow> k_heap st dev;
            e \<leftarrow> arr_get (d_events d) eslot;
            if intr_irq (ev_intr e) = irq_none cfg then Some (- EINVAL, None, st)
            else do {
              rid \<leftarrow> fill_resource_id env d (ev_name e) (gi_id get_id_data);
              copy_result env (Get_Id_Data (get_id_data\<lparr>gi_id := rid\<rparr>)) st
            }
          }))"

subsection \<open>Reference counts\<close>

definition memregion_ref_count_case :: "ioctl_env \<Rightarrow> bool \<Rightarrow> kstate \<Rightarrow> ioctl_result" where
  "memregion_ref_count_case env decrement st =
     with_user_data (cfu_ref_count env) rc_version_code st (\<lambda>id_data.
       with_memregion st (rc_id id_data) (\<lambda>slot mslot dev d.
         if decrement then do {
           (ret, st) \<leftarrow> memregion_decr_ref_count dev mslot st;
           Some (ret, None, st)
         }
         else do {
           m \<leftarrow> get_memregion st dev mslot;
           Some (mr_ref_count m, None, st)
         }))"

definition eventsrc_ref_count_case :: "ioctl_env \<Rightarrow> bool \<Rightarrow> kstate \<Rightarrow> ioctl_result" where
  "eventsrc_ref_count_case env decrement st =
     with_user_data (cfu_ref_count env) rc_version_code st (\<lambda>id_data.
       with_eventsrc st (rc_id id_data) (\<lambda>slot eslot dev d.
         if decrement then do {
           (ret, st) \<leftarrow> eventsrc_decr_ref_count dev eslot st;
           Some (ret, None, st)
         }
         else do {
           e \<leftarrow> get_eventsrc st dev eslot;
           Some (ev_ref_count e, None, st)
         }))"

subsection \<open>Texts\<close>

definition commit_id_case :: "kcfg \<Rightarrow> ioctl_env \<Rightarrow> kstate \<Rightarrow> ioctl_result" where
  "commit_id_case cfg env st =
     with_user_data (cfu_commit env) ci_version_code st (\<lambda>commit_data.
       let id_str = snd (cuddlk_get_commit_id cfg (ci_id_str commit_data) (of_nat CUDDLCI_MAX_STR_LEN))
       in copy_result env (Commit_Id_Data (commit_data\<lparr>ci_id_str := id_str\<rparr>)) st)"

definition variant_case :: "kcfg \<Rightarrow> ioctl_env \<Rightarrow> kstate \<Rightarrow> ioctl_result" where
  "variant_case cfg env st =
     with_user_data (cfu_commit env) ci_version_code st (\<lambda>commit_data.
       let id_str = strncpy (ci_id_str commit_data) (CUDDLK_VARIANT cfg) CUDDLCI_MAX_STR_LEN
       in copy_result env (Commit_Id_Data (commit_data\<lparr>ci_id_str := id_str\<rparr>)) st)"

text \<open>The driver's and the hardware's description differ in the field they read only.\<close>

definition device_text_case ::
  "ioctl_env \<Rightarrow> (cuddlk_device \<Rightarrow> string option) \<Rightarrow> kstate \<Rightarrow> ioctl_result" where
  "device_text_case env device_text st =
     with_user_data (cfu_driver_info env) di_version_code st (\<lambda>driver_info_data.
       let slot = di_device_slot driver_info_data
       in if out_of_range slot CUDDLK_MAX_MANAGED_DEVICES then Some (- EBADSLT, None, st)
          else with_entry st slot (\<lambda>dev. do {
            d \<leftarrow> k_heap st dev;
            let info = strncpy (di_info_str driver_info_data)
              (case device_text d of Some s \<Rightarrow> s | None \<Rightarrow> ''UNKNOWN'') CUDDLCI_MAX_STR_LEN;
            copy_result env (Driver_Info_Data (driver_info_data\<lparr>di_info_str := info\<rparr>)) st
          }))"

definition driver_info_case :: "ioctl_env \<Rightarrow> kstate \<Rightarrow> ioctl_result" where
  "driver_info_case env st = device_text_case env d_driver_info st"

definition hw_info_case :: "ioctl_env \<Rightarrow> kstate \<Rightarrow> ioctl_result" where
  "hw_info_case env st = device_text_case env d_hw_info st"

subsection \<open>Whether an interrupt is enabled\<close>

definition is_enabled_case :: "ioctl_env \<Rightarrow> kstate \<Rightarrow> ioctl_result" where
  "is_enabled_case env st =
     with_user_data (cfu_is_enabled env) ie_version_code st (\<lambda>is_enabled_data.
       let slot = device_index (ie_token is_enabled_data);
           eslot = resource_index (ie_token is_enabled_data)
       in if out_of_range slot CUDDLK_MAX_MANAGED_DEVICES then Some (- EBADSLT, None, st)
          else with_entry st slot (\<lambda>dev.
            if out_of_range eslot CUDDLK_MAX_DEV_EVENTS then Some (- EBADSLT, None, st)
            else do {
              e \<leftarrow> get_eventsrc st dev eslot;
              case intr_is_enabled (ev_intr e) of
                None \<Rightarrow> Some (- EINVAL, None, st)
              | Some f \<Rightarrow> Some (driver_ret env f, None, st)
            }))"

subsection \<open>The handler\<close>

definition manager_command :: "kcfg \<Rightarrow> ioctl_env \<Rightarrow> ioctl_cmd \<Rightarrow> kstate \<Rightarrow> ioctl_result" where
  "manager_command cfg env cmd st =
     (case cmd of
        CUDDLCI_MEMREGION_CLAIM_UDD_IOCTL \<Rightarrow> memregion_claim_case cfg env True True st
      | CUDDLCI_MEMREGION_CLAIM_UIO_IOCTL \<Rightarrow> memregion_claim_case cfg env False True st
      | CUDDLCI_GET_MEMREGION_INFO_IOCTL \<Rightarrow> memregion_claim_case cfg env False False st
      | CUDDLCI_EVENTSRC_CLAIM_UDD_IOCTL \<Rightarrow> eventsrc_claim_case env True True st
      | CUDDLCI_EVENTSRC_CLAIM_UIO_IOCTL \<Rightarrow> eventsrc_claim_case env False True st
      | CUDDLCI_GET_EVENTSRC_INFO_IOCTL \<Rightarrow> eventsrc_claim_case env False False st
      | CUDDLCI_MEMREGION_RELEASE_UDD_IOCTL \<Rightarrow> memregion_release_case env st
      | CUDDLCI_MEMREGION_RELEASE_UIO_IOCTL \<Rightarrow> memregion_release_case env st
      | CUDDLCI_EVENTSRC_RELEASE_UDD_IOCTL \<Rightarrow> eventsrc_release_case env st
      | CUDDLCI_EVENTSRC_RELEASE_UIO_IOCTL \<Rightarrow> eventsrc_release_case env st
      | CUDDLCI_GET_MAX_MANAGED_DEVICES_IOCTL \<Rightarrow> constant_case env (int CUDDLK_MAX_MANAGED_DEVICES) st
      | CUDDLCI_GET_MAX_DEV_MEM_REGIONS_IOCTL \<Rightarrow> constant_case env (int CUDDLK_MAX_DEV_MEM_REGIONS) st
      | CUDDLCI_GET_MAX_DEV_EVENTS_IOCTL \<Rightarrow> constant_case env (int CUDDLK_MAX_DEV_EVENTS) st
      | CUDDLCI_GET_MEMREGION_ID_IOCTL \<Rightarrow> memregion_id_case cfg env st
      | CUDDLCI_GET_EVENTSRC_ID_IOCTL \<Rightarrow> eventsrc_id_case cfg env st
      | CUDDLCI_DECREMENT_MEMREGION_REF_COUNT_IOCTL \<Rightarrow> memregion_ref_count_case env True st
      | CUDDLCI_GET_MEMREGION_REF_COUNT_IOCTL \<Rightarrow> memregion_ref_count_case env False st
      | CUDDLCI_DECREMENT_EVENTSRC_REF_COUNT_IOCTL \<Rightarrow> eventsrc_ref_count_case env True st
      | CUDDLCI_GET_EVENTSRC_REF_COUNT_IOCTL \<Rightarrow> eventsrc_ref_count_case env False st
      | CUDDLCI_JANITOR_REGISTER_PID_IOCTL \<Rightarrow> Some (- ENOSYS, None, st)
      | CUDDLCI_GET_KERNEL_COMMIT_ID_IOCTL \<Rightarrow> commit_id_case cfg env st
      | CUDDLCI_GET_DRIVER_INFO_IOCTL \<Rightarrow> driver_info_case env st
      | CUDDLCI_GET_HW_INFO_IOCTL \<Rightarrow> hw_info_case env st
      | CUDDLCI_GET_KERNEL_VERSION_CODE_IOCTL \<Rightarrow> constant_case env CUDDLK_VERSION_CODE st
      | CUDDLCI_GET_KERNEL_VARIANT_IOCTL \<Rightarrow> variant_case cfg env st
      | CUDDLCI_EVENTSRC_IS_ENABLED_IOCTL \<Rightarrow> is_enabled_case env st
      | UNKNOWN_IOCTL _ \<Rightarrow> Some (- ENOSYS, None, st))"

text \<open>
  The ten buffers are allocated in the order of the code; when the allocation of number
  \<open>n\<close> fails, the earlier ones are freed, newest first, and the call returns. The result
  is the list of the frees in that case, or of the buffers that the end of the function
  frees, newest first as well.
\<close>

fun alloc_buffers :: "(nat \<Rightarrow> bool) \<Rightarrow> nat list \<Rightarrow> nat list \<Rightarrow> nat list + nat list" where
  "alloc_buffers ok held [] = Inr held"
| "alloc_buffers ok held (n # rest) = (if ok n then alloc_buffers ok (n # held) rest else Inl held)"

definition cuddlk_manager_ioctl :: "kcfg \<Rightarrow> ioctl_env \<Rightarrow> ioctl_cmd \<Rightarrow> kstate \<Rightarrow> ioctl_result" where
  "cuddlk_manager_ioctl cfg env cmd st =
     (case alloc_buffers (kz_ok env) [] [0..<10] of
        Inl freed \<Rightarrow> Some (- ENOMEM, None, st)
      | Inr held \<Rightarrow> do {
          st \<leftarrow> cuddlk_manager_lock st;
          (ret, out, st) \<leftarrow> manager_command cfg env cmd st;
          st \<leftarrow> cuddlk_manager_unlock st;
          Some (ret, out, st)
        })"

end
