(* ===== verification/Ioctl_Safety.thy ===== *)
theory Ioctl_Safety
  imports Manager_Ioctl
begin

section \<open>The IOCTL handler is safe and keeps the invariant\<close>

text \<open>
  Every case of the handler is defined on a state that satisfies the invariant of the
  manager, keeps the invariant, and leaves everything but counts, references and module
  use counts alone. The steps that the two kinds of resources share are lemmas of the
  locale \<open>ref_counted\<close>.
\<close>

subsection \<open>What depends on the shape of the state only\<close>

text \<open>A resource that is in use has a name, which the identifier IOCTLs copy.\<close>

definition resources_named :: "kcfg \<Rightarrow> cuddlk_device \<Rightarrow> bool" where
  "resources_named cfg d \<longleftrightarrow>
     (\<forall>m \<in> set (d_mem d). mr_type m \<noteq> memt_none cfg \<longrightarrow> mr_name m \<noteq> None) \<and>
     (\<forall>e \<in> set (d_events d). intr_irq (ev_intr e) \<noteq> irq_none cfg \<longrightarrow> ev_name e \<noteq> None)"

definition all_named :: "kcfg \<Rightarrow> kstate \<Rightarrow> bool" where
  "all_named cfg st \<longleftrightarrow>
     (\<forall>i p d. device_at st i = Some p \<longrightarrow> k_heap st p = Some d \<longrightarrow> resources_named cfg d)"

lemma registered_erase [simp]: "registered cfg p (erase_counts d) = registered cfg p d"
  by (simp add: registered_def device_named_def) (simp add: erase_counts_def)

lemma resources_named_erase [simp]: "resources_named cfg (erase_counts d) = resources_named cfg d"
  by (simp add: resources_named_def erase_counts_def)

lemma devices_registered_shape:
  assumes "k_shape st' = k_shape st" "devices_registered cfg st"
  shows "devices_registered cfg st'"
  unfolding devices_registered_def
proof (intro allI impI)
  fix i p
  assume "device_at st' i = Some p"
  then have "device_at st i = Some p" using k_shape_device_at [OF assms(1)] by simp
  with devices_registeredD [OF assms(2)] obtain d where d: "k_heap st p = Some d" "registered cfg p d" by blast
  from k_shape_heap_Some [OF assms(1) d(1)] obtain d' where
    "k_heap st' p = Some d'" "erase_counts d' = erase_counts d" by blast
  with d(2) registered_erase show "\<exists>d. k_heap st' p = Some d \<and> registered cfg p d" by metis
qed

lemma all_named_shape:
  assumes "k_shape st' = k_shape st" "all_named cfg st"
  shows "all_named cfg st'"
  unfolding all_named_def
proof (intro allI impI)
  fix i p d'
  assume "device_at st' i = Some p" and d': "k_heap st' p = Some d'"
  then have at: "device_at st i = Some p" using k_shape_device_at [OF assms(1)] by simp
  from k_shape_heap_Some [OF assms(1) [symmetric] d'] obtain d where
    d: "k_heap st p = Some d" "erase_counts d = erase_counts d'" by blast
  from assms(2) at d(1) have "resources_named cfg d" unfolding all_named_def by blast
  with d(2) show "resources_named cfg d'" by (metis resources_named_erase)
qed

lemma manager_inv_shape:
  assumes "manager_inv cfg st" "k_shape st' = k_shape st" "refs_ok st'"
  shows "manager_inv cfg st'"
  using manager_invD [OF assms(1)] k_shape_table [OF assms(2)] devices_registered_shape [OF assms(2)] assms(3)
  by (simp add: manager_inv_def table_len_def)

lemma registered_owner:
  assumes "k_heap st p = Some d" "registered cfg p d"
  shows "uio_dev_owner st (Some p) = Some (d_owner_ptr d)"
  using assms by (auto simp: uio_dev_owner_def registered_def)

lemma registered_mem_owner:
  assumes "k_heap st p = Some d" "registered cfg p d" "get_memregion st p j = Some m"
  shows "uio_dev_owner st (mr_uio_ptr m) = Some (d_owner_ptr d)"
proof -
  from assms(1,3) have "m \<in> set (d_mem d)"
    by (auto simp: get_memregion_def dest!: arr_get_SomeD)
  with assms(2) have "mr_uio_ptr m = Some p" by (simp add: registered_def)
  with registered_owner [OF assms(1,2)] show ?thesis by simp
qed

lemma registered_event_owner:
  assumes "k_heap st p = Some d" "registered cfg p d" "get_eventsrc st p j = Some e"
  shows "uio_dev_owner st (ev_uio_ptr e) = Some (d_owner_ptr d)"
proof -
  from assms(1,3) have "e \<in> set (d_events d)"
    by (auto simp: get_eventsrc_def dest!: arr_get_SomeD)
  with assms(2) have "ev_uio_ptr e = Some p" by (simp add: registered_def)
  with registered_owner [OF assms(1,2)] show ?thesis by simp
qed

subsection \<open>Transactions on one kind of resource\<close>

context ref_counted
begin

lemma placed_shape:
  assumes "refs_placed cnt l st" "k_shape st' = k_shape st"
    and "\<And>p j. get st p j \<noteq> None \<Longrightarrow> get st' p j \<noteq> None"
  shows "refs_placed cnt l st'"
  using assms k_shape_device_at [OF assms(2)] unfolding refs_placed_def by (fastforce simp: cnt_get)

lemma claim_commit:
  assumes c: "claim ok p j hostile st = Some (0, st')" and r: "get st p j = Some r"
    and p: "device_at st i = Some p" and d: "occupied_distinct (k_table st)"
    and b: "counts_bounded cnt refs st" "refs_placed cnt (refs st) st" and len: "length (refs st) < 2 ^ 31 - 1"
    and x: "tok_at i j x"
  shows "counts_bounded cnt refs (put_refs (x # refs st') st') \<and>
    refs_placed cnt (x # refs st') (put_refs (x # refs st') st') \<and>
    k_shape (put_refs (x # refs st') st') = k_shape st \<and> other (put_refs (x # refs st') st') = other st"
proof -
  note eff = claim_effect(1-4) [OF c r]
  have sh: "k_shape (put_refs (x # refs st') st') = k_shape st" by (simp add: shape_put_refs eff(1))
  have "refs_placed cnt (refs st) (put_refs (x # refs st') st')"
    by (rule placed_shape [OF b(2) sh]) (simp add: get_put_refs eff(4) split: if_splits)
  moreover have "device_at (put_refs (x # refs st') st') i = Some p"
    "cnt (put_refs (x # refs st') st') p j \<noteq> None"
    using p k_shape_device_at [OF sh] by (simp_all add: cnt_get get_put_refs eff(4))
  ultimately show ?thesis
    using claim_add_bounded [OF c r p d b(1) len x] sh x
    by (simp add: refs_placed_def eff(2,3) tok_at_def other_put_refs)
qed

lemma decr_step:
  assumes c: "decr p j st = Some (ret, st')" and r: "get st p j = Some r"
    and p: "device_at st i = Some p" and d: "occupied_distinct (k_table st)"
    and b: "counts_bounded cnt refs st" "refs_placed cnt (refs st) st" and len: "length (refs st) < 2 ^ 31"
  shows "counts_bounded cnt refs st' \<and> refs_placed cnt (refs st') st' \<and>
    k_shape st' = k_shape st \<and> other st' = other st"
proof -
  from r have c0: "cnt st p j = Some (count r)" by (simp add: cnt_get)
  from counts_boundedD [OF b(1) p c0] count_where_le_length [of "tok_at i j" "refs st"] len
  have range: "0 \<le> count r" "count r < 2 ^ 31" by auto
  note eff = decr_effect(1-4) [OF c r range]
  have "refs_placed cnt (refs st) st'"
    by (rule placed_shape [OF b(2) eff(1)]) (simp add: eff(4))
  with decr_bounded [OF c r p d b(1) range(2)] eff show ?thesis by simp
qed

lemma decr_delete_step:
  assumes c: "decr p j st = Some (ret, st')" and r: "get st p j = Some r"
    and p: "device_at st i = Some p" and d: "occupied_distinct (k_table st)"
    and b: "counts_bounded cnt refs st" "refs_placed cnt (refs st) st" and len: "length (refs st) < 2 ^ 31"
    and q: "\<And>x. q x \<Longrightarrow> tok_at i j x"
  defines "st'' \<equiv> put_refs (snd (delete_first q (refs st'))) st'"
  shows "counts_bounded cnt refs st'' \<and> refs_placed cnt (refs st'') st'' \<and>
    k_shape st'' = k_shape st \<and> other st'' = other st"
proof -
  from r have c0: "cnt st p j = Some (count r)" by (simp add: cnt_get)
  from counts_boundedD [OF b(1) p c0] count_where_le_length [of "tok_at i j" "refs st"] len
  have range: "0 \<le> count r" "count r < 2 ^ 31" by auto
  note eff = decr_effect(1-4) [OF c r range]
  have sh: "k_shape st'' = k_shape st" by (simp add: st''_def shape_put_refs eff(1))
  have "refs_placed cnt (refs st) st''"
    by (rule placed_shape [OF b(2) sh]) (simp add: st''_def get_put_refs eff(4))
  then have "refs_placed cnt (refs st'') st''"
    using set_delete_first [of q "refs st"]
    by (auto simp: refs_placed_def st''_def refs_put_refs eff(2))
  with decr_delete_bounded [OF c r p d b(1) range(2) q] eff sh show ?thesis
    by (simp add: st''_def other_put_refs)
qed

text \<open>A claim that a later step undoes: only the use count of the module may differ.\<close>

lemma claim_undo:
  assumes c: "claim ok p j hostile st = Some (0, st')" and r: "get st p j = Some r"
    and range: "0 \<le> count r" "count r < 2 ^ 31"
  obtains ret owner where "decr p j st' = Some (ret, unpin owner (pin ok owner st))"
  using claim_decr [OF c r range] by blast

end

subsection \<open>Both kinds together\<close>

definition kind_ok ::
  "(kstate \<Rightarrow> dptr \<Rightarrow> c_int \<Rightarrow> c_int option) \<Rightarrow> (kstate \<Rightarrow> cuddlk_resource_ref list) \<Rightarrow> kstate \<Rightarrow> bool" where
  "kind_ok cnt refs st \<longleftrightarrow> counts_bounded cnt refs st \<and> refs_placed cnt (refs st) st"

lemma refs_ok_kinds:
  "refs_ok st \<longleftrightarrow> kind_ok memregion_count cuddlk_mem_refs st \<and> kind_ok eventsrc_count cuddlk_event_refs st"
  by (auto simp: refs_ok_def kind_ok_def)

lemma kind_ok_cong:
  assumes "k_shape st' = k_shape st" "cnt st' = cnt st" "refs st' = refs st"
  shows "kind_ok cnt refs st' = kind_ok cnt refs st"
  using k_shape_device_at [OF assms(1)] assms(2,3)
  by (simp add: kind_ok_def counts_bounded_def refs_placed_def)

lemma mem_other:
  assumes "k_shape st' = k_shape st" "(get_eventsrc st', cuddlk_event_refs st') = (get_eventsrc st, cuddlk_event_refs st)"
    and "refs_ok st" "counts_bounded memregion_count cuddlk_mem_refs st'"
    and "refs_placed memregion_count (cuddlk_mem_refs st') st'"
  shows "refs_ok st'"
  using assms kind_ok_cong [of st' st eventsrc_count cuddlk_event_refs]
  by (simp add: refs_ok_kinds kind_ok_def eventsrc_count_def fun_eq_iff)

lemma event_other:
  assumes "k_shape st' = k_shape st" "(get_memregion st', cuddlk_mem_refs st') = (get_memregion st, cuddlk_mem_refs st)"
    and "refs_ok st" "counts_bounded eventsrc_count cuddlk_event_refs st'"
    and "refs_placed eventsrc_count (cuddlk_event_refs st') st'"
  shows "refs_ok st'"
  using assms kind_ok_cong [of st' st memregion_count cuddlk_mem_refs]
  by (simp add: refs_ok_kinds kind_ok_def memregion_count_def fun_eq_iff)

lemma refs_ok_modrefs [simp]: "refs_ok (st\<lparr>k_modrefs := f\<rparr>) = refs_ok st"
  using kind_ok_cong [of "st\<lparr>k_modrefs := f\<rparr>" st memregion_count cuddlk_mem_refs]
    kind_ok_cong [of "st\<lparr>k_modrefs := f\<rparr>" st eventsrc_count cuddlk_event_refs]
  by (simp add: refs_ok_kinds memregion_count_def eventsrc_count_def fun_eq_iff)

lemma unpin_pin_modrefs: "\<exists>f. unpin owner (pin ok owner st) = st\<lparr>k_modrefs := f\<rparr>"
  by (cases owner; cases ok) (auto simp: unpin_def pin_def module_put_def try_module_get_def
      intro: exI [of _ "k_modrefs st"])

subsection \<open>One case after the other\<close>

definition keeps :: "kcfg \<Rightarrow> kstate \<Rightarrow> ioctl_result \<Rightarrow> bool" where
  "keeps cfg st res \<longleftrightarrow>
     (\<exists>ret out st'. res = Some (ret, out, st') \<and> manager_inv cfg st' \<and> k_shape st' = k_shape st)"

lemma keepsI: "manager_inv cfg st' \<Longrightarrow> k_shape st' = k_shape st \<Longrightarrow> keeps cfg st (Some (ret, out, st'))"
  unfolding keeps_def by blast

lemma keeps_same: "manager_inv cfg st \<Longrightarrow> keeps cfg st (Some (ret, out, st))"
  by (rule keepsI) simp_all

lemma keeps_user_data:
  "manager_inv cfg st \<Longrightarrow> (\<And>d. copied = Some d \<Longrightarrow> keeps cfg st (body d)) \<Longrightarrow>
     keeps cfg st (with_user_data copied vc st body)"
  by (cases copied) (simp_all add: with_user_data_def keeps_same)

lemma keeps_copy_result: "manager_inv cfg st \<Longrightarrow> keeps cfg st (copy_result env payload st)"
  by (simp add: copy_result_def keeps_same)

lemma manager_inv_length: "manager_inv cfg st \<Longrightarrow> length (k_table st) = CUDDLK_MAX_MANAGED_DEVICES"
  by (simp add: manager_inv_def table_len_def)

text \<open>The device that a search finds, and the resource in it.\<close>

lemma found_device:
  assumes "manager_inv cfg st" "matching_slot st g n r k t start = Some i"
  obtains p d where "device_at st (int i) = Some p" "k_heap st p = Some d" "registered cfg p d"
    "device_matches g n r k t d" "i < CUDDLK_MAX_MANAGED_DEVICES"
proof -
  note i = matching_slot_SomeD [OF assms(2)]
  note ok = manager_invD [OF assms(1)]
  from i obtain d where d: "managed_device st i = Some d" "device_matches g n r k t d"
    by (auto simp: slot_matches_def split: option.splits)
  then obtain p where p: "k_table st ! i = Some p" "k_heap st p = Some d"
    by (auto simp: managed_device_def bind_eq_Some_conv)
  with i device_at_nth [OF ok(1)] have at: "device_at st (int i) = Some p" by simp
  with devices_registeredD [OF ok(3)] p(2) have "registered cfg p d" by fastforce
  with that at p(2) d(2) i show ?thesis by blast
qed

lemma occupied_device:
  assumes "manager_inv cfg st" "0 \<le> i" "i < int CUDDLK_MAX_MANAGED_DEVICES" "k_table st ! nat i = Some p"
  obtains d where "device_at st i = Some p" "k_heap st p = Some d" "registered cfg p d"
proof -
  note ok = manager_invD [OF assms(1)]
  have at: "device_at st i = Some p" using assms device_at_iff [OF ok(1)] by blast
  with devices_registeredD [OF ok(3)] that show ?thesis by blast
qed

lemma registered_find_memregion:
  "registered cfg p d \<Longrightarrow>
     cuddlk_device_find_memregion_slot d r = Some (slot_or_enxio (memregion_slot d r))"
  by (simp add: find_memregion_slot_eq registered_def device_named_def)

lemma registered_find_eventsrc:
  "registered cfg p d \<Longrightarrow>
     cuddlk_device_find_eventsrc_slot d r = Some (slot_or_enxio (eventsrc_slot d r))"
  by (simp add: find_eventsrc_slot_eq registered_def device_named_def)

lemma registered_memregion:
  "registered cfg p d \<Longrightarrow> k_heap st p = Some d \<Longrightarrow> 0 \<le> j \<Longrightarrow> j < int CUDDLK_MAX_DEV_MEM_REGIONS \<Longrightarrow>
     get_memregion st p j = Some (d_mem d ! nat j)"
  by (simp add: get_memregion_def registered_def device_named_def)

lemma registered_eventsrc:
  "registered cfg p d \<Longrightarrow> k_heap st p = Some d \<Longrightarrow> 0 \<le> j \<Longrightarrow> j < int CUDDLK_MAX_DEV_EVENTS \<Longrightarrow>
     get_eventsrc st p j = Some (d_events d ! nat j)"
  by (simp add: get_eventsrc_def registered_def device_named_def)

lemma device_names_Some:
  assumes "registered cfg p d"
  obtains a b where "memregion_device_name rt d j = Some a" "eventsrc_device_name rt d = Some b"
proof -
  from assms obtain u v where "d_unique_name d = Live u" "uio_dev (d_uio d) = Live v"
    by (auto simp: registered_def)
  with that show ?thesis
    by (cases rt) (simp_all add: memregion_device_name_def eventsrc_device_name_def uio_minor_def)
qed

lemma fill_memregion_info_Some:
  assumes "registered cfg p d" "0 \<le> j" "j < int CUDDLK_MAX_DEV_MEM_REGIONS"
  obtains info' where "fill_memregion_info cfg rt i j d info = Some info'"
    "mi_token info' = \<lparr>device_index = i, resource_index = j\<rparr>"
proof -
  obtain a where "memregion_device_name rt d j = Some a" using device_names_Some [OF assms(1)] .
  moreover have "arr_get (d_mem d) j = Some (d_mem d ! nat j)"
    using assms by (simp add: registered_def device_named_def)
  ultimately show ?thesis by (cases info, intro that [of "the (fill_memregion_info cfg rt i j d info)"]) (simp_all add: fill_memregion_info_def)
qed

lemma fill_eventsrc_info_Some:
  assumes "registered cfg p d" "0 \<le> j" "j < int CUDDLK_MAX_DEV_EVENTS"
  obtains info' where "fill_eventsrc_info rt i j d info = Some info'"
    "ei_token info' = \<lparr>device_index = i, resource_index = j\<rparr>"
proof -
  obtain a where "eventsrc_device_name rt d = Some a" using device_names_Some [OF assms(1)] .
  moreover have "arr_get (d_events d) j = Some (d_events d ! nat j)"
    using assms by (simp add: registered_def device_named_def)
  ultimately show ?thesis by (cases info, intro that [of "the (fill_eventsrc_info rt i j d info)"]) (simp_all add: fill_eventsrc_info_def)
qed

text \<open>A decrement in the middle of a case, and a claim that is undone.\<close>

lemma mem_decr_keeps:
  assumes inv: "manager_inv cfg st" "refs_few st" and at: "device_at st i = Some p"
    and m: "get_memregion st p j = Some m"
  obtains ret st' where "memregion_decr_ref_count p j st = Some (ret, st')"
    "manager_inv cfg st'" "k_shape st' = k_shape st"
proof -
  note ok = manager_invD [OF inv(1)]
  from devices_registeredD [OF ok(3) at] obtain d where d: "k_heap st p = Some d" "registered cfg p d" by blast
  from mem.decr_total [OF m] registered_mem_owner [OF d m] obtain ret st' where
    r: "memregion_decr_ref_count p j st = Some (ret, st')" by auto
  from ok(4) have b: "counts_bounded memregion_count cuddlk_mem_refs st"
    "refs_placed memregion_count (cuddlk_mem_refs st) st" by (simp_all add: refs_ok_def)
  from inv(2) have len: "length (cuddlk_mem_refs st) < 2 ^ 31" by (simp add: refs_few_def)
  note eff = mem.decr_step [OF r m at ok(2) b len]
  have "refs_ok st'" using mem_other [OF _ _ ok(4)] eff by blast
  with manager_inv_shape [OF inv(1)] eff that r show ?thesis by blast
qed

lemma event_decr_keeps:
  assumes inv: "manager_inv cfg st" "refs_few st" and at: "device_at st i = Some p"
    and m: "get_eventsrc st p j = Some m"
  obtains ret st' where "eventsrc_decr_ref_count p j st = Some (ret, st')"
    "manager_inv cfg st'" "k_shape st' = k_shape st"
proof -
  note ok = manager_invD [OF inv(1)]
  from devices_registeredD [OF ok(3) at] obtain d where d: "k_heap st p = Some d" "registered cfg p d" by blast
  from ev.decr_total [OF m] registered_event_owner [OF d m] obtain ret st' where
    r: "eventsrc_decr_ref_count p j st = Some (ret, st')" by auto
  from ok(4) have b: "counts_bounded eventsrc_count cuddlk_event_refs st"
    "refs_placed eventsrc_count (cuddlk_event_refs st) st" by (simp_all add: refs_ok_def)
  from inv(2) have len: "length (cuddlk_event_refs st) < 2 ^ 31" by (simp add: refs_few_def)
  note eff = ev.decr_step [OF r m at ok(2) b len]
  have "refs_ok st'" using event_other [OF _ _ ok(4)] eff by blast
  with manager_inv_shape [OF inv(1)] eff that r show ?thesis by blast
qed

lemma mem_count_range:
  assumes "manager_inv cfg st" "refs_few st" "device_at st i = Some p" "get_memregion st p j = Some m"
  shows "0 \<le> mr_ref_count m" "mr_ref_count m < 2 ^ 31 - 1"
  using counts_boundedD [of memregion_count cuddlk_mem_refs st i p j "mr_ref_count m"] assms
    count_where_le_length [of "tok_at i j" "cuddlk_mem_refs st"]
  by (auto simp: memregion_count_def manager_inv_def refs_ok_def refs_few_def)

lemma event_count_range:
  assumes "manager_inv cfg st" "refs_few st" "device_at st i = Some p" "get_eventsrc st p j = Some m"
  shows "0 \<le> ev_ref_count m" "ev_ref_count m < 2 ^ 31 - 1"
  using counts_boundedD [of eventsrc_count cuddlk_event_refs st i p j "ev_ref_count m"] assms
    count_where_le_length [of "tok_at i j" "cuddlk_event_refs st"]
  by (auto simp: eventsrc_count_def manager_inv_def refs_ok_def refs_few_def)

lemma manager_inv_undone: "manager_inv cfg st \<Longrightarrow> manager_inv cfg (unpin owner (pin ok owner st))"
  using unpin_pin_modrefs [of owner ok st] manager_inv_shape [of cfg st]
  by (metis k_shape_modrefs manager_invD(4) refs_ok_modrefs)

lemma k_shape_undone [simp]: "k_shape (unpin owner (pin ok owner st)) = k_shape st"
  using unpin_pin_modrefs [of owner ok st] by (metis k_shape_modrefs)

text \<open>A request by identifier, and the table's answer to it.\<close>

definition lookup_memregion :: "kstate \<Rightarrow> cuddl_resource_id \<Rightarrow> (nat \<times> nat \<times> cuddlk_memregion) option" where
  "lookup_memregion st rid = do {
     i \<leftarrow> matching_slot st (Some (id_group rid)) (Some (id_device rid)) (Some (id_resource rid))
       (id_instance rid) CUDDLK_RESOURCE_MEMREGION 0;
     d \<leftarrow> managed_device st i;
     j \<leftarrow> memregion_slot d (Some (id_resource rid));
     Some (i, j, d_mem d ! j)
   }"

lemma with_memregion_cases:
  assumes inv: "manager_inv cfg st"
  obtains (none) "lookup_memregion st rid = None" "\<And>body. with_memregion st rid body = Some (- ENXIO, None, st)"
    | (some) i j p d where "lookup_memregion st rid = Some (i, j, d_mem d ! j)"
        "\<And>body. with_memregion st rid body = body (int i) (int j) p d"
        "device_at st (int i) = Some p" "k_heap st p = Some d" "registered cfg p d"
        "j < CUDDLK_MAX_DEV_MEM_REGIONS" "get_memregion st p (int j) = Some (d_mem d ! j)"
proof -
  let ?find = "matching_slot st (Some (id_group rid)) (Some (id_device rid)) (Some (id_resource rid))
    (id_instance rid) CUDDLK_RESOURCE_MEMREGION 0"
  note find = find_device_slot_matching_eq [OF manager_inv_table_ok [OF inv], of 0, simplified]
  show ?thesis
  proof (cases ?find)
    case None
    then show ?thesis by (intro none) (simp_all add: with_memregion_def find lookup_memregion_def)
  next
    case (Some i)
    from found_device [OF inv Some] obtain p d where at: "device_at st (int i) = Some p"
      and d: "k_heap st p = Some d" "registered cfg p d" and i: "i < CUDDLK_MAX_MANAGED_DEVICES" by metis
    from at i device_at_nth [OF manager_invD(1) [OF inv], of i] d(1) have md: "managed_device st i = Some d"
      by (simp add: managed_device_def)
    note rslot = registered_find_memregion [OF d(2)]
    show ?thesis
    proof (cases "memregion_slot d (Some (id_resource rid))")
      case None
      with Some at d md show ?thesis
        by (intro none) (simp_all add: with_memregion_def find rslot lookup_memregion_def)
    next
      case j: (Some j)
      from memregion_slot_SomeD [OF j] have j1: "j < CUDDLK_MAX_DEV_MEM_REGIONS" by blast
      with registered_memregion [OF d(2,1), of "int j"]
      have g: "get_memregion st p (int j) = Some (d_mem d ! j)" by simp
      from Some j at d md show ?thesis
        by (intro some [OF _ _ at d j1 g]) (simp_all add: with_memregion_def find rslot lookup_memregion_def)
    qed
  qed
qed

lemma keeps_memregion:
  assumes inv: "manager_inv cfg st"
    and body: "\<And>i j p d m. device_at st (int i) = Some p \<Longrightarrow> k_heap st p = Some d \<Longrightarrow> registered cfg p d \<Longrightarrow>
      j < CUDDLK_MAX_DEV_MEM_REGIONS \<Longrightarrow> get_memregion st p (int j) = Some m \<Longrightarrow>
      keeps cfg st (body (int i) (int j) p d)"
  shows "keeps cfg st (with_memregion st rid body)"
  using inv
proof (cases rule: with_memregion_cases [of cfg st rid])
  case none
  with inv show ?thesis by (simp add: keeps_same)
next
  case (some i j p d)
  from body [OF some(3-7)] some(2) show ?thesis by simp
qed

definition lookup_eventsrc :: "kstate \<Rightarrow> cuddl_resource_id \<Rightarrow> (nat \<times> nat \<times> cuddlk_eventsrc) option" where
  "lookup_eventsrc st rid = do {
     i \<leftarrow> matching_slot st (Some (id_group rid)) (Some (id_device rid)) (Some (id_resource rid))
       (id_instance rid) CUDDLK_RESOURCE_EVENTSRC 0;
     d \<leftarrow> managed_device st i;
     j \<leftarrow> eventsrc_slot d (Some (id_resource rid));
     Some (i, j, d_events d ! j)
   }"

lemma with_eventsrc_cases:
  assumes inv: "manager_inv cfg st"
  obtains (none) "lookup_eventsrc st rid = None" "\<And>body. with_eventsrc st rid body = Some (- ENXIO, None, st)"
    | (some) i j p d where "lookup_eventsrc st rid = Some (i, j, d_events d ! j)"
        "\<And>body. with_eventsrc st rid body = body (int i) (int j) p d"
        "device_at st (int i) = Some p" "k_heap st p = Some d" "registered cfg p d"
        "j < CUDDLK_MAX_DEV_EVENTS" "get_eventsrc st p (int j) = Some (d_events d ! j)"
proof -
  let ?find = "matching_slot st (Some (id_group rid)) (Some (id_device rid)) (Some (id_resource rid))
    (id_instance rid) CUDDLK_RESOURCE_EVENTSRC 0"
  note find = find_device_slot_matching_eq [OF manager_inv_table_ok [OF inv], of 0, simplified]
  show ?thesis
  proof (cases ?find)
    case None
    then show ?thesis by (intro none) (simp_all add: with_eventsrc_def find lookup_eventsrc_def)
  next
    case (Some i)
    from found_device [OF inv Some] obtain p d where at: "device_at st (int i) = Some p"
      and d: "k_heap st p = Some d" "registered cfg p d" and i: "i < CUDDLK_MAX_MANAGED_DEVICES" by metis
    from at i device_at_nth [OF manager_invD(1) [OF inv], of i] d(1) have md: "managed_device st i = Some d"
      by (simp add: managed_device_def)
    note rslot = registered_find_eventsrc [OF d(2)]
    show ?thesis
    proof (cases "eventsrc_slot d (Some (id_resource rid))")
      case None
      with Some at d md show ?thesis
        by (intro none) (simp_all add: with_eventsrc_def find rslot lookup_eventsrc_def)
    next
      case j: (Some j)
      from eventsrc_slot_SomeD [OF j] have j1: "j < CUDDLK_MAX_DEV_EVENTS" by blast
      with registered_eventsrc [OF d(2,1), of "int j"]
      have g: "get_eventsrc st p (int j) = Some (d_events d ! j)" by simp
      from Some j at d md show ?thesis
        by (intro some [OF _ _ at d j1 g]) (simp_all add: with_eventsrc_def find rslot lookup_eventsrc_def)
    qed
  qed
qed

lemma keeps_eventsrc:
  assumes inv: "manager_inv cfg st"
    and body: "\<And>i j p d e. device_at st (int i) = Some p \<Longrightarrow> k_heap st p = Some d \<Longrightarrow> registered cfg p d \<Longrightarrow>
      j < CUDDLK_MAX_DEV_EVENTS \<Longrightarrow> get_eventsrc st p (int j) = Some e \<Longrightarrow>
      keeps cfg st (body (int i) (int j) p d)"
  shows "keeps cfg st (with_eventsrc st rid body)"
  using inv
proof (cases rule: with_eventsrc_cases [of cfg st rid])
  case none
  with inv show ?thesis by (simp add: keeps_same)
next
  case (some i j p d)
  from body [OF some(3-7)] some(2) show ?thesis by simp
qed

lemma keeps_entry:
  assumes inv: "manager_inv cfg st" and slot: "\<not> out_of_range slot CUDDLK_MAX_MANAGED_DEVICES"
    and body: "\<And>p d. device_at st slot = Some p \<Longrightarrow> k_heap st p = Some d \<Longrightarrow> registered cfg p d \<Longrightarrow>
      keeps cfg st (body p)"
  shows "keeps cfg st (with_entry st slot body)"
proof -
  from slot have r: "0 \<le> slot" "slot < int CUDDLK_MAX_MANAGED_DEVICES" by (auto simp: out_of_range_def)
  with manager_inv_length [OF inv] have g: "arr_get (k_table st) slot = Some (k_table st ! nat slot)" by simp
  show ?thesis
  proof (cases "k_table st ! nat slot")
    case None
    with g inv show ?thesis by (simp add: with_entry_def keeps_same)
  next
    case (Some p)
    obtain d where "device_at st slot = Some p" "k_heap st p = Some d" "registered cfg p d"
      using occupied_device [OF inv r Some] .
    from body [OF this] g Some show ?thesis by (simp add: with_entry_def)
  qed
qed

lemma memregion_claim_found_keeps:
  assumes inv: "manager_inv cfg st" "refs_few st" and at: "device_at st (int i) = Some p"
    and d: "k_heap st p = Some d" "registered cfg p d" and j5: "j < CUDDLK_MAX_DEV_MEM_REGIONS"
    and m: "get_memregion st p (int j) = Some m"
  shows "keeps cfg st (memregion_claim_found cfg env rt claim md st (int i) (int j) p d)"
proof -
  note ok = manager_invD [OF inv(1)]
  obtain info where info: "fill_memregion_info cfg rt (int i) (int j) d (mc_info md) = Some info"
    "mi_token info = \<lparr>device_index = int i, resource_index = int j\<rparr>"
    by (rule fill_memregion_info_Some [OF d(2), where j = "int j" and rt = rt and i = "int i"
          and info = "mc_info md"]) (use j5 in simp_all)
  obtain dret dst where decr0: "memregion_decr_ref_count p (int j) st = Some (dret, dst)"
    "manager_inv cfg dst" "k_shape dst = k_shape st" using mem_decr_keeps [OF inv at m] .
  show ?thesis
  proof (cases claim)
    case False
    with info decr0 inv(1) show ?thesis by (simp add: memregion_claim_found_def Let_def keeps_same keepsI)
  next
    case claim: True
    let ?h = "mc_options md AND CUDDL_MEM_CLAIMF_HOSTILE"
    have own: "uio_dev_owner st (mr_uio_ptr m) \<noteq> None" using registered_mem_owner [OF d m] by simp
    from mem.claim_total [OF m own, of "mod_get_ok env" ?h] obtain ret st1 where
      c: "memregion_claim (mod_get_ok env) p (int j) ?h st = Some (ret, st1)" "ret = 0 \<or> ret = - EBUSY"
      by blast
    show ?thesis
    proof (cases "ret = 0")
      case False
      with mem.claim_effect(5) [OF c(1) m] have "st1 = st" by blast
      with False c claim inv(1) show ?thesis by (simp add: memregion_claim_found_def Let_def keeps_same)
    next
      case True
      note c0 = c(1) [unfolded True]
      note range = mem_count_range [OF inv at m]
      obtain uret owner where undo: "memregion_decr_ref_count p (int j) st1 =
          Some (uret, unpin owner (pin (mod_get_ok env) owner st))"
        using mem.claim_undo [OF c0 m range(1)] range(2) by auto
      from ok(4) inv(2) have b: "counts_bounded memregion_count cuddlk_mem_refs st"
        "refs_placed memregion_count (cuddlk_mem_refs st) st" "length (cuddlk_mem_refs st) < 2 ^ 31 - 1"
        by (simp_all add: refs_ok_def refs_few_def)
      have tok: "tok_at (int i) (int j) \<lparr>ref_token = mi_token info, ref_pid = mc_pid md\<rparr>"
        by (simp add: tok_at_def info(2))
      note commit = mem.claim_commit [OF c0 m at ok(2) b tok]
      let ?st2 = "st1\<lparr>cuddlk_mem_refs :=
        \<lparr>ref_token = mi_token info, ref_pid = mc_pid md\<rparr> # cuddlk_mem_refs st1\<rparr>"
      have "refs_ok ?st2" using mem_other [of ?st2 st] commit ok(4) by simp
      then have "manager_inv cfg ?st2" using manager_inv_shape [OF inv(1)] commit by blast
      with c0 claim info undo commit manager_inv_undone [OF inv(1)] show ?thesis
        by (simp add: memregion_claim_found_def Let_def keepsI)
    qed
  qed
qed

lemma eventsrc_claim_found_keeps:
  assumes inv: "manager_inv cfg st" "refs_few st" and at: "device_at st (int i) = Some p"
    and d: "k_heap st p = Some d" "registered cfg p d" and j1: "j < CUDDLK_MAX_DEV_EVENTS"
    and e: "get_eventsrc st p (int j) = Some e"
  shows "keeps cfg st (eventsrc_claim_found env rt claim ed st (int i) (int j) p d)"
proof -
  note ok = manager_invD [OF inv(1)]
  obtain info where info: "fill_eventsrc_info rt (int i) (int j) d (ec_info ed) = Some info"
    "ei_token info = \<lparr>device_index = int i, resource_index = int j\<rparr>"
    by (rule fill_eventsrc_info_Some [OF d(2), where j = "int j" and rt = rt and i = "int i"
          and info = "ec_info ed"]) (use j1 in simp_all)
  obtain dret dst where decr0: "eventsrc_decr_ref_count p (int j) st = Some (dret, dst)"
    "manager_inv cfg dst" "k_shape dst = k_shape st" using event_decr_keeps [OF inv at e] .
  show ?thesis
  proof (cases claim)
    case False
    with info decr0 inv(1) show ?thesis by (simp add: eventsrc_claim_found_def Let_def keeps_same keepsI)
  next
    case claim: True
    let ?h = "ec_options ed AND CUDDL_EVENTSRC_CLAIMF_HOSTILE"
    have own: "uio_dev_owner st (ev_uio_ptr e) \<noteq> None" using registered_event_owner [OF d e] by simp
    from ev.claim_total [OF e own, of "mod_get_ok env" ?h] obtain ret st1 where
      c: "eventsrc_claim (mod_get_ok env) p (int j) ?h st = Some (ret, st1)" "ret = 0 \<or> ret = - EBUSY"
      by blast
    show ?thesis
    proof (cases "ret = 0")
      case False
      with ev.claim_effect(5) [OF c(1) e] have "st1 = st" by blast
      with False c claim inv(1) show ?thesis by (simp add: eventsrc_claim_found_def Let_def keeps_same)
    next
      case True
      note c0 = c(1) [unfolded True]
      note range = event_count_range [OF inv at e]
      obtain uret owner where undo: "eventsrc_decr_ref_count p (int j) st1 =
          Some (uret, unpin owner (pin (mod_get_ok env) owner st))"
        using ev.claim_undo [OF c0 e range(1)] range(2) by auto
      from ok(4) inv(2) have b: "counts_bounded eventsrc_count cuddlk_event_refs st"
        "refs_placed eventsrc_count (cuddlk_event_refs st) st" "length (cuddlk_event_refs st) < 2 ^ 31 - 1"
        by (simp_all add: refs_ok_def refs_few_def)
      have tok: "tok_at (int i) (int j) \<lparr>ref_token = ei_token info, ref_pid = ec_pid ed\<rparr>"
        by (simp add: tok_at_def info(2))
      note commit = ev.claim_commit [OF c0 e at ok(2) b tok]
      let ?st2 = "st1\<lparr>cuddlk_event_refs :=
        \<lparr>ref_token = ei_token info, ref_pid = ec_pid ed\<rparr> # cuddlk_event_refs st1\<rparr>"
      have "refs_ok ?st2" using event_other [of ?st2 st] commit ok(4) by simp
      then have "manager_inv cfg ?st2" using manager_inv_shape [OF inv(1)] commit by blast
      with c0 claim info undo commit manager_inv_undone [OF inv(1)] show ?thesis
        by (simp add: eventsrc_claim_found_def Let_def keepsI)
    qed
  qed
qed

lemma memregion_claim_case_keeps:
  "manager_inv cfg st \<Longrightarrow> refs_few st \<Longrightarrow> keeps cfg st (memregion_claim_case cfg env rt claim st)"
  unfolding memregion_claim_case_def
  by (intro keeps_user_data keeps_memregion memregion_claim_found_keeps)

lemma eventsrc_claim_case_keeps:
  "manager_inv cfg st \<Longrightarrow> refs_few st \<Longrightarrow> keeps cfg st (eventsrc_claim_case env rt claim st)"
  unfolding eventsrc_claim_case_def
  by (intro keeps_user_data keeps_eventsrc eventsrc_claim_found_keeps)

lemma memregion_release_case_keeps:
  assumes inv: "manager_inv cfg st" "refs_few st"
  shows "keeps cfg st (memregion_release_case env st)"
  unfolding memregion_release_case_def
proof (rule keeps_user_data [OF inv(1)], unfold Let_def, split if_split, intro conjI impI)
  fix md
  let ?i = "device_index (mrel_token md)" and ?j = "resource_index (mrel_token md)"
  let ?q = "ref_is ?i ?j (mrel_pid md)"
  assume i: "\<not> out_of_range ?i CUDDLK_MAX_MANAGED_DEVICES"
  note ok = manager_invD [OF inv(1)]
  show "keeps cfg st (with_entry st ?i (\<lambda>dev.
      if out_of_range ?j CUDDLK_MAX_DEV_MEM_REGIONS then Some (- EBADSLT, None, st)
      else do {
        (_, st) \<leftarrow> memregion_decr_ref_count dev ?j st;
        Some (0, None, st\<lparr>cuddlk_mem_refs := snd (delete_first ?q (cuddlk_mem_refs st))\<rparr>)
      }))"
  proof (rule keeps_entry [OF inv(1) i], split if_split, intro conjI impI)
    fix p d
    assume at: "device_at st ?i = Some p" and d: "k_heap st p = Some d" "registered cfg p d"
      and j: "\<not> out_of_range ?j CUDDLK_MAX_DEV_MEM_REGIONS"
    from j registered_memregion [OF d(2,1), of ?j] obtain m where m: "get_memregion st p ?j = Some m"
      by (auto simp: out_of_range_def)
    from mem.decr_total [OF m] registered_mem_owner [OF d m] obtain ret st' where
      r: "memregion_decr_ref_count p ?j st = Some (ret, st')" by auto
    from ok(4) inv(2) have b: "counts_bounded memregion_count cuddlk_mem_refs st"
      "refs_placed memregion_count (cuddlk_mem_refs st) st" "length (cuddlk_mem_refs st) < 2 ^ 31"
      by (simp_all add: refs_ok_def refs_few_def)
    have q: "tok_at ?i ?j x" if "?q x" for x using that by (simp add: ref_is_def tok_at_def)
    note eff = mem.decr_delete_step [OF r m at ok(2) b, of ?q, OF q]
    let ?st = "st'\<lparr>cuddlk_mem_refs := snd (delete_first ?q (cuddlk_mem_refs st'))\<rparr>"
    have "refs_ok ?st" using mem_other [of ?st st] eff ok(4) by simp
    then have "manager_inv cfg ?st" using manager_inv_shape [OF inv(1)] eff by blast
    with r eff show "keeps cfg st (do {
        (_, st) \<leftarrow> memregion_decr_ref_count p ?j st;
        Some (0, None, st\<lparr>cuddlk_mem_refs := snd (delete_first ?q (cuddlk_mem_refs st))\<rparr>)
      })" by (simp add: keepsI)
  qed (simp add: keeps_same inv)
qed (simp add: keeps_same inv)

lemma eventsrc_release_case_keeps:
  assumes inv: "manager_inv cfg st" "refs_few st"
  shows "keeps cfg st (eventsrc_release_case env st)"
  unfolding eventsrc_release_case_def
proof (rule keeps_user_data [OF inv(1)], unfold Let_def, split if_split, intro conjI impI)
  fix ed
  let ?i = "device_index (erel_token ed)" and ?j = "resource_index (erel_token ed)"
  let ?q = "ref_is ?i ?j (erel_pid ed)"
  assume i: "\<not> out_of_range ?i CUDDLK_MAX_MANAGED_DEVICES"
  note ok = manager_invD [OF inv(1)]
  show "keeps cfg st (with_entry st ?i (\<lambda>dev.
      if out_of_range ?j CUDDLK_MAX_DEV_EVENTS then Some (- EBADSLT, None, st)
      else do {
        (_, st) \<leftarrow> eventsrc_decr_ref_count dev ?j st;
        Some (0, None, st\<lparr>cuddlk_event_refs := snd (delete_first ?q (cuddlk_event_refs st))\<rparr>)
      }))"
  proof (rule keeps_entry [OF inv(1) i], split if_split, intro conjI impI)
    fix p d
    assume at: "device_at st ?i = Some p" and d: "k_heap st p = Some d" "registered cfg p d"
      and j: "\<not> out_of_range ?j CUDDLK_MAX_DEV_EVENTS"
    from j registered_eventsrc [OF d(2,1), of ?j] obtain e where e: "get_eventsrc st p ?j = Some e"
      by (auto simp: out_of_range_def)
    from ev.decr_total [OF e] registered_event_owner [OF d e] obtain ret st' where
      r: "eventsrc_decr_ref_count p ?j st = Some (ret, st')" by auto
    from ok(4) inv(2) have b: "counts_bounded eventsrc_count cuddlk_event_refs st"
      "refs_placed eventsrc_count (cuddlk_event_refs st) st" "length (cuddlk_event_refs st) < 2 ^ 31"
      by (simp_all add: refs_ok_def refs_few_def)
    have q: "tok_at ?i ?j x" if "?q x" for x using that by (simp add: ref_is_def tok_at_def)
    note eff = ev.decr_delete_step [OF r e at ok(2) b, of ?q, OF q]
    let ?st = "st'\<lparr>cuddlk_event_refs := snd (delete_first ?q (cuddlk_event_refs st'))\<rparr>"
    have "refs_ok ?st" using event_other [of ?st st] eff ok(4) by simp
    then have "manager_inv cfg ?st" using manager_inv_shape [OF inv(1)] eff by blast
    with r eff show "keeps cfg st (do {
        (_, st) \<leftarrow> eventsrc_decr_ref_count p ?j st;
        Some (0, None, st\<lparr>cuddlk_event_refs := snd (delete_first ?q (cuddlk_event_refs st))\<rparr>)
      })" by (simp add: keepsI)
  qed (simp add: keeps_same inv)
qed (simp add: keeps_same inv)

lemma constant_case_keeps: "manager_inv cfg st \<Longrightarrow> keeps cfg st (constant_case env n st)"
  unfolding constant_case_def by (intro keeps_user_data keeps_same)

lemma memcpy_name_Some: "s \<noteq> None \<Longrightarrow> \<exists>t. memcpy_name env s = Some t"
  by (auto simp: memcpy_name_def)

lemma fill_resource_id_Some:
  assumes "registered cfg p d" "r \<noteq> None"
  shows "\<exists>rid'. fill_resource_id env d r rid = Some rid'"
proof -
  from assms(1) have "d_group d \<noteq> None" "d_name d \<noteq> None" by (simp_all add: registered_def device_named_def)
  then obtain a b c where "memcpy_name env (d_group d) = Some a" "memcpy_name env (d_name d) = Some b"
    "memcpy_name env r = Some c" using memcpy_name_Some assms(2) by metis
  then show ?thesis by (simp add: fill_resource_id_def)
qed

lemma registered_arr_get:
  assumes "registered cfg p d"
  shows "\<not> out_of_range j CUDDLK_MAX_DEV_MEM_REGIONS \<Longrightarrow>
      arr_get (d_mem d) j = Some (d_mem d ! nat j) \<and> d_mem d ! nat j \<in> set (d_mem d)"
    "\<not> out_of_range j CUDDLK_MAX_DEV_EVENTS \<Longrightarrow>
      arr_get (d_events d) j = Some (d_events d ! nat j) \<and> d_events d ! nat j \<in> set (d_events d)"
  using assms by (auto simp: out_of_range_def registered_def device_named_def intro!: nth_mem)

lemma memregion_id_case_keeps:
  assumes inv: "manager_inv cfg st" "all_named cfg st"
  shows "keeps cfg st (memregion_id_case cfg env st)"
  unfolding memregion_id_case_def
proof (rule keeps_user_data [OF inv(1)], unfold Let_def, split if_split, intro conjI impI, simp add: keeps_same inv,
    split if_split, intro conjI impI, simp add: keeps_same inv, rule keeps_entry [OF inv(1)], assumption)
  fix gd :: cuddlci_get_resource_id_ioctl_data and p d
  assume j: "\<not> out_of_range (gi_resource_slot gd) CUDDLK_MAX_DEV_MEM_REGIONS"
    and at: "device_at st (gi_device_slot gd) = Some p" and d: "k_heap st p = Some d" "registered cfg p d"
  let ?m = "d_mem d ! nat (gi_resource_slot gd)"
  note g = registered_arr_get(1) [OF d(2) j]
  have "mr_type ?m \<noteq> memt_none cfg \<Longrightarrow> mr_name ?m \<noteq> None"
    using inv(2) at d(1) g by (auto simp: all_named_def resources_named_def)
  with fill_resource_id_Some [OF d(2), of "mr_name ?m" env "gi_id gd"] g d(1)
  show "keeps cfg st (do {
      d \<leftarrow> k_heap st p;
      m \<leftarrow> arr_get (d_mem d) (gi_resource_slot gd);
      if mr_type m = memt_none cfg then Some (- EINVAL, None, st)
      else do {
        rid \<leftarrow> fill_resource_id env d (mr_name m) (gi_id gd);
        copy_result env (Get_Id_Data (gd\<lparr>gi_id := rid\<rparr>)) st
      }
    })" by (auto simp: keeps_same keeps_copy_result inv)
qed

lemma eventsrc_id_case_keeps:
  assumes inv: "manager_inv cfg st" "all_named cfg st"
  shows "keeps cfg st (eventsrc_id_case cfg env st)"
  unfolding eventsrc_id_case_def
proof (rule keeps_user_data [OF inv(1)], unfold Let_def, split if_split, intro conjI impI, simp add: keeps_same inv,
    split if_split, intro conjI impI, simp add: keeps_same inv, rule keeps_entry [OF inv(1)], assumption)
  fix gd :: cuddlci_get_resource_id_ioctl_data and p d
  assume j: "\<not> out_of_range (gi_resource_slot gd) CUDDLK_MAX_DEV_EVENTS"
    and at: "device_at st (gi_device_slot gd) = Some p" and d: "k_heap st p = Some d" "registered cfg p d"
  let ?e = "d_events d ! nat (gi_resource_slot gd)"
  note g = registered_arr_get(2) [OF d(2) j]
  have "intr_irq (ev_intr ?e) \<noteq> irq_none cfg \<Longrightarrow> ev_name ?e \<noteq> None"
    using inv(2) at d(1) g by (auto simp: all_named_def resources_named_def)
  with fill_resource_id_Some [OF d(2), of "ev_name ?e" env "gi_id gd"] g d(1)
  show "keeps cfg st (do {
      d \<leftarrow> k_heap st p;
      e \<leftarrow> arr_get (d_events d) (gi_resource_slot gd);
      if intr_irq (ev_intr e) = irq_none cfg then Some (- EINVAL, None, st)
      else do {
        rid \<leftarrow> fill_resource_id env d (ev_name e) (gi_id gd);
        copy_result env (Get_Id_Data (gd\<lparr>gi_id := rid\<rparr>)) st
      }
    })" by (auto simp: keeps_same keeps_copy_result inv)
qed

lemma memregion_ref_count_case_keeps:
  assumes inv: "manager_inv cfg st" "refs_few st"
  shows "keeps cfg st (memregion_ref_count_case env decrement st)"
  unfolding memregion_ref_count_case_def
proof (intro keeps_user_data [OF inv(1)] keeps_memregion [OF inv(1)])
  fix i j p d m
  assume at: "device_at st (int i) = Some p" and m: "get_memregion st p (int j) = Some m"
  obtain ret st' where "memregion_decr_ref_count p (int j) st = Some (ret, st')"
    "manager_inv cfg st'" "k_shape st' = k_shape st" using mem_decr_keeps [OF inv at m] .
  with m inv(1) show "keeps cfg st (if decrement
      then do { (ret, st) \<leftarrow> memregion_decr_ref_count p (int j) st; Some (ret, None, st) }
      else do { m \<leftarrow> get_memregion st p (int j); Some (mr_ref_count m, None, st) })"
    by (simp add: keepsI keeps_same)
qed

lemma eventsrc_ref_count_case_keeps:
  assumes inv: "manager_inv cfg st" "refs_few st"
  shows "keeps cfg st (eventsrc_ref_count_case env decrement st)"
  unfolding eventsrc_ref_count_case_def
proof (intro keeps_user_data [OF inv(1)] keeps_eventsrc [OF inv(1)])
  fix i j p d e
  assume at: "device_at st (int i) = Some p" and e: "get_eventsrc st p (int j) = Some e"
  obtain ret st' where "eventsrc_decr_ref_count p (int j) st = Some (ret, st')"
    "manager_inv cfg st'" "k_shape st' = k_shape st" using event_decr_keeps [OF inv at e] .
  with e inv(1) show "keeps cfg st (if decrement
      then do { (ret, st) \<leftarrow> eventsrc_decr_ref_count p (int j) st; Some (ret, None, st) }
      else do { e \<leftarrow> get_eventsrc st p (int j); Some (ev_ref_count e, None, st) })"
    by (simp add: keepsI keeps_same)
qed

lemma text_cases_keep:
  assumes inv: "manager_inv cfg st"
  shows "keeps cfg st (commit_id_case cfg env st)" "keeps cfg st (variant_case cfg env st)"
    "keeps cfg st (device_text_case env device_text st)"
proof -
  show "keeps cfg st (commit_id_case cfg env st)" "keeps cfg st (variant_case cfg env st)"
    unfolding commit_id_case_def variant_case_def Let_def
    by (intro keeps_user_data keeps_copy_result inv)+
  show "keeps cfg st (device_text_case env device_text st)"
    unfolding device_text_case_def Let_def
    by (rule keeps_user_data [OF inv], split if_split, intro conjI impI)
      (auto intro!: keeps_entry keeps_copy_result keeps_same inv)
qed

lemma is_enabled_case_keeps:
  assumes inv: "manager_inv cfg st"
  shows "keeps cfg st (is_enabled_case env st)"
  unfolding is_enabled_case_def Let_def
proof (rule keeps_user_data [OF inv], split if_split, intro conjI impI, simp add: keeps_same inv,
    rule keeps_entry [OF inv], assumption, split if_split, intro conjI impI, simp add: keeps_same inv)
  fix ie p d
  assume d: "k_heap st p = Some d" "registered cfg p d"
    and j: "\<not> out_of_range (resource_index (ie_token ie)) CUDDLK_MAX_DEV_EVENTS"
  from j registered_eventsrc [OF d(2,1)] obtain e where
    "get_eventsrc st p (resource_index (ie_token ie)) = Some e" by (auto simp: out_of_range_def)
  then show "keeps cfg st (do {
      e \<leftarrow> get_eventsrc st p (resource_index (ie_token ie));
      case intr_is_enabled (ev_intr e) of
        None \<Rightarrow> Some (- EINVAL, None, st)
      | Some f \<Rightarrow> Some (driver_ret env f, None, st)
    })" by (auto intro: keeps_same inv split: option.splits)
qed

theorem manager_command_keeps:
  assumes "manager_inv cfg st" "refs_few st" "all_named cfg st"
  shows "keeps cfg st (manager_command cfg env cmd st)"
  using assms
  by (cases cmd) (simp_all add: manager_command_def driver_info_case_def hw_info_case_def keeps_same
      memregion_claim_case_keeps eventsrc_claim_case_keeps memregion_release_case_keeps
      eventsrc_release_case_keeps constant_case_keeps memregion_id_case_keeps eventsrc_id_case_keeps
      memregion_ref_count_case_keeps eventsrc_ref_count_case_keeps text_cases_keep is_enabled_case_keeps)

lemma manager_inv_mutex [simp]: "manager_inv cfg (set_mutex b st) = manager_inv cfg st"
proof -
  have at: "device_at (set_mutex b st) = device_at st" by (simp add: device_at_def fun_eq_iff)
  have "devices_registered cfg (set_mutex b st) = devices_registered cfg st"
    by (simp add: devices_registered_def at)
  moreover have "memregion_count (set_mutex b st) = memregion_count st"
    "eventsrc_count (set_mutex b st) = eventsrc_count st"
    by (simp_all add: memregion_count_def eventsrc_count_def get_memregion_def get_eventsrc_def fun_eq_iff)
  ultimately show ?thesis
    by (simp add: manager_inv_def refs_ok_def counts_bounded_def refs_placed_def at)
qed

lemma all_named_mutex [simp]: "all_named cfg (set_mutex b st) = all_named cfg st"
  by (simp add: all_named_def device_at_def)

lemma refs_few_mutex [simp]: "refs_few (set_mutex b st) = refs_few st"
  by (simp add: refs_few_def)

lemma k_shape_mutex: "k_shape st' = k_shape (set_mutex b st) \<Longrightarrow> \<not> k_locked st \<Longrightarrow>
    k_shape (set_mutex False st') = k_shape st"
  by (simp add: k_shape_def set_mutex_def)

text \<open>The handler as a whole.\<close>

lemma manager_ioctl_keeps:
  assumes "manager_inv cfg st" "refs_few st" "all_named cfg st" "\<not> k_locked st"
  obtains ret out st' where "cuddlk_manager_ioctl cfg env cmd st = Some (ret, out, st')"
    "manager_inv cfg st'" "k_shape st' = k_shape st"
proof (cases "alloc_buffers (kz_ok env) [] [0..<10]")
  case (Inl freed)
  with assms(1) that show ?thesis by (simp add: cuddlk_manager_ioctl_def)
next
  case (Inr held)
  from manager_command_keeps [of cfg "set_mutex True st" env cmd] assms obtain ret out st1 where
    c: "manager_command cfg env cmd (set_mutex True st) = Some (ret, out, st1)"
    "manager_inv cfg st1" "k_shape st1 = k_shape (set_mutex True st)" by (auto simp: keeps_def)
  have "k_locked st1" using k_shape_table [OF c(3)] by simp
  with Inr assms(4) c(1) have
    "cuddlk_manager_ioctl cfg env cmd st = Some (ret, out, set_mutex False st1)"
    by (simp add: cuddlk_manager_ioctl_def)
  from that [OF this] c(2) k_shape_mutex [OF c(3) assms(4)] show ?thesis by simp
qed

end
