(* ===== verification/Ioctl_Semantics.thy ===== *)
theory Ioctl_Semantics
  imports Ioctl_Safety
begin

section \<open>What the IOCTLs mean\<close>

text \<open>
  The abstract view of the manager is a table of holders: for every resource, the
  processes that hold a claim, one entry per claim. Claiming, releasing and the clean-up
  after a process are specified on that table, and the code's operations are shown to
  implement them as long as the reference counts are exact. The theorems at the end
  describe the cases in which the code leaves that regime.
\<close>

subsection \<open>Holders and their specification\<close>

type_synonym holders = "c_int \<Rightarrow> c_int \<Rightarrow> pid_t list"

definition holders_of :: "cuddlk_resource_ref list \<Rightarrow> holders" where
  "holders_of l i j = map ref_pid (filter (tok_at i j) l)"

definition mem_holders :: "kstate \<Rightarrow> holders" where
  "mem_holders st = holders_of (cuddlk_mem_refs st)"

definition event_holders :: "kstate \<Rightarrow> holders" where
  "event_holders st = holders_of (cuddlk_event_refs st)"

definition spec_claim :: "bool \<Rightarrow> bool \<Rightarrow> pid_t \<Rightarrow> pid_t list \<Rightarrow> c_int \<times> pid_t list" where
  "spec_claim shared hostile pid hs =
     (if hs \<noteq> [] \<and> \<not> shared \<and> \<not> hostile then (- EBUSY, hs) else (0, pid # hs))"

definition set_holders :: "c_int \<Rightarrow> c_int \<Rightarrow> pid_t list \<Rightarrow> holders \<Rightarrow> holders" where
  "set_holders i j hs h = (\<lambda>i' j'. if i' = i \<and> j' = j then hs else h i' j')"

text \<open>Exact counts, for both kinds.\<close>

definition refs_exact :: "kstate \<Rightarrow> bool" where
  "refs_exact st \<longleftrightarrow> counts_exact memregion_count cuddlk_mem_refs st \<and>
     counts_exact eventsrc_count cuddlk_event_refs st"

lemma length_holders_of: "length (holders_of l i j) = count_where (tok_at i j) l"
  by (simp add: holders_of_def count_where_def)

lemma holders_of_Cons:
  "tok_at i j x \<Longrightarrow> holders_of (x # l) = set_holders i j (ref_pid x # holders_of l i j) (holders_of l)"
  by (intro ext) (auto simp: holders_of_def set_holders_def tok_at_def)

lemma holders_of_release:
  "holders_of (snd (delete_first (ref_is i j pid) l)) =
     set_holders i j (remove1 pid (holders_of l i j)) (holders_of l)"
proof (intro ext)
  fix i' j'
  show "holders_of (snd (delete_first (ref_is i j pid) l)) i' j' =
      set_holders i j (remove1 pid (holders_of l i j)) (holders_of l) i' j'"
  proof (induction l)
    case Nil
    then show ?case by (simp add: holders_of_def set_holders_def)
  next
    case (Cons x l)
    show ?case
    proof (cases "ref_is i j pid x")
      case True
      then show ?thesis by (auto simp: holders_of_def set_holders_def ref_is_def tok_at_def)
    next
      case False
      then have "tok_at i j x \<Longrightarrow> ref_pid x \<noteq> pid" by (auto simp: ref_is_def tok_at_def)
      with False Cons.IH show ?thesis
        by (auto simp: holders_of_def set_holders_def split: prod.splits)
    qed
  qed
qed

lemma holders_of_free:
  "holders_of (filter (\<lambda>x. ref_pid x \<noteq> pid) l) = (\<lambda>i j. filter (\<lambda>q. q \<noteq> pid) (holders_of l i j))"
  by (intro ext) (simp add: holders_of_def filter_map comp_def conj_commute)

lemma holder_ref:
  "pid \<in> set (holders_of l i j) \<longleftrightarrow> (\<exists>x \<in> set l. ref_is i j pid x)"
  by (auto simp: holders_of_def ref_is_def tok_at_def)

subsection \<open>The protocol implements the specification\<close>

context ref_counted
begin

lemma exact_count:
  assumes "counts_exact cnt refs st" "device_at st i = Some p" "get st p j = Some r"
  shows "count r = int (length (holders_of (refs st) i j))"
  using counts_exactD [OF assms(1,2), of j "count r"] assms(3) by (simp add: cnt_get length_holders_of)

lemma claim_refines:
  assumes b: "counts_exact cnt refs st" and r: "get st p j = Some r" and p: "device_at st i = Some p"
    and own: "uio_dev_owner st (uio_ptr r) \<noteq> None" and d: "occupied_distinct (k_table st)"
    and len: "length (refs st) < 2 ^ 31 - 1" and x: "tok_at i j x"
  obtains (busy) "claim ok p j hostile st = Some (- EBUSY, st)"
      "fst (spec_claim (shared r) (hostile \<noteq> 0) (ref_pid x) (holders_of (refs st) i j)) = - EBUSY"
    | (granted) st' where "claim ok p j hostile st = Some (0, st')"
      "fst (spec_claim (shared r) (hostile \<noteq> 0) (ref_pid x) (holders_of (refs st) i j)) = 0"
      "counts_exact cnt refs (put_refs (x # refs st') st')" "refs st' = refs st" "other st' = other st"
      "k_shape st' = k_shape st"
proof -
  note c = exact_count [OF b p r]
  show ?thesis
  proof (cases "0 < count r \<and> \<not> shared r \<and> hostile = 0")
    case True
    with claim_busy [OF r] c show ?thesis by (intro busy) (auto simp: spec_claim_def)
  next
    case False
    from own obtain owner where o: "uio_dev_owner st (uio_ptr r) = Some owner" by auto
    from False have cond: "count r \<le> 0 \<or> shared r \<or> hostile \<noteq> 0" by linarith
    note g = claim_granted [OF r cond o, of ok]
    from False c have "fst (spec_claim (shared r) (hostile \<noteq> 0) (ref_pid x) (holders_of (refs st) i j)) = 0"
      by (auto simp: spec_claim_def)
    from granted [OF g this claim_add_exact [OF g r p d b len x] claim_effect(2,3,1) [OF g r]]
    show ?thesis .
  qed
qed

lemma release_refines:
  assumes b: "counts_exact cnt refs st" and r: "get st p j = Some r" and p: "device_at st i = Some p"
    and own: "uio_dev_owner st (uio_ptr r) \<noteq> None" and d: "occupied_distinct (k_table st)"
    and len: "length (refs st) < 2 ^ 31" and holds: "pid \<in> set (holders_of (refs st) i j)"
  obtains st' where "decr p j st = Some (0, st')" "refs st' = refs st" "other st' = other st"
    "counts_exact cnt refs (put_refs (snd (delete_first (ref_is i j pid) (refs st'))) st')"
    "k_shape st' = k_shape st"
proof -
  note c = exact_count [OF b p r]
  have "length (holders_of (refs st) i j) \<le> length (refs st)"
    by (simp add: length_holders_of count_where_le_length)
  with c len have range: "count r < 2 ^ 31" "0 \<le> count r" by simp_all
  from holds c have nz: "count r \<noteq> 0" by auto
  from decr_total [OF r own] obtain ret st' where s: "decr p j st = Some (ret, st')" by blast
  note eff = decr_effect [OF s r range(2,1)]
  from holds obtain y where y: "y \<in> set (refs st)" "ref_is i j pid y" by (auto simp: holder_ref)
  have q: "\<And>x. ref_is i j pid x \<Longrightarrow> tok_at i j x" by (simp add: ref_is_def tok_at_def)
  from decr_delete_exact [OF s r p d b range(1), where q = "ref_is i j pid", OF q y] eff s nz that
  show ?thesis by simp
qed

text \<open>A decrement by somebody who holds nothing: the count drops, the references stay.\<close>

lemma stray_decrement:
  assumes b: "counts_exact cnt refs st" and r: "get st p j = Some r" and p: "device_at st i = Some p"
    and own: "uio_dev_owner st (uio_ptr r) \<noteq> None" and held: "length (holders_of (refs st) i j) = 1"
  obtains st' where "decr p j st = Some (0, st')" "refs st' = refs st" "k_shape st' = k_shape st"
    "get st' p j = Some (with_count 0 r)" "other st' = other st"
proof -
  note c = exact_count [OF b p r]
  from c held have one: "count r = 1" by simp
  from decr_total [OF r own] obtain ret st' where s: "decr p j st = Some (ret, st')" by blast
  from decr_effect [OF s r] one s that show ?thesis by simp
qed

end

subsection \<open>Calls that meet no obstacle\<close>

definition all_succeed :: "ioctl_env \<Rightarrow> bool" where
  "all_succeed env \<longleftrightarrow> (\<forall>n < 10. kz_ok env n) \<and> ref_kz_ok env \<and> ctu_ok env"

lemma alloc_buffers_ok: "(\<And>n. n \<in> set l \<Longrightarrow> ok n) \<Longrightarrow> alloc_buffers ok held l = Inr (rev l @ held)"
  by (induction l arbitrary: held) auto

lemma alloc_all: "\<forall>n < 10. kz_ok env n \<Longrightarrow> \<exists>held. alloc_buffers (kz_ok env) [] [0..<10] = Inr held"
  using alloc_buffers_ok [of "[0..<10]" "kz_ok env" "[]"] by auto

lemma ioctl_runs_command:
  assumes "\<forall>n < 10. kz_ok env n" "\<not> k_locked st"
    and "manager_command cfg env cmd (set_mutex True st) = Some (ret, out, st')" "k_locked st'"
  shows "cuddlk_manager_ioctl cfg env cmd st = Some (ret, out, set_mutex False st')"
  using assms alloc_all [OF assms(1)] by (auto simp: cuddlk_manager_ioctl_def)

lemma with_user_data_ok [simp]:
  "copied = Some data \<Longrightarrow> version_code_is_compat (vc data) \<Longrightarrow> with_user_data copied vc st body = body data"
  by (simp add: with_user_data_def)

text \<open>The mutex is invisible to counts, references and searches.\<close>

lemma device_at_mutex [simp]: "device_at (set_mutex b st) = device_at st"
  by (simp add: device_at_def fun_eq_iff)

lemma get_mutex [simp]:
  "get_memregion (set_mutex b st) = get_memregion st" "get_eventsrc (set_mutex b st) = get_eventsrc st"
  by (simp_all add: get_memregion_def get_eventsrc_def fun_eq_iff)

lemma count_mutex [simp]:
  "memregion_count (set_mutex b st) = memregion_count st" "eventsrc_count (set_mutex b st) = eventsrc_count st"
  by (simp_all add: memregion_count_def eventsrc_count_def fun_eq_iff)

lemma exact_mutex [simp]: "refs_exact (set_mutex b st) = refs_exact st"
  by (simp add: refs_exact_def counts_exact_def)

lemma holders_mutex [simp]:
  "mem_holders (set_mutex b st) = mem_holders st" "event_holders (set_mutex b st) = event_holders st"
  by (simp_all add: mem_holders_def event_holders_def)

lemma lookup_mutex [simp]:
  "lookup_memregion (set_mutex b st) rid = lookup_memregion st rid"
  "lookup_eventsrc (set_mutex b st) rid = lookup_eventsrc st rid"
proof -
  have m: "managed_device (set_mutex b st) = managed_device st"
    by (simp add: managed_device_def fun_eq_iff)
  have "matching_slot (set_mutex b st) = matching_slot st"
    unfolding matching_slot_def slot_matches_def m ..
  then show "lookup_memregion (set_mutex b st) rid = lookup_memregion st rid"
    "lookup_eventsrc (set_mutex b st) rid = lookup_eventsrc st rid"
    by (simp_all add: lookup_memregion_def lookup_eventsrc_def m)
qed

lemma exact_other_kind:
  assumes "k_shape st' = k_shape st"
  shows "(get_eventsrc st', cuddlk_event_refs st') = (get_eventsrc st, cuddlk_event_refs st) \<Longrightarrow>
      counts_exact eventsrc_count cuddlk_event_refs st' = counts_exact eventsrc_count cuddlk_event_refs st"
    "(get_memregion st', cuddlk_mem_refs st') = (get_memregion st, cuddlk_mem_refs st) \<Longrightarrow>
      counts_exact memregion_count cuddlk_mem_refs st' = counts_exact memregion_count cuddlk_mem_refs st"
  using k_shape_device_at [OF assms]
  by (simp_all add: counts_exact_def eventsrc_count_def memregion_count_def)

subsection \<open>Claims\<close>

text \<open>
  The answer of the table to a claim: nothing found, or the specification applied to the
  resource that was found.
\<close>

definition mem_claim_meets ::
  "kstate \<Rightarrow> cuddlci_memregion_claim_ioctl_data \<Rightarrow> c_int \<Rightarrow> ioctl_payload option \<Rightarrow> kstate \<Rightarrow> bool" where
  "mem_claim_meets st md ret out st' \<longleftrightarrow>
     (case lookup_memregion st (mc_id md) of
        None \<Rightarrow> ret = - ENXIO \<and> out = None \<and> mem_holders st' = mem_holders st
      | Some (i, j, m) \<Rightarrow>
          (let (ret', hs) = spec_claim (has_flag (mr_flags m) CUDDLK_MEMF_SHARED)
                 (has_flag (mc_options md) CUDDL_MEM_CLAIMF_HOSTILE) (mc_pid md)
                 (mem_holders st (int i) (int j))
           in ret = ret' \<and> mem_holders st' = set_holders (int i) (int j) hs (mem_holders st) \<and>
              (ret = 0 \<longrightarrow> (\<exists>md'. out = Some (Mem_Claim_Data md') \<and>
                 mi_token (mc_info md') = \<lparr>device_index = int i, resource_index = int j\<rparr> \<and>
                 mi_len (mc_info md') = mr_len m))))"

definition event_claim_meets ::
  "kstate \<Rightarrow> cuddlci_eventsrc_claim_ioctl_data \<Rightarrow> c_int \<Rightarrow> ioctl_payload option \<Rightarrow> kstate \<Rightarrow> bool" where
  "event_claim_meets st ed ret out st' \<longleftrightarrow>
     (case lookup_eventsrc st (ec_id ed) of
        None \<Rightarrow> ret = - ENXIO \<and> out = None \<and> event_holders st' = event_holders st
      | Some (i, j, e) \<Rightarrow>
          (let (ret', hs) = spec_claim (has_flag (ev_flags e) CUDDLK_EVENTSRCF_SHARED)
                 (has_flag (ec_options ed) CUDDL_EVENTSRC_CLAIMF_HOSTILE) (ec_pid ed)
                 (event_holders st (int i) (int j))
           in ret = ret' \<and> event_holders st' = set_holders (int i) (int j) hs (event_holders st) \<and>
              (ret = 0 \<longrightarrow> (\<exists>ed'. out = Some (Event_Claim_Data ed') \<and>
                 ei_token (ec_info ed') = \<lparr>device_index = int i, resource_index = int j\<rparr> \<and>
                 ei_flags (ec_info ed') = eventsrc_info_flags e))))"

lemma set_holders_same: "set_holders i j (h i j) h = h"
  by (auto simp: set_holders_def fun_eq_iff)

lemma spec_claim_snd:
  "fst (spec_claim sh ho pid hs) = - EBUSY \<Longrightarrow> spec_claim sh ho pid hs = (- EBUSY, hs)"
  "fst (spec_claim sh ho pid hs) = 0 \<Longrightarrow> spec_claim sh ho pid hs = (0, pid # hs)"
  by (auto simp: spec_claim_def split: if_splits)

lemma fill_memregion_info_len:
  "fill_memregion_info cfg rt i (int j) d info = Some info' \<Longrightarrow> mi_len info' = mr_len (d_mem d ! j)"
  by (cases info) (auto simp: fill_memregion_info_def bind_eq_Some_conv dest: arr_get_SomeD)

lemma fill_eventsrc_info_flags:
  "fill_eventsrc_info rt i (int j) d info = Some info' \<Longrightarrow> ei_flags info' = eventsrc_info_flags (d_events d ! j)"
  by (cases info) (auto simp: fill_eventsrc_info_def bind_eq_Some_conv dest: arr_get_SomeD)

lemma memregion_claim_case_meets:
  assumes inv: "manager_inv cfg st" "refs_few st" "refs_exact st" and env: "ref_kz_ok env" "ctu_ok env"
    and md: "cfu_mem_claim env = Some md" "version_code_is_compat (mc_version_code md)"
  obtains ret out st' where "memregion_claim_case cfg env rt True st = Some (ret, out, st')"
    "mem_claim_meets st md ret out st'" "refs_exact st'" "event_holders st' = event_holders st"
    "k_shape st' = k_shape st" "cuddlk_event_refs st' = cuddlk_event_refs st"
    "length (cuddlk_mem_refs st') \<le> Suc (length (cuddlk_mem_refs st))"
  using inv(1)
proof (cases rule: with_memregion_cases [of cfg st "mc_id md"])
  case none
  then have "memregion_claim_case cfg env rt True st = Some (- ENXIO, None, st)"
    using md by (simp add: memregion_claim_case_def)
  from that [OF this] none(1) inv(3) show ?thesis by (simp add: mem_claim_meets_def)
next
  case (some i j p d)
  let ?m = "d_mem d ! j" and ?h = "mc_options md AND CUDDL_MEM_CLAIMF_HOSTILE"
  note ok = manager_invD [OF inv(1)]
  have h: "has_flag (mc_options md) CUDDL_MEM_CLAIMF_HOSTILE = (?h \<noteq> 0)" by (simp add: has_flag_def)
  obtain info where info: "fill_memregion_info cfg rt (int i) (int j) d (mc_info md) = Some info"
    "mi_token info = \<lparr>device_index = int i, resource_index = int j\<rparr>"
    by (rule fill_memregion_info_Some [OF some(5), where j = "int j" and rt = rt and i = "int i"
          and info = "mc_info md"]) (use some(6) in simp_all)
  let ?x = "\<lparr>ref_token = mi_token info, ref_pid = mc_pid md\<rparr>"
  have x: "tok_at (int i) (int j) ?x" by (simp add: tok_at_def info(2))
  have own: "uio_dev_owner st (mr_uio_ptr ?m) \<noteq> None" using registered_mem_owner [OF some(4,5,7)] by simp
  from inv(2,3) have ex: "counts_exact memregion_count cuddlk_mem_refs st" "length (cuddlk_mem_refs st) < 2 ^ 31 - 1"
    by (simp_all add: refs_exact_def refs_few_def)
  have run: "memregion_claim_case cfg env rt True st =
      memregion_claim_found cfg env rt True md st (int i) (int j) p d"
    using md some(2) by (simp add: memregion_claim_case_def)
  show ?thesis
  proof (cases rule: mem.claim_refines [OF ex(1) some(7,3) own ok(2) ex(2) x, of "mod_get_ok env" ?h])
    case 1
    then have "memregion_claim_case cfg env rt True st = Some (- EBUSY, None, st)"
      by (simp add: run memregion_claim_found_def)
    from that [OF this] 1(2) some(1) inv(3) show ?thesis
      by (simp add: mem_claim_meets_def h mem_holders_def spec_claim_snd(1) set_holders_same)
  next
    case (2 st1)
    let ?st = "st1\<lparr>cuddlk_mem_refs := ?x # cuddlk_mem_refs st1\<rparr>"
    have r: "memregion_claim_case cfg env rt True st =
        Some (0, Some (Mem_Claim_Data (md\<lparr>mc_info := info\<rparr>)), ?st)"
      using 2(1) env info(1) by (simp add: run memregion_claim_found_def Let_def)
    have sh: "k_shape ?st = k_shape st" using 2(6) by simp
    have "mem_claim_meets st md 0 (Some (Mem_Claim_Data (md\<lparr>mc_info := info\<rparr>))) ?st"
      using 2(2,4) some(1) info(2) x fill_memregion_info_len [OF info(1)]
      by (simp add: mem_claim_meets_def h mem_holders_def spec_claim_snd(2) holders_of_Cons)
    moreover have "refs_exact ?st"
      using 2(3,5) inv(3) exact_other_kind(1) [OF sh] by (simp add: refs_exact_def)
    moreover have "event_holders ?st = event_holders st" using 2(5) by (simp add: event_holders_def)
    moreover have "cuddlk_event_refs ?st = cuddlk_event_refs st"
      "length (cuddlk_mem_refs ?st) \<le> Suc (length (cuddlk_mem_refs st))" using 2(4,5) by simp_all
    ultimately show ?thesis using that [OF r] sh by blast
  qed
qed

lemma eventsrc_claim_case_meets:
  assumes inv: "manager_inv cfg st" "refs_few st" "refs_exact st" and env: "ref_kz_ok env" "ctu_ok env"
    and ed: "cfu_event_claim env = Some ed" "version_code_is_compat (ec_version_code ed)"
  obtains ret out st' where "eventsrc_claim_case env rt True st = Some (ret, out, st')"
    "event_claim_meets st ed ret out st'" "refs_exact st'" "mem_holders st' = mem_holders st"
    "k_shape st' = k_shape st" "cuddlk_mem_refs st' = cuddlk_mem_refs st"
    "length (cuddlk_event_refs st') \<le> Suc (length (cuddlk_event_refs st))"
  using inv(1)
proof (cases rule: with_eventsrc_cases [of cfg st "ec_id ed"])
  case none
  then have "eventsrc_claim_case env rt True st = Some (- ENXIO, None, st)"
    using ed by (simp add: eventsrc_claim_case_def)
  from that [OF this] none(1) inv(3) show ?thesis by (simp add: event_claim_meets_def)
next
  case (some i j p d)
  let ?e = "d_events d ! j" and ?h = "ec_options ed AND CUDDL_EVENTSRC_CLAIMF_HOSTILE"
  note ok = manager_invD [OF inv(1)]
  have h: "has_flag (ec_options ed) CUDDL_EVENTSRC_CLAIMF_HOSTILE = (?h \<noteq> 0)" by (simp add: has_flag_def)
  obtain info where info: "fill_eventsrc_info rt (int i) (int j) d (ec_info ed) = Some info"
    "ei_token info = \<lparr>device_index = int i, resource_index = int j\<rparr>"
    by (rule fill_eventsrc_info_Some [OF some(5), where j = "int j" and rt = rt and i = "int i"
          and info = "ec_info ed"]) (use some(6) in simp_all)
  let ?x = "\<lparr>ref_token = ei_token info, ref_pid = ec_pid ed\<rparr>"
  have x: "tok_at (int i) (int j) ?x" by (simp add: tok_at_def info(2))
  have own: "uio_dev_owner st (ev_uio_ptr ?e) \<noteq> None" using registered_event_owner [OF some(4,5,7)] by simp
  from inv(2,3) have ex: "counts_exact eventsrc_count cuddlk_event_refs st" "length (cuddlk_event_refs st) < 2 ^ 31 - 1"
    by (simp_all add: refs_exact_def refs_few_def)
  have run: "eventsrc_claim_case env rt True st =
      eventsrc_claim_found env rt True ed st (int i) (int j) p d"
    using ed some(2) by (simp add: eventsrc_claim_case_def)
  show ?thesis
  proof (cases rule: ev.claim_refines [OF ex(1) some(7,3) own ok(2) ex(2) x, of "mod_get_ok env" ?h])
    case 1
    then have "eventsrc_claim_case env rt True st = Some (- EBUSY, None, st)"
      by (simp add: run eventsrc_claim_found_def)
    from that [OF this] 1(2) some(1) inv(3) show ?thesis
      by (simp add: event_claim_meets_def h event_holders_def spec_claim_snd(1) set_holders_same)
  next
    case (2 st1)
    let ?st = "st1\<lparr>cuddlk_event_refs := ?x # cuddlk_event_refs st1\<rparr>"
    have r: "eventsrc_claim_case env rt True st =
        Some (0, Some (Event_Claim_Data (ed\<lparr>ec_info := info\<rparr>)), ?st)"
      using 2(1) env info(1) by (simp add: run eventsrc_claim_found_def Let_def)
    have sh: "k_shape ?st = k_shape st" using 2(6) by simp
    have "event_claim_meets st ed 0 (Some (Event_Claim_Data (ed\<lparr>ec_info := info\<rparr>))) ?st"
      using 2(2,4) some(1) info(2) x fill_eventsrc_info_flags [OF info(1)]
      by (simp add: event_claim_meets_def h event_holders_def spec_claim_snd(2) holders_of_Cons)
    moreover have "refs_exact ?st"
      using 2(3,5) inv(3) exact_other_kind(2) [OF sh] by (simp add: refs_exact_def)
    moreover have "mem_holders ?st = mem_holders st" using 2(5) by (simp add: mem_holders_def)
    moreover have "cuddlk_mem_refs ?st = cuddlk_mem_refs st"
      "length (cuddlk_event_refs ?st) \<le> Suc (length (cuddlk_event_refs st))" using 2(4,5) by simp_all
    ultimately show ?thesis using that [OF r] sh by blast
  qed
qed

subsection \<open>Releases\<close>

lemma memregion_release_case_meets:
  assumes inv: "manager_inv cfg st" "refs_few st" "refs_exact st"
    and md: "cfu_mem_release env = Some md" "version_code_is_compat (mrel_version_code md)"
    and tok: "mrel_token md = \<lparr>device_index = i, resource_index = j\<rparr>"
    and held: "mrel_pid md \<in> set (mem_holders st i j)"
  obtains st' where "memregion_release_case env st = Some (0, None, st')"
    "mem_holders st' = set_holders i j (remove1 (mrel_pid md) (mem_holders st i j)) (mem_holders st)"
    "refs_exact st'" "event_holders st' = event_holders st" "k_shape st' = k_shape st"
proof -
  note ok = manager_invD [OF inv(1)]
  from held obtain x where x: "x \<in> set (cuddlk_mem_refs st)" "ref_is i j (mrel_pid md) x"
    by (auto simp: mem_holders_def holder_ref)
  from ok(4) x obtain p m where at: "device_at st i = Some p" and m: "get_memregion st p j = Some m"
    unfolding refs_ok_def refs_placed_def ref_is_def memregion_count_def by fastforce
  from devices_registeredD [OF ok(3) at] obtain d where d: "k_heap st p = Some d" "registered cfg p d" by blast
  have i: "\<not> out_of_range i CUDDLK_MAX_MANAGED_DEVICES"
    using at device_at_iff [OF ok(1)] by (auto simp: out_of_range_def)
  from m d have j: "\<not> out_of_range j CUDDLK_MAX_DEV_MEM_REGIONS"
    by (auto simp: get_memregion_def out_of_range_def registered_def device_named_def dest!: arr_get_SomeD)
  have own: "uio_dev_owner st (mr_uio_ptr m) \<noteq> None" using registered_mem_owner [OF d m] by simp
  from inv(2,3) have ex: "counts_exact memregion_count cuddlk_mem_refs st" "length (cuddlk_mem_refs st) < 2 ^ 31"
    by (simp_all add: refs_exact_def refs_few_def)
  from held have h: "mrel_pid md \<in> set (holders_of (cuddlk_mem_refs st) i j)" by (simp add: mem_holders_def)
  obtain st1 where r: "memregion_decr_ref_count p j st = Some (0, st1)"
    "cuddlk_mem_refs st1 = cuddlk_mem_refs st"
    "(get_eventsrc st1, cuddlk_event_refs st1) = (get_eventsrc st, cuddlk_event_refs st)"
    "counts_exact memregion_count cuddlk_mem_refs (st1\<lparr>cuddlk_mem_refs :=
       snd (delete_first (ref_is i j (mrel_pid md)) (cuddlk_mem_refs st1))\<rparr>)" "k_shape st1 = k_shape st"
    using mem.release_refines [OF ex(1) m at own ok(2) ex(2) h] by metis
  let ?st = "st1\<lparr>cuddlk_mem_refs := snd (delete_first (ref_is i j (mrel_pid md)) (cuddlk_mem_refs st1))\<rparr>"
  have sh: "k_shape ?st = k_shape st" using r(5) by simp
  have "memregion_release_case env st = Some (0, None, ?st)"
    using md tok i j r(1) device_at_arr_get [OF at] by (simp add: memregion_release_case_def with_entry_def)
  moreover have "refs_exact ?st" using r(3,4) inv(3) exact_other_kind(1) [OF sh] by (simp add: refs_exact_def)
  ultimately show ?thesis
    using that [of ?st] r(2,3) sh by (simp add: mem_holders_def event_holders_def holders_of_release)
qed

lemma eventsrc_release_case_meets:
  assumes inv: "manager_inv cfg st" "refs_few st" "refs_exact st"
    and ed: "cfu_event_release env = Some ed" "version_code_is_compat (erel_version_code ed)"
    and tok: "erel_token ed = \<lparr>device_index = i, resource_index = j\<rparr>"
    and held: "erel_pid ed \<in> set (event_holders st i j)"
  obtains st' where "eventsrc_release_case env st = Some (0, None, st')"
    "event_holders st' = set_holders i j (remove1 (erel_pid ed) (event_holders st i j)) (event_holders st)"
    "refs_exact st'" "mem_holders st' = mem_holders st" "k_shape st' = k_shape st"
proof -
  note ok = manager_invD [OF inv(1)]
  from held obtain x where x: "x \<in> set (cuddlk_event_refs st)" "ref_is i j (erel_pid ed) x"
    by (auto simp: event_holders_def holder_ref)
  from ok(4) x obtain p e where at: "device_at st i = Some p" and e: "get_eventsrc st p j = Some e"
    unfolding refs_ok_def refs_placed_def ref_is_def eventsrc_count_def by fastforce
  from devices_registeredD [OF ok(3) at] obtain d where d: "k_heap st p = Some d" "registered cfg p d" by blast
  have i: "\<not> out_of_range i CUDDLK_MAX_MANAGED_DEVICES"
    using at device_at_iff [OF ok(1)] by (auto simp: out_of_range_def)
  from e d have j: "\<not> out_of_range j CUDDLK_MAX_DEV_EVENTS"
    by (auto simp: get_eventsrc_def out_of_range_def registered_def device_named_def dest!: arr_get_SomeD)
  have own: "uio_dev_owner st (ev_uio_ptr e) \<noteq> None" using registered_event_owner [OF d e] by simp
  from inv(2,3) have ex: "counts_exact eventsrc_count cuddlk_event_refs st" "length (cuddlk_event_refs st) < 2 ^ 31"
    by (simp_all add: refs_exact_def refs_few_def)
  from held have h: "erel_pid ed \<in> set (holders_of (cuddlk_event_refs st) i j)" by (simp add: event_holders_def)
  obtain st1 where r: "eventsrc_decr_ref_count p j st = Some (0, st1)"
    "cuddlk_event_refs st1 = cuddlk_event_refs st"
    "(get_memregion st1, cuddlk_mem_refs st1) = (get_memregion st, cuddlk_mem_refs st)"
    "counts_exact eventsrc_count cuddlk_event_refs (st1\<lparr>cuddlk_event_refs :=
       snd (delete_first (ref_is i j (erel_pid ed)) (cuddlk_event_refs st1))\<rparr>)" "k_shape st1 = k_shape st"
    using ev.release_refines [OF ex(1) e at own ok(2) ex(2) h] by metis
  let ?st = "st1\<lparr>cuddlk_event_refs := snd (delete_first (ref_is i j (erel_pid ed)) (cuddlk_event_refs st1))\<rparr>"
  have sh: "k_shape ?st = k_shape st" using r(5) by simp
  have "eventsrc_release_case env st = Some (0, None, ?st)"
    using ed tok i j r(1) device_at_arr_get [OF at] by (simp add: eventsrc_release_case_def with_entry_def)
  moreover have "refs_exact ?st" using r(3,4) inv(3) exact_other_kind(2) [OF sh] by (simp add: refs_exact_def)
  ultimately show ?thesis
    using that [of ?st] r(2,3) sh by (simp add: mem_holders_def event_holders_def holders_of_release)
qed

subsection \<open>Searches do not see the counts\<close>

lemma slots_erase:
  assumes "arrays_ok d"
  shows "memregion_slot (erase_counts d) pat = memregion_slot d pat"
    "eventsrc_slot (erase_counts d) pat = eventsrc_slot d pat"
  using assms unfolding memregion_slot_def eventsrc_slot_def arrays_ok_def
  by (auto simp: erase_counts_def intro!: find_cong)

lemma device_matches_erase:
  "arrays_ok d \<Longrightarrow> device_matches g n r k t (erase_counts d) = device_matches g n r k t d"
  by (simp add: device_matches_def resource_matches_def slots_erase split: cuddlk_resource.splits)

lemma managed_shape:
  assumes "k_shape st' = k_shape st"
  shows "map_option erase_counts (managed_device st' i) = map_option erase_counts (managed_device st i)"
  using k_shape_table [OF assms] k_shape_heap [OF assms]
  by (cases "k_table st ! i") (simp_all add: managed_device_def)

lemma managed_arrays:
  assumes "manager_inv cfg st" "managed_device st i = Some d" "i < CUDDLK_MAX_MANAGED_DEVICES"
  shows "arrays_ok d"
proof -
  from assms(2) obtain p where p: "k_table st ! i = Some p" "k_heap st p = Some d"
    by (auto simp: managed_device_def bind_eq_Some_conv)
  then have "device_at st (int i) = Some p"
    using device_at_nth [OF manager_invD(1) [OF assms(1)] assms(3)] by simp
  with devices_registeredD [OF manager_invD(3) [OF assms(1)]] p(2) have "registered cfg p d" by fastforce
  then show ?thesis by (rule registered_arrays)
qed

lemma slot_matches_shape:
  assumes inv: "manager_inv cfg st" and sh: "k_shape st' = k_shape st" and i: "i < CUDDLK_MAX_MANAGED_DEVICES"
  shows "slot_matches st' g n r k t i = slot_matches st g n r k t i"
proof (cases "managed_device st i")
  case None
  with managed_shape [OF sh, of i] show ?thesis by (simp add: slot_matches_def)
next
  case (Some d)
  with managed_shape [OF sh, of i] obtain d' where d': "managed_device st' i = Some d'"
    "erase_counts d' = erase_counts d" by auto
  have "arrays_ok d" using managed_arrays [OF inv Some i] .
  moreover from this d'(2) have "arrays_ok d'" unfolding arrays_ok_def by (metis erase_counts_simps(9,10))
  ultimately show ?thesis using Some d' by (metis device_matches_erase option.simps(5) slot_matches_def)
qed

lemma matching_slot_shape:
  assumes "manager_inv cfg st" "k_shape st' = k_shape st"
  shows "matching_slot st' g n r k t start = matching_slot st g n r k t start"
  unfolding matching_slot_def by (rule find_cong) (simp_all add: slot_matches_shape [OF assms])

lemma lookup_memregion_shape:
  assumes "manager_inv cfg st" "k_shape st' = k_shape st"
  shows "map_option (\<lambda>(i, j, m). (i, j)) (lookup_memregion st' rid) =
    map_option (\<lambda>(i, j, m). (i, j)) (lookup_memregion st rid)"
proof (cases "matching_slot st (Some (id_group rid)) (Some (id_device rid)) (Some (id_resource rid))
    (id_instance rid) CUDDLK_RESOURCE_MEMREGION 0")
  case None
  then show ?thesis by (simp add: lookup_memregion_def matching_slot_shape [OF assms])
next
  case (Some i)
  from matching_slot_SomeD [OF Some] obtain d where i: "i < CUDDLK_MAX_MANAGED_DEVICES"
    and d: "managed_device st i = Some d" by (auto simp: slot_matches_def split: option.splits)
  with managed_shape [OF assms(2), of i] obtain d' where d': "managed_device st' i = Some d'"
    "erase_counts d' = erase_counts d" by auto
  have "arrays_ok d" using managed_arrays [OF assms(1) d i] .
  moreover from this d'(2) have "arrays_ok d'" unfolding arrays_ok_def by (metis erase_counts_simps(9,10))
  ultimately have "memregion_slot d' pat = memregion_slot d pat" for pat
    using slots_erase(1) d'(2) by metis
  with Some d d'(1) show ?thesis
    by (cases "memregion_slot d (Some (id_resource rid))")
      (simp_all add: lookup_memregion_def matching_slot_shape [OF assms])
qed

subsection \<open>A sample caller\<close>

definition quiet_env :: ioctl_env where
  "quiet_env = \<lparr>kz_ok = (\<lambda>_. True), ref_kz_ok = True, mod_get_ok = True, ctu_ok = True,
     cfu_void = None, cfu_mem_claim = None, cfu_event_claim = None, cfu_mem_release = None,
     cfu_event_release = None, cfu_get_id = None, cfu_ref_count = None, cfu_commit = None,
     cfu_driver_info = None, cfu_is_enabled = None, driver_ret = (\<lambda>_. 1), beyond = (\<lambda>_ _. NUL)\<rparr>"

definition sample_id :: cuddl_resource_id where
  "sample_id = \<lparr>id_group = ''mfg'', id_device = ''card'', id_resource = ''regs'', id_instance = 1\<rparr>"

definition sample_claim :: "pid_t \<Rightarrow> cuddlci_memregion_claim_ioctl_data" where
  "sample_claim pid = \<lparr>mc_version_code = CUDDL_VERSION_CODE, mc_id = sample_id,
     mc_info = \<lparr>mi_pa_mmap_offset = 0, mi_pa_len = 0, mi_start_offset = 0,
       mi_token = \<lparr>device_index = 0, resource_index = 0\<rparr>, mi_device_name = replicate 256 NUL,
       mi_len = 0, mi_flags = 0\<rparr>,
     mc_pid = pid, mc_options = 0\<rparr>"

definition sample_release :: "pid_t \<Rightarrow> cuddlci_memregion_release_ioctl_data" where
  "sample_release pid = \<lparr>mrel_version_code = CUDDL_VERSION_CODE,
     mrel_token = \<lparr>device_index = 0, resource_index = 0\<rparr>, mrel_pid = pid\<rparr>"

definition claim_env :: "pid_t \<Rightarrow> ioctl_env" where
  "claim_env pid = quiet_env\<lparr>cfu_mem_claim := Some (sample_claim pid),
     cfu_mem_release := Some (sample_release pid)\<rparr>"

lemma version_code_is_compat_iff: "version_code_is_compat v \<longleftrightarrow> 0 \<le> v \<and> v < 131072"
proof -
  have d: "v div 65536 = k \<longleftrightarrow> 65536 * k \<le> v \<and> v < 65536 * (k + 1)" for k :: int
  proof -
    have "v = 65536 * (v div 65536) + v mod 65536" "0 \<le> v mod 65536" "v mod 65536 < 65536" by simp_all
    moreover define q r where "q = v div 65536" and "r = v mod 65536"
    ultimately have "v = 65536 * q + r" "0 \<le> r" "r < 65536" by simp_all
    then have "q = k \<longleftrightarrow> 65536 * k \<le> v \<and> v < 65536 * (k + 1)" by auto
    then show ?thesis by (simp add: q_def)
  qed
  have "version_code_is_compat v \<longleftrightarrow> v div 65536 = 1 \<or> v div 65536 = 0"
    by (simp add: version_code_is_compat_def CUDDLCI_MAJOR_VERSION_FROM_CODE_def CUDDLK_VERSION_CODE_eq
        Let_def drop_bit_eq_div)
  then show ?thesis unfolding d by auto
qed

lemma sample_version [simp]: "version_code_is_compat CUDDL_VERSION_CODE"
  by (simp add: version_code_is_compat_iff CUDDL_VERSION_CODE_eq)

lemma claim_env_simps [simp]:
  "all_succeed (claim_env pid)" "cfu_mem_claim (claim_env pid) = Some (sample_claim pid)"
  "cfu_mem_release (claim_env pid) = Some (sample_release pid)"
  by (simp_all add: all_succeed_def claim_env_def quiet_env_def)

text \<open>The sample device sits in slot 0, unshared, and nobody holds anything.\<close>

lemma ball_map_eq:
  assumes "map f xs = map f ys" "\<And>x. P x \<longleftrightarrow> Q (f x)"
  shows "(\<forall>x \<in> set xs. P x) \<longleftrightarrow> (\<forall>x \<in> set ys. P x)"
proof -
  have "(\<forall>x \<in> set xs. P x) \<longleftrightarrow> (\<forall>y \<in> set (map f xs). Q y)" using assms(2) by simp
  also have "\<dots> \<longleftrightarrow> (\<forall>x \<in> set ys. P x)" unfolding assms(1) using assms(2) by simp
  finally show ?thesis .
qed

lemma resources_named_identity:
  assumes "same_identity d' d"
  shows "resources_named cfg d' = resources_named cfg d"
proof -
  from assms have
    m: "map (\<lambda>m. (mr_name m, mr_pa_addr m, mr_start_offset m, mr_type m, mr_flags m, mr_ref_count m)) (d_mem d') =
     map (\<lambda>m. (mr_name m, mr_pa_addr m, mr_start_offset m, mr_type m, mr_flags m, mr_ref_count m)) (d_mem d)"
    and e: "map (\<lambda>e. (ev_name e, ev_flags e, ev_intr e, ev_ref_count e, ev_uio_open_count e, ev_udd_open_count e)) (d_events d') =
     map (\<lambda>e. (ev_name e, ev_flags e, ev_intr e, ev_ref_count e, ev_uio_open_count e, ev_udd_open_count e)) (d_events d)"
    unfolding same_identity_def by blast+
  have "(\<forall>m \<in> set (d_mem d'). mr_type m \<noteq> memt_none cfg \<longrightarrow> mr_name m \<noteq> None) \<longleftrightarrow>
      (\<forall>m \<in> set (d_mem d). mr_type m \<noteq> memt_none cfg \<longrightarrow> mr_name m \<noteq> None)"
    by (rule ball_map_eq [OF m, where Q = "\<lambda>(n, b, c, t, e, f). t \<noteq> memt_none cfg \<longrightarrow> n \<noteq> None"]) (simp only: prod.case)
  moreover have "(\<forall>e \<in> set (d_events d'). intr_irq (ev_intr e) \<noteq> irq_none cfg \<longrightarrow> ev_name e \<noteq> None) \<longleftrightarrow>
      (\<forall>e \<in> set (d_events d). intr_irq (ev_intr e) \<noteq> irq_none cfg \<longrightarrow> ev_name e \<noteq> None)"
    by (rule ball_map_eq [OF e, where Q = "\<lambda>(n, b, i, c, d, e). intr_irq i \<noteq> irq_none cfg \<longrightarrow> n \<noteq> None"])
      (simp only: prod.case)
  ultimately show ?thesis unfolding resources_named_def by blast
qed

lemma sample_device_at: "device_at sample_state i = (if i = 0 then Some 1 else None)"
proof -
  note tl = manager_invD(1) [OF sample_state_facts(2)]
  show ?thesis
  proof (cases "device_at sample_state i")
    case None
    have "device_at sample_state 0 = Some 1"
      using device_at_iff [OF tl, of 0 1] by (simp add: sample_state_facts(4) CUDDLK_MAX_MANAGED_DEVICES_def)
    with None show ?thesis by auto
  next
    case (Some p)
    with device_at_iff [OF tl, of i p] have i: "0 \<le> i" "i < int CUDDLK_MAX_MANAGED_DEVICES"
      "k_table sample_state ! nat i = Some p" by auto
    then have "nat i = 0 \<and> p = 1"
      by (cases "nat i = 0") (auto simp: sample_state_facts(4) nth_list_update)
    with i Some show ?thesis by auto
  qed
qed

lemma sample_state_named: "all_named sample_cfg sample_state"
proof -
  from sample_state_facts(7) obtain d where d: "k_heap sample_state 1 = Some d" "same_identity d sample_device" by blast
  have "resources_named sample_cfg sample_device"
    by (simp add: resources_named_def sample_device_def sample_cfg_def CUDDLK_MAX_DEV_MEM_REGIONS_def
        zero_memregion_def eval_nat_numeral)
  with d resources_named_identity [OF d(2)] show ?thesis
    by (auto simp: all_named_def sample_device_at split: if_splits)
qed

lemma sample_state_exact: "refs_exact sample_state"
proof -
  from sample_state_facts(7) obtain d where d: "k_heap sample_state 1 = Some d" "same_identity d sample_device" by blast
  note z = zero_counts [OF fresh_sample d(2,1)]
  show ?thesis
    using z by (auto simp: refs_exact_def counts_exact_def sample_device_at sample_state_facts(5,6) split: if_splits)
qed

lemma sample_state_few: "refs_few sample_state"
  by (simp add: refs_few_def sample_state_facts(5,6))

lemma sample_contents:
  obtains d where "k_heap sample_state 1 = Some d" "managed_device sample_state 0 = Some d" "arrays_ok d"
    "d_group d = Some ''mfg''" "d_name d = Some ''card''" "d_instance d = 1"
    "mr_name (d_mem d ! 0) = Some ''regs''" "mr_flags (d_mem d ! 0) = 0" "mr_type (d_mem d ! 0) = 1"
    "ev_name (d_events d ! 0) = Some ''irq''" "ev_flags (d_events d ! 0) = 0"
proof -
  from sample_state_facts(7) obtain d where d: "k_heap sample_state 1 = Some d" "same_identity d sample_device" by blast
  from d(2) have gn: "d_group d = Some ''mfg''" "d_name d = Some ''card''" "d_instance d = 1"
    by (simp_all add: same_identity_def sample_device_def)
  have a: "arrays_ok d" using same_identity_arrays [OF d(2)] fresh_sample by (simp add: fresh_device_def)
  then have len: "length (d_mem d) = CUDDLK_MAX_DEV_MEM_REGIONS" by (simp add: arrays_ok_def)
  from arrays_ok_single [OF a] obtain e where e: "d_events d = [e]" ..
  with d(2) have ev: "ev_name (d_events d ! 0) = Some ''irq''" "ev_flags (d_events d ! 0) = 0"
    by (simp_all add: same_identity_def sample_device_def zero_eventsrc_def)
  from d(2) have
    "map (\<lambda>m. (mr_name m, mr_pa_addr m, mr_start_offset m, mr_type m, mr_flags m, mr_ref_count m)) (d_mem d) ! 0 =
     map (\<lambda>m. (mr_name m, mr_pa_addr m, mr_start_offset m, mr_type m, mr_flags m, mr_ref_count m)) (d_mem sample_device) ! 0"
    by (simp add: same_identity_def)
  with len have m: "mr_name (d_mem d ! 0) = Some ''regs''" "mr_flags (d_mem d ! 0) = 0" "mr_type (d_mem d ! 0) = 1"
    by (simp_all add: sample_device_def CUDDLK_MAX_DEV_MEM_REGIONS_def zero_memregion_def)
  have md: "managed_device sample_state 0 = Some d"
    by (simp add: managed_device_def sample_state_facts(4) CUDDLK_MAX_MANAGED_DEVICES_def d(1) [unfolded One_nat_def])
  from that [OF d(1) md a gn m ev] show ?thesis .
qed

lemma sample_lookup: "\<exists>m. lookup_memregion sample_state sample_id = Some (0, 0, m) \<and> mr_flags m = 0"
proof -
  obtain d where md: "managed_device sample_state 0 = Some d"
    and gn: "d_group d = Some ''mfg''" "d_name d = Some ''card''" "d_instance d = 1"
    and m: "mr_name (d_mem d ! 0) = Some ''regs''" "mr_flags (d_mem d ! 0) = 0" by (rule sample_contents)
  have slot: "memregion_slot d (Some ''regs'') = Some 0"
    unfolding memregion_slot_def
    by (rule find_upt_eqI) (simp_all add: m CUDDLK_MAX_DEV_MEM_REGIONS_def)
  have "matching_slot sample_state (Some ''mfg'') (Some ''card'') (Some ''regs'') 1 CUDDLK_RESOURCE_MEMREGION 0 = Some 0"
    unfolding matching_slot_def
    by (rule find_upt_eqI) (simp_all add: slot_matches_def md device_matches_def gn resource_matches_def slot
        CUDDLK_MAX_MANAGED_DEVICES_def)
  then show ?thesis by (simp add: lookup_memregion_def sample_id_def md slot m)
qed

lemma sample_event_lookup:
  "\<exists>e. lookup_eventsrc sample_state (sample_id\<lparr>id_resource := ''irq''\<rparr>) = Some (0, 0, e) \<and> ev_flags e = 0"
proof -
  obtain d where md: "managed_device sample_state 0 = Some d"
    and gn: "d_group d = Some ''mfg''" "d_name d = Some ''card''" "d_instance d = 1"
    and e: "ev_name (d_events d ! 0) = Some ''irq''" "ev_flags (d_events d ! 0) = 0" by (rule sample_contents)
  have slot: "eventsrc_slot d (Some ''irq'') = Some 0"
    unfolding eventsrc_slot_def
    by (rule find_upt_eqI) (simp_all add: e CUDDLK_MAX_DEV_EVENTS_def)
  have "matching_slot sample_state (Some ''mfg'') (Some ''card'') (Some ''irq'') 1 CUDDLK_RESOURCE_EVENTSRC 0 = Some 0"
    unfolding matching_slot_def
    by (rule find_upt_eqI) (simp_all add: slot_matches_def md device_matches_def gn resource_matches_def slot
        CUDDLK_MAX_MANAGED_DEVICES_def)
  then show ?thesis by (simp add: lookup_eventsrc_def sample_id_def md slot e)
qed

end
