(* ===== verification/Ioctl_Properties.thy ===== *)
theory Ioctl_Properties
  imports Ioctl_Semantics
begin

section \<open>Properties of the manager's IOCTL handler\<close>

text \<open>
  The theorems about the handler as a whole: safety, the refinement of the holders'
  specification by claims and releases, the error paths, what the query commands return,
  and the requests after which the counts and the recorded references disagree.
\<close>

subsection \<open>Safety\<close>



subsection \<open>Claims implement the specification\<close>

lemma lock_shape: "k_shape st' = k_shape (set_mutex True st) \<Longrightarrow> k_locked st'"
  using k_shape_table [of st' "set_mutex True st"] by simp

lemma mem_claim_meets_mutex [simp]:
  "mem_claim_meets (set_mutex b st) md ret out st' = mem_claim_meets st md ret out st'"
  "mem_claim_meets st md ret out (set_mutex b st') = mem_claim_meets st md ret out st'"
  by (simp_all add: mem_claim_meets_def split: option.splits)

lemma event_claim_meets_mutex [simp]:
  "event_claim_meets (set_mutex b st) ed ret out st' = event_claim_meets st ed ret out st'"
  "event_claim_meets st ed ret out (set_mutex b st') = event_claim_meets st ed ret out st'"
  by (simp_all add: event_claim_meets_def split: option.splits)

lemma sample_no_holders: "mem_holders sample_state = (\<lambda>i j. [])" "event_holders sample_state = (\<lambda>i j. [])"
  by (simp_all add: mem_holders_def event_holders_def holders_of_def sample_state_facts(5,6) fun_eq_iff)

lemma mem_claim_ioctl:
  assumes "manager_inv cfg st" "refs_few st" "refs_exact st" "\<not> k_locked st" "all_succeed env"
    and "cfu_mem_claim env = Some md" "version_code_is_compat (mc_version_code md)"
    and "cmd = CUDDLCI_MEMREGION_CLAIM_UIO_IOCTL \<or> cmd = CUDDLCI_MEMREGION_CLAIM_UDD_IOCTL"
  shows "\<exists>ret out st'. cuddlk_manager_ioctl cfg env cmd st = Some (ret, out, st') \<and>
    mem_claim_meets st md ret out st' \<and> refs_exact st' \<and> event_holders st' = event_holders st"
proof -
  let ?s = "set_mutex True st" and ?rt = "cmd = CUDDLCI_MEMREGION_CLAIM_UDD_IOCTL"
  have s: "manager_inv cfg ?s" "refs_few ?s" "refs_exact ?s" using assms(1-3) by simp_all
  have env: "ref_kz_ok env" "ctu_ok env" "\<forall>n < 10. kz_ok env n" using assms(5) by (simp_all add: all_succeed_def)
  obtain ret out st1 where c: "memregion_claim_case cfg env ?rt True ?s = Some (ret, out, st1)"
    "mem_claim_meets ?s md ret out st1" "refs_exact st1" "event_holders st1 = event_holders ?s"
    "k_shape st1 = k_shape ?s"
    using memregion_claim_case_meets [OF s env(1,2) assms(6,7), of ?rt] by metis
  have "manager_command cfg env cmd ?s = Some (ret, out, st1)"
    using assms(8) c(1) by (auto simp: manager_command_def)
  from ioctl_runs_command [OF env(3) assms(4) this lock_shape [OF c(5)]] c(2-4) show ?thesis by simp
qed

text \<open>C9: claiming a memory region implements the specification on holders. The region is the
  first match in the first matching device, \<open>-ENXIO\<close> if there is none; a region that somebody
  holds and that is not shared is refused with \<open>-EBUSY\<close> unless the request is hostile; otherwise
  the process becomes a holder, and the caller gets the token of the region. The counts stay
  exact and the holders of event sources do not change.\<close>

theorem memregion_claim_refines:
  assumes "manager_inv cfg st" "refs_few st" "refs_exact st" "\<not> k_locked st" "all_succeed env"
    and "cfu_mem_claim env = Some md" "version_code_is_compat (mc_version_code md)"
    and "cmd = CUDDLCI_MEMREGION_CLAIM_UIO_IOCTL \<or> cmd = CUDDLCI_MEMREGION_CLAIM_UDD_IOCTL"
  shows "\<exists>ret out st'. cuddlk_manager_ioctl cfg env cmd st = Some (ret, out, st') \<and>
    mem_claim_meets st md ret out st' \<and> refs_exact st' \<and> event_holders st' = event_holders st"
  using assms by (rule mem_claim_ioctl)

theorem memregion_claim_refines_witness:
  "\<exists>out st'. cuddlk_manager_ioctl sample_cfg (claim_env 42) CUDDLCI_MEMREGION_CLAIM_UIO_IOCTL sample_state
      = Some (0, out, st') \<and> mem_holders st' 0 0 = [42]"
  using memregion_claim_refines [OF sample_state_facts(2) sample_state_few sample_state_exact
      sample_state_facts(3), of "claim_env 42" "sample_claim 42" CUDDLCI_MEMREGION_CLAIM_UIO_IOCTL]
    sample_lookup
  by (auto simp: mem_claim_meets_def sample_claim_def sample_no_holders spec_claim_def set_holders_def)

lemma event_claim_ioctl:
  assumes "manager_inv cfg st" "refs_few st" "refs_exact st" "\<not> k_locked st" "all_succeed env"
    and "cfu_event_claim env = Some ed" "version_code_is_compat (ec_version_code ed)"
    and "cmd = CUDDLCI_EVENTSRC_CLAIM_UIO_IOCTL \<or> cmd = CUDDLCI_EVENTSRC_CLAIM_UDD_IOCTL"
  shows "\<exists>ret out st'. cuddlk_manager_ioctl cfg env cmd st = Some (ret, out, st') \<and>
    event_claim_meets st ed ret out st' \<and> refs_exact st' \<and> mem_holders st' = mem_holders st"
proof -
  let ?s = "set_mutex True st" and ?rt = "cmd = CUDDLCI_EVENTSRC_CLAIM_UDD_IOCTL"
  have s: "manager_inv cfg ?s" "refs_few ?s" "refs_exact ?s" using assms(1-3) by simp_all
  have env: "ref_kz_ok env" "ctu_ok env" "\<forall>n < 10. kz_ok env n" using assms(5) by (simp_all add: all_succeed_def)
  obtain ret out st1 where c: "eventsrc_claim_case env ?rt True ?s = Some (ret, out, st1)"
    "event_claim_meets ?s ed ret out st1" "refs_exact st1" "mem_holders st1 = mem_holders ?s"
    "k_shape st1 = k_shape ?s"
    using eventsrc_claim_case_meets [OF s env(1,2) assms(6,7), of ?rt] by metis
  have "manager_command cfg env cmd ?s = Some (ret, out, st1)"
    using assms(8) c(1) by (auto simp: manager_command_def)
  from ioctl_runs_command [OF env(3) assms(4) this lock_shape [OF c(5)]] c(2-4) show ?thesis by simp
qed

text \<open>The same for event sources; the flags that the caller gets say whether the source is
  shared and which of the driver's functions it has.\<close>

theorem eventsrc_claim_refines:
  assumes "manager_inv cfg st" "refs_few st" "refs_exact st" "\<not> k_locked st" "all_succeed env"
    and "cfu_event_claim env = Some ed" "version_code_is_compat (ec_version_code ed)"
    and "cmd = CUDDLCI_EVENTSRC_CLAIM_UIO_IOCTL \<or> cmd = CUDDLCI_EVENTSRC_CLAIM_UDD_IOCTL"
  shows "\<exists>ret out st'. cuddlk_manager_ioctl cfg env cmd st = Some (ret, out, st') \<and>
    event_claim_meets st ed ret out st' \<and> refs_exact st' \<and> mem_holders st' = mem_holders st"
  using assms by (rule event_claim_ioctl)

definition sample_event_claim :: cuddlci_eventsrc_claim_ioctl_data where
  "sample_event_claim = \<lparr>ec_version_code = CUDDL_VERSION_CODE, ec_id = sample_id\<lparr>id_resource := ''irq''\<rparr>,
     ec_info = \<lparr>ei_token = \<lparr>device_index = 0, resource_index = 0\<rparr>, ei_device_name = [], ei_flags = 0\<rparr>,
     ec_pid = 42, ec_options = 0\<rparr>"

definition event_env :: ioctl_env where
  "event_env = quiet_env\<lparr>cfu_event_claim := Some sample_event_claim, cfu_event_release := Some
     \<lparr>erel_version_code = CUDDL_VERSION_CODE, erel_token = \<lparr>device_index = 0, resource_index = 0\<rparr>,
      erel_pid = 42\<rparr>\<rparr>"

lemma event_env_simps [simp]:
  "all_succeed event_env" "cfu_event_claim event_env = Some sample_event_claim"
  "ec_version_code sample_event_claim = CUDDL_VERSION_CODE"
  by (simp_all add: all_succeed_def event_env_def quiet_env_def sample_event_claim_def)

lemma event_env_release:
  "cfu_event_release event_env = Some \<lparr>erel_version_code = CUDDL_VERSION_CODE,
     erel_token = \<lparr>device_index = 0, resource_index = 0\<rparr>, erel_pid = 42\<rparr>"
  by (simp add: event_env_def)

lemma sample_event_claim_ids:
  "ec_id sample_event_claim = sample_id\<lparr>id_resource := ''irq''\<rparr>" "ec_pid sample_event_claim = 42"
  by (simp_all add: sample_event_claim_def)

theorem eventsrc_claim_refines_witness:
  "\<exists>out st'. cuddlk_manager_ioctl sample_cfg event_env CUDDLCI_EVENTSRC_CLAIM_UDD_IOCTL sample_state
      = Some (0, out, st') \<and> event_holders st' 0 0 = [42]"
  using eventsrc_claim_refines [OF sample_state_facts(2) sample_state_few sample_state_exact
      sample_state_facts(3), of event_env sample_event_claim CUDDLCI_EVENTSRC_CLAIM_UDD_IOCTL]
    sample_event_lookup
  by (auto simp: event_claim_meets_def sample_no_holders spec_claim_def set_holders_def sample_event_claim_ids)

subsection \<open>Releases implement the specification\<close>

lemma mem_release_ioctl:
  assumes "manager_inv cfg st" "refs_few st" "refs_exact st" "\<not> k_locked st" "\<forall>n < 10. kz_ok env n"
    and "cfu_mem_release env = Some md" "version_code_is_compat (mrel_version_code md)"
    and "cmd = CUDDLCI_MEMREGION_RELEASE_UIO_IOCTL \<or> cmd = CUDDLCI_MEMREGION_RELEASE_UDD_IOCTL"
    and "mrel_token md = \<lparr>device_index = i, resource_index = j\<rparr>" "mrel_pid md \<in> set (mem_holders st i j)"
  shows "\<exists>st'. cuddlk_manager_ioctl cfg env cmd st = Some (0, None, st') \<and>
    mem_holders st' = set_holders i j (remove1 (mrel_pid md) (mem_holders st i j)) (mem_holders st) \<and>
    refs_exact st' \<and> event_holders st' = event_holders st"
proof -
  let ?s = "set_mutex True st"
  have s: "manager_inv cfg ?s" "refs_few ?s" "refs_exact ?s" "mrel_pid md \<in> set (mem_holders ?s i j)"
    using assms(1-3,10) by simp_all
  obtain st1 where c: "memregion_release_case env ?s = Some (0, None, st1)"
    "mem_holders st1 = set_holders i j (remove1 (mrel_pid md) (mem_holders ?s i j)) (mem_holders ?s)"
    "refs_exact st1" "event_holders st1 = event_holders ?s" "k_shape st1 = k_shape ?s"
    using memregion_release_case_meets [OF s(1-3) assms(6,7,9) s(4)] by metis
  have "manager_command cfg env cmd ?s = Some (0, None, st1)"
    using assms(8) c(1) by (auto simp: manager_command_def)
  from ioctl_runs_command [OF assms(5,4) this lock_shape [OF c(5)]] c(2-4) show ?thesis by simp
qed

text \<open>C14: a holder that releases a memory region gives up one claim, returns zero, and changes
  nothing else about the holders of any resource.\<close>

theorem memregion_release_refines:
  assumes "manager_inv cfg st" "refs_few st" "refs_exact st" "\<not> k_locked st" "all_succeed env"
    and "cfu_mem_release env = Some md" "version_code_is_compat (mrel_version_code md)"
    and "cmd = CUDDLCI_MEMREGION_RELEASE_UIO_IOCTL \<or> cmd = CUDDLCI_MEMREGION_RELEASE_UDD_IOCTL"
    and "mrel_token md = \<lparr>device_index = i, resource_index = j\<rparr>" "mrel_pid md \<in> set (mem_holders st i j)"
  shows "\<exists>st'. cuddlk_manager_ioctl cfg env cmd st = Some (0, None, st') \<and>
    mem_holders st' = set_holders i j (remove1 (mrel_pid md) (mem_holders st i j)) (mem_holders st) \<and>
    refs_exact st' \<and> event_holders st' = event_holders st"
  using assms(1-4) _ assms(6-) by (rule mem_release_ioctl) (use assms(5) in \<open>simp add: all_succeed_def\<close>)

text \<open>The sample state after process 42 has claimed the region.\<close>

definition held_state :: kstate where
  "held_state = (case cuddlk_manager_ioctl sample_cfg (claim_env 42) CUDDLCI_MEMREGION_CLAIM_UIO_IOCTL sample_state of
     Some (_, _, st) \<Rightarrow> st | None \<Rightarrow> sample_state)"

lemma held_state_facts:
  "manager_inv sample_cfg held_state" "refs_few held_state" "refs_exact held_state" "\<not> k_locked held_state"
  "mem_holders held_state 0 0 = [42]" "all_named sample_cfg held_state"
  "k_shape held_state = k_shape sample_state"
proof -
  let ?io = "cuddlk_manager_ioctl sample_cfg (claim_env 42) CUDDLCI_MEMREGION_CLAIM_UIO_IOCTL sample_state"
  let ?s = "set_mutex True sample_state"
  obtain ret out st where k: "?io = Some (ret, out, st)" "manager_inv sample_cfg st"
    "k_shape st = k_shape sample_state"
    by (rule manager_ioctl_keeps [OF sample_state_facts(2) sample_state_few sample_state_named
          sample_state_facts(3), of "claim_env 42" CUDDLCI_MEMREGION_CLAIM_UIO_IOCTL])
  have s: "manager_inv sample_cfg ?s" "refs_few ?s" "refs_exact ?s"
    using sample_state_facts(2) sample_state_few sample_state_exact by simp_all
  have env: "ref_kz_ok (claim_env 42)" "ctu_ok (claim_env 42)" "\<forall>n < 10. kz_ok (claim_env 42) n"
    using claim_env_simps(1) [of 42] by (simp_all add: all_succeed_def)
  have v: "cfu_mem_claim (claim_env 42) = Some (sample_claim 42)"
    "version_code_is_compat (mc_version_code (sample_claim 42))" by (simp_all add: sample_claim_def)
  obtain r o1 st1 where c: "memregion_claim_case sample_cfg (claim_env 42) False True ?s = Some (r, o1, st1)"
    "mem_claim_meets ?s (sample_claim 42) r o1 st1" "refs_exact st1" "k_shape st1 = k_shape ?s"
    "cuddlk_event_refs st1 = cuddlk_event_refs ?s"
    "length (cuddlk_mem_refs st1) \<le> Suc (length (cuddlk_mem_refs ?s))"
    using memregion_claim_case_meets [OF s env(1,2) v, of False] by metis
  have "manager_command sample_cfg (claim_env 42) CUDDLCI_MEMREGION_CLAIM_UIO_IOCTL ?s = Some (r, o1, st1)"
    using c(1) by (simp add: manager_command_def)
  from ioctl_runs_command [OF env(3) sample_state_facts(3) this lock_shape [OF c(4)]] k(1)
  have st: "st = set_mutex False st1" "ret = r" by simp_all
  have h: "held_state = st" using k(1) by (simp add: held_state_def)
  show "manager_inv sample_cfg held_state" "k_shape held_state = k_shape sample_state" using k h by simp_all
  show "refs_exact held_state" using c(3) by (simp add: h st(1))
  show "\<not> k_locked held_state" using k_shape_table [OF k(3)] sample_state_facts(3) h by simp
  show "all_named sample_cfg held_state" using all_named_shape [OF k(3) sample_state_named] h by simp
  from sample_lookup obtain m where lk: "lookup_memregion sample_state sample_id = Some (0, 0, m)" "mr_flags m = 0" by blast
  from c(2) lk have hs: "mem_holders st1 = set_holders 0 0 [42] (\<lambda>i j. [])"
    by (simp add: mem_claim_meets_def sample_claim_def spec_claim_def sample_no_holders)
  then show "mem_holders held_state 0 0 = [42]" by (simp add: h st(1) set_holders_def)
  show "refs_few held_state" using c(5,6) by (simp add: h st(1) refs_few_def sample_state_facts(5,6))
qed

theorem memregion_release_refines_witness:
  "\<exists>st'. cuddlk_manager_ioctl sample_cfg (claim_env 42) CUDDLCI_MEMREGION_RELEASE_UIO_IOCTL held_state
      = Some (0, None, st') \<and> mem_holders st' 0 0 = []"
  using memregion_release_refines [OF held_state_facts(1-4), of "claim_env 42" "sample_release 42"
      CUDDLCI_MEMREGION_RELEASE_UIO_IOCTL 0 0]
  by (auto simp: sample_release_def held_state_facts(5) set_holders_def)

lemma eventsrc_release_refines:
  assumes "manager_inv cfg st" "refs_few st" "refs_exact st" "\<not> k_locked st" "\<forall>n < 10. kz_ok env n"
    and "cfu_event_release env = Some ed" "version_code_is_compat (erel_version_code ed)"
    and "cmd = CUDDLCI_EVENTSRC_RELEASE_UIO_IOCTL \<or> cmd = CUDDLCI_EVENTSRC_RELEASE_UDD_IOCTL"
    and "erel_token ed = \<lparr>device_index = i, resource_index = j\<rparr>" "erel_pid ed \<in> set (event_holders st i j)"
  shows "\<exists>st'. cuddlk_manager_ioctl cfg env cmd st = Some (0, None, st') \<and>
    event_holders st' = set_holders i j (remove1 (erel_pid ed) (event_holders st i j)) (event_holders st) \<and>
    refs_exact st' \<and> mem_holders st' = mem_holders st"
proof -
  let ?s = "set_mutex True st"
  have s: "manager_inv cfg ?s" "refs_few ?s" "refs_exact ?s" "erel_pid ed \<in> set (event_holders ?s i j)"
    using assms(1-3,10) by simp_all
  obtain st1 where c: "eventsrc_release_case env ?s = Some (0, None, st1)"
    "event_holders st1 = set_holders i j (remove1 (erel_pid ed) (event_holders ?s i j)) (event_holders ?s)"
    "refs_exact st1" "mem_holders st1 = mem_holders ?s" "k_shape st1 = k_shape ?s"
    using eventsrc_release_case_meets [OF s(1-3) assms(6,7,9) s(4)] by metis
  have "manager_command cfg env cmd ?s = Some (0, None, st1)"
    using assms(8) c(1) by (auto simp: manager_command_def)
  from ioctl_runs_command [OF assms(5,4) this lock_shape [OF c(5)]] c(2-4) show ?thesis by simp
qed

text \<open>C16: an event source that is claimed and then released with the token of the claim, by the
  same process, is held by the same processes as before; nothing else about holders changes, and
  the counts are exact at every moment.\<close>

theorem eventsrc_claim_release_roundtrip:
  assumes "manager_inv cfg st" "refs_few st" "all_named cfg st" "length (cuddlk_event_refs st) < 2 ^ 31 - 2"
    and "refs_exact st" "\<not> k_locked st" "all_succeed env"
    and "cfu_event_claim env = Some ed" "version_code_is_compat (ec_version_code ed)"
    and "cfu_event_release env = Some er" "version_code_is_compat (erel_version_code er)"
    and "lookup_eventsrc st (ec_id ed) = Some (i, j, e)" "event_holders st (int i) (int j) = []"
    and "erel_token er = \<lparr>device_index = int i, resource_index = int j\<rparr>" "erel_pid er = ec_pid ed"
  shows "\<exists>out st1 st2. cuddlk_manager_ioctl cfg env CUDDLCI_EVENTSRC_CLAIM_UIO_IOCTL st = Some (0, out, st1) \<and>
    event_holders st1 = set_holders (int i) (int j) [ec_pid ed] (event_holders st) \<and> refs_exact st1 \<and>
    cuddlk_manager_ioctl cfg env CUDDLCI_EVENTSRC_RELEASE_UIO_IOCTL st1 = Some (0, None, st2) \<and>
    event_holders st2 = event_holders st \<and> mem_holders st2 = mem_holders st \<and> refs_exact st2"
proof -
  let ?s = "set_mutex True st"
  have env: "ref_kz_ok env" "ctu_ok env" "\<forall>n < 10. kz_ok env n" using assms(7) by (simp_all add: all_succeed_def)
  have s: "manager_inv cfg ?s" "refs_few ?s" "refs_exact ?s" using assms(1,2,5) by simp_all
  obtain ret out st1 where c: "eventsrc_claim_case env False True ?s = Some (ret, out, st1)"
    "event_claim_meets ?s ed ret out st1" "refs_exact st1" "mem_holders st1 = mem_holders ?s"
    "k_shape st1 = k_shape ?s" "cuddlk_mem_refs st1 = cuddlk_mem_refs ?s"
    "length (cuddlk_event_refs st1) \<le> Suc (length (cuddlk_event_refs ?s))"
    using eventsrc_claim_case_meets [OF s env(1,2) assms(8,9), of False] by metis
  have m: "manager_command cfg env CUDDLCI_EVENTSRC_CLAIM_UIO_IOCTL ?s = Some (ret, out, st1)"
    using c(1) by (simp add: manager_command_def)
  let ?st1 = "set_mutex False st1"
  note run = ioctl_runs_command [OF env(3) assms(6) m lock_shape [OF c(5)]]
  from c(2) assms(12,13) have h: "ret = 0" "event_holders st1 = set_holders (int i) (int j) [ec_pid ed] (event_holders st)"
    by (simp_all add: event_claim_meets_def spec_claim_def)
  obtain inv1: "manager_inv cfg ?st1" "\<not> k_locked ?st1"
    using manager_ioctl_keeps [OF assms(1-3,6), of env CUDDLCI_EVENTSRC_CLAIM_UIO_IOCTL] run by fastforce
  have few: "refs_few ?st1" using c(6,7) assms(2,4) by (simp add: refs_few_def)
  have ex: "refs_exact ?st1" using c(3) by simp
  have held: "erel_pid er \<in> set (event_holders ?st1 (int i) (int j))"
    using h(2) assms(15) by (simp add: set_holders_def)
  from eventsrc_release_refines [OF inv1(1) few ex inv1(2) env(3) assms(10,11) _ assms(14) held,
      of CUDDLCI_EVENTSRC_RELEASE_UIO_IOCTL]
  obtain st2 where r: "cuddlk_manager_ioctl cfg env CUDDLCI_EVENTSRC_RELEASE_UIO_IOCTL ?st1 = Some (0, None, st2)"
    "event_holders st2 = set_holders (int i) (int j)
       (remove1 (erel_pid er) (event_holders ?st1 (int i) (int j))) (event_holders ?st1)"
    "refs_exact st2" "mem_holders st2 = mem_holders ?st1" by auto
  have "event_holders st2 = event_holders st"
    using r(2) h(2) assms(13,15) by (auto simp: set_holders_def fun_eq_iff)
  with run r h c(3,4) show ?thesis by simp
qed

theorem eventsrc_claim_release_roundtrip_witness:
  "\<exists>out st1 st2. cuddlk_manager_ioctl sample_cfg event_env CUDDLCI_EVENTSRC_CLAIM_UIO_IOCTL sample_state = Some (0, out, st1) \<and>
    cuddlk_manager_ioctl sample_cfg event_env CUDDLCI_EVENTSRC_RELEASE_UIO_IOCTL st1 = Some (0, None, st2) \<and>
    event_holders st1 0 0 = [42] \<and> event_holders st2 0 0 = []"
proof -
  from sample_event_lookup obtain e where
    lk: "lookup_eventsrc sample_state (ec_id sample_event_claim) = Some (0, 0, e)"
    by (auto simp: sample_event_claim_def)
  show ?thesis
    using eventsrc_claim_release_roundtrip [OF sample_state_facts(2) sample_state_few sample_state_named _
        sample_state_exact sample_state_facts(3), of event_env sample_event_claim
        "the (cfu_event_release event_env)" 0 0 e] lk
    by (auto simp: sample_state_facts(6) sample_no_holders set_holders_def event_env_release
        sample_event_claim_ids)
qed

subsection \<open>Requests that are refused\<close>

text \<open>
  The version code in the structure that a command reads: \<open>None\<close> for the commands that
  read none, \<open>Some None\<close> when the copy from the user fails.
\<close>

definition request_version :: "ioctl_env \<Rightarrow> ioctl_cmd \<Rightarrow> c_int option option" where
  "request_version env cmd =
     (case cmd of
        CUDDLCI_MEMREGION_CLAIM_UDD_IOCTL \<Rightarrow> Some (map_option mc_version_code (cfu_mem_claim env))
      | CUDDLCI_MEMREGION_CLAIM_UIO_IOCTL \<Rightarrow> Some (map_option mc_version_code (cfu_mem_claim env))
      | CUDDLCI_GET_MEMREGION_INFO_IOCTL \<Rightarrow> Some (map_option mc_version_code (cfu_mem_claim env))
      | CUDDLCI_EVENTSRC_CLAIM_UDD_IOCTL \<Rightarrow> Some (map_option ec_version_code (cfu_event_claim env))
      | CUDDLCI_EVENTSRC_CLAIM_UIO_IOCTL \<Rightarrow> Some (map_option ec_version_code (cfu_event_claim env))
      | CUDDLCI_GET_EVENTSRC_INFO_IOCTL \<Rightarrow> Some (map_option ec_version_code (cfu_event_claim env))
      | CUDDLCI_MEMREGION_RELEASE_UDD_IOCTL \<Rightarrow> Some (map_option mrel_version_code (cfu_mem_release env))
      | CUDDLCI_MEMREGION_RELEASE_UIO_IOCTL \<Rightarrow> Some (map_option mrel_version_code (cfu_mem_release env))
      | CUDDLCI_EVENTSRC_RELEASE_UDD_IOCTL \<Rightarrow> Some (map_option erel_version_code (cfu_event_release env))
      | CUDDLCI_EVENTSRC_RELEASE_UIO_IOCTL \<Rightarrow> Some (map_option erel_version_code (cfu_event_release env))
      | CUDDLCI_GET_MEMREGION_ID_IOCTL \<Rightarrow> Some (map_option gi_version_code (cfu_get_id env))
      | CUDDLCI_GET_EVENTSRC_ID_IOCTL \<Rightarrow> Some (map_option gi_version_code (cfu_get_id env))
      | CUDDLCI_DECREMENT_MEMREGION_REF_COUNT_IOCTL \<Rightarrow> Some (map_option rc_version_code (cfu_ref_count env))
      | CUDDLCI_GET_MEMREGION_REF_COUNT_IOCTL \<Rightarrow> Some (map_option rc_version_code (cfu_ref_count env))
      | CUDDLCI_DECREMENT_EVENTSRC_REF_COUNT_IOCTL \<Rightarrow> Some (map_option rc_version_code (cfu_ref_count env))
      | CUDDLCI_GET_EVENTSRC_REF_COUNT_IOCTL \<Rightarrow> Some (map_option rc_version_code (cfu_ref_count env))
      | CUDDLCI_GET_KERNEL_COMMIT_ID_IOCTL \<Rightarrow> Some (map_option ci_version_code (cfu_commit env))
      | CUDDLCI_GET_KERNEL_VARIANT_IOCTL \<Rightarrow> Some (map_option ci_version_code (cfu_commit env))
      | CUDDLCI_GET_DRIVER_INFO_IOCTL \<Rightarrow> Some (map_option di_version_code (cfu_driver_info env))
      | CUDDLCI_GET_HW_INFO_IOCTL \<Rightarrow> Some (map_option di_version_code (cfu_driver_info env))
      | CUDDLCI_EVENTSRC_IS_ENABLED_IOCTL \<Rightarrow> Some (map_option ie_version_code (cfu_is_enabled env))
      | CUDDLCI_JANITOR_REGISTER_PID_IOCTL \<Rightarrow> None
      | UNKNOWN_IOCTL _ \<Rightarrow> None
      | _ \<Rightarrow> Some (map_option vd_version_code (cfu_void env)))"

definition refusal :: "ioctl_env \<Rightarrow> ioctl_cmd \<Rightarrow> c_int option" where
  "refusal env cmd =
     (if \<exists>n < 10. \<not> kz_ok env n then Some (- ENOMEM)
      else case request_version env cmd of
        None \<Rightarrow> Some (- ENOSYS)
      | Some None \<Rightarrow> Some (- EOVERFLOW)
      | Some (Some v) \<Rightarrow> if version_code_is_compat v then None else Some (- ENOEXEC))"

lemma command_refuses:
  "request_version env cmd = None \<Longrightarrow> manager_command cfg env cmd st = Some (- ENOSYS, None, st)"
  "request_version env cmd = Some None \<Longrightarrow> manager_command cfg env cmd st = Some (- EOVERFLOW, None, st)"
  "request_version env cmd = Some (Some v) \<Longrightarrow> \<not> version_code_is_compat v \<Longrightarrow>
     manager_command cfg env cmd st = Some (- ENOEXEC, None, st)"
  by (cases cmd; simp add: request_version_def manager_command_def with_user_data_def
      memregion_claim_case_def eventsrc_claim_case_def memregion_release_case_def eventsrc_release_case_def
      constant_case_def memregion_id_case_def eventsrc_id_case_def memregion_ref_count_case_def
      eventsrc_ref_count_case_def commit_id_case_def variant_case_def driver_info_case_def hw_info_case_def
      device_text_case_def is_enabled_case_def)
   (cases cmd; auto simp: request_version_def manager_command_def with_user_data_def
      memregion_claim_case_def eventsrc_claim_case_def memregion_release_case_def eventsrc_release_case_def
      constant_case_def memregion_id_case_def eventsrc_id_case_def memregion_ref_count_case_def
      eventsrc_ref_count_case_def commit_id_case_def variant_case_def driver_info_case_def hw_info_case_def
      device_text_case_def is_enabled_case_def split: option.splits)+

lemma set_mutex_back: "\<not> k_locked st \<Longrightarrow> set_mutex False (set_mutex True st) = st"
  by (simp add: set_mutex_def)

lemma alloc_buffers_fails: "\<exists>n \<in> set l. \<not> ok n \<Longrightarrow> \<exists>freed. alloc_buffers ok held l = Inl freed"
  by (induction l arbitrary: held) auto

lemma request_refused:
  assumes "\<not> k_locked st" "refusal env cmd = Some err"
  shows "cuddlk_manager_ioctl cfg env cmd st = Some (err, None, st)"
proof (cases "\<exists>n < 10. \<not> kz_ok env n")
  case True
  then have "\<exists>n \<in> set [0..<10]. \<not> kz_ok env n" by auto
  from alloc_buffers_fails [OF this, of "[]"] True assms(2) show ?thesis
    by (auto simp: cuddlk_manager_ioctl_def refusal_def)
next
  case False
  let ?s = "set_mutex True st"
  have "manager_command cfg env cmd ?s = Some (err, None, ?s)"
    using False assms(2) command_refuses [where env = env and cmd = cmd and cfg = cfg and st = ?s]
    by (auto simp: refusal_def split: option.splits if_splits)
  moreover have "\<forall>n < 10. kz_ok env n" using False by blast
  ultimately show ?thesis
    using ioctl_runs_command [where env = env and st = st and cfg = cfg and cmd = cmd and st' = ?s] assms(1) by (simp add: set_mutex_back)
qed

text \<open>C30: requests that are refused. When a buffer cannot be allocated, the command reads no
  structure, the copy from the user fails, or the caller's version is not compatible, the call
  returns the documented error, copies nothing to the user, leaves the mutex free and the state
  exactly as it was.\<close>

theorem ioctl_refuses:
  assumes "\<not> k_locked st" "refusal env cmd = Some err"
  shows "cuddlk_manager_ioctl cfg env cmd st = Some (err, None, st)"
  using assms by (rule request_refused)

theorem ioctl_refuses_witness:
  "cuddlk_manager_ioctl sample_cfg quiet_env CUDDLCI_GET_HW_INFO_IOCTL sample_state =
     Some (- EOVERFLOW, None, sample_state)"
  by (rule ioctl_refuses [OF sample_state_facts(3)])
    (simp add: refusal_def request_version_def quiet_env_def)

text \<open>A caller's version is compatible with this kernel exactly when its major number is 0
  or 1, whatever its minor number and revision.\<close>

theorem version_compat_majors:
  assumes "0 \<le> minor" "minor < 256" "0 \<le> revision" "revision < 256"
  shows "version_code_is_compat (CUDDLCI_VERSION major minor revision) \<longleftrightarrow> major = 0 \<or> major = 1"
  unfolding version_code_is_compat_iff CUDDLCI_VERSION_sum [OF assms] using assms by auto

theorem version_compat_majors_witness:
  "version_code_is_compat (CUDDLCI_VERSION 0 9 3) \<and> \<not> version_code_is_compat (CUDDLCI_VERSION 2 0 0)"
  using version_compat_majors [where minor = 9 and revision = 3 and major = 0]
    version_compat_majors [where minor = 0 and revision = 0 and major = 2] by simp

subsection \<open>Asking for information\<close>

text \<open>The information command finds the region a claim would find and describes it with its
  token and length, but claims nothing: the state is exactly the old one.\<close>

theorem memregion_info_reads_only:
  assumes "manager_inv cfg st" "\<not> k_locked st" "all_succeed env"
    and "cfu_mem_claim env = Some md" "version_code_is_compat (mc_version_code md)"
    and "lookup_memregion st (mc_id md) = Some (i, j, m)"
  shows "\<exists>md'. cuddlk_manager_ioctl cfg env CUDDLCI_GET_MEMREGION_INFO_IOCTL st =
      Some (0, Some (Mem_Claim_Data md'), st) \<and>
    mi_token (mc_info md') = \<lparr>device_index = int i, resource_index = int j\<rparr> \<and>
    mi_len (mc_info md') = mr_len m"
proof -
  let ?s = "set_mutex True st"
  have env: "ctu_ok env" "\<forall>n < 10. kz_ok env n" using assms(3) by (simp_all add: all_succeed_def)
  have inv: "manager_inv cfg ?s" using assms(1) by simp
  then show ?thesis
  proof (cases rule: with_memregion_cases [of cfg ?s "mc_id md"])
    case none
    with assms(6) show ?thesis by simp
  next
    case (some i' j' p d)
    with assms(6) have ij: "i' = i" "j' = j" "m = d_mem d ! j" by simp_all
    obtain info where info: "fill_memregion_info cfg False (int i) (int j) d (mc_info md) = Some info"
      "mi_token info = \<lparr>device_index = int i, resource_index = int j\<rparr>"
      by (rule fill_memregion_info_Some [OF some(5), where j = "int j" and rt = False and i = "int i"
            and info = "mc_info md"]) (use some(6) ij in simp_all)
    have "manager_command cfg env CUDDLCI_GET_MEMREGION_INFO_IOCTL ?s =
        Some (0, Some (Mem_Claim_Data (md\<lparr>mc_info := info\<rparr>)), ?s)"
      using assms(4,5) some(2) ij info(1) env
      by (simp add: manager_command_def memregion_claim_case_def memregion_claim_found_def Let_def)
    from ioctl_runs_command [OF env(2) assms(2) this] set_mutex_back [OF assms(2)] info(2)
      fill_memregion_info_len [OF info(1)] ij show ?thesis by simp
  qed
qed

theorem memregion_info_reads_only_witness:
  "\<exists>md'. cuddlk_manager_ioctl sample_cfg (claim_env 42) CUDDLCI_GET_MEMREGION_INFO_IOCTL sample_state =
      Some (0, Some (Mem_Claim_Data md'), sample_state) \<and>
    mi_token (mc_info md') = \<lparr>device_index = 0, resource_index = 0\<rparr>"
proof -
  from sample_lookup obtain m where "lookup_memregion sample_state (mc_id (sample_claim 42)) = Some (0, 0, m)"
    by (auto simp: sample_claim_def)
  from memregion_info_reads_only [OF sample_state_facts(2,3) _ _ _ this, of "claim_env 42"] show ?thesis
    by (simp add: sample_claim_def) auto
qed

text \<open>When the copy to the user fails, the information command takes a reference off the
  region although it had not added one. A region that one process holds is then counted as
  unheld, and the holders and the counts disagree.\<close>

theorem memregion_info_copy_failure:
  assumes "manager_inv cfg st" "refs_exact st" "\<not> k_locked st" "\<forall>n < 10. kz_ok env n" "\<not> ctu_ok env"
    and "cfu_mem_claim env = Some md" "version_code_is_compat (mc_version_code md)"
    and "lookup_memregion st (mc_id md) = Some (i, j, m)" "length (mem_holders st (int i) (int j)) = 1"
  shows "\<exists>st'. cuddlk_manager_ioctl cfg env CUDDLCI_GET_MEMREGION_INFO_IOCTL st = Some (- EOVERFLOW, None, st') \<and>
    mem_holders st' = mem_holders st \<and> \<not> refs_exact st'"
proof -
  let ?s = "set_mutex True st"
  have inv: "manager_inv cfg ?s" using assms(1) by simp
  then show ?thesis
  proof (cases rule: with_memregion_cases [of cfg ?s "mc_id md"])
    case none
    with assms(8) show ?thesis by simp
  next
    case (some i' j' p d)
    with assms(8) have ij: "i' = i" "j' = j" "m = d_mem d ! j" by simp_all
    note s = some(3-7) [unfolded ij(1,2)]
    obtain info where info: "fill_memregion_info cfg False (int i) (int j) d (mc_info md) = Some info"
      by (rule fill_memregion_info_Some [OF s(3), where j = "int j" and rt = False and i = "int i"
            and info = "mc_info md"]) (use s(4) in simp_all)
    have ex: "counts_exact memregion_count cuddlk_mem_refs ?s" "refs_exact ?s"
      using assms(2) by (simp_all add: refs_exact_def [symmetric]) (simp add: refs_exact_def counts_exact_def)
    have own: "uio_dev_owner ?s (mr_uio_ptr (d_mem d ! j)) \<noteq> None" using registered_mem_owner [OF s(2,3,5)] by simp
    have one: "length (holders_of (cuddlk_mem_refs ?s) (int i) (int j)) = 1"
      using assms(9) by (simp add: mem_holders_def)
    obtain st1 where d1: "memregion_decr_ref_count p (int j) ?s = Some (0, st1)"
      "cuddlk_mem_refs st1 = cuddlk_mem_refs ?s" "k_shape st1 = k_shape ?s"
      "get_memregion st1 p (int j) = Some ((d_mem d ! j)\<lparr>mr_ref_count := 0\<rparr>)"
      by (rule mem.stray_decrement [OF ex(1) s(5,1) own one])
    have "manager_command cfg env CUDDLCI_GET_MEMREGION_INFO_IOCTL ?s = Some (- EOVERFLOW, None, st1)"
      using assms(5-7) some(2) ij info d1(1)
      by (simp add: manager_command_def memregion_claim_case_def memregion_claim_found_def Let_def)
    note run = ioctl_runs_command [OF assms(4,3) this lock_shape [OF d1(3)]]
    have at: "device_at st1 (int i) = Some p" using s(1) k_shape_device_at [OF d1(3)] by simp
    have "\<not> refs_exact st1"
    proof
      assume "refs_exact st1"
      then have "counts_exact memregion_count cuddlk_mem_refs st1" by (simp add: refs_exact_def)
      from mem.exact_count [OF this at d1(4)] one d1(2) show False by simp
    qed
    with run d1(2) show ?thesis by (simp add: mem_holders_def)
  qed
qed

lemma held_lookup: "\<exists>m. lookup_memregion held_state sample_id = Some (0, 0, m)"
  using sample_lookup lookup_memregion_shape [OF sample_state_facts(2) held_state_facts(7), of sample_id]
  by auto

theorem memregion_info_copy_failure_witness:
  "\<exists>st'. cuddlk_manager_ioctl sample_cfg ((claim_env 42)\<lparr>ctu_ok := False\<rparr>) CUDDLCI_GET_MEMREGION_INFO_IOCTL held_state
      = Some (- EOVERFLOW, None, st') \<and> mem_holders st' = mem_holders held_state \<and> \<not> refs_exact st'"
proof -
  from held_lookup obtain m where lk: "lookup_memregion held_state (mc_id (sample_claim 42)) = Some (0, 0, m)"
    by (auto simp: sample_claim_def)
  show ?thesis
    by (rule memregion_info_copy_failure [OF held_state_facts(1,3,4) _ _ _ _ lk])
      (simp_all add: claim_env_def quiet_env_def sample_claim_def held_state_facts(5))
qed

subsection \<open>Releases by somebody who holds nothing\<close>

text \<open>A release does not check that the caller holds the region. When another process is the
  only holder, the call returns zero, the count of the region drops to zero while the holder's
  reference stays recorded, and the region is free for the next claim.\<close>

theorem memregion_release_steals:
  assumes "manager_inv cfg st" "refs_exact st" "\<not> k_locked st" "\<forall>n < 10. kz_ok env n"
    and "cfu_mem_release env = Some md" "version_code_is_compat (mrel_version_code md)"
    and "mrel_token md = \<lparr>device_index = i, resource_index = j\<rparr>"
    and "mem_holders st i j = [q]" "mrel_pid md \<noteq> q"
  shows "\<exists>st' p. cuddlk_manager_ioctl cfg env CUDDLCI_MEMREGION_RELEASE_UIO_IOCTL st = Some (0, None, st') \<and>
    mem_holders st' = mem_holders st \<and> device_at st' i = Some p \<and> memregion_count st' p j = Some 0"
proof -
  let ?s = "set_mutex True st" and ?q = "ref_is i j (mrel_pid md)"
  have inv: "manager_inv cfg ?s" using assms(1) by simp
  note ok = manager_invD [OF inv]
  have hs: "holders_of (cuddlk_mem_refs ?s) i j = [q]" using assms(8) by (simp add: mem_holders_def)
  then have "q \<in> set (holders_of (cuddlk_mem_refs ?s) i j)" by simp
  then obtain x where x: "x \<in> set (cuddlk_mem_refs ?s)" "ref_is i j q x" by (auto simp: holder_ref)
  from ok(4) x obtain p m where at: "device_at ?s i = Some p" and m: "get_memregion ?s p j = Some m"
    unfolding refs_ok_def refs_placed_def ref_is_def memregion_count_def by fastforce
  from devices_registeredD [OF ok(3) at] obtain d where d: "k_heap ?s p = Some d" "registered cfg p d" by blast
  have i: "\<not> out_of_range i CUDDLK_MAX_MANAGED_DEVICES"
    using at device_at_iff [OF ok(1)] by (auto simp: out_of_range_def)
  from m d have j: "\<not> out_of_range j CUDDLK_MAX_DEV_MEM_REGIONS"
    by (auto simp: get_memregion_def out_of_range_def registered_def device_named_def dest!: arr_get_SomeD)
  have own: "uio_dev_owner ?s (mr_uio_ptr m) \<noteq> None" using registered_mem_owner [OF d m] by simp
  have ex: "counts_exact memregion_count cuddlk_mem_refs ?s"
    using assms(2) by (simp add: refs_exact_def counts_exact_def)
  obtain st1 where r: "memregion_decr_ref_count p j ?s = Some (0, st1)" "cuddlk_mem_refs st1 = cuddlk_mem_refs ?s"
    "k_shape st1 = k_shape ?s" "get_memregion st1 p j = Some (m\<lparr>mr_ref_count := 0\<rparr>)"
    by (rule mem.stray_decrement [OF ex m at own]) (use hs in auto)
  have "mrel_pid md \<notin> set (holders_of (cuddlk_mem_refs st1) i j)" using hs r(2) assms(9) by simp
  then have keep: "delete_first ?q (cuddlk_mem_refs st1) = (False, cuddlk_mem_refs st1)"
    by (intro delete_first_not_found) (auto simp: holder_ref)
  then have "manager_command cfg env CUDDLCI_MEMREGION_RELEASE_UIO_IOCTL ?s =
      Some (0, None, st1\<lparr>cuddlk_mem_refs := cuddlk_mem_refs st1\<rparr>)"
    using assms(5-7) i j r(1) device_at_arr_get [OF at]
    by (simp add: manager_command_def memregion_release_case_def with_entry_def)
  then have c: "manager_command cfg env CUDDLCI_MEMREGION_RELEASE_UIO_IOCTL ?s = Some (0, None, st1)" by simp
  from ioctl_runs_command [OF assms(4,3) c lock_shape [OF r(3)]] r k_shape_device_at [OF r(3)] at
  show ?thesis by (auto simp: mem_holders_def memregion_count_def)
qed

theorem memregion_release_steals_witness:
  "\<exists>st' p. cuddlk_manager_ioctl sample_cfg (claim_env 7) CUDDLCI_MEMREGION_RELEASE_UIO_IOCTL held_state = Some (0, None, st') \<and>
    mem_holders st' = mem_holders held_state \<and> device_at st' 0 = Some p \<and> memregion_count st' p 0 = Some 0"
  by (rule memregion_release_steals [OF held_state_facts(1,3,4), of "claim_env 7" "sample_release 7" 0 0 42])
    (simp_all add: sample_release_def held_state_facts(5) claim_env_def quiet_env_def)

subsection \<open>Identifiers\<close>





text \<open>The copy of a name takes 256 bytes whatever its length: the bytes that the caller
  receives behind the terminator are those that follow the string in kernel memory.\<close>

theorem name_copy_leaks:
  assumes "length (cstr s) + 1 + k < CUDDLCI_MAX_STR_LEN"
  shows "\<exists>t. memcpy_name env (Some s) = Some t \<and> length t = CUDDLCI_MAX_STR_LEN \<and>
    t ! (length (cstr s) + 1 + k) = beyond env s k"
  using assms by (auto simp: memcpy_name_def nth_append nth_Cons split: nat.splits)

theorem name_copy_leaks_witness:
  "\<exists>t. memcpy_name (quiet_env\<lparr>beyond := (\<lambda>_ _. CHR ''!'')\<rparr>) (Some ''mfg'') = Some t \<and>
    length t = CUDDLCI_MAX_STR_LEN \<and> t ! 255 = CHR ''!''"
  using name_copy_leaks [of "''mfg''" 251 "quiet_env\<lparr>beyond := (\<lambda>_ _. CHR ''!'')\<rparr>"]
  by (simp add: CUDDLCI_MAX_STR_LEN_def)

end
