(* ===== verification/Janitor.thy ===== *)
theory Janitor
  imports Ioctl_Properties
begin

section \<open>The janitor (cuddlk_janitor_linux.c)\<close>

text \<open>
  A process opens the janitor device and registers its process identifier; when the file
  is closed, at the latest when the process ends, the references of that process are
  freed. The state of an open file is its \<^verbatim>\<open>private_data\<close>, a pointer to an allocated
  identifier, together with the number of such allocations that are still alive.
\<close>

record janitor_file =
  private_data :: "pid_t kptr"
  pid_allocs :: nat

text \<open>A file as the kernel creates it, before the driver's \<^verbatim>\<open>open\<close> is called.\<close>

definition new_file :: janitor_file where
  "new_file = \<lparr>private_data = Null, pid_allocs = 0\<rparr>"

definition cuddlk_janitor_open :: "janitor_file \<Rightarrow> c_int \<times> janitor_file" where
  "cuddlk_janitor_open file = (0, file)"

definition cuddlk_janitor_ioctl ::
  "cuddlci_janitor_pid_ioctl_data option \<Rightarrow> bool \<Rightarrow> ioctl_cmd \<Rightarrow> janitor_file \<Rightarrow> c_int \<times> janitor_file" where
  "cuddlk_janitor_ioctl copied kzalloc_ok cmd file =
     (case cmd of
        CUDDLCI_JANITOR_REGISTER_PID_IOCTL \<Rightarrow>
          (case copied of
             None \<Rightarrow> (- EOVERFLOW, file)
           | Some s \<Rightarrow>
               if \<not> kzalloc_ok then (- ENOMEM, file\<lparr>private_data := Null\<rparr>)
               else (0, file\<lparr>private_data := Live (jp_pid s), pid_allocs := pid_allocs file + 1\<rparr>))
      | _ \<Rightarrow> (- ENOSYS, file))"

definition cuddlk_janitor_release :: "janitor_file \<Rightarrow> kstate \<Rightarrow> (c_int \<times> janitor_file \<times> kstate) option" where
  "cuddlk_janitor_release file st =
     (if private_data file = Null then Some (0, file, st)
      else do {
        pid \<leftarrow> deref (private_data file);
        st \<leftarrow> cuddlk_manager_free_refs_for_pid pid st;
        freed \<leftarrow> kfree (private_data file);
        Some (0, file\<lparr>private_data := freed, pid_allocs := pid_allocs file - 1\<rparr>, st)
      })"

subsection \<open>Freeing the references of a process\<close>

context ref_counted
begin

lemma some_decr: "decr p i st = Some (ret, st') \<Longrightarrow> get st q j \<noteq> None \<Longrightarrow> get st' q j \<noteq> None"
  by (auto simp: decr_protocol bind_eq_Some_conv pin_simps get_put split: if_splits)

lemma some_get: "free pid l st = Some (kept, st') \<Longrightarrow> get st q j \<noteq> None \<Longrightarrow> get st' q j \<noteq> None"
proof (induction l arbitrary: st kept)
  case Nil
  then show ?case by (simp add: free_Nil)
next
  case (Cons x l)
  show ?case
  proof (cases "ref_pid x = pid")
    case True
    with Cons.prems(1) obtain p ret st1 where
      "decr p (resource_index (ref_token x)) st = Some (ret, st1)" "free pid l st1 = Some (kept, st')"
      by (auto simp: free_Cons bind_eq_Some_conv)
    with Cons.IH Cons.prems(2) some_decr show ?thesis by blast
  next
    case False
    with Cons.prems(1) obtain kept' where "free pid l st = Some (kept', st')"
      by (auto simp: free_Cons bind_eq_Some_conv)
    with Cons.IH Cons.prems(2) show ?thesis by blast
  qed
qed

lemma free_step:
  assumes b: "counts_bounded cnt refs st" "refs_placed cnt (refs st) st" and d: "occupied_distinct (k_table st)"
    and own: "\<forall>i p j r. device_at st i = Some p \<longrightarrow> get st p j = Some r \<longrightarrow> uio_dev_owner st (uio_ptr r) \<noteq> None"
    and len: "length (refs st) < 2 ^ 31"
  shows "\<exists>st'. free pid (refs st) st = Some (filter (\<lambda>x. ref_pid x \<noteq> pid) (refs st), st') \<and>
    k_shape st' = k_shape st \<and> other st' = other st \<and>
    counts_bounded cnt refs (put_refs (filter (\<lambda>x. ref_pid x \<noteq> pid) (refs st)) st') \<and>
    refs_placed cnt (filter (\<lambda>x. ref_pid x \<noteq> pid) (refs st))
      (put_refs (filter (\<lambda>x. ref_pid x \<noteq> pid) (refs st)) st') \<and>
    (counts_exact cnt refs st \<longrightarrow>
      counts_exact cnt refs (put_refs (filter (\<lambda>x. ref_pid x \<noteq> pid) (refs st)) st'))"
proof -
  let ?kept = "filter (\<lambda>x. ref_pid x \<noteq> pid) (refs st)"
  from free_counts [OF b(2) d own b(1) len, of pid] obtain st' where
    f: "free pid (refs st) st = Some (?kept, st')" "k_shape st' = k_shape st" "other st' = other st"
    "counts_bounded cnt refs (put_refs ?kept st')"
    "counts_exact cnt refs st \<longrightarrow> counts_exact cnt refs (put_refs ?kept st')" by blast
  have "refs_placed cnt ?kept st" using b(2) by (simp add: refs_placed_def)
  then have "refs_placed cnt ?kept (put_refs ?kept st')"
    by (rule placed_shape) (use some_get [OF f(1)] in \<open>simp_all add: shape_put_refs f(2) get_put_refs\<close>)
  with f show ?thesis by blast
qed

end

lemma manager_free_refs_outcome:
  assumes inv: "manager_inv cfg st" "refs_few st" "\<not> k_locked st"
  obtains st' where "cuddlk_manager_free_refs_for_pid pid st = Some st'" "manager_inv cfg st'"
    "k_shape st' = k_shape st"
    "cuddlk_mem_refs st' = filter (\<lambda>x. ref_pid x \<noteq> pid) (cuddlk_mem_refs st)"
    "cuddlk_event_refs st' = filter (\<lambda>x. ref_pid x \<noteq> pid) (cuddlk_event_refs st)"
    "refs_exact st \<Longrightarrow> refs_exact st'"
proof -
  let ?s = "set_mutex True st"
  let ?mem = "filter (\<lambda>x. ref_pid x \<noteq> pid) (cuddlk_mem_refs ?s)"
  have s: "manager_inv cfg ?s" using inv(1) by simp
  note ok = manager_invD [OF s]
  from ok(4) have k: "counts_bounded memregion_count cuddlk_mem_refs ?s"
    "refs_placed memregion_count (cuddlk_mem_refs ?s) ?s" unfolding refs_ok_def by blast+
  have mo: "\<forall>i p j r. device_at ?s i = Some p \<longrightarrow> get_memregion ?s p j = Some r \<longrightarrow>
    uio_dev_owner ?s (mr_uio_ptr r) \<noteq> None"
    using devices_registeredD [OF ok(3)] registered_mem_owner by blast
  have len: "length (cuddlk_mem_refs ?s) < 2 ^ 31" using inv(2) by (simp add: refs_few_def)
  obtain s1 where s1: "free_mem_refs pid (cuddlk_mem_refs ?s) ?s = Some (?mem, s1)" "k_shape s1 = k_shape ?s"
    "(get_eventsrc s1, cuddlk_event_refs s1) = (get_eventsrc ?s, cuddlk_event_refs ?s)"
    and b1: "counts_bounded memregion_count cuddlk_mem_refs (s1\<lparr>cuddlk_mem_refs := ?mem\<rparr>)"
      "refs_placed memregion_count ?mem (s1\<lparr>cuddlk_mem_refs := ?mem\<rparr>)"
    and x1: "counts_exact memregion_count cuddlk_mem_refs ?s \<longrightarrow>
      counts_exact memregion_count cuddlk_mem_refs (s1\<lparr>cuddlk_mem_refs := ?mem\<rparr>)"
    using mem.free_step [OF k ok(2) mo len, where pid = pid] by (elim exE conjE) (rule that)
  define t where "t = s1\<lparr>cuddlk_mem_refs := ?mem\<rparr>"
  have sh1: "k_shape t = k_shape ?s" using s1(2) by (simp add: t_def)
  have o1: "(get_eventsrc t, cuddlk_event_refs t) = (get_eventsrc ?s, cuddlk_event_refs ?s)"
    using s1(3) by (simp add: t_def)
  have "refs_placed memregion_count (cuddlk_mem_refs t) t" using b1(2) by (simp add: t_def)
  then have inv1: "manager_inv cfg t"
    using manager_inv_shape [OF s sh1 mem_other [OF sh1 o1 ok(4)]] b1(1) by (simp add: t_def)
  note ok1 = manager_invD [OF inv1]
  let ?ev = "filter (\<lambda>x. ref_pid x \<noteq> pid) (cuddlk_event_refs t)"
  from ok1(4) have k1: "counts_bounded eventsrc_count cuddlk_event_refs t"
    "refs_placed eventsrc_count (cuddlk_event_refs t) t" unfolding refs_ok_def by blast+
  have eo: "\<forall>i p j r. device_at t i = Some p \<longrightarrow> get_eventsrc t p j = Some r \<longrightarrow>
    uio_dev_owner t (ev_uio_ptr r) \<noteq> None"
    using devices_registeredD [OF ok1(3)] registered_event_owner by blast
  have len1: "length (cuddlk_event_refs t) < 2 ^ 31" using inv(2) o1 by (simp add: refs_few_def)
  obtain s2 where s2: "free_event_refs pid (cuddlk_event_refs t) t = Some (?ev, s2)" "k_shape s2 = k_shape t"
    "(get_memregion s2, cuddlk_mem_refs s2) = (get_memregion t, cuddlk_mem_refs t)"
    and b2: "counts_bounded eventsrc_count cuddlk_event_refs (s2\<lparr>cuddlk_event_refs := ?ev\<rparr>)"
      "refs_placed eventsrc_count ?ev (s2\<lparr>cuddlk_event_refs := ?ev\<rparr>)"
    and x2: "counts_exact eventsrc_count cuddlk_event_refs t \<longrightarrow>
      counts_exact eventsrc_count cuddlk_event_refs (s2\<lparr>cuddlk_event_refs := ?ev\<rparr>)"
    using ev.free_step [OF k1 ok1(2) eo len1, where pid = pid] by (elim exE conjE) (rule that)
  define u where "u = s2\<lparr>cuddlk_event_refs := ?ev\<rparr>"
  have sh2: "k_shape u = k_shape t" using s2(2) by (simp add: u_def)
  have o2: "(get_memregion u, cuddlk_mem_refs u) = (get_memregion t, cuddlk_mem_refs t)"
    using s2(3) by (simp add: u_def)
  have "refs_placed eventsrc_count (cuddlk_event_refs u) u" using b2(2) by (simp add: u_def)
  then have inv2: "manager_inv cfg u"
    using manager_inv_shape [OF inv1 sh2 event_other [OF sh2 o2 ok1(4)]] b2(1) by (simp add: u_def)
  have sh: "k_shape u = k_shape ?s" using sh1 sh2 by simp
  then have lk: "k_locked u" by (rule lock_shape)
  have t': "s1\<lparr>cuddlk_mem_refs := filter (\<lambda>x. ref_pid x \<noteq> pid) (cuddlk_mem_refs st)\<rparr> = t"
    and u': "s2\<lparr>cuddlk_event_refs := ?ev\<rparr> = u"
    and ev': "cuddlk_event_refs s1 = cuddlk_event_refs t" by (simp_all add: t_def u_def)
  have run: "cuddlk_manager_free_refs_for_pid pid st = Some (set_mutex False u)"
    using inv(3) s1(1) s2(1) lk t' u' ev' by (simp add: cuddlk_manager_free_refs_for_pid_def)
  have ex: "refs_exact u" if "refs_exact st"
  proof -
    from that have "refs_exact ?s" by simp
    then have "counts_exact memregion_count cuddlk_mem_refs t" "counts_exact eventsrc_count cuddlk_event_refs t"
      using x1 exact_other_kind(1) [OF sh1 o1] by (simp_all add: refs_exact_def t_def)
    then show ?thesis
      using x2 exact_other_kind(2) [OF sh2 o2] by (simp add: refs_exact_def u_def)
  qed
  show ?thesis
  proof (rule that [OF run])
    show "k_shape (set_mutex False u) = k_shape st" by (rule k_shape_mutex [OF sh inv(3)])
    show "cuddlk_mem_refs (set_mutex False u) = filter (\<lambda>x. ref_pid x \<noteq> pid) (cuddlk_mem_refs st)"
      using o2 by (simp add: t_def)
    show "cuddlk_event_refs (set_mutex False u) = filter (\<lambda>x. ref_pid x \<noteq> pid) (cuddlk_event_refs st)"
      using o1 by (simp add: u_def)
  qed (use inv2 ex in simp_all)
qed


subsection \<open>Freed references\<close>

context ref_counted
begin

lemma decr_shape: "decr p i st = Some (ret, st') \<Longrightarrow> k_shape st' = k_shape st"
  by (auto simp: decr_protocol bind_eq_Some_conv pin_simps put_shape split: if_splits)

lemma free_dangling:
  "x \<in> set l \<Longrightarrow> ref_pid x = pid \<Longrightarrow> device_at st (device_index (ref_token x)) = None \<Longrightarrow> free pid l st = None"
proof (induction l arbitrary: st)
  case (Cons y l)
  show ?case
  proof (cases "ref_pid y = pid")
    case True
    have "free pid l st1 = None"
      if p: "device_at st (device_index (ref_token y)) = Some p"
        and d: "decr p (resource_index (ref_token y)) st = Some (ret, st1)" for p ret st1
      using p Cons.prems Cons.IH k_shape_device_at [OF decr_shape [OF d]] by auto
    with True show ?thesis by (cases "free pid (y # l) st") (auto simp: free_Cons bind_eq_Some_conv)
  next
    case False
    with Cons.prems Cons.IH show ?thesis by (auto simp: free_Cons)
  qed
qed simp

end

subsection \<open>Properties\<close>

text \<open>Closing the janitor file of a process that registered itself removes that process from
  every holder list of regions and of event sources, and no other holder; the counts stay
  exact, the invariant holds, the mutex is free and no device changes otherwise. The
  allocated identifier is freed.\<close>

theorem janitor_release_cleans_up:
  assumes "manager_inv cfg st" "refs_few st" "refs_exact st" "\<not> k_locked st"
    and "private_data file = Live pid"
  shows "\<exists>st'. cuddlk_janitor_release file st =
      Some (0, file\<lparr>private_data := Freed, pid_allocs := pid_allocs file - 1\<rparr>, st') \<and>
    mem_holders st' = (\<lambda>i j. filter (\<lambda>q. q \<noteq> pid) (mem_holders st i j)) \<and>
    event_holders st' = (\<lambda>i j. filter (\<lambda>q. q \<noteq> pid) (event_holders st i j)) \<and>
    refs_exact st' \<and> manager_inv cfg st' \<and> k_shape st' = k_shape st"
proof -
  from manager_free_refs_outcome [OF assms(1,2,4), of pid] obtain st' where
    "cuddlk_manager_free_refs_for_pid pid st = Some st'" "manager_inv cfg st'" "k_shape st' = k_shape st"
    "cuddlk_mem_refs st' = filter (\<lambda>x. ref_pid x \<noteq> pid) (cuddlk_mem_refs st)"
    "cuddlk_event_refs st' = filter (\<lambda>x. ref_pid x \<noteq> pid) (cuddlk_event_refs st)"
    "refs_exact st'" using assms(3) by blast
  then show ?thesis
    using assms(5)
    by (intro exI [of _ st']) (simp add: cuddlk_janitor_release_def mem_holders_def event_holders_def holders_of_free)
qed

theorem janitor_release_cleans_up_witness:
  "\<exists>st'. cuddlk_janitor_release \<lparr>private_data = Live 42, pid_allocs = 1\<rparr> held_state =
      Some (0, \<lparr>private_data = Freed, pid_allocs = 0\<rparr>, st') \<and>
    mem_holders st' 0 0 = [] \<and> refs_exact st'"
  using janitor_release_cleans_up [OF held_state_facts(1-4), of "\<lparr>private_data = Live 42, pid_allocs = 1\<rparr>" 42]
  by (auto simp: held_state_facts(5))

text \<open>A file on which two processes are registered, one after the other, keeps the second
  only. Closing it frees the references of the second alone, those of the first process
  stay (unless both are the same), and one allocated identifier is lost.\<close>

theorem janitor_second_register_replaces:
  assumes "manager_inv cfg st" "refs_few st" "\<not> k_locked st"
    and "cuddlk_janitor_ioctl (Some a) True CUDDLCI_JANITOR_REGISTER_PID_IOCTL new_file = (0, f1)"
    and "cuddlk_janitor_ioctl (Some b) True CUDDLCI_JANITOR_REGISTER_PID_IOCTL f1 = (0, f2)"
  shows "\<exists>f3 st'. cuddlk_janitor_release f2 st = Some (0, f3, st') \<and> pid_allocs f3 = 1 \<and>
    (jp_pid a \<noteq> jp_pid b \<longrightarrow>
      (\<forall>i j. count_list (mem_holders st' i j) (jp_pid a) = count_list (mem_holders st i j) (jp_pid a)))"
proof -
  have f2: "private_data f2 = Live (jp_pid b)" "pid_allocs f2 = 2"
    using assms(4,5) by (auto simp: cuddlk_janitor_ioctl_def new_file_def)
  from manager_free_refs_outcome [OF assms(1-3), of "jp_pid b"] obtain st' where
    free: "cuddlk_manager_free_refs_for_pid (jp_pid b) st = Some st'"
      "cuddlk_mem_refs st' = filter (\<lambda>x. ref_pid x \<noteq> jp_pid b) (cuddlk_mem_refs st)" by blast
  have "count_list (filter (\<lambda>q. q \<noteq> b) l) a = count_list l a" if "a \<noteq> b" for a b :: pid_t and l
    using that by (induction l) auto
  with f2 free show ?thesis
    by (intro exI [of _ "f2\<lparr>private_data := Freed, pid_allocs := 1\<rparr>"] exI [of _ st'])
      (simp add: cuddlk_janitor_release_def mem_holders_def holders_of_free)
qed

theorem janitor_second_register_replaces_witness:
  "\<exists>f3 st'. cuddlk_janitor_release \<lparr>private_data = Live 7, pid_allocs = 2\<rparr> held_state = Some (0, f3, st') \<and>
    pid_allocs f3 = 1 \<and> count_list (mem_holders st' 0 0) 42 = 1"
  using janitor_second_register_replaces [OF held_state_facts(1,2,4),
      of "\<lparr>jp_version_code = 0, jp_pid = 42\<rparr>" "\<lparr>private_data = Live 42, pid_allocs = 1\<rparr>"
         "\<lparr>jp_version_code = 0, jp_pid = 7\<rparr>" "\<lparr>private_data = Live 7, pid_allocs = 2\<rparr>"]
  by (auto simp: cuddlk_janitor_ioctl_def new_file_def held_state_facts(5))

text \<open>C32: a device may be released while a process still holds one of its resources; the list
  keeps that reference, and when the janitor then frees the references of the process it
  follows the empty slot: its behaviour is undefined.\<close>

theorem release_leaves_dangling_references:
  assumes "manager_inv cfg st" "\<not> k_locked st"
    and "device_at st i = Some p" "pid \<in> set (mem_holders st i j)"
  shows "\<exists>ret st'. cuddlk_device_release cfg env p st = Some (ret, st') \<and>
    pid \<in> set (mem_holders st' i j) \<and> cuddlk_manager_free_refs_for_pid pid st' = None"
proof -
  note ok = manager_invD [OF assms(1)]
  from devices_registeredD [OF ok(3) assms(3)] obtain d where d: "k_heap st p = Some d" "registered cfg p d" by blast
  have pm: "\<not> not_managed p st"
    using assms(3) not_managed_at by blast
  obtain k st' d' where r:
    "cuddlk_device_release cfg env p st = Some (if use_udd cfg then udd_unregister_ret env else 0, st')"
    "\<not> k_locked st'" "but_for p st' st" "k_heap st' p = Some d'" "holds_nothing d'" "same_identity d' d"
    "k < CUDDLK_MAX_MANAGED_DEVICES" "k_table st ! k = Some p" "k_table st' = (k_table st)[k := None]"
    by (rule release_outcome [OF ok(1) assms(2) d pm])
  have refs: "cuddlk_mem_refs st' = cuddlk_mem_refs st" using r(3) by (simp add: but_for_def)
  from assms(4) obtain x where x: "x \<in> set (cuddlk_mem_refs st)" "ref_is i j pid x"
    by (auto simp: mem_holders_def holder_ref)
  have "device_at st (int k) = Some p"
    using ok(1) r(7,8) by (simp add: device_at_nth table_len_def)
  then have "i = int k" using device_at_inj [OF ok(2) assms(3)] by blast
  then have "device_at st' i = None"
    using ok(1) r(7,9) by (simp add: device_at_nth table_len_def device_at_def arr_get_def)
  then have "free_mem_refs pid (cuddlk_mem_refs st') (set_mutex True st') = None"
    using mem.free_dangling [of x "cuddlk_mem_refs st'" pid "set_mutex True st'"] x refs
    by (simp add: ref_is_def)
  then have "cuddlk_manager_free_refs_for_pid pid st' = None"
    using r(2) by (simp add: cuddlk_manager_free_refs_for_pid_def)
  with r(1) refs assms(4) show ?thesis by (simp add: mem_holders_def)
qed

theorem release_leaves_dangling_references_witness:
  "\<exists>ret st'. cuddlk_device_release sample_cfg sample_env 1 held_state = Some (ret, st') \<and>
    42 \<in> set (mem_holders st' 0 0) \<and> cuddlk_manager_free_refs_for_pid 42 st' = None"
  using held_state_facts(5) k_shape_device_at [OF held_state_facts(7)] sample_device_at
  by (intro release_leaves_dangling_references [OF held_state_facts(1,4)]) simp_all

end
