(* ===== verification/Module_Init.thy ===== *)
theory Module_Init
  imports Janitor
begin

section \<open>Loading and unloading the two modules (cuddlk_manager_linux.c, cuddlk_janitor_linux.c)\<close>

text \<open>
  Each module registers a character device in four steps, and its clean-up function is a
  \<^verbatim>\<open>switch\<close> whose cases fall through from the last step that succeeded to the first. The
  state records which of the kernel's objects the module holds; destroying one that is not
  held is undefined. What the kernel answers to each step is the environment.
\<close>

record chrdev_objects =
  has_region :: bool   \<comment> \<open>\<^verbatim>\<open>alloc_chrdev_region\<close>\<close>
  has_cdev :: bool     \<comment> \<open>\<^verbatim>\<open>cdev_add\<close>\<close>
  has_class :: bool    \<comment> \<open>\<^verbatim>\<open>class_create\<close>\<close>
  has_device :: bool   \<comment> \<open>\<^verbatim>\<open>device_create\<close>\<close>

record init_env =
  kz_manager :: bool
  alloc_chrdev_ret :: c_int
  cdev_add_ret :: c_int
  class_create_ok :: bool
  device_create_ptr :: "nat option"   \<comment> \<open>\<open>None\<close> is an error pointer\<close>

definition device_destroy :: "'a chrdev_objects_scheme \<Rightarrow> 'a chrdev_objects_scheme option" where
  "device_destroy m = (if has_device m then Some (m\<lparr>has_device := False\<rparr>) else None)"

definition class_destroy :: "'a chrdev_objects_scheme \<Rightarrow> 'a chrdev_objects_scheme option" where
  "class_destroy m = (if has_class m \<and> \<not> has_device m then Some (m\<lparr>has_class := False\<rparr>) else None)"

definition cdev_del :: "'a chrdev_objects_scheme \<Rightarrow> 'a chrdev_objects_scheme option" where
  "cdev_del m = (if has_cdev m then Some (m\<lparr>has_cdev := False\<rparr>) else None)"

definition unregister_chrdev_region :: "'a chrdev_objects_scheme \<Rightarrow> 'a chrdev_objects_scheme option" where
  "unregister_chrdev_region m =
     (if has_region m \<and> \<not> has_cdev m then Some (m\<lparr>has_region := False\<rparr>) else None)"

lemmas chrdev_defs = device_destroy_def class_destroy_def cdev_del_def unregister_chrdev_region_def

subsection \<open>The manager module\<close>

record manager_module = chrdev_objects +
  global_manager_ptr :: "cuddlk_manager kptr"
  m_manager_device :: "nat option"
  m_mem_refs :: "cuddlk_resource_ref list"
  m_event_refs :: "cuddlk_resource_ref list"

datatype cuddlk_manager_init_failure =
    CUDDLK_MGR_FAIL_ALLOC_MANAGER | CUDDLK_MGR_FAIL_ALLOC_CHRDEV | CUDDLK_MGR_FAIL_CDEV_ADD
  | CUDDLK_MGR_FAIL_CLASS_CREATE | CUDDLK_MGR_FAIL_DEVICE_CREATE | CUDDLK_MGR_NO_FAILURE

definition free_manager :: "manager_module \<Rightarrow> manager_module option" where
  "free_manager m = do { p \<leftarrow> kfree (global_manager_ptr m); Some (m\<lparr>global_manager_ptr := p\<rparr>) }"

text \<open>The \<^verbatim>\<open>switch\<close>: a case runs its own statement and those of the cases below it.\<close>

fun manager_unwind :: "cuddlk_manager_init_failure \<Rightarrow> manager_module \<Rightarrow> manager_module option" where
  "manager_unwind CUDDLK_MGR_NO_FAILURE m =
     do { m \<leftarrow> device_destroy m; m \<leftarrow> class_destroy m; m \<leftarrow> cdev_del m;
          m \<leftarrow> unregister_chrdev_region m; free_manager m }"
| "manager_unwind CUDDLK_MGR_FAIL_DEVICE_CREATE m =
     do { m \<leftarrow> class_destroy m; m \<leftarrow> cdev_del m; m \<leftarrow> unregister_chrdev_region m; free_manager m }"
| "manager_unwind CUDDLK_MGR_FAIL_CLASS_CREATE m =
     do { m \<leftarrow> cdev_del m; m \<leftarrow> unregister_chrdev_region m; free_manager m }"
| "manager_unwind CUDDLK_MGR_FAIL_CDEV_ADD m = do { m \<leftarrow> unregister_chrdev_region m; free_manager m }"
| "manager_unwind CUDDLK_MGR_FAIL_ALLOC_CHRDEV m = free_manager m"
| "manager_unwind CUDDLK_MGR_FAIL_ALLOC_MANAGER m = Some m"

definition cuddlk_manager_cleanup ::
  "cuddlk_manager_init_failure \<Rightarrow> manager_module \<Rightarrow> (c_int \<times> manager_module) option" where
  "cuddlk_manager_cleanup failure m = do {
     m \<leftarrow> manager_unwind failure m;
     Some (0, m\<lparr>global_manager_ptr := Null, m_manager_device := None\<rparr>)
   }"

text \<open>\<^verbatim>\<open>goto handle_failure\<close>: the result of the clean-up is dropped.\<close>

definition manager_fail ::
  "c_int \<Rightarrow> cuddlk_manager_init_failure \<Rightarrow> manager_module \<Rightarrow> (c_int \<times> manager_module) option" where
  "manager_fail ret failure m = do { (_, m) \<leftarrow> cuddlk_manager_cleanup failure m; Some (ret, m) }"

definition cuddlk_manager_init :: "init_env \<Rightarrow> manager_module \<Rightarrow> (c_int \<times> manager_module) option" where
  "cuddlk_manager_init env m0 =
     (let m = m0\<lparr>m_mem_refs := [], m_event_refs := []\<rparr> in
      if \<not> kz_manager env then
        manager_fail (- ENOMEM) CUDDLK_MGR_FAIL_ALLOC_MANAGER (m\<lparr>global_manager_ptr := Null\<rparr>)
      else let m = m\<lparr>global_manager_ptr := Live zero_manager\<rparr> in
      if alloc_chrdev_ret env < 0 then manager_fail (alloc_chrdev_ret env) CUDDLK_MGR_FAIL_ALLOC_CHRDEV m
      else let m = m\<lparr>has_region := True\<rparr> in
      if cdev_add_ret env < 0 then manager_fail (cdev_add_ret env) CUDDLK_MGR_FAIL_CDEV_ADD m
      else let m = m\<lparr>has_cdev := True\<rparr> in
      if \<not> class_create_ok env then manager_fail (- ENODEV) CUDDLK_MGR_FAIL_CLASS_CREATE m
      else let m = m\<lparr>has_class := True, m_manager_device := device_create_ptr env\<rparr> in
      if device_create_ptr env = None then manager_fail (- ENODEV) CUDDLK_MGR_FAIL_DEVICE_CREATE m
      else Some (0, m\<lparr>has_device := True\<rparr>))"

text \<open>The loops of the exit function free every entry of the two lists.\<close>

fun fallback_clean_up :: "cuddlk_resource_ref list \<Rightarrow> cuddlk_resource_ref list" where
  "fallback_clean_up [] = []"
| "fallback_clean_up (pos # rest) = fallback_clean_up rest"

lemma fallback_clean_up_all [simp]: "fallback_clean_up l = []"
  by (induction l) simp_all

definition cuddlk_manager_exit :: "manager_module \<Rightarrow> manager_module option" where
  "cuddlk_manager_exit m = do {
     let m = m\<lparr>m_mem_refs := fallback_clean_up (m_mem_refs m)\<rparr>;
     let m = m\<lparr>m_event_refs := fallback_clean_up (m_event_refs m)\<rparr>;
     (_, m) \<leftarrow> cuddlk_manager_cleanup CUDDLK_MGR_NO_FAILURE m;
     Some m
   }"

subsection \<open>The janitor module\<close>

datatype cuddlk_janitor_init_failure =
    CUDDLK_JANITOR_FAIL_ALLOC_CHRDEV | CUDDLK_JANITOR_FAIL_CDEV_ADD
  | CUDDLK_JANITOR_FAIL_CLASS_CREATE | CUDDLK_JANITOR_FAIL_DEVICE_CREATE | CUDDLK_JANITOR_NO_FAILURE

fun janitor_unwind :: "cuddlk_janitor_init_failure \<Rightarrow> chrdev_objects \<Rightarrow> chrdev_objects option" where
  "janitor_unwind CUDDLK_JANITOR_NO_FAILURE m =
     do { m \<leftarrow> device_destroy m; m \<leftarrow> class_destroy m; m \<leftarrow> cdev_del m; unregister_chrdev_region m }"
| "janitor_unwind CUDDLK_JANITOR_FAIL_DEVICE_CREATE m =
     do { m \<leftarrow> class_destroy m; m \<leftarrow> cdev_del m; unregister_chrdev_region m }"
| "janitor_unwind CUDDLK_JANITOR_FAIL_CLASS_CREATE m =
     do { m \<leftarrow> cdev_del m; unregister_chrdev_region m }"
| "janitor_unwind CUDDLK_JANITOR_FAIL_CDEV_ADD m = unregister_chrdev_region m"
| "janitor_unwind CUDDLK_JANITOR_FAIL_ALLOC_CHRDEV m = Some m"

definition cuddlk_janitor_cleanup ::
  "cuddlk_janitor_init_failure \<Rightarrow> chrdev_objects \<Rightarrow> (c_int \<times> chrdev_objects) option" where
  "cuddlk_janitor_cleanup failure m = do { m \<leftarrow> janitor_unwind failure m; Some (0, m) }"

definition janitor_fail ::
  "c_int \<Rightarrow> cuddlk_janitor_init_failure \<Rightarrow> chrdev_objects \<Rightarrow> (c_int \<times> chrdev_objects) option" where
  "janitor_fail ret failure m = do { (_, m) \<leftarrow> cuddlk_janitor_cleanup failure m; Some (ret, m) }"

definition cuddlk_janitor_init :: "init_env \<Rightarrow> chrdev_objects \<Rightarrow> (c_int \<times> chrdev_objects) option" where
  "cuddlk_janitor_init env m =
     (if alloc_chrdev_ret env < 0 then janitor_fail (alloc_chrdev_ret env) CUDDLK_JANITOR_FAIL_ALLOC_CHRDEV m
      else let m = m\<lparr>has_region := True\<rparr> in
      if cdev_add_ret env < 0 then janitor_fail (cdev_add_ret env) CUDDLK_JANITOR_FAIL_CDEV_ADD m
      else let m = m\<lparr>has_cdev := True\<rparr> in
      if \<not> class_create_ok env then janitor_fail (- ENODEV) CUDDLK_JANITOR_FAIL_CLASS_CREATE m
      else let m = m\<lparr>has_class := True\<rparr> in
      if device_create_ptr env = None then janitor_fail (- ENODEV) CUDDLK_JANITOR_FAIL_DEVICE_CREATE m
      else Some (0, m\<lparr>has_device := True\<rparr>))"

definition cuddlk_janitor_exit :: "chrdev_objects \<Rightarrow> chrdev_objects option" where
  "cuddlk_janitor_exit m = do { (_, m) \<leftarrow> cuddlk_janitor_cleanup CUDDLK_JANITOR_NO_FAILURE m; Some m }"

subsection \<open>The contract of a module\<close>

text \<open>
  An idle module can be loaded; a load that fails leaves it idle, a load that succeeds
  leaves it in a state from which it can be unloaded, which makes it idle again.
\<close>

locale kernel_module =
  fixes init :: "'e \<Rightarrow> 's \<Rightarrow> (c_int \<times> 's) option"
    and exit_mod :: "'s \<Rightarrow> 's option"
    and idle :: "'s \<Rightarrow> bool"
    and up :: "'s \<Rightarrow> bool"
  assumes init_done: "idle s \<Longrightarrow> \<exists>ret s'. init e s = Some (ret, s') \<and> (if ret = 0 then up s' else idle s')"
    and exit_done: "up s \<Longrightarrow> \<exists>s'. exit_mod s = Some s' \<and> idle s'"
begin

text \<open>A module is loaded and, if that succeeded, unloaded, once for every environment.\<close>

fun cycles :: "'e list \<Rightarrow> 's \<Rightarrow> 's option" where
  "cycles [] s = Some s"
| "cycles (e # es) s = do {
     (ret, s) \<leftarrow> init e s;
     s \<leftarrow> (if ret = 0 then exit_mod s else Some s);
     cycles es s
   }"

lemma cycles_idle: "idle s \<Longrightarrow> \<exists>s'. cycles es s = Some s' \<and> idle s'"
proof (induction es arbitrary: s)
  case (Cons e es)
  from init_done [OF Cons.prems, of e] obtain ret s1 where
    i: "init e s = Some (ret, s1)" "if ret = 0 then up s1 else idle s1" by blast
  show ?case
  proof (cases "ret = 0")
    case True
    with i(2) exit_done obtain s2 where "exit_mod s1 = Some s2" "idle s2" by auto
    with i True Cons.IH show ?thesis by simp
  next
    case False
    with i Cons.IH show ?thesis by simp
  qed
qed simp

end

subsection \<open>Both modules keep the contract\<close>

definition no_objects :: "'a chrdev_objects_scheme \<Rightarrow> bool" where
  "no_objects m \<longleftrightarrow> \<not> has_region m \<and> \<not> has_cdev m \<and> \<not> has_class m \<and> \<not> has_device m"

definition all_objects :: "'a chrdev_objects_scheme \<Rightarrow> bool" where
  "all_objects m \<longleftrightarrow> has_region m \<and> has_cdev m \<and> has_class m \<and> has_device m"

definition manager_idle :: "manager_module \<Rightarrow> bool" where
  "manager_idle m \<longleftrightarrow> no_objects m \<and> global_manager_ptr m = Null \<and> m_manager_device m = None \<and>
     m_mem_refs m = [] \<and> m_event_refs m = []"

definition manager_up :: "manager_module \<Rightarrow> bool" where
  "manager_up m \<longleftrightarrow> all_objects m \<and> (\<exists>mgr. global_manager_ptr m = Live mgr) \<and> m_manager_device m \<noteq> None"

lemma manager_fail_idle:
  assumes "case failure of
      CUDDLK_MGR_FAIL_ALLOC_MANAGER \<Rightarrow> no_objects m
    | CUDDLK_MGR_FAIL_ALLOC_CHRDEV \<Rightarrow> no_objects m \<and> global_manager_ptr m \<noteq> Freed
    | CUDDLK_MGR_FAIL_CDEV_ADD \<Rightarrow> no_objects (m\<lparr>has_region := False\<rparr>) \<and> has_region m \<and> global_manager_ptr m \<noteq> Freed
    | CUDDLK_MGR_FAIL_CLASS_CREATE \<Rightarrow> has_region m \<and> has_cdev m \<and> \<not> has_class m \<and> \<not> has_device m \<and>
        global_manager_ptr m \<noteq> Freed
    | CUDDLK_MGR_FAIL_DEVICE_CREATE \<Rightarrow> has_region m \<and> has_cdev m \<and> has_class m \<and> \<not> has_device m \<and>
        global_manager_ptr m \<noteq> Freed
    | CUDDLK_MGR_NO_FAILURE \<Rightarrow> all_objects m \<and> global_manager_ptr m \<noteq> Freed"
    and "m_mem_refs m = []" "m_event_refs m = []"
  shows "\<exists>m'. cuddlk_manager_cleanup failure m = Some (0, m') \<and> manager_idle m'"
  using assms
  by (cases failure; cases "global_manager_ptr m")
    (auto simp: cuddlk_manager_cleanup_def chrdev_defs free_manager_def manager_idle_def no_objects_def all_objects_def)


text \<open>The kernel accepts every step.\<close>

definition accepts :: "init_env \<Rightarrow> bool" where
  "accepts env \<longleftrightarrow> alloc_chrdev_ret env \<ge> 0 \<and> cdev_add_ret env \<ge> 0 \<and> class_create_ok env \<and>
     device_create_ptr env \<noteq> None"

lemma manager_fail_outcome:
  assumes "\<exists>m'. cuddlk_manager_cleanup failure m = Some (0, m') \<and> manager_idle m'"
  shows "\<exists>m'. manager_fail ret failure m = Some (ret, m') \<and> manager_idle m'"
  using assms by (auto simp: manager_fail_def)

definition loaded_manager :: "init_env \<Rightarrow> manager_module \<Rightarrow> manager_module" where
  "loaded_manager env m = m\<lparr>has_region := True, has_cdev := True, has_class := True, has_device := True,
     global_manager_ptr := Live zero_manager, m_manager_device := device_create_ptr env,
     m_mem_refs := [], m_event_refs := []\<rparr>"

lemma manager_init_outcome:
  assumes "manager_idle m"
  shows "if kz_manager env \<and> accepts env then cuddlk_manager_init env m = Some (0, loaded_manager env m)
    else \<exists>ret m'. cuddlk_manager_init env m = Some (ret, m') \<and> ret < 0 \<and> manager_idle m'"
proof (cases "kz_manager env \<and> accepts env")
  case True
  then show ?thesis
    by (auto simp: cuddlk_manager_init_def accepts_def Let_def loaded_manager_def)
next
  case False
  note fail = manager_fail_outcome [OF manager_fail_idle]
  have neg: "- ENOMEM < 0" "- ENODEV < 0" by simp_all
  let ?m = "m\<lparr>m_mem_refs := [], m_event_refs := []\<rparr>"
  let ?m0 = "?m\<lparr>global_manager_ptr := Live zero_manager\<rparr>"
  consider (alloc) "\<not> kz_manager env" | (region) "kz_manager env" "alloc_chrdev_ret env < 0"
    | (cdev) "kz_manager env" "\<not> alloc_chrdev_ret env < 0" "cdev_add_ret env < 0"
    | (cls) "kz_manager env" "\<not> alloc_chrdev_ret env < 0" "\<not> cdev_add_ret env < 0" "\<not> class_create_ok env"
    | (dev) "kz_manager env" "\<not> alloc_chrdev_ret env < 0" "\<not> cdev_add_ret env < 0" "class_create_ok env"
        "device_create_ptr env = None"
    using False unfolding accepts_def by linarith
  then have "\<exists>ret m'. cuddlk_manager_init env m = Some (ret, m') \<and> ret < 0 \<and> manager_idle m'"
  proof cases
    case alloc
    with assms fail [where failure = CUDDLK_MGR_FAIL_ALLOC_MANAGER and m = "?m\<lparr>global_manager_ptr := Null\<rparr>" and ret = "- ENOMEM"] neg show ?thesis
      by (auto simp: cuddlk_manager_init_def manager_idle_def no_objects_def)
  next
    case region
    with assms fail [where failure = CUDDLK_MGR_FAIL_ALLOC_CHRDEV and m = ?m0 and ret = "alloc_chrdev_ret env"] show ?thesis
      by (auto simp: cuddlk_manager_init_def manager_idle_def no_objects_def Let_def)
  next
    case cdev
    with assms fail [where failure = CUDDLK_MGR_FAIL_CDEV_ADD and m = "?m0\<lparr>has_region := True\<rparr>" and ret = "cdev_add_ret env"] show ?thesis
      by (auto simp: cuddlk_manager_init_def manager_idle_def no_objects_def Let_def)
  next
    case cls
    with assms neg fail [where failure = CUDDLK_MGR_FAIL_CLASS_CREATE and m = "?m0\<lparr>has_region := True, has_cdev := True\<rparr>" and ret = "- ENODEV"]
    show ?thesis by (auto simp: cuddlk_manager_init_def manager_idle_def no_objects_def Let_def)
  next
    case dev
    with assms neg fail [where failure = CUDDLK_MGR_FAIL_DEVICE_CREATE and m = "?m0\<lparr>has_region := True, has_cdev := True, has_class := True, m_manager_device := None\<rparr>" and ret = "- ENODEV"]
    show ?thesis by (auto simp: cuddlk_manager_init_def manager_idle_def no_objects_def Let_def)
  qed
  with False show ?thesis by (simp only: if_False)
qed

lemma loaded_manager_up: "accepts env \<Longrightarrow> manager_up (loaded_manager env m)"
  by (simp add: manager_up_def loaded_manager_def all_objects_def accepts_def)

lemma manager_exit_outcome:
  assumes "manager_up m"
  shows "\<exists>m'. cuddlk_manager_exit m = Some m' \<and> manager_idle m'"
proof -
  from assms obtain mgr where "all_objects m" "global_manager_ptr m = Live mgr" by (auto simp: manager_up_def)
  then have "\<exists>m'. cuddlk_manager_cleanup CUDDLK_MGR_NO_FAILURE (m\<lparr>m_mem_refs := [], m_event_refs := []\<rparr>) =
      Some (0, m') \<and> manager_idle m'"
    by (intro manager_fail_idle) (simp_all add: all_objects_def)
  then show ?thesis by (auto simp: cuddlk_manager_exit_def)
qed

interpretation manager_mod: kernel_module cuddlk_manager_init cuddlk_manager_exit manager_idle manager_up
proof
  fix e s
  assume s: "manager_idle s"
  show "\<exists>ret s'. cuddlk_manager_init e s = Some (ret, s') \<and> (if ret = 0 then manager_up s' else manager_idle s')"
  proof (cases "kz_manager e \<and> accepts e")
    case True
    with manager_init_outcome [OF s, of e] loaded_manager_up [of e s] show ?thesis by simp
  next
    case False
    with manager_init_outcome [OF s, of e] obtain ret s' where
      "cuddlk_manager_init e s = Some (ret, s')" "ret < 0" "manager_idle s'" by auto
    then show ?thesis by (intro exI [of _ ret] exI [of _ s']) simp
  qed
qed (rule manager_exit_outcome)

definition loaded_janitor :: chrdev_objects where
  "loaded_janitor = \<lparr>has_region = True, has_cdev = True, has_class = True, has_device = True\<rparr>"

lemma janitor_init_outcome:
  assumes "no_objects m"
  shows "if accepts env then cuddlk_janitor_init env m = Some (0, loaded_janitor)
    else \<exists>ret m'. cuddlk_janitor_init env m = Some (ret, m') \<and> ret < 0 \<and> no_objects m'"
  using assms
  by (cases m) (auto simp: cuddlk_janitor_init_def janitor_fail_def cuddlk_janitor_cleanup_def chrdev_defs Let_def
      no_objects_def accepts_def loaded_janitor_def)

interpretation janitor_mod: kernel_module cuddlk_janitor_init cuddlk_janitor_exit no_objects all_objects
proof
  fix e and s :: chrdev_objects
  assume "no_objects s"
  note outcome = janitor_init_outcome [OF this, of e]
  show "\<exists>ret s'. cuddlk_janitor_init e s = Some (ret, s') \<and> (if ret = 0 then all_objects s' else no_objects s')"
  proof (cases "accepts e")
    case True
    with outcome show ?thesis by (simp add: loaded_janitor_def all_objects_def)
  next
    case False
    with outcome obtain ret s' where
      "cuddlk_janitor_init e s = Some (ret, s')" "ret < 0" "no_objects s'" by auto
    then show ?thesis by (intro exI [of _ ret] exI [of _ s']) simp
  qed
next
  fix s :: chrdev_objects
  assume "all_objects s"
  then show "\<exists>s'. cuddlk_janitor_exit s = Some s' \<and> no_objects s'"
    by (auto simp: cuddlk_janitor_exit_def cuddlk_janitor_cleanup_def chrdev_defs all_objects_def no_objects_def)
qed

subsection \<open>Properties\<close>

text \<open>The state of the running manager, over a given heap of devices and module use counts.\<close>

definition running :: "manager_module \<Rightarrow> (dptr \<rightharpoonup> cuddlk_device) \<Rightarrow> (nat \<Rightarrow> c_int) \<Rightarrow> kstate option" where
  "running m heap modrefs = do {
     mgr \<leftarrow> deref (global_manager_ptr m);
     Some \<lparr>k_heap = heap, cuddlk_global_manager = mgr, cuddlk_mem_refs = m_mem_refs m,
       cuddlk_event_refs = m_event_refs m, k_modrefs = modrefs, cuddlk_manager_device = m_manager_device m\<rparr>
   }"

text \<open>C25: loading the manager module either succeeds, exactly when every step of the kernel does,
  and then the manager that starts to run satisfies the invariant with an empty table, no
  reference, a free mutex and a parent device for registrations; or it returns a negative
  error, every object it had created is destroyed again (in an order the kernel allows)
  and both pointers are null.\<close>

theorem manager_init_all_or_nothing:
  assumes "manager_idle m"
  shows "\<exists>ret m'. cuddlk_manager_init env m = Some (ret, m') \<and>
    (ret = 0 \<longleftrightarrow> kz_manager env \<and> accepts env) \<and>
    (if ret = 0 then all_objects m' \<and>
       (\<exists>st. running m' heap modrefs = Some st \<and> manager_inv cfg st \<and> refs_exact st \<and> \<not> k_locked st \<and>
         k_table st = replicate CUDDLK_MAX_MANAGED_DEVICES None \<and> cuddlk_manager_device st \<noteq> None)
     else ret < 0 \<and> no_objects m' \<and> global_manager_ptr m' = Null \<and> m_manager_device m' = None)"
proof (cases "kz_manager env \<and> accepts env")
  case True
  let ?m = "loaded_manager env m"
  let ?st = "\<lparr>k_heap = heap, cuddlk_global_manager = zero_manager, cuddlk_mem_refs = [],
    cuddlk_event_refs = [], k_modrefs = modrefs, cuddlk_manager_device = device_create_ptr env\<rparr>"
  have none: "device_at ?st i = None" for i
    by (auto simp: device_at_def zero_manager_def arr_get_def)
  have "manager_inv cfg ?st"
    using none by (simp add: manager_inv_def devices_registered_def refs_ok_def table_len_def
        occupied_distinct_def zero_manager_def counts_bounded_def refs_placed_def)
  moreover have "refs_exact ?st" using none by (simp add: refs_exact_def counts_exact_def)
  moreover have "running ?m heap modrefs = Some ?st" by (simp add: running_def loaded_manager_def)
  ultimately show ?thesis
    using True manager_init_outcome [OF assms, of env]
    by (intro exI [of _ 0] exI [of _ ?m])
      (auto simp: zero_manager_def accepts_def loaded_manager_def all_objects_def)
next
  case False
  with manager_init_outcome [OF assms, of env] obtain ret m' where
    "cuddlk_manager_init env m = Some (ret, m')" "ret < 0" "manager_idle m'" by auto
  with False show ?thesis by (intro exI [of _ ret] exI [of _ m']) (simp add: manager_idle_def)
qed

definition unloaded_manager :: manager_module where
  "unloaded_manager = \<lparr>has_region = False, has_cdev = False, has_class = False, has_device = False,
     global_manager_ptr = Null, m_manager_device = None, m_mem_refs = [], m_event_refs = []\<rparr>"

definition good_init :: init_env where
  "good_init = \<lparr>kz_manager = True, alloc_chrdev_ret = 0, cdev_add_ret = 0, class_create_ok = True,
     device_create_ptr = Some 1\<rparr>"

lemma unloaded_idle: "manager_idle unloaded_manager"
  by (simp add: unloaded_manager_def manager_idle_def no_objects_def)

theorem manager_init_all_or_nothing_witness:
  "\<exists>m'. cuddlk_manager_init good_init unloaded_manager = Some (0, m') \<and> all_objects m' \<and>
     (\<exists>m2. cuddlk_manager_init (good_init\<lparr>class_create_ok := False\<rparr>) unloaded_manager = Some (- ENODEV, m2) \<and>
       no_objects m2)"
proof -
  have a: "accepts good_init" "\<not> accepts (good_init\<lparr>class_create_ok := False\<rparr>)" "kz_manager good_init"
    by (simp_all add: accepts_def good_init_def)
  have "fst (the (cuddlk_manager_init (good_init\<lparr>class_create_ok := False\<rparr>) unloaded_manager)) = - ENODEV"
    by (simp add: cuddlk_manager_init_def good_init_def unloaded_manager_def manager_fail_def
        cuddlk_manager_cleanup_def chrdev_defs free_manager_def)
  with a manager_init_all_or_nothing [OF unloaded_idle, of good_init "\<lambda>_. None" "\<lambda>_. 0" sample_cfg]
    manager_init_all_or_nothing [OF unloaded_idle, of "good_init\<lparr>class_create_ok := False\<rparr>" "\<lambda>_. None" "\<lambda>_. 0" sample_cfg]
  show ?thesis by auto
qed

text \<open>C31: loading and unloading both modules, in whatever way the kernel answers, any number of
  times, never destroys an object that is not there and never frees the manager twice, and
  ends with no object of either module left.\<close>

theorem modules_reload:
  assumes "manager_idle m" "no_objects j"
  shows "\<exists>m' j'. manager_mod.cycles envs m = Some m' \<and> manager_idle m' \<and>
    janitor_mod.cycles envs' j = Some j' \<and> no_objects j'"
  using manager_mod.cycles_idle [OF assms(1), of envs] janitor_mod.cycles_idle [OF assms(2), of envs'] by blast

theorem modules_reload_witness:
  "\<exists>m' j'. manager_mod.cycles [good_init, good_init\<lparr>cdev_add_ret := - EBUSY\<rparr>] unloaded_manager = Some m' \<and>
    manager_idle m' \<and> janitor_mod.cycles [good_init]
      \<lparr>has_region = False, has_cdev = False, has_class = False, has_device = False\<rparr> = Some j' \<and> no_objects j'"
  by (rule modules_reload [OF unloaded_idle]) (simp add: no_objects_def)

end
