(* ===== verification/User_Types.thy ===== *)
theory User_Types
  imports Common_Types C_Strings "HOL-Library.Signed_Division"
begin

section \<open>User space: data and the operating system (memregion.h, eventsrc.h, impl\_linux.h)\<close>

text \<open>
  The structures of the user-space library and the system calls it makes. The operating
  system is not part of the program: \<open>'s posix\<close> is the record of the calls the library
  uses, over a state \<open>'s\<close> of everything outside the library, and every function of the
  library takes one. A call returns its result and \<^verbatim>\<open>errno\<close> as POSIX has it
  (\<open>-1\<close> with a positive \<^verbatim>\<open>errno\<close> on failure), and is undefined (\<open>None\<close>) when what
  the kernel does is undefined. The theory \<open>Linux_System\<close> gives a system whose
  \<^verbatim>\<open>ioctl\<close> is the handlers of the kernel modules.

  The \<open>stack_\<close> fields are the bytes of a local variable that a function reads or passes
  on without having written them.
\<close>

subsection \<open>Structures\<close>

record cuddl_memregion =
  um_region_addr :: ulong
  um_region_len :: size_t
  um_region_flags :: c_int
  um_priv_pa_addr :: ulong
  um_priv_pa_len :: size_t
  um_priv_fd :: c_int
  um_priv_token :: cuddlci_token

record cuddl_eventsrc =
  ue_flags :: c_int
  ue_priv_fd :: c_int
  ue_priv_token :: cuddlci_token

text \<open>\<^verbatim>\<open>fd_set\<close> is a set of descriptors below \<^verbatim>\<open>FD_SETSIZE\<close>.\<close>

definition FD_SETSIZE :: c_int where
  "FD_SETSIZE = 1024"

type_synonym fd_set = "c_int set"

definition FD_SET :: "c_int \<Rightarrow> fd_set \<Rightarrow> fd_set option" where
  "FD_SET fd fds = (if 0 \<le> fd \<and> fd < FD_SETSIZE then Some (insert fd fds) else None)"

definition FD_CLR :: "c_int \<Rightarrow> fd_set \<Rightarrow> fd_set option" where
  "FD_CLR fd fds = (if 0 \<le> fd \<and> fd < FD_SETSIZE then Some (fds - {fd}) else None)"

definition FD_ISSET :: "c_int \<Rightarrow> fd_set \<Rightarrow> bool option" where
  "FD_ISSET fd fds = (if 0 \<le> fd \<and> fd < FD_SETSIZE then Some (fd \<in> fds) else None)"

lemmas fd_defs = FD_SET_def FD_CLR_def FD_ISSET_def

record cuddl_eventsrcset =
  es_fds :: fd_set
  es_max_fd :: c_int

record cuddl_timespec =
  tv_sec :: int
  tv_nsec :: int

record timeval =
  tval_sec :: int
  tval_usec :: int

definition timeval_of :: "cuddl_timespec \<Rightarrow> timeval" where
  "timeval_of timeout = \<lparr>tval_sec = tv_sec timeout, tval_usec = tv_nsec timeout sdiv 1000\<rparr>"

subsection \<open>System calls\<close>

record 's posix =
  sys_open :: "string \<Rightarrow> 's \<Rightarrow> (c_int \<times> c_int \<times> 's) option"
  sys_close :: "c_int \<Rightarrow> 's \<Rightarrow> (c_int \<times> c_int \<times> 's) option"
  sys_ioctl :: "c_int \<Rightarrow> ioctl_cmd \<Rightarrow> ioctl_payload \<Rightarrow> 's \<Rightarrow> (c_int \<times> c_int \<times> ioctl_payload \<times> 's) option"
  sys_mmap :: "size_t \<Rightarrow> c_int \<Rightarrow> size_t \<Rightarrow> 's \<Rightarrow> (ulong \<times> c_int \<times> 's) option"
  sys_munmap :: "ulong \<Rightarrow> size_t \<Rightarrow> 's \<Rightarrow> (c_int \<times> c_int \<times> 's) option"
  sys_read :: "c_int \<Rightarrow> 32 word \<Rightarrow> 's \<Rightarrow> (c_int \<times> c_int \<times> 32 word \<times> 's) option"
  sys_write :: "c_int \<Rightarrow> 32 word \<Rightarrow> 's \<Rightarrow> (c_int \<times> c_int \<times> 's) option"
  sys_select :: "c_int \<Rightarrow> fd_set \<Rightarrow> timeval \<Rightarrow> 's \<Rightarrow> (c_int \<times> c_int \<times> fd_set \<times> 's) option"
  sys_getpid :: "'s \<Rightarrow> pid_t"
  stack_id :: "'s \<Rightarrow> cuddl_resource_id"
  stack_meminfo :: "'s \<Rightarrow> cuddl_memregion_info"
  stack_eventinfo :: "'s \<Rightarrow> cuddl_eventsrc_info"
  stack_options :: "'s \<Rightarrow> c_int"
  stack_text :: "'s \<Rightarrow> string"

text \<open>How the library was built: for Xenomai or not, and from which commit.\<close>

record ucfg =
  xeno :: bool
  u_commit_hash :: string
  u_repo_is_dirty :: bool

definition CUDDLCI_MEMREGION_CLAIM_IOCTL :: "ucfg \<Rightarrow> ioctl_cmd" where
  "CUDDLCI_MEMREGION_CLAIM_IOCTL cfg =
     (if xeno cfg then CUDDLCI_MEMREGION_CLAIM_UDD_IOCTL else CUDDLCI_MEMREGION_CLAIM_UIO_IOCTL)"

definition CUDDLCI_EVENTSRC_CLAIM_IOCTL :: "ucfg \<Rightarrow> ioctl_cmd" where
  "CUDDLCI_EVENTSRC_CLAIM_IOCTL cfg =
     (if xeno cfg then CUDDLCI_EVENTSRC_CLAIM_UDD_IOCTL else CUDDLCI_EVENTSRC_CLAIM_UIO_IOCTL)"

definition CUDDLCI_MEMREGION_RELEASE_IOCTL :: "ucfg \<Rightarrow> ioctl_cmd" where
  "CUDDLCI_MEMREGION_RELEASE_IOCTL cfg =
     (if xeno cfg then CUDDLCI_MEMREGION_RELEASE_UDD_IOCTL else CUDDLCI_MEMREGION_RELEASE_UIO_IOCTL)"

definition CUDDLCI_EVENTSRC_RELEASE_IOCTL :: "ucfg \<Rightarrow> ioctl_cmd" where
  "CUDDLCI_EVENTSRC_RELEASE_IOCTL cfg =
     (if xeno cfg then CUDDLCI_EVENTSRC_RELEASE_UDD_IOCTL else CUDDLCI_EVENTSRC_RELEASE_UIO_IOCTL)"

lemmas user_cmd_defs = CUDDLCI_MEMREGION_CLAIM_IOCTL_def CUDDLCI_EVENTSRC_CLAIM_IOCTL_def
  CUDDLCI_MEMREGION_RELEASE_IOCTL_def CUDDLCI_EVENTSRC_RELEASE_IOCTL_def

subsection \<open>Calls to the manager\<close>

text \<open>
  The two shapes that the functions of the library have: open the manager, make one
  request, close it. A value call returns the result of the request; a data call returns
  zero and hands on what the kernel wrote, or the error (then nothing is handed on). The
  data of a request that succeeded is handed on even when the close fails.
\<close>

definition manager_value_call ::
  "'s posix \<Rightarrow> ioctl_cmd \<Rightarrow> ioctl_payload \<Rightarrow> 's \<Rightarrow> (c_int \<times> 's) option" where
  "manager_value_call os cmd p s = do {
     (fd, errno, s) \<leftarrow> sys_open os ''/dev/cuddl'' s;
     if fd = - 1 then Some (- errno, s)
     else do {
       (ret, errno, p', s) \<leftarrow> sys_ioctl os fd cmd p s;
       let ret = (if ret = - 1 \<and> errno \<noteq> 0 then - errno else ret);
       (ret2, errno, s) \<leftarrow> sys_close os fd s;
       if ret2 = - 1 \<and> ret \<ge> 0 then Some (- errno, s) else Some (ret, s)
     }
   }"

definition manager_data_call ::
  "'s posix \<Rightarrow> ioctl_cmd \<Rightarrow> ioctl_payload \<Rightarrow> 's \<Rightarrow> (c_int \<times> ioctl_payload option \<times> 's) option" where
  "manager_data_call os cmd p s = do {
     (fd, errno, s) \<leftarrow> sys_open os ''/dev/cuddl'' s;
     if fd = - 1 then Some (- errno, None, s)
     else do {
       (ret, errno, p', s) \<leftarrow> sys_ioctl os fd cmd p s;
       if ret \<noteq> 0 then do {
         let ret = (if ret = - 1 \<and> errno \<noteq> 0 then - errno else ret);
         (_, _, s) \<leftarrow> sys_close os fd s;
         Some (ret, None, s)
       }
       else do {
         (ret, errno, s) \<leftarrow> sys_close os fd s;
         if ret = - 1 then Some (- errno, Some p', s) else Some (0, Some p', s)
       }
     }
   }"

subsection \<open>What the library relies on\<close>

text \<open>
  \<open>open_fds\<close> is the table of open descriptors of the process, \<open>fine\<close> the states in which
  the kernel's code is defined. POSIX promises that \<^verbatim>\<open>open\<close> returns a descriptor that
  was not in use or fails without opening one; Linux closes the descriptor even when
  \<^verbatim>\<open>close\<close> reports an error; the other calls leave the table alone. An \<^verbatim>\<open>ioctl\<close>
  writes back the structure it was given.
\<close>

fun payload_kind :: "ioctl_payload \<Rightarrow> nat" where
  "payload_kind (Void_Data _) = 0"
| "payload_kind (Mem_Claim_Data _) = 1"
| "payload_kind (Event_Claim_Data _) = 2"
| "payload_kind (Mem_Release_Data _) = 3"
| "payload_kind (Event_Release_Data _) = 4"
| "payload_kind (Get_Id_Data _) = 5"
| "payload_kind (Ref_Count_Data _) = 6"
| "payload_kind (Janitor_Pid_Data _) = 7"
| "payload_kind (Commit_Id_Data _) = 8"
| "payload_kind (Driver_Info_Data _) = 9"
| "payload_kind (Is_Enabled_Data _) = 10"

text \<open>A step of the system that leaves the descriptors \<open>fds\<close> open.\<close>

definition leaves :: "('s \<Rightarrow> c_int set) \<Rightarrow> ('s \<Rightarrow> bool) \<Rightarrow> c_int set \<Rightarrow> 's \<Rightarrow> bool" where
  "leaves open_fds fine fds s \<longleftrightarrow> fine s \<and> open_fds s = fds"

locale posix_files =
  fixes os :: "'s posix"
    and open_fds :: "'s \<Rightarrow> c_int set"
    and fine :: "'s \<Rightarrow> bool"
  assumes open_file: "fine s \<Longrightarrow> \<exists>fd errno s'. sys_open os path s = Some (fd, errno, s') \<and>
      (fd = - 1 \<and> 0 < errno \<and> leaves open_fds fine (open_fds s) s' \<or>
       0 \<le> fd \<and> fd \<notin> open_fds s \<and> leaves open_fds fine (insert fd (open_fds s)) s')"
    and close_file: "fine s \<Longrightarrow> fd \<in> open_fds s \<Longrightarrow> \<exists>ret errno s'. sys_close os fd s = Some (ret, errno, s') \<and>
      (ret = 0 \<or> ret = - 1 \<and> 0 < errno) \<and> leaves open_fds fine (open_fds s - {fd}) s'"
    and ioctl_file: "fine s \<Longrightarrow> fd \<in> open_fds s \<Longrightarrow> \<exists>ret errno p' s'. sys_ioctl os fd cmd p s = Some (ret, errno, p', s') \<and>
      payload_kind p' = payload_kind p \<and> leaves open_fds fine (open_fds s) s'"
    and mmap_file: "fine s \<Longrightarrow> fd \<in> open_fds s \<Longrightarrow> \<exists>addr errno s'. sys_mmap os len fd offset s = Some (addr, errno, s') \<and>
      (addr = - 1 \<longrightarrow> 0 < errno) \<and> leaves open_fds fine (open_fds s) s'"
    and munmap_file: "fine s \<Longrightarrow> \<exists>ret errno s'. sys_munmap os addr len s = Some (ret, errno, s') \<and>
      leaves open_fds fine (open_fds s) s'"
    and read_file: "fine s \<Longrightarrow> \<exists>ret errno v s'. sys_read os fd buf s = Some (ret, errno, v, s') \<and>
      leaves open_fds fine (open_fds s) s'"
    and write_file: "fine s \<Longrightarrow> \<exists>ret errno s'. sys_write os fd v s = Some (ret, errno, s') \<and>
      leaves open_fds fine (open_fds s) s'"
    and select_files: "fine s \<Longrightarrow> \<exists>ret errno ready s'. sys_select os n fds tv s = Some (ret, errno, ready, s') \<and>
      ready \<subseteq> fds \<and> leaves open_fds fine (open_fds s) s'"
begin

lemma value_call_total:
  assumes "fine s"
  shows "\<exists>ret s'. manager_value_call os cmd p s = Some (ret, s') \<and> leaves open_fds fine (open_fds s) s'"
proof -
  from open_file [OF assms, of "''/dev/cuddl''"] obtain fd e s1 where
    o: "sys_open os ''/dev/cuddl'' s = Some (fd, e, s1)"
    "fd = - 1 \<and> 0 < e \<and> leaves open_fds fine (open_fds s) s1 \<or>
     0 \<le> fd \<and> fd \<notin> open_fds s \<and> leaves open_fds fine (insert fd (open_fds s)) s1" by blast
  show ?thesis
  proof (cases "fd = - 1")
    case True
    with o show ?thesis by (auto simp: manager_value_call_def)
  next
    case False
    with o(2) have fd: "fd \<notin> open_fds s" "fine s1" "open_fds s1 = insert fd (open_fds s)"
      by (auto simp: leaves_def)
    then obtain ret e2 p' s2 where i: "sys_ioctl os fd cmd p s1 = Some (ret, e2, p', s2)"
      "fine s2" "open_fds s2 = insert fd (open_fds s)"
      using ioctl_file [of s1 fd cmd p] by (auto simp: leaves_def)
    then obtain ret2 e3 s3 where c: "sys_close os fd s2 = Some (ret2, e3, s3)" "fine s3"
      "open_fds s3 = open_fds s"
      using close_file [of s2 fd] fd(1) by (auto simp: leaves_def)
    from o(1) False i(1) c show ?thesis by (auto simp: manager_value_call_def leaves_def Let_def)
  qed
qed

lemma data_call_total:
  assumes "fine s"
  shows "\<exists>ret out s'. manager_data_call os cmd p s = Some (ret, out, s') \<and>
    (ret = 0 \<longrightarrow> out \<noteq> None) \<and> (\<forall>p'. out = Some p' \<longrightarrow> payload_kind p' = payload_kind p) \<and>
    leaves open_fds fine (open_fds s) s'"
proof -
  from open_file [OF assms, of "''/dev/cuddl''"] obtain fd e s1 where
    o: "sys_open os ''/dev/cuddl'' s = Some (fd, e, s1)"
    "fd = - 1 \<and> 0 < e \<and> leaves open_fds fine (open_fds s) s1 \<or>
     0 \<le> fd \<and> fd \<notin> open_fds s \<and> leaves open_fds fine (insert fd (open_fds s)) s1" by blast
  show ?thesis
  proof (cases "fd = - 1")
    case True
    with o show ?thesis by (auto simp: manager_data_call_def)
  next
    case False
    with o(2) have fd: "fd \<notin> open_fds s" "fine s1" "open_fds s1 = insert fd (open_fds s)"
      by (auto simp: leaves_def)
    then obtain ret e2 p' s2 where i: "sys_ioctl os fd cmd p s1 = Some (ret, e2, p', s2)"
      "payload_kind p' = payload_kind p" "fine s2" "open_fds s2 = insert fd (open_fds s)"
      using ioctl_file [of s1 fd cmd p] by (auto simp: leaves_def)
    then obtain ret2 e3 s3 where c: "sys_close os fd s2 = Some (ret2, e3, s3)" "fine s3"
      "open_fds s3 = open_fds s" "ret2 = 0 \<or> ret2 = - 1 \<and> 0 < e3"
      using close_file [of s2 fd] fd(1) by (auto simp: leaves_def)
    from o(1) False i(1,2) c show ?thesis by (auto simp: manager_data_call_def leaves_def Let_def)
  qed
qed

end

text \<open>With at most \<open>FD_SETSIZE\<close> descriptors, an \<^verbatim>\<open>fd_set\<close> can hold each of them.\<close>

locale small_files = posix_files +
  assumes fds_small: "fine s \<Longrightarrow> fd \<in> open_fds s \<Longrightarrow> 0 \<le> fd \<and> fd < FD_SETSIZE"

end
