(* ===== verification/Ioctl_Frame.thy ===== *)
theory Ioctl_Frame
  imports Ioctl_Properties User_Types
begin

section \<open>What a request can change: list lengths and the structure written back\<close>

text \<open>
  Two facts about every command that need no invariant: a request adds at most one entry to
  each list of references, and none when the allocation of an entry fails; and it writes
  back a structure of the kind it has read.
\<close>

definition fits :: "ioctl_env \<Rightarrow> ioctl_payload \<Rightarrow> bool" where
  "fits env q \<longleftrightarrow>
     (case q of
        Mem_Claim_Data _ \<Rightarrow> cfu_mem_claim env \<noteq> None
      | Event_Claim_Data _ \<Rightarrow> cfu_event_claim env \<noteq> None
      | Get_Id_Data _ \<Rightarrow> cfu_get_id env \<noteq> None
      | Commit_Id_Data _ \<Rightarrow> cfu_commit env \<noteq> None
      | Driver_Info_Data _ \<Rightarrow> cfu_driver_info env \<noteq> None
      | _ \<Rightarrow> False)"

definition list_room :: "ioctl_env \<Rightarrow> nat" where
  "list_room env = (if ref_kz_ok env then 1 else 0)"

definition frame :: "ioctl_env \<Rightarrow> kstate \<Rightarrow> ioctl_result \<Rightarrow> bool" where
  "frame env st res \<longleftrightarrow>
     (\<forall>ret out st'. res = Some (ret, out, st') \<longrightarrow>
        length (cuddlk_mem_refs st') \<le> length (cuddlk_mem_refs st) + list_room env \<and>
        length (cuddlk_event_refs st') \<le> length (cuddlk_event_refs st) + list_room env \<and>
        (\<forall>q. out = Some q \<longrightarrow> fits env q))"

lemma frame_None [simp]: "frame env st None"
  by (simp add: frame_def)

lemma frame_same [simp]: "frame env st (Some (ret, None, st))"
  by (simp add: frame_def)

lemma frame_bind: "(\<And>x. r = Some x \<Longrightarrow> frame env st (f x)) \<Longrightarrow> frame env st (Option.bind r f)"
  by (cases r) simp_all

lemma frame_user_data:
  "(\<And>d. copied = Some d \<Longrightarrow> frame env st (body d)) \<Longrightarrow> frame env st (with_user_data copied vc st body)"
  by (cases copied) (simp_all add: with_user_data_def)

lemma frame_entry: "(\<And>p. frame env st (body p)) \<Longrightarrow> frame env st (with_entry st i body)"
  unfolding with_entry_def by (rule frame_bind) (simp split: option.split)

lemma frame_memregion: "(\<And>i j p d. frame env st (body i j p d)) \<Longrightarrow> frame env st (with_memregion st rid body)"
  unfolding with_memregion_def by (intro frame_bind) (simp add: frame_bind)

lemma frame_eventsrc: "(\<And>i j p d. frame env st (body i j p d)) \<Longrightarrow> frame env st (with_eventsrc st rid body)"
  unfolding with_eventsrc_def by (intro frame_bind) (simp add: frame_bind)

lemma frame_copy_result: "fits env q \<Longrightarrow> frame env st (copy_result env q st)"
  by (simp add: copy_result_def frame_def)

text \<open>Claims and decrements leave both lists alone.\<close>

definition same_lists :: "kstate \<Rightarrow> kstate \<Rightarrow> bool" where
  "same_lists st' st \<longleftrightarrow> cuddlk_mem_refs st' = cuddlk_mem_refs st \<and> cuddlk_event_refs st' = cuddlk_event_refs st"

lemma same_lists_pin:
  "same_lists (case owner of None \<Rightarrow> st' | Some m \<Rightarrow> try_module_get ok m st') st = same_lists st' st"
  "same_lists (case owner of None \<Rightarrow> st' | Some m \<Rightarrow> module_put m st') st = same_lists st' st"
  by (simp_all add: same_lists_def try_module_get_def module_put_def split: option.split)

lemma same_lists_put:
  "same_lists (put_memregion p i m st) st" "same_lists (put_eventsrc p i e st) st" "same_lists st st"
  by (simp_all add: same_lists_def)

lemma counting_lists:
  "memregion_claim ok p i h st = Some (ret, st') \<Longrightarrow> same_lists st' st"
  "eventsrc_claim ok p i h st = Some (ret, st') \<Longrightarrow> same_lists st' st"
  "memregion_decr_ref_count p i st = Some (ret, st') \<Longrightarrow> same_lists st' st"
  "eventsrc_decr_ref_count p i st = Some (ret, st') \<Longrightarrow> same_lists st' st"
  by (auto simp: memregion_claim_def eventsrc_claim_def memregion_decr_ref_count_def eventsrc_decr_ref_count_def
      bind_eq_Some_conv Let_def same_lists_pin same_lists_put split: if_splits)

lemma frame_claim_found:
  "cfu_mem_claim env \<noteq> None \<Longrightarrow> frame env st (memregion_claim_found cfg env rt claim md st i j p d)"
  "cfu_event_claim env \<noteq> None \<Longrightarrow> frame env st (eventsrc_claim_found env rt claim ed st i j p d)"
  by (auto simp: memregion_claim_found_def eventsrc_claim_found_def frame_def bind_eq_Some_conv fits_def
      list_room_def same_lists_def Let_def split: if_splits dest!: counting_lists)

lemma frame_claim_case:
  "frame env st (memregion_claim_case cfg env rt claim st)" "frame env st (eventsrc_claim_case env rt claim st)"
  unfolding memregion_claim_case_def eventsrc_claim_case_def
  by (intro frame_user_data frame_memregion frame_eventsrc frame_claim_found; simp)+

lemma frame_decr_delete:
  "frame env st (do { (r, st) \<leftarrow> memregion_decr_ref_count p j st;
     Some (0, None, st\<lparr>cuddlk_mem_refs := snd (delete_first P (cuddlk_mem_refs st))\<rparr>) })"
  "frame env st (do { (r, st) \<leftarrow> eventsrc_decr_ref_count p j st;
     Some (0, None, st\<lparr>cuddlk_event_refs := snd (delete_first P (cuddlk_event_refs st))\<rparr>) })"
  by (auto simp: frame_def bind_eq_Some_conv same_lists_def dest!: counting_lists
      intro: trans_le_add1 [OF length_delete_first])

lemma frame_release_case:
  "frame env st (memregion_release_case env st)" "frame env st (eventsrc_release_case env st)"
  unfolding memregion_release_case_def eventsrc_release_case_def Let_def
  by (intro frame_user_data; auto intro!: frame_entry frame_decr_delete)+

lemma frame_id_case:
  "frame env st (memregion_id_case cfg env st)" "frame env st (eventsrc_id_case cfg env st)"
  unfolding memregion_id_case_def eventsrc_id_case_def Let_def
  by (intro frame_user_data; auto intro!: frame_entry frame_bind frame_copy_result simp: fits_def)+

lemma frame_ref_count_case:
  "frame env st (memregion_ref_count_case env decrement st)"
  "frame env st (eventsrc_ref_count_case env decrement st)"
  unfolding memregion_ref_count_case_def eventsrc_ref_count_case_def
  by (intro frame_user_data frame_memregion frame_eventsrc;
      auto simp: frame_def bind_eq_Some_conv same_lists_def dest!: counting_lists)+

lemma frame_text_cases:
  "frame env st (commit_id_case cfg env st)" "frame env st (variant_case cfg env st)"
  "frame env st (driver_info_case env st)" "frame env st (hw_info_case env st)"
  unfolding commit_id_case_def variant_case_def driver_info_case_def hw_info_case_def device_text_case_def Let_def
  by (intro frame_user_data; auto intro!: frame_entry frame_bind frame_copy_result simp: fits_def)+

lemma frame_other_cases:
  "frame env st (constant_case env n st)" "frame env st (is_enabled_case env st)"
  unfolding constant_case_def is_enabled_case_def Let_def
  by (intro frame_user_data; auto intro!: frame_entry frame_bind split: option.split)+

lemma manager_command_frame: "frame env st (manager_command cfg env cmd st)"
  by (cases cmd) (simp_all add: manager_command_def frame_claim_case frame_release_case frame_id_case
      frame_ref_count_case frame_text_cases frame_other_cases)

lemma manager_ioctl_frame:
  assumes "cuddlk_manager_ioctl cfg env cmd st = Some (ret, out, st')"
  shows "length (cuddlk_mem_refs st') \<le> length (cuddlk_mem_refs st) + list_room env"
    "length (cuddlk_event_refs st') \<le> length (cuddlk_event_refs st) + list_room env"
    "out = Some q \<Longrightarrow> fits env q"
proof -
  have "frame env st (Some (ret, out, st'))"
  proof (cases "alloc_buffers (kz_ok env) [] [0..<10]")
    case (Inl freed)
    with assms show ?thesis by (simp add: cuddlk_manager_ioctl_def)
  next
    case (Inr held)
    with assms obtain st1 where "manager_command cfg env cmd (set_mutex True st) = Some (ret, out, st1)"
      "st' = set_mutex False st1"
      by (auto simp: cuddlk_manager_ioctl_def bind_eq_Some_conv cuddlk_manager_lock_def
          cuddlk_manager_unlock_def split: if_splits)
    with manager_command_frame [of env "set_mutex True st" cfg cmd] show ?thesis by (simp add: frame_def)
  qed
  then show "length (cuddlk_mem_refs st') \<le> length (cuddlk_mem_refs st) + list_room env"
    "length (cuddlk_event_refs st') \<le> length (cuddlk_event_refs st) + list_room env"
    "out = Some q \<Longrightarrow> fits env q"
    by (auto simp: frame_def)
qed

end
