(* ===== verification/User_Resources.thy ===== *)
theory User_Resources
  imports User_Types
begin

section \<open>User space: memory regions, event sources and queries (cuddl\_linux.c)\<close>

text \<open>
  The functions that claim, map, open, release and describe resources, in the order of the
  source. A function with an output parameter takes its old value and returns the new one.
\<close>

subsection \<open>Names\<close>

definition populate_name :: "string \<Rightarrow> string option \<Rightarrow> string" where
  "populate_name field arg =
     (case arg of Some name \<Rightarrow> strncpy field name (CUDDLCI_MAX_STR_LEN - 1) | None \<Rightarrow> field[0 := NUL])"

definition populate_id_from_args ::
  "cuddl_resource_id \<Rightarrow> string option \<Rightarrow> string option \<Rightarrow> string option \<Rightarrow> c_int \<Rightarrow> cuddl_resource_id" where
  "populate_id_from_args rid grp device resource inst =
     rid\<lparr>id_group := populate_name (id_group rid) grp,
         id_device := populate_name (id_device rid) device,
         id_resource := populate_name (id_resource rid) resource,
         id_instance := inst\<rparr>"

subsection \<open>Memory regions\<close>

definition cuddl_memregion_claim ::
  "ucfg \<Rightarrow> 's posix \<Rightarrow> cuddl_memregion_info \<Rightarrow> string option \<Rightarrow> string option \<Rightarrow> string option \<Rightarrow> c_int \<Rightarrow> c_int \<Rightarrow> 's
     \<Rightarrow> (c_int \<times> cuddl_memregion_info \<times> 's) option" where
  "cuddl_memregion_claim cfg os meminfo grp device memregion inst options s = do {
     let req = \<lparr>mc_version_code = CUDDL_VERSION_CODE,
       mc_id = populate_id_from_args (stack_id os s) grp device memregion inst,
       mc_info = stack_meminfo os s, mc_pid = sys_getpid os s, mc_options = options\<rparr>;
     (ret, out, s) \<leftarrow> manager_data_call os (CUDDLCI_MEMREGION_CLAIM_IOCTL cfg) (Mem_Claim_Data req) s;
     case out of
       None \<Rightarrow> Some (ret, meminfo, s)
     | Some (Mem_Claim_Data req) \<Rightarrow> Some (ret, mc_info req, s)
     | _ \<Rightarrow> None
   }"

definition cuddli_memregion_release_by_token ::
  "ucfg \<Rightarrow> 's posix \<Rightarrow> cuddlci_token \<Rightarrow> 's \<Rightarrow> (c_int \<times> 's) option" where
  "cuddli_memregion_release_by_token cfg os token s = do {
     let req = \<lparr>mrel_version_code = CUDDL_VERSION_CODE, mrel_token = token, mrel_pid = sys_getpid os s\<rparr>;
     (ret, _, s) \<leftarrow> manager_data_call os (CUDDLCI_MEMREGION_RELEASE_IOCTL cfg) (Mem_Release_Data req) s;
     Some (ret, s)
   }"

definition cuddl_memregion_release ::
  "ucfg \<Rightarrow> 's posix \<Rightarrow> cuddl_memregion_info \<Rightarrow> 's \<Rightarrow> (c_int \<times> 's) option" where
  "cuddl_memregion_release cfg os meminfo s = cuddli_memregion_release_by_token cfg os (mi_token meminfo) s"

definition cuddl_memregion_map ::
  "'s posix \<Rightarrow> cuddl_memregion \<Rightarrow> cuddl_memregion_info \<Rightarrow> c_int \<Rightarrow> 's \<Rightarrow> (c_int \<times> cuddl_memregion \<times> 's) option" where
  "cuddl_memregion_map os memregion meminfo options s = do {
     (fd, errno, s) \<leftarrow> sys_open os (cstr (mi_device_name meminfo)) s;
     if fd < 0 then Some (- errno, memregion, s)
     else do {
       (addr, errno, s) \<leftarrow> sys_mmap os (mi_pa_len meminfo) fd (mi_pa_mmap_offset meminfo) s;
       if addr = - 1 then do {
         let ret = - errno;
         (_, _, s) \<leftarrow> sys_close os fd s;
         Some (ret, memregion, s)
       }
       else Some (0, memregion\<lparr>um_priv_fd := fd, um_priv_pa_len := mi_pa_len meminfo,
         um_priv_pa_addr := addr, um_region_addr := addr + mi_start_offset meminfo,
         um_region_len := mi_len meminfo, um_region_flags := mi_flags meminfo,
         um_priv_token := mi_token meminfo\<rparr>, s)
     }
   }"

definition cuddl_memregion_unmap :: "'s posix \<Rightarrow> cuddl_memregion \<Rightarrow> 's \<Rightarrow> (c_int \<times> 's) option" where
  "cuddl_memregion_unmap os memregion s = do {
     (err, errno, s) \<leftarrow> sys_munmap os (um_priv_pa_addr memregion) (um_priv_pa_len memregion) s;
     let ret = (if err = - 1 then - errno else 0);
     (err, errno, s) \<leftarrow> sys_close os (um_priv_fd memregion) s;
     Some (if err = - 1 \<and> ret = 0 then - errno else ret, s)
   }"

text \<open>The claimed information of the local variable starts as whatever the stack holds.\<close>

definition cuddl_memregion_claim_and_map ::
  "ucfg \<Rightarrow> 's posix \<Rightarrow> cuddl_memregion \<Rightarrow> string option \<Rightarrow> string option \<Rightarrow> string option \<Rightarrow> c_int \<Rightarrow> c_int \<Rightarrow> c_int \<Rightarrow> 's
     \<Rightarrow> (c_int \<times> cuddl_memregion \<times> 's) option" where
  "cuddl_memregion_claim_and_map cfg os memregion grp device resource inst claim_options map_options s = do {
     (ret, meminfo, s) \<leftarrow> cuddl_memregion_claim cfg os (stack_meminfo os s) grp device resource inst claim_options s;
     if ret \<noteq> 0 then Some (ret, memregion, s)
     else do {
       (ret, memregion, s) \<leftarrow> cuddl_memregion_map os memregion meminfo map_options s;
       if ret \<noteq> 0 then do {
         (_, s) \<leftarrow> cuddl_memregion_release cfg os meminfo s;
         Some (ret, memregion, s)
       }
       else Some (ret, memregion, s)
     }
   }"

definition cuddl_memregion_unmap_and_release ::
  "ucfg \<Rightarrow> 's posix \<Rightarrow> cuddl_memregion \<Rightarrow> 's \<Rightarrow> (c_int \<times> 's) option" where
  "cuddl_memregion_unmap_and_release cfg os memregion s = do {
     (ret1, s) \<leftarrow> cuddl_memregion_unmap os memregion s;
     (ret2, s) \<leftarrow> cuddli_memregion_release_by_token cfg os (um_priv_token memregion) s;
     Some (if ret1 \<noteq> 0 then ret1 else ret2, s)
   }"

subsection \<open>Event sources\<close>

definition cuddl_eventsrc_claim ::
  "ucfg \<Rightarrow> 's posix \<Rightarrow> cuddl_eventsrc_info \<Rightarrow> string option \<Rightarrow> string option \<Rightarrow> string option \<Rightarrow> c_int \<Rightarrow> c_int \<Rightarrow> 's
     \<Rightarrow> (c_int \<times> cuddl_eventsrc_info \<times> 's) option" where
  "cuddl_eventsrc_claim cfg os eventinfo grp device eventsrc inst options s = do {
     let req = \<lparr>ec_version_code = CUDDL_VERSION_CODE,
       ec_id = populate_id_from_args (stack_id os s) grp device eventsrc inst,
       ec_info = stack_eventinfo os s, ec_pid = sys_getpid os s, ec_options = options\<rparr>;
     (ret, out, s) \<leftarrow> manager_data_call os (CUDDLCI_EVENTSRC_CLAIM_IOCTL cfg) (Event_Claim_Data req) s;
     case out of
       None \<Rightarrow> Some (ret, eventinfo, s)
     | Some (Event_Claim_Data req) \<Rightarrow> Some (ret, ec_info req, s)
     | _ \<Rightarrow> None
   }"

definition cuddli_eventsrc_release_by_token ::
  "ucfg \<Rightarrow> 's posix \<Rightarrow> cuddlci_token \<Rightarrow> 's \<Rightarrow> (c_int \<times> 's) option" where
  "cuddli_eventsrc_release_by_token cfg os token s = do {
     let req = \<lparr>erel_version_code = CUDDL_VERSION_CODE, erel_token = token, erel_pid = sys_getpid os s\<rparr>;
     (ret, _, s) \<leftarrow> manager_data_call os (CUDDLCI_EVENTSRC_RELEASE_IOCTL cfg) (Event_Release_Data req) s;
     Some (ret, s)
   }"

definition cuddl_eventsrc_release ::
  "ucfg \<Rightarrow> 's posix \<Rightarrow> cuddl_eventsrc_info \<Rightarrow> 's \<Rightarrow> (c_int \<times> 's) option" where
  "cuddl_eventsrc_release cfg os eventinfo s = cuddli_eventsrc_release_by_token cfg os (ei_token eventinfo) s"

definition cuddl_eventsrc_wait :: "'s posix \<Rightarrow> cuddl_eventsrc \<Rightarrow> 's \<Rightarrow> (c_int \<times> 's) option" where
  "cuddl_eventsrc_wait os eventsrc s = do {
     (n_bytes_read, errno, count, s) \<leftarrow> sys_read os (ue_priv_fd eventsrc) 0 s;
     Some (if n_bytes_read = - 1 then - errno else c_int_wrap (uint count), s)
   }"

definition cuddl_eventsrc_timed_wait ::
  "'s posix \<Rightarrow> cuddl_eventsrc \<Rightarrow> cuddl_timespec \<Rightarrow> 's \<Rightarrow> (c_int \<times> 's) option" where
  "cuddl_eventsrc_timed_wait os eventsrc timeout s = do {
     let fd = ue_priv_fd eventsrc;
     fds \<leftarrow> FD_SET fd {};
     (ret, errno, fds, s) \<leftarrow> sys_select os (c_int_wrap (fd + 1)) fds (timeval_of timeout) s;
     if ret = - 1 then Some (- errno, s)
     else do {
       ready \<leftarrow> FD_ISSET fd fds;
       if \<not> ready then Some (- ETIMEDOUT, s)
       else do {
         (n_bytes_read, errno, count, s) \<leftarrow> sys_read os fd 0 s;
         Some (if n_bytes_read = - 1 then - errno else c_int_wrap (uint count), s)
       }
     }
   }"

definition cuddl_eventsrc_try_wait :: "'s posix \<Rightarrow> cuddl_eventsrc \<Rightarrow> 's \<Rightarrow> (c_int \<times> 's) option" where
  "cuddl_eventsrc_try_wait os eventsrc s =
     cuddl_eventsrc_timed_wait os eventsrc \<lparr>tv_sec = 0, tv_nsec = 0\<rparr> s"

definition cuddl_eventsrc_enable :: "'s posix \<Rightarrow> cuddl_eventsrc \<Rightarrow> 's \<Rightarrow> (c_int \<times> 's) option" where
  "cuddl_eventsrc_enable os eventsrc s = do {
     (ret, errno, s) \<leftarrow> sys_write os (ue_priv_fd eventsrc) 1 s;
     Some (if ret = - 1 then - errno else 0, s)
   }"

definition cuddl_eventsrc_disable :: "'s posix \<Rightarrow> cuddl_eventsrc \<Rightarrow> 's \<Rightarrow> (c_int \<times> 's) option" where
  "cuddl_eventsrc_disable os eventsrc s = do {
     (ret, errno, s) \<leftarrow> sys_write os (ue_priv_fd eventsrc) 0 s;
     Some (if ret = - 1 then - errno else 0, s)
   }"

definition cuddl_eventsrc_is_enabled :: "'s posix \<Rightarrow> cuddl_eventsrc \<Rightarrow> 's \<Rightarrow> (c_int \<times> 's) option" where
  "cuddl_eventsrc_is_enabled os eventsrc s =
     manager_value_call os CUDDLCI_EVENTSRC_IS_ENABLED_IOCTL
       (Is_Enabled_Data \<lparr>ie_version_code = CUDDL_VERSION_CODE, ie_token = ue_priv_token eventsrc\<rparr>) s"

text \<open>Opening disables the interrupt and drops an event that is pending; both results are ignored.\<close>

definition cuddl_eventsrc_open ::
  "'s posix \<Rightarrow> cuddl_eventsrc \<Rightarrow> cuddl_eventsrc_info \<Rightarrow> c_int \<Rightarrow> 's \<Rightarrow> (c_int \<times> cuddl_eventsrc \<times> 's) option" where
  "cuddl_eventsrc_open os eventsrc eventinfo options s = do {
     (fd, errno, s) \<leftarrow> sys_open os (cstr (ei_device_name eventinfo)) s;
     if fd < 0 then Some (- errno, eventsrc, s)
     else do {
       let eventsrc = eventsrc\<lparr>ue_flags := ei_flags eventinfo, ue_priv_token := ei_token eventinfo, ue_priv_fd := fd\<rparr>;
       (_, s) \<leftarrow> cuddl_eventsrc_disable os eventsrc s;
       (_, s) \<leftarrow> cuddl_eventsrc_try_wait os eventsrc s;
       Some (0, eventsrc, s)
     }
   }"

definition cuddl_eventsrc_close :: "'s posix \<Rightarrow> cuddl_eventsrc \<Rightarrow> 's \<Rightarrow> (c_int \<times> 's) option" where
  "cuddl_eventsrc_close os eventsrc s = do {
     (ret, errno, s) \<leftarrow> sys_close os (ue_priv_fd eventsrc) s;
     Some (if ret = - 1 then - errno else 0, s)
   }"

definition cuddl_eventsrc_claim_and_open ::
  "ucfg \<Rightarrow> 's posix \<Rightarrow> cuddl_eventsrc \<Rightarrow> string option \<Rightarrow> string option \<Rightarrow> string option \<Rightarrow> c_int \<Rightarrow> c_int \<Rightarrow> c_int \<Rightarrow> 's
     \<Rightarrow> (c_int \<times> cuddl_eventsrc \<times> 's) option" where
  "cuddl_eventsrc_claim_and_open cfg os eventsrc grp device resource inst claim_options open_options s = do {
     (ret, eventinfo, s) \<leftarrow> cuddl_eventsrc_claim cfg os (stack_eventinfo os s) grp device resource inst claim_options s;
     if ret \<noteq> 0 then Some (ret, eventsrc, s)
     else do {
       (ret, eventsrc, s) \<leftarrow> cuddl_eventsrc_open os eventsrc eventinfo open_options s;
       if ret \<noteq> 0 then do {
         (_, s) \<leftarrow> cuddl_eventsrc_release cfg os eventinfo s;
         Some (ret, eventsrc, s)
       }
       else Some (ret, eventsrc, s)
     }
   }"

definition cuddl_eventsrc_close_and_release ::
  "ucfg \<Rightarrow> 's posix \<Rightarrow> cuddl_eventsrc \<Rightarrow> 's \<Rightarrow> (c_int \<times> 's) option" where
  "cuddl_eventsrc_close_and_release cfg os eventsrc s = do {
     (ret1, s) \<leftarrow> cuddl_eventsrc_close os eventsrc s;
     (ret2, s) \<leftarrow> cuddli_eventsrc_release_by_token cfg os (ue_priv_token eventsrc) s;
     Some (if ret1 \<noteq> 0 then ret1 else ret2, s)
   }"

subsection \<open>Sets of event sources\<close>

definition cuddl_eventsrcset_zero :: "cuddl_eventsrcset \<Rightarrow> cuddl_eventsrcset" where
  "cuddl_eventsrcset_zero es = es\<lparr>es_fds := {}, es_max_fd := 0\<rparr>"

definition cuddl_eventsrcset_add :: "cuddl_eventsrcset \<Rightarrow> cuddl_eventsrc \<Rightarrow> cuddl_eventsrcset option" where
  "cuddl_eventsrcset_add es eventsrc = do {
     fds \<leftarrow> FD_SET (ue_priv_fd eventsrc) (es_fds es);
     Some (es\<lparr>es_fds := fds,
       es_max_fd := (if ue_priv_fd eventsrc > es_max_fd es then ue_priv_fd eventsrc else es_max_fd es)\<rparr>)
   }"

definition cuddl_eventsrcset_remove :: "cuddl_eventsrcset \<Rightarrow> cuddl_eventsrc \<Rightarrow> cuddl_eventsrcset option" where
  "cuddl_eventsrcset_remove es eventsrc = do {
     fds \<leftarrow> FD_CLR (ue_priv_fd eventsrc) (es_fds es);
     Some (es\<lparr>es_fds := fds\<rparr>)
   }"

definition cuddl_eventsrcset_contains :: "cuddl_eventsrcset \<Rightarrow> cuddl_eventsrc \<Rightarrow> bool option" where
  "cuddl_eventsrcset_contains es eventsrc = FD_ISSET (ue_priv_fd eventsrc) (es_fds es)"

text \<open>The loop over the descriptors that \<^verbatim>\<open>select\<close> reported; a failing read ends it.\<close>

fun read_ready :: "'s posix \<Rightarrow> fd_set \<Rightarrow> c_int list \<Rightarrow> c_int \<Rightarrow> 's \<Rightarrow> (c_int \<times> 's) option" where
  "read_ready os fds [] n_ready_fds s = Some (if n_ready_fds = 0 then - ETIMEDOUT else n_ready_fds, s)"
| "read_ready os fds (fd # rest) n_ready_fds s = do {
     ready \<leftarrow> FD_ISSET fd fds;
     if \<not> ready then read_ready os fds rest n_ready_fds s
     else do {
       (ret, errno, count, s) \<leftarrow> sys_read os fd 0 s;
       if ret = - 1 then Some (- errno, s)
       else read_ready os fds rest (c_int_wrap (n_ready_fds + 1)) s
     }
   }"

text \<open>The result set is what \<^verbatim>\<open>select\<close> wrote; a caller that passes a null pointer does not see it.\<close>

definition cuddl_eventsrcset_timed_wait ::
  "'s posix \<Rightarrow> cuddl_eventsrcset \<Rightarrow> cuddl_timespec \<Rightarrow> cuddl_eventsrcset option \<Rightarrow> 's
     \<Rightarrow> (c_int \<times> cuddl_eventsrcset option \<times> 's) option" where
  "cuddl_eventsrcset_timed_wait os eventsrcset timeout result s = do {
     (ret, errno, fds, s) \<leftarrow>
       sys_select os (c_int_wrap (es_max_fd eventsrcset + 1)) (es_fds eventsrcset) (timeval_of timeout) s;
     let result = map_option (\<lambda>_. eventsrcset\<lparr>es_fds := fds\<rparr>) result;
     if ret = - 1 then Some (- errno, result, s)
     else do {
       (ret, s) \<leftarrow> read_ready os fds [0..es_max_fd eventsrcset] 0 s;
       Some (ret, result, s)
     }
   }"

end
