(* ===== verification/User_Queries.thy ===== *)
theory User_Queries
  imports User_Resources
begin

section \<open>User space: questions to the manager, and the janitor (cuddl\_linux.c)\<close>

text \<open>
  The functions that ask the manager one question each, the compositions of two questions,
  and the constructor and destructor of the library with the janitor's descriptor.
\<close>

subsection \<open>Versions and commits\<close>

definition void_request :: ioctl_payload where
  "void_request = Void_Data \<lparr>vd_version_code = CUDDL_VERSION_CODE\<rparr>"

definition cuddl_get_kernel_version_code :: "'s posix \<Rightarrow> 's \<Rightarrow> (c_int \<times> 's) option" where
  "cuddl_get_kernel_version_code os s =
     manager_value_call os CUDDLCI_GET_KERNEL_VERSION_CODE_IOCTL void_request s"

text \<open>
  Copying a text of the kernel into the caller's buffer of \<open>len\<close> bytes. The structure's
  text has 256 bytes and the copy stops there; a larger buffer gets a terminator behind
  the copy, a buffer of 256 bytes or less gets none.
\<close>

definition copy_text :: "string \<Rightarrow> size_t \<Rightarrow> string \<Rightarrow> string" where
  "copy_text buf len text =
     (if unat len > CUDDLCI_MAX_STR_LEN then strncpy (buf[CUDDLCI_MAX_STR_LEN := NUL]) text CUDDLCI_MAX_STR_LEN
      else strncpy buf text (unat len))"

definition cuddl_get_kernel_commit_id :: "'s posix \<Rightarrow> string \<Rightarrow> size_t \<Rightarrow> 's \<Rightarrow> (c_int \<times> string \<times> 's) option" where
  "cuddl_get_kernel_commit_id os id_str id_len s = do {
     let req = \<lparr>ci_version_code = CUDDL_VERSION_CODE, ci_id_str = stack_text os s\<rparr>;
     (ret, out, s) \<leftarrow> manager_data_call os CUDDLCI_GET_KERNEL_COMMIT_ID_IOCTL (Commit_Id_Data req) s;
     case out of
       None \<Rightarrow> Some (ret, id_str, s)
     | Some (Commit_Id_Data req) \<Rightarrow> Some (ret, copy_text id_str id_len (ci_id_str req), s)
     | _ \<Rightarrow> None
   }"

definition cuddl_get_userspace_commit_id :: "ucfg \<Rightarrow> string \<Rightarrow> size_t \<Rightarrow> c_int \<times> string" where
  "cuddl_get_userspace_commit_id cfg id_str id_len =
     (let buf0 = (if id_len > 0 then id_str[0 := NUL] else id_str);
          remaining_space = int_of_size (id_len - 1)
      in if remaining_space \<le> 0 then (0, buf0)
         else
           let buf1 = strncat buf0 (u_commit_hash cfg) (nat remaining_space);
               remaining_space' = int_of_size (id_len - of_nat (strnlen buf1 (unat id_len)) - 1)
           in if remaining_space' \<le> 0 then (0, buf1)
              else if u_repo_is_dirty cfg
                   then (0, strncat buf1 ''(M)'' (nat remaining_space'))
                   else (0, strncat buf1 [] (nat remaining_space')))"

definition cuddl_get_kernel_variant :: "'s posix \<Rightarrow> string \<Rightarrow> size_t \<Rightarrow> 's \<Rightarrow> (c_int \<times> string \<times> 's) option" where
  "cuddl_get_kernel_variant os str id_len s = do {
     let req = \<lparr>ci_version_code = CUDDL_VERSION_CODE, ci_id_str = stack_text os s\<rparr>;
     (ret, out, s) \<leftarrow> manager_data_call os CUDDLCI_GET_KERNEL_VARIANT_IOCTL (Commit_Id_Data req) s;
     case out of
       None \<Rightarrow> Some (ret, str, s)
     | Some (Commit_Id_Data req) \<Rightarrow> Some (ret, copy_text str id_len (ci_id_str req), s)
     | _ \<Rightarrow> None
   }"

subsection \<open>Limits\<close>

definition cuddl_get_max_managed_devices :: "'s posix \<Rightarrow> 's \<Rightarrow> (c_int \<times> 's) option" where
  "cuddl_get_max_managed_devices os s =
     manager_value_call os CUDDLCI_GET_MAX_MANAGED_DEVICES_IOCTL void_request s"

definition cuddl_get_max_dev_mem_regions :: "'s posix \<Rightarrow> 's \<Rightarrow> (c_int \<times> 's) option" where
  "cuddl_get_max_dev_mem_regions os s =
     manager_value_call os CUDDLCI_GET_MAX_DEV_MEM_REGIONS_IOCTL void_request s"

definition cuddl_get_max_dev_events :: "'s posix \<Rightarrow> 's \<Rightarrow> (c_int \<times> 's) option" where
  "cuddl_get_max_dev_events os s =
     manager_value_call os CUDDLCI_GET_MAX_DEV_EVENTS_IOCTL void_request s"

subsection \<open>By slot\<close>

definition get_driver_info_for_slot ::
  "'s posix \<Rightarrow> string \<Rightarrow> size_t \<Rightarrow> c_int \<Rightarrow> 's \<Rightarrow> (c_int \<times> string \<times> 's) option" where
  "get_driver_info_for_slot os info_str info_len device_slot s = do {
     let req = \<lparr>di_version_code = CUDDL_VERSION_CODE, di_device_slot = device_slot, di_info_str = stack_text os s\<rparr>;
     (ret, out, s) \<leftarrow> manager_data_call os CUDDLCI_GET_DRIVER_INFO_IOCTL (Driver_Info_Data req) s;
     case out of
       None \<Rightarrow> Some (ret, info_str, s)
     | Some (Driver_Info_Data req) \<Rightarrow> Some (ret, copy_text info_str info_len (di_info_str req), s)
     | _ \<Rightarrow> None
   }"

definition get_hw_info_for_slot ::
  "'s posix \<Rightarrow> string \<Rightarrow> size_t \<Rightarrow> c_int \<Rightarrow> 's \<Rightarrow> (c_int \<times> string \<times> 's) option" where
  "get_hw_info_for_slot os info_str info_len device_slot s = do {
     let req = \<lparr>di_version_code = CUDDL_VERSION_CODE, di_device_slot = device_slot, di_info_str = stack_text os s\<rparr>;
     (ret, out, s) \<leftarrow> manager_data_call os CUDDLCI_GET_HW_INFO_IOCTL (Driver_Info_Data req) s;
     case out of
       None \<Rightarrow> Some (ret, info_str, s)
     | Some (Driver_Info_Data req) \<Rightarrow> Some (ret, copy_text info_str info_len (di_info_str req), s)
     | _ \<Rightarrow> None
   }"

definition cuddl_get_memregion_id_for_slot ::
  "'s posix \<Rightarrow> cuddl_resource_id \<Rightarrow> c_int \<Rightarrow> c_int \<Rightarrow> 's \<Rightarrow> (c_int \<times> cuddl_resource_id \<times> 's) option" where
  "cuddl_get_memregion_id_for_slot os rid device_slot mem_slot s = do {
     let req = \<lparr>gi_version_code = CUDDL_VERSION_CODE, gi_device_slot = device_slot,
       gi_resource_slot = mem_slot, gi_id = stack_id os s\<rparr>;
     (ret, out, s) \<leftarrow> manager_data_call os CUDDLCI_GET_MEMREGION_ID_IOCTL (Get_Id_Data req) s;
     case out of
       None \<Rightarrow> Some (ret, rid, s)
     | Some (Get_Id_Data req) \<Rightarrow> Some (ret, gi_id req, s)
     | _ \<Rightarrow> None
   }"

definition cuddl_get_eventsrc_id_for_slot ::
  "'s posix \<Rightarrow> cuddl_resource_id \<Rightarrow> c_int \<Rightarrow> c_int \<Rightarrow> 's \<Rightarrow> (c_int \<times> cuddl_resource_id \<times> 's) option" where
  "cuddl_get_eventsrc_id_for_slot os rid device_slot event_slot s = do {
     let req = \<lparr>gi_version_code = CUDDL_VERSION_CODE, gi_device_slot = device_slot,
       gi_resource_slot = event_slot, gi_id = stack_id os s\<rparr>;
     (ret, out, s) \<leftarrow> manager_data_call os CUDDLCI_GET_EVENTSRC_ID_IOCTL (Get_Id_Data req) s;
     case out of
       None \<Rightarrow> Some (ret, rid, s)
     | Some (Get_Id_Data req) \<Rightarrow> Some (ret, gi_id req, s)
     | _ \<Rightarrow> None
   }"

definition cuddl_memregion_get_resource_id ::
  "'s posix \<Rightarrow> cuddl_memregion \<Rightarrow> cuddl_resource_id \<Rightarrow> 's \<Rightarrow> (c_int \<times> cuddl_resource_id \<times> 's) option" where
  "cuddl_memregion_get_resource_id os memregion rid s =
     cuddl_get_memregion_id_for_slot os rid (device_index (um_priv_token memregion))
       (resource_index (um_priv_token memregion)) s"

definition cuddl_eventsrc_get_resource_id ::
  "'s posix \<Rightarrow> cuddl_eventsrc \<Rightarrow> cuddl_resource_id \<Rightarrow> 's \<Rightarrow> (c_int \<times> cuddl_resource_id \<times> 's) option" where
  "cuddl_eventsrc_get_resource_id os eventsrc rid s =
     cuddl_get_eventsrc_id_for_slot os rid (device_index (ue_priv_token eventsrc))
       (resource_index (ue_priv_token eventsrc)) s"

subsection \<open>By identifier\<close>

text \<open>The field \<^verbatim>\<open>options\<close> of the request is never written here.\<close>

definition cuddl_get_memregion_info_for_id ::
  "'s posix \<Rightarrow> cuddl_memregion_info \<Rightarrow> cuddl_resource_id \<Rightarrow> 's \<Rightarrow> (c_int \<times> cuddl_memregion_info \<times> 's) option" where
  "cuddl_get_memregion_info_for_id os meminfo memregion_id s = do {
     let req = \<lparr>mc_version_code = CUDDL_VERSION_CODE, mc_id = memregion_id, mc_info = stack_meminfo os s,
       mc_pid = sys_getpid os s, mc_options = stack_options os s\<rparr>;
     (ret, out, s) \<leftarrow> manager_data_call os CUDDLCI_GET_MEMREGION_INFO_IOCTL (Mem_Claim_Data req) s;
     case out of
       None \<Rightarrow> Some (ret, meminfo, s)
     | Some (Mem_Claim_Data req) \<Rightarrow> Some (ret, mc_info req, s)
     | _ \<Rightarrow> None
   }"

definition cuddl_get_eventsrc_info_for_id ::
  "'s posix \<Rightarrow> cuddl_eventsrc_info \<Rightarrow> cuddl_resource_id \<Rightarrow> 's \<Rightarrow> (c_int \<times> cuddl_eventsrc_info \<times> 's) option" where
  "cuddl_get_eventsrc_info_for_id os eventinfo eventsrc_id s = do {
     let req = \<lparr>ec_version_code = CUDDL_VERSION_CODE, ec_id = eventsrc_id, ec_info = stack_eventinfo os s,
       ec_pid = sys_getpid os s, ec_options = stack_options os s\<rparr>;
     (ret, out, s) \<leftarrow> manager_data_call os CUDDLCI_GET_EVENTSRC_INFO_IOCTL (Event_Claim_Data req) s;
     case out of
       None \<Rightarrow> Some (ret, eventinfo, s)
     | Some (Event_Claim_Data req) \<Rightarrow> Some (ret, ec_info req, s)
     | _ \<Rightarrow> None
   }"

definition ref_count_request :: "cuddl_resource_id \<Rightarrow> ioctl_payload" where
  "ref_count_request rid = Ref_Count_Data \<lparr>rc_version_code = CUDDL_VERSION_CODE, rc_id = rid\<rparr>"

definition cuddl_get_memregion_ref_count_for_id :: "'s posix \<Rightarrow> cuddl_resource_id \<Rightarrow> 's \<Rightarrow> (c_int \<times> 's) option" where
  "cuddl_get_memregion_ref_count_for_id os memregion_id s =
     manager_value_call os CUDDLCI_GET_MEMREGION_REF_COUNT_IOCTL (ref_count_request memregion_id) s"

definition cuddl_get_eventsrc_ref_count_for_id :: "'s posix \<Rightarrow> cuddl_resource_id \<Rightarrow> 's \<Rightarrow> (c_int \<times> 's) option" where
  "cuddl_get_eventsrc_ref_count_for_id os eventsrc_id s =
     manager_value_call os CUDDLCI_GET_EVENTSRC_REF_COUNT_IOCTL (ref_count_request eventsrc_id) s"

definition cuddl_decrement_memregion_ref_count_for_id :: "'s posix \<Rightarrow> cuddl_resource_id \<Rightarrow> 's \<Rightarrow> (c_int \<times> 's) option" where
  "cuddl_decrement_memregion_ref_count_for_id os memregion_id s =
     manager_value_call os CUDDLCI_DECREMENT_MEMREGION_REF_COUNT_IOCTL (ref_count_request memregion_id) s"

definition cuddl_decrement_eventsrc_ref_count_for_id :: "'s posix \<Rightarrow> cuddl_resource_id \<Rightarrow> 's \<Rightarrow> (c_int \<times> 's) option" where
  "cuddl_decrement_eventsrc_ref_count_for_id os eventsrc_id s =
     manager_value_call os CUDDLCI_DECREMENT_EVENTSRC_REF_COUNT_IOCTL (ref_count_request eventsrc_id) s"

definition cuddl_get_driver_info_for_memregion_id ::
  "'s posix \<Rightarrow> string \<Rightarrow> size_t \<Rightarrow> cuddl_resource_id \<Rightarrow> 's \<Rightarrow> (c_int \<times> string \<times> 's) option" where
  "cuddl_get_driver_info_for_memregion_id os info_str info_len memregion_id s = do {
     (ret, meminfo, s) \<leftarrow> cuddl_get_memregion_info_for_id os (stack_meminfo os s) memregion_id s;
     if ret \<noteq> 0 then Some (ret, info_str, s)
     else get_driver_info_for_slot os info_str info_len (device_index (mi_token meminfo)) s
   }"

definition cuddl_get_driver_info_for_eventsrc_id ::
  "'s posix \<Rightarrow> string \<Rightarrow> size_t \<Rightarrow> cuddl_resource_id \<Rightarrow> 's \<Rightarrow> (c_int \<times> string \<times> 's) option" where
  "cuddl_get_driver_info_for_eventsrc_id os info_str info_len eventsrc_id s = do {
     (ret, meminfo, s) \<leftarrow> cuddl_get_eventsrc_info_for_id os (stack_eventinfo os s) eventsrc_id s;
     if ret \<noteq> 0 then Some (ret, info_str, s)
     else get_driver_info_for_slot os info_str info_len (device_index (ei_token meminfo)) s
   }"

definition cuddl_get_hw_info_for_memregion_id ::
  "'s posix \<Rightarrow> string \<Rightarrow> size_t \<Rightarrow> cuddl_resource_id \<Rightarrow> 's \<Rightarrow> (c_int \<times> string \<times> 's) option" where
  "cuddl_get_hw_info_for_memregion_id os info_str info_len memregion_id s = do {
     (ret, meminfo, s) \<leftarrow> cuddl_get_memregion_info_for_id os (stack_meminfo os s) memregion_id s;
     if ret \<noteq> 0 then Some (ret, info_str, s)
     else get_hw_info_for_slot os info_str info_len (device_index (mi_token meminfo)) s
   }"

definition cuddl_get_hw_info_for_eventsrc_id ::
  "'s posix \<Rightarrow> string \<Rightarrow> size_t \<Rightarrow> cuddl_resource_id \<Rightarrow> 's \<Rightarrow> (c_int \<times> string \<times> 's) option" where
  "cuddl_get_hw_info_for_eventsrc_id os info_str info_len eventsrc_id s = do {
     (ret, meminfo, s) \<leftarrow> cuddl_get_eventsrc_info_for_id os (stack_eventinfo os s) eventsrc_id s;
     if ret \<noteq> 0 then Some (ret, info_str, s)
     else get_hw_info_for_slot os info_str info_len (device_index (ei_token meminfo)) s
   }"

definition cuddl_get_memregion_id_for_match ::
  "'s posix \<Rightarrow> cuddl_resource_id \<Rightarrow> cuddl_resource_id \<Rightarrow> 's \<Rightarrow> (c_int \<times> cuddl_resource_id \<times> 's) option" where
  "cuddl_get_memregion_id_for_match os rid pattern s = do {
     (ret, info, s) \<leftarrow> cuddl_get_memregion_info_for_id os (stack_meminfo os s) pattern s;
     if ret \<noteq> 0 then Some (ret, rid, s)
     else cuddl_get_memregion_id_for_slot os rid (device_index (mi_token info)) (resource_index (mi_token info)) s
   }"

definition cuddl_get_eventsrc_id_for_match ::
  "'s posix \<Rightarrow> cuddl_resource_id \<Rightarrow> cuddl_resource_id \<Rightarrow> 's \<Rightarrow> (c_int \<times> cuddl_resource_id \<times> 's) option" where
  "cuddl_get_eventsrc_id_for_match os rid pattern s = do {
     (ret, info, s) \<leftarrow> cuddl_get_eventsrc_info_for_id os (stack_eventinfo os s) pattern s;
     if ret \<noteq> 0 then Some (ret, rid, s)
     else cuddl_get_eventsrc_id_for_slot os rid (device_index (ei_token info)) (resource_index (ei_token info)) s
   }"

subsection \<open>The janitor\<close>

text \<open>
  Under Xenomai the library calls the plain Linux functions here (\<^verbatim>\<open>__real_open\<close> and so
  on): \<open>real\<close>; otherwise they are the calls of \<open>os\<close>.
\<close>

definition janitor_os :: "ucfg \<Rightarrow> 's posix \<Rightarrow> 's posix \<Rightarrow> 's posix" where
  "janitor_os cfg os real = (if xeno cfg then real else os)"

definition cuddli_open_janitor :: "ucfg \<Rightarrow> 's posix \<Rightarrow> 's posix \<Rightarrow> 's \<Rightarrow> (c_int \<times> 's) option" where
  "cuddli_open_janitor cfg os real s = do {
     (fd, errno, s) \<leftarrow> sys_open (janitor_os cfg os real) ''/dev/cuddl_janitor'' s;
     if fd = - 1 then Some (- errno, s)
     else do {
       let req = \<lparr>jp_version_code = CUDDL_VERSION_CODE, jp_pid = sys_getpid os s\<rparr>;
       (ret, errno, _, s) \<leftarrow> sys_ioctl (janitor_os cfg os real) fd CUDDLCI_JANITOR_REGISTER_PID_IOCTL (Janitor_Pid_Data req) s;
       if ret = - 1 then Some (- errno, s) else Some (fd, s)
     }
   }"

definition cuddli_close_janitor :: "ucfg \<Rightarrow> 's posix \<Rightarrow> 's posix \<Rightarrow> c_int \<Rightarrow> 's \<Rightarrow> (c_int \<times> 's) option" where
  "cuddli_close_janitor cfg os real fd s =
     (if fd > 0 then do { (ret, errno, s) \<leftarrow> sys_close (janitor_os cfg os real) fd s; Some (ret, s) }
      else Some (0, s))"

text \<open>The constructor and the destructor of the library: the first returns the new value of the
  global \<^verbatim>\<open>cuddli_janitor_fd\<close>.\<close>

definition cuddl_startup :: "ucfg \<Rightarrow> 's posix \<Rightarrow> 's posix \<Rightarrow> 's \<Rightarrow> (c_int \<times> 's) option" where
  "cuddl_startup cfg os real s = cuddli_open_janitor cfg os real s"

definition cuddl_cleanup :: "ucfg \<Rightarrow> 's posix \<Rightarrow> 's posix \<Rightarrow> c_int \<Rightarrow> 's \<Rightarrow> 's option" where
  "cuddl_cleanup cfg os real cuddli_janitor_fd s = do {
     (_, s) \<leftarrow> cuddli_close_janitor cfg os real cuddli_janitor_fd s;
     Some s
   }"

end
