(* ===== verification/Linux_System.thy ===== *)
theory Linux_System
  imports Ioctl_Frame User_Queries Module_Init "HOL-Library.AList"
begin

section \<open>A Linux process over the kernel modules\<close>

text \<open>
  The composition: a process whose system calls reach the handlers of the kernel modules.
  \<^verbatim>\<open>open\<close> of one of the two devices makes a file of that module, \<^verbatim>\<open>ioctl\<close> on it runs
  \<open>cuddlk_manager_ioctl\<close> or \<open>cuddlk_janitor_ioctl\<close> on the structure of the user, and
  \<^verbatim>\<open>close\<close> of a janitor file runs \<open>cuddlk_janitor_release\<close>. Everything that the
  system is free to decide in one call (failures, allocations, what a read returns) is in a
  \<open>call_env\<close>, one for every call. Of Linux itself the model has: the lowest free
  descriptor is given out and there are at most \<open>FD_SETSIZE\<close> of them (the usual limit of
  a process), \<^verbatim>\<open>close\<close> releases the descriptor even when it reports an error, and a
  negative result of a handler down to \<open>-4095\<close> becomes \<open>-1\<close> and \<^verbatim>\<open>errno\<close>.
\<close>

datatype open_file = Manager_File | Janitor_File janitor_file | Device_File string

record call_env =
  ce_open :: "c_int option"                 \<comment> \<open>error of \<^verbatim>\<open>open\<close>\<close>
  ce_close :: "c_int option"
  ce_copy_in :: bool                        \<comment> \<open>\<^verbatim>\<open>copy_from_user\<close> succeeds\<close>
  ce_kernel :: ioctl_env
  ce_kzalloc :: bool                        \<comment> \<open>allocation of the janitor\<close>
  ce_mmap :: "c_int + ulong"
  ce_munmap :: "c_int option"
  ce_read :: "c_int + c_int \<times> 32 word"
  ce_write :: "c_int + c_int"
  ce_select :: "c_int + c_int \<times> fd_set"

record linux =
  kern :: kstate
  files :: "(c_int \<times> open_file) list"
  my_pid :: pid_t
  now :: "call_env"
  later :: "nat \<Rightarrow> call_env"
  garbage_id :: cuddl_resource_id
  garbage_meminfo :: cuddl_memregion_info
  garbage_eventinfo :: cuddl_eventsrc_info
  garbage_options :: c_int
  garbage_text :: string

definition EBADF :: c_int where "EBADF = 9"
definition EMFILE :: c_int where "EMFILE = 24"
definition ENOTTY :: c_int where "ENOTTY = 25"

text \<open>After a call the next environment is taken.\<close>

definition tick :: "linux \<Rightarrow> linux" where
  "tick s = s\<lparr>now := later s 0, later := (\<lambda>n. later s (Suc n))\<rparr>"

definition open_fds :: "linux \<Rightarrow> c_int set" where
  "open_fds s = set (map fst (files s))"

definition lowest_fd :: "(c_int \<times> open_file) list \<Rightarrow> c_int" where
  "lowest_fd fs = (case find (\<lambda>i. int i \<notin> set (map fst fs)) [0..<Suc (length fs)] of
     Some i \<Rightarrow> int i | None \<Rightarrow> 0)"

definition file_for :: "string \<Rightarrow> open_file" where
  "file_for path =
     (if path = ''/dev/cuddl'' then Manager_File
      else if path = ''/dev/cuddl_janitor'' then Janitor_File (snd (cuddlk_janitor_open new_file))
      else Device_File path)"

definition linux_open :: "string \<Rightarrow> linux \<Rightarrow> (c_int \<times> c_int \<times> linux) option" where
  "linux_open path s =
     (case ce_open (now s) of
        Some e \<Rightarrow> Some (- 1, e, tick s)
      | None \<Rightarrow>
          let fd = lowest_fd (files s) in
          if fd \<ge> FD_SETSIZE then Some (- 1, EMFILE, tick s)
          else Some (fd, 0, tick (s\<lparr>files := (fd, file_for path) # files s\<rparr>)))"

definition close_result :: "linux \<Rightarrow> c_int \<times> c_int" where
  "close_result s = (case ce_close (now s) of None \<Rightarrow> (0, 0) | Some e \<Rightarrow> (- 1, e))"

definition linux_close :: "c_int \<Rightarrow> linux \<Rightarrow> (c_int \<times> c_int \<times> linux) option" where
  "linux_close fd s =
     (case map_of (files s) fd of
        None \<Rightarrow> Some (- 1, EBADF, tick s)
      | Some file \<Rightarrow> do {
          k \<leftarrow> (case file of
             Janitor_File j \<Rightarrow> do { (_, _, k) \<leftarrow> cuddlk_janitor_release j (kern s); Some k }
           | _ \<Rightarrow> Some (kern s));
          let (ret, errno) = close_result s;
          Some (ret, errno, tick (s\<lparr>kern := k, files := filter (\<lambda>f. fst f \<noteq> fd) (files s)\<rparr>))
        })"

text \<open>
  The user's buffer, read as the structure that a command expects; a read as any other
  structure does not happen. An entry of a reference list can be allocated while fewer than
  \<open>2\<^sup>3\<^sup>1 - 2\<close> of them exist.
\<close>

definition refs_room :: "kstate \<Rightarrow> bool" where
  "refs_room k \<longleftrightarrow> length (cuddlk_mem_refs k) < 2 ^ 31 - 2 \<and> length (cuddlk_event_refs k) < 2 ^ 31 - 2"

definition copied_in :: "bool \<Rightarrow> bool \<Rightarrow> ioctl_env \<Rightarrow> ioctl_payload \<Rightarrow> ioctl_env" where
  "copied_in ok room env p = env\<lparr>ref_kz_ok := ref_kz_ok env \<and> room,
     cfu_void := (case p of Void_Data d \<Rightarrow> if ok then Some d else None | _ \<Rightarrow> None),
     cfu_mem_claim := (case p of Mem_Claim_Data d \<Rightarrow> if ok then Some d else None | _ \<Rightarrow> None),
     cfu_event_claim := (case p of Event_Claim_Data d \<Rightarrow> if ok then Some d else None | _ \<Rightarrow> None),
     cfu_mem_release := (case p of Mem_Release_Data d \<Rightarrow> if ok then Some d else None | _ \<Rightarrow> None),
     cfu_event_release := (case p of Event_Release_Data d \<Rightarrow> if ok then Some d else None | _ \<Rightarrow> None),
     cfu_get_id := (case p of Get_Id_Data d \<Rightarrow> if ok then Some d else None | _ \<Rightarrow> None),
     cfu_ref_count := (case p of Ref_Count_Data d \<Rightarrow> if ok then Some d else None | _ \<Rightarrow> None),
     cfu_commit := (case p of Commit_Id_Data d \<Rightarrow> if ok then Some d else None | _ \<Rightarrow> None),
     cfu_driver_info := (case p of Driver_Info_Data d \<Rightarrow> if ok then Some d else None | _ \<Rightarrow> None),
     cfu_is_enabled := (case p of Is_Enabled_Data d \<Rightarrow> if ok then Some d else None | _ \<Rightarrow> None)\<rparr>"

definition janitor_copied :: "bool \<Rightarrow> ioctl_payload \<Rightarrow> cuddlci_janitor_pid_ioctl_data option" where
  "janitor_copied ok p = (case p of Janitor_Pid_Data d \<Rightarrow> if ok then Some d else None | _ \<Rightarrow> None)"

definition syscall_result :: "c_int \<Rightarrow> c_int \<times> c_int" where
  "syscall_result ret = (if - 4095 \<le> ret \<and> ret < 0 then (- 1, - ret) else (ret, 0))"

definition linux_ioctl ::
  "kcfg \<Rightarrow> c_int \<Rightarrow> ioctl_cmd \<Rightarrow> ioctl_payload \<Rightarrow> linux \<Rightarrow> (c_int \<times> c_int \<times> ioctl_payload \<times> linux) option" where
  "linux_ioctl cfg fd cmd p s =
     (case map_of (files s) fd of
        None \<Rightarrow> Some (- 1, EBADF, p, tick s)
      | Some Manager_File \<Rightarrow> do {
          (ret, out, k) \<leftarrow> cuddlk_manager_ioctl cfg
             (copied_in (ce_copy_in (now s)) (refs_room (kern s)) (ce_kernel (now s)) p) cmd (kern s);
          let (ret, errno) = syscall_result ret;
          Some (ret, errno, case out of None \<Rightarrow> p | Some q \<Rightarrow> q, tick (s\<lparr>kern := k\<rparr>))
        }
      | Some (Janitor_File j) \<Rightarrow>
          let (ret, j') = cuddlk_janitor_ioctl (janitor_copied (ce_copy_in (now s)) p) (ce_kzalloc (now s)) cmd j;
              (ret, errno) = syscall_result ret
          in Some (ret, errno, p, tick (s\<lparr>files := AList.update fd (Janitor_File j') (files s)\<rparr>))
      | Some (Device_File _) \<Rightarrow> Some (- 1, ENOTTY, p, tick s))"

definition linux_mmap :: "size_t \<Rightarrow> c_int \<Rightarrow> size_t \<Rightarrow> linux \<Rightarrow> (ulong \<times> c_int \<times> linux) option" where
  "linux_mmap len fd offset s =
     (case ce_mmap (now s) of Inl e \<Rightarrow> Some (- 1, e, tick s) | Inr addr \<Rightarrow> Some (addr, 0, tick s))"

definition linux_munmap :: "ulong \<Rightarrow> size_t \<Rightarrow> linux \<Rightarrow> (c_int \<times> c_int \<times> linux) option" where
  "linux_munmap addr len s =
     (case ce_munmap (now s) of None \<Rightarrow> Some (0, 0, tick s) | Some e \<Rightarrow> Some (- 1, e, tick s))"

definition linux_read :: "c_int \<Rightarrow> 32 word \<Rightarrow> linux \<Rightarrow> (c_int \<times> c_int \<times> 32 word \<times> linux) option" where
  "linux_read fd buf s =
     (case ce_read (now s) of Inl e \<Rightarrow> Some (- 1, e, buf, tick s) | Inr (n, v) \<Rightarrow> Some (n, 0, v, tick s))"

definition linux_write :: "c_int \<Rightarrow> 32 word \<Rightarrow> linux \<Rightarrow> (c_int \<times> c_int \<times> linux) option" where
  "linux_write fd v s =
     (case ce_write (now s) of Inl e \<Rightarrow> Some (- 1, e, tick s) | Inr n \<Rightarrow> Some (n, 0, tick s))"

definition linux_select :: "c_int \<Rightarrow> fd_set \<Rightarrow> timeval \<Rightarrow> linux \<Rightarrow> (c_int \<times> c_int \<times> fd_set \<times> linux) option" where
  "linux_select n fds tv s =
     (case ce_select (now s) of
        Inl e \<Rightarrow> Some (- 1, e, fds, tick s)
      | Inr (ret, ready) \<Rightarrow> Some (ret, 0, {fd \<in> fds. fd < n \<and> fd \<in> ready}, tick s))"

declare linux_mmap_def [call_defs] linux_munmap_def [call_defs] linux_read_def [call_defs]
  linux_write_def [call_defs] linux_select_def [call_defs]

definition linux_posix :: "kcfg \<Rightarrow> linux posix" where
  "linux_posix cfg = \<lparr>sys_open = linux_open, sys_close = linux_close, sys_ioctl = linux_ioctl cfg,
     sys_mmap = linux_mmap, sys_munmap = linux_munmap, sys_read = linux_read, sys_write = linux_write,
     sys_select = linux_select, sys_getpid = my_pid, stack_id = garbage_id, stack_meminfo = garbage_meminfo,
     stack_eventinfo = garbage_eventinfo, stack_options = garbage_options, stack_text = garbage_text\<rparr>"

text \<open>
  A process ends, in whatever way: the kernel closes every file that is still open, the
  lowest descriptor first.
\<close>

fun close_all :: "c_int list \<Rightarrow> linux \<Rightarrow> linux option" where
  "close_all [] s = Some s"
| "close_all (fd # fds) s = do { (_, _, s) \<leftarrow> linux_close fd s; close_all fds s }"

definition process_exit :: "linux \<Rightarrow> linux option" where
  "process_exit s = close_all (sort (map fst (files s))) s"

end
