(* ===== verification/User_Discipline.thy ===== *)
theory User_Discipline
  imports User_Queries
begin

section \<open>Descriptors and results of the library\<close>

text \<open>
  What the functions of the library do with file descriptors, on every system that keeps the
  promises of \<open>posix_files\<close>: a question leaves the table of descriptors as it was, a map or
  open that succeeds adds exactly the descriptor that it stores, a failing one adds none.
\<close>

context posix_files
begin

lemma claim_total:
  assumes "fine s"
  shows "\<exists>ret meminfo' s'. cuddl_memregion_claim cfg os meminfo g d r i opts s = Some (ret, meminfo', s') \<and>
    leaves open_fds fine (open_fds s) s'"
proof -
  define req where "req = \<lparr>mc_version_code = CUDDL_VERSION_CODE, mc_id = populate_id_from_args (stack_id os s) g d r i,
    mc_info = stack_meminfo os s, mc_pid = sys_getpid os s, mc_options = opts\<rparr>"
  from data_call_total [OF assms, of "CUDDLCI_MEMREGION_CLAIM_IOCTL cfg" "Mem_Claim_Data req"]
  obtain ret out s' where c: "manager_data_call os (CUDDLCI_MEMREGION_CLAIM_IOCTL cfg) (Mem_Claim_Data req) s = Some (ret, out, s')"
    "\<forall>p'. out = Some p' \<longrightarrow> payload_kind p' = 1" "leaves open_fds fine (open_fds s) s'" by auto
  show ?thesis
  proof (cases out)
    case None
    with c show ?thesis by (simp add: cuddl_memregion_claim_def req_def)
  next
    case (Some p)
    with c show ?thesis by (cases p) (simp_all add: cuddl_memregion_claim_def req_def)
  qed
qed

lemma event_claim_total:
  assumes "fine s"
  shows "\<exists>ret eventinfo' s'. cuddl_eventsrc_claim cfg os eventinfo g d r i opts s = Some (ret, eventinfo', s') \<and>
    leaves open_fds fine (open_fds s) s'"
proof -
  define req where "req = \<lparr>ec_version_code = CUDDL_VERSION_CODE, ec_id = populate_id_from_args (stack_id os s) g d r i,
    ec_info = stack_eventinfo os s, ec_pid = sys_getpid os s, ec_options = opts\<rparr>"
  from data_call_total [OF assms, of "CUDDLCI_EVENTSRC_CLAIM_IOCTL cfg" "Event_Claim_Data req"]
  obtain ret out s' where c: "manager_data_call os (CUDDLCI_EVENTSRC_CLAIM_IOCTL cfg) (Event_Claim_Data req) s = Some (ret, out, s')"
    "\<forall>p'. out = Some p' \<longrightarrow> payload_kind p' = 2" "leaves open_fds fine (open_fds s) s'" by auto
  show ?thesis
  proof (cases out)
    case None
    with c show ?thesis by (simp add: cuddl_eventsrc_claim_def req_def)
  next
    case (Some p)
    with c show ?thesis by (cases p) (simp_all add: cuddl_eventsrc_claim_def req_def)
  qed
qed

lemma release_total:
  assumes "fine s"
  shows "\<exists>ret s'. cuddli_memregion_release_by_token cfg os token s = Some (ret, s') \<and> leaves open_fds fine (open_fds s) s'"
    "\<exists>ret s'. cuddli_eventsrc_release_by_token cfg os token s = Some (ret, s') \<and> leaves open_fds fine (open_fds s) s'"
  using data_call_total [OF assms, of "CUDDLCI_MEMREGION_RELEASE_IOCTL cfg"
      "Mem_Release_Data \<lparr>mrel_version_code = CUDDL_VERSION_CODE, mrel_token = token, mrel_pid = sys_getpid os s\<rparr>"]
    data_call_total [OF assms, of "CUDDLCI_EVENTSRC_RELEASE_IOCTL cfg"
      "Event_Release_Data \<lparr>erel_version_code = CUDDL_VERSION_CODE, erel_token = token, erel_pid = sys_getpid os s\<rparr>"]
  by (auto simp: cuddli_memregion_release_by_token_def cuddli_eventsrc_release_by_token_def)

text \<open>A map either stores one new descriptor or fails with a negative result and changes nothing.\<close>

lemma map_total:
  assumes "fine s"
  obtains ret memregion' s' where "cuddl_memregion_map os memregion meminfo opts s = Some (ret, memregion', s')"
    "if ret = 0 then um_priv_fd memregion' \<notin> open_fds s \<and> um_priv_token memregion' = mi_token meminfo \<and>
       leaves open_fds fine (insert (um_priv_fd memregion') (open_fds s)) s'
     else ret < 0 \<and> memregion' = memregion \<and> leaves open_fds fine (open_fds s) s'"
proof -
  from open_file [OF assms, of "cstr (mi_device_name meminfo)"] obtain fd e s1 where
    o: "sys_open os (cstr (mi_device_name meminfo)) s = Some (fd, e, s1)"
    "fd = - 1 \<and> 0 < e \<and> leaves open_fds fine (open_fds s) s1 \<or>
     0 \<le> fd \<and> fd \<notin> open_fds s \<and> leaves open_fds fine (insert fd (open_fds s)) s1" by blast
  show ?thesis
  proof (cases "fd = - 1")
    case True
    with o that [of "- e" memregion s1] show ?thesis by (auto simp: cuddl_memregion_map_def leaves_def)
  next
    case False
    with o(2) have fd: "0 \<le> fd" "fd \<notin> open_fds s" "fine s1" "open_fds s1 = insert fd (open_fds s)"
      by (auto simp: leaves_def)
    then obtain addr e2 s2 where m: "sys_mmap os (mi_pa_len meminfo) fd (mi_pa_mmap_offset meminfo) s1 = Some (addr, e2, s2)"
      "addr = - 1 \<longrightarrow> 0 < e2" "fine s2" "open_fds s2 = insert fd (open_fds s)"
      using mmap_file [of s1 fd "mi_pa_len meminfo" "mi_pa_mmap_offset meminfo"] by (auto simp: leaves_def)
    show ?thesis
    proof (cases "addr = - 1")
      case True
      from m(3,4) obtain r e3 s3 where "sys_close os fd s2 = Some (r, e3, s3)" "fine s3" "open_fds s3 = open_fds s"
        using close_file [of s2 fd] fd(2) by (auto simp: leaves_def)
      with o(1) fd(1) m True that [of "- e2" memregion s3] show ?thesis
        by (simp add: cuddl_memregion_map_def leaves_def)
    next
      case False
      with o(1) fd m that [of 0 "memregion\<lparr>um_priv_fd := fd, um_priv_pa_len := mi_pa_len meminfo,
         um_priv_pa_addr := addr, um_region_addr := addr + mi_start_offset meminfo,
         um_region_len := mi_len meminfo, um_region_flags := mi_flags meminfo,
         um_priv_token := mi_token meminfo\<rparr>" s2] show ?thesis
        by (simp add: cuddl_memregion_map_def leaves_def)
    qed
  qed
qed

lemma claim_and_map_total:
  assumes "fine s"
  obtains ret memregion' s' where
    "cuddl_memregion_claim_and_map cfg os memregion g d r i copts mopts s = Some (ret, memregion', s')"
    "if ret = 0 then um_priv_fd memregion' \<notin> open_fds s \<and>
       leaves open_fds fine (insert (um_priv_fd memregion') (open_fds s)) s'
     else memregion' = memregion \<and> leaves open_fds fine (open_fds s) s'"
proof -
  from claim_total [OF assms, of cfg "stack_meminfo os s" g d r i copts] obtain ret mi s1 where
    c: "cuddl_memregion_claim cfg os (stack_meminfo os s) g d r i copts s = Some (ret, mi, s1)"
    "fine s1" "open_fds s1 = open_fds s" by (auto simp: leaves_def)
  show ?thesis
  proof (cases "ret = 0")
    case False
    with c that [of ret memregion s1] show ?thesis by (simp add: cuddl_memregion_claim_and_map_def leaves_def)
  next
    case True
    obtain ret2 m2 s2 where m: "cuddl_memregion_map os memregion mi mopts s1 = Some (ret2, m2, s2)"
      "if ret2 = 0 then um_priv_fd m2 \<notin> open_fds s1 \<and> um_priv_token m2 = mi_token mi \<and>
         leaves open_fds fine (insert (um_priv_fd m2) (open_fds s1)) s2
     else ret2 < 0 \<and> m2 = memregion \<and> leaves open_fds fine (open_fds s1) s2"
      by (rule map_total [OF c(2), where memregion = memregion and meminfo = mi and opts = mopts])
    show ?thesis
    proof (cases "ret2 = 0")
      case True
      with c m(1) \<open>ret = 0\<close> m(2) that [of 0 m2 s2] show ?thesis by (simp add: cuddl_memregion_claim_and_map_def)
    next
      case False
      with m(2) have s2: "fine s2" "m2 = memregion" "open_fds s2 = open_fds s" by (simp_all add: leaves_def c(3))
      from release_total(1) [OF s2(1), of cfg "mi_token mi"] obtain r s3 where
        "cuddli_memregion_release_by_token cfg os (mi_token mi) s2 = Some (r, s3)" "fine s3" "open_fds s3 = open_fds s"
        by (auto simp: leaves_def s2(3))
      with c m(1) \<open>ret = 0\<close> False s2 that [of ret2 memregion s3] show ?thesis
        by (simp add: cuddl_memregion_claim_and_map_def cuddl_memregion_release_def leaves_def)
    qed
  qed
qed

lemma unmap_and_release_total:
  assumes "fine s" "um_priv_fd memregion \<in> open_fds s"
  shows "\<exists>ret s'. cuddl_memregion_unmap_and_release cfg os memregion s = Some (ret, s') \<and>
    leaves open_fds fine (open_fds s - {um_priv_fd memregion}) s'"
proof -
  from munmap_file [OF assms(1)] obtain r1 e1 s1 where
    u: "sys_munmap os (um_priv_pa_addr memregion) (um_priv_pa_len memregion) s = Some (r1, e1, s1)"
    "fine s1" "open_fds s1 = open_fds s" by (metis leaves_def)
  from close_file [OF u(2)] assms(2) u(3) obtain r2 e2 s2 where
    c: "sys_close os (um_priv_fd memregion) s1 = Some (r2, e2, s2)" "fine s2"
    "open_fds s2 = open_fds s - {um_priv_fd memregion}" by (metis leaves_def)
  from release_total(1) [OF c(2), of cfg "um_priv_token memregion"] obtain r3 s3 where
    "cuddli_memregion_release_by_token cfg os (um_priv_token memregion) s2 = Some (r3, s3)"
    "leaves open_fds fine (open_fds s2) s3" by blast
  with u(1) c(1,3) show ?thesis
    by (simp add: cuddl_memregion_unmap_and_release_def cuddl_memregion_unmap_def Let_def)
qed

text \<open>The janitor: a registration that fails keeps the descriptor open.\<close>

lemma open_janitor_total:
  assumes "fine s" "\<not> xeno cfg"
  obtains ret s' where "cuddli_open_janitor cfg os real s = Some (ret, s')"
    "leaves open_fds fine (open_fds s) s' \<and> ret < 0 \<or>
     (\<exists>fd. 0 \<le> fd \<and> fd \<notin> open_fds s \<and> leaves open_fds fine (insert fd (open_fds s)) s')"
proof -
  from open_file [OF assms(1), of "''/dev/cuddl_janitor''"] obtain fd e s1 where
    o: "sys_open os ''/dev/cuddl_janitor'' s = Some (fd, e, s1)"
    "fd = - 1 \<and> 0 < e \<and> leaves open_fds fine (open_fds s) s1 \<or>
     0 \<le> fd \<and> fd \<notin> open_fds s \<and> leaves open_fds fine (insert fd (open_fds s)) s1" by blast
  show ?thesis
  proof (cases "fd = - 1")
    case True
    with o assms(2) that [of "- e" s1] show ?thesis by (auto simp: cuddli_open_janitor_def janitor_os_def)
  next
    case False
    with o(2) have fd: "0 \<le> fd" "fd \<notin> open_fds s" "fine s1" "open_fds s1 = insert fd (open_fds s)"
      by (auto simp: leaves_def)
    define req where "req = Janitor_Pid_Data \<lparr>jp_version_code = CUDDL_VERSION_CODE, jp_pid = sys_getpid os s1\<rparr>"
    from ioctl_file [OF fd(3), of fd CUDDLCI_JANITOR_REGISTER_PID_IOCTL req] fd(4) obtain r e2 p s2 where
      i: "sys_ioctl os fd CUDDLCI_JANITOR_REGISTER_PID_IOCTL req s1 = Some (r, e2, p, s2)"
      "leaves open_fds fine (insert fd (open_fds s)) s2" by auto
    have "cuddli_open_janitor cfg os real s = Some (if r = - 1 then - e2 else fd, s2)"
      using o(1) False i(1) assms(2) by (simp add: cuddli_open_janitor_def janitor_os_def req_def)
    with that fd i(2) show ?thesis by blast
  qed
qed

end

context small_files
begin

lemma try_wait_total:
  assumes "fine s" "ue_priv_fd ev \<in> open_fds s"
  shows "\<exists>ret s'. cuddl_eventsrc_timed_wait os ev timeout s = Some (ret, s') \<and> leaves open_fds fine (open_fds s) s'"
proof -
  let ?fd = "ue_priv_fd ev"
  have fd: "FD_SET ?fd {} = Some {?fd}" "FD_ISSET ?fd fds = Some (?fd \<in> fds)" for fds
    using fds_small [OF assms] by (simp_all add: fd_defs)
  from select_files [OF assms(1), of "c_int_wrap (?fd + 1)" "{?fd}" "timeval_of timeout"] obtain r e ready s1 where
    s: "sys_select os (c_int_wrap (?fd + 1)) {?fd} (timeval_of timeout) s = Some (r, e, ready, s1)"
    "fine s1" "open_fds s1 = open_fds s" by (auto simp: leaves_def)
  from read_file [OF s(2), of ?fd 0] obtain n e2 v s2 where
    "sys_read os ?fd 0 s1 = Some (n, e2, v, s2)" "fine s2" "open_fds s2 = open_fds s"
    by (auto simp: leaves_def s(3))
  with s fd show ?thesis
    by (auto simp: cuddl_eventsrc_timed_wait_def leaves_def Let_def)
qed

lemma event_open_total:
  assumes "fine s"
  obtains ret ev' s' where "cuddl_eventsrc_open os ev eventinfo opts s = Some (ret, ev', s')"
    "if ret = 0 then ue_priv_fd ev' \<notin> open_fds s \<and> ue_priv_token ev' = ei_token eventinfo \<and>
       leaves open_fds fine (insert (ue_priv_fd ev') (open_fds s)) s'
     else ret < 0 \<and> ev' = ev \<and> leaves open_fds fine (open_fds s) s'"
proof -
  from open_file [OF assms, of "cstr (ei_device_name eventinfo)"] obtain fd e s1 where
    o: "sys_open os (cstr (ei_device_name eventinfo)) s = Some (fd, e, s1)"
    "fd = - 1 \<and> 0 < e \<and> leaves open_fds fine (open_fds s) s1 \<or>
     0 \<le> fd \<and> fd \<notin> open_fds s \<and> leaves open_fds fine (insert fd (open_fds s)) s1" by blast
  show ?thesis
  proof (cases "fd = - 1")
    case True
    with o that [of "- e" ev s1] show ?thesis by (auto simp: cuddl_eventsrc_open_def leaves_def)
  next
    case False
    with o(2) have fd: "0 \<le> fd" "fd \<notin> open_fds s" "fine s1" "open_fds s1 = insert fd (open_fds s)"
      by (auto simp: leaves_def)
    define ev1 where "ev1 = ev\<lparr>ue_flags := ei_flags eventinfo, ue_priv_token := ei_token eventinfo, ue_priv_fd := fd\<rparr>"
    from write_file [OF fd(3), of fd 0] obtain n e2 s2 where
      w: "sys_write os fd 0 s1 = Some (n, e2, s2)" "fine s2" "open_fds s2 = insert fd (open_fds s)"
      by (auto simp: leaves_def fd(4))
    from try_wait_total [OF w(2), of ev1 "\<lparr>tv_sec = 0, tv_nsec = 0\<rparr>"] obtain r s3 where
      t: "cuddl_eventsrc_timed_wait os ev1 \<lparr>tv_sec = 0, tv_nsec = 0\<rparr> s2 = Some (r, s3)"
      "leaves open_fds fine (insert fd (open_fds s)) s3" by (auto simp: ev1_def w(3))
    have "cuddl_eventsrc_open os ev eventinfo opts s = Some (0, ev1, s3)"
      using o(1) fd(1) w(1) t(1)
      by (simp add: cuddl_eventsrc_open_def cuddl_eventsrc_disable_def cuddl_eventsrc_try_wait_def ev1_def)
    with t(2) fd(2) that [of 0 ev1 s3] show ?thesis by (simp add: ev1_def)
  qed
qed

lemma claim_and_open_total:
  assumes "fine s"
  obtains ret ev' s' where
    "cuddl_eventsrc_claim_and_open cfg os ev g d r i copts oopts s = Some (ret, ev', s')"
    "if ret = 0 then ue_priv_fd ev' \<notin> open_fds s \<and> leaves open_fds fine (insert (ue_priv_fd ev') (open_fds s)) s'
     else ev' = ev \<and> leaves open_fds fine (open_fds s) s'"
proof -
  from event_claim_total [OF assms, of cfg "stack_eventinfo os s" g d r i copts] obtain ret ei s1 where
    c: "cuddl_eventsrc_claim cfg os (stack_eventinfo os s) g d r i copts s = Some (ret, ei, s1)"
    "fine s1" "open_fds s1 = open_fds s" by (auto simp: leaves_def)
  show ?thesis
  proof (cases "ret = 0")
    case False
    with c that [of ret ev s1] show ?thesis by (simp add: cuddl_eventsrc_claim_and_open_def leaves_def)
  next
    case True
    obtain ret2 ev2 s2 where m: "cuddl_eventsrc_open os ev ei oopts s1 = Some (ret2, ev2, s2)"
      "if ret2 = 0 then ue_priv_fd ev2 \<notin> open_fds s1 \<and> ue_priv_token ev2 = ei_token ei \<and>
         leaves open_fds fine (insert (ue_priv_fd ev2) (open_fds s1)) s2
     else ret2 < 0 \<and> ev2 = ev \<and> leaves open_fds fine (open_fds s1) s2"
      by (rule event_open_total [OF c(2), where ev = ev and eventinfo = ei and opts = oopts])
    show ?thesis
    proof (cases "ret2 = 0")
      case True
      with c m(1) \<open>ret = 0\<close> m(2) that [of 0 ev2 s2] show ?thesis by (simp add: cuddl_eventsrc_claim_and_open_def)
    next
      case False
      with m(2) have s2: "fine s2" "ev2 = ev" "open_fds s2 = open_fds s" by (simp_all add: leaves_def c(3))
      from release_total(2) [OF s2(1), of cfg "ei_token ei"] obtain r s3 where
        "cuddli_eventsrc_release_by_token cfg os (ei_token ei) s2 = Some (r, s3)" "fine s3" "open_fds s3 = open_fds s"
        by (auto simp: leaves_def s2(3))
      with c m(1) \<open>ret = 0\<close> False s2 that [of ret2 ev s3] show ?thesis
        by (simp add: cuddl_eventsrc_claim_and_open_def cuddl_eventsrc_release_def leaves_def)
    qed
  qed
qed

lemma close_and_release_total:
  assumes "fine s" "ue_priv_fd ev \<in> open_fds s"
  shows "\<exists>ret s'. cuddl_eventsrc_close_and_release cfg os ev s = Some (ret, s') \<and>
    leaves open_fds fine (open_fds s - {ue_priv_fd ev}) s'"
proof -
  from close_file [OF assms] obtain r2 e2 s2 where
    c: "sys_close os (ue_priv_fd ev) s = Some (r2, e2, s2)" "fine s2" "open_fds s2 = open_fds s - {ue_priv_fd ev}"
    by (metis leaves_def)
  from release_total(2) [OF c(2), of cfg "ue_priv_token ev"] obtain r3 s3 where
    "cuddli_eventsrc_release_by_token cfg os (ue_priv_token ev) s2 = Some (r3, s3)"
    "leaves open_fds fine (open_fds s2) s3" by blast
  with c show ?thesis
    by (simp add: cuddl_eventsrc_close_and_release_def cuddl_eventsrc_close_def)
qed

end

end
