(* ===== verification/Linux_Process.thy ===== *)
theory Linux_Process
  imports Linux_System User_Discipline
begin

section \<open>The system keeps the promises that the library relies on\<close>

text \<open>
  The invariant of the composed system, and the interpretation of \<open>posix_files\<close> on it: the
  promises about \<^verbatim>\<open>ioctl\<close> and \<^verbatim>\<open>close\<close> rest on the safety of the kernel's
  handlers.
\<close>

fun file_ok :: "open_file \<Rightarrow> bool" where
  "file_ok (Janitor_File j) = (private_data j \<noteq> Freed)"
| "file_ok _ = True"

definition errors_positive :: "call_env \<Rightarrow> bool" where
  "errors_positive e \<longleftrightarrow>
     (\<forall>n. ce_open e = Some n \<longrightarrow> 0 < n) \<and> (\<forall>n. ce_close e = Some n \<longrightarrow> 0 < n) \<and>
     (\<forall>n. ce_mmap e = Inl n \<longrightarrow> 0 < n) \<and> ce_mmap e \<noteq> Inr (- 1)"

definition kernel_fine :: "kcfg \<Rightarrow> kstate \<Rightarrow> bool" where
  "kernel_fine cfg k \<longleftrightarrow> manager_inv cfg k \<and> all_named cfg k \<and> refs_few k \<and> \<not> k_locked k"

definition files_fine :: "(c_int \<times> open_file) list \<Rightarrow> bool" where
  "files_fine fs \<longleftrightarrow> distinct (map fst fs) \<and>
     (\<forall>(fd, f) \<in> set fs. 0 \<le> fd \<and> fd < FD_SETSIZE \<and> file_ok f)"

definition linux_fine :: "kcfg \<Rightarrow> linux \<Rightarrow> bool" where
  "linux_fine cfg s \<longleftrightarrow> kernel_fine cfg (kern s) \<and> files_fine (files s) \<and>
     errors_positive (now s) \<and> (\<forall>n. errors_positive (later s n))"

lemma tick_simps [simp]:
  "kern (tick s) = kern s" "files (tick s) = files s" "my_pid (tick s) = my_pid s"
  "open_fds (tick s) = open_fds s"
  by (simp_all add: tick_def open_fds_def)

lemma fine_tick [fine_intros]: "linux_fine cfg s \<Longrightarrow> linux_fine cfg (tick s)"
  by (simp add: linux_fine_def tick_def)

lemma fine_update [fine_intros]:
  "linux_fine cfg s \<Longrightarrow> kernel_fine cfg k \<Longrightarrow> files_fine fs \<Longrightarrow> linux_fine cfg (tick (s\<lparr>kern := k, files := fs\<rparr>))"
  by (simp add: linux_fine_def tick_def)

lemma fine_kern [fine_intros]: "linux_fine cfg s \<Longrightarrow> kernel_fine cfg k \<Longrightarrow> linux_fine cfg (tick (s\<lparr>kern := k\<rparr>))"
  by (simp add: linux_fine_def tick_def)

lemma fine_files [fine_intros]: "linux_fine cfg s \<Longrightarrow> files_fine fs \<Longrightarrow> linux_fine cfg (tick (s\<lparr>files := fs\<rparr>))"
  by (simp add: linux_fine_def tick_def)

lemma fineD:
  assumes "linux_fine cfg s"
  shows "kernel_fine cfg (kern s)" "files_fine (files s)" "errors_positive (now s)"
  using assms by (simp_all add: linux_fine_def)

subsection \<open>Descriptors\<close>

lemma find_lowest: "\<exists>i. find (\<lambda>i. int i \<notin> set (map fst fs)) [0..<Suc (length fs)] = Some i \<and> int i \<notin> set (map fst fs)"
proof -
  have "\<exists>i \<le> length fs. int i \<notin> set (map fst fs)"
  proof (rule ccontr)
    assume "\<not> ?thesis"
    then have "int ` {0..length fs} \<subseteq> set (map fst fs)" by auto
    then have "card (int ` {0..length fs}) \<le> length (map fst fs)"
      by (meson card_length card_mono finite_set le_trans)
    then show False by (simp add: card_image)
  qed
  then have "find (\<lambda>i. int i \<notin> set (map fst fs)) [0..<Suc (length fs)] \<noteq> None"
    unfolding find_None_iff by (metis atLeastLessThan_iff less_Suc_eq_le set_upt zero_le)
  then show ?thesis by (metis (mono_tags, lifting) find_Some_iff not_None_eq)
qed

lemma lowest_fd_free: "0 \<le> lowest_fd fs" "lowest_fd fs \<notin> set (map fst fs)"
proof -
  from find_lowest [of fs] obtain i where "lowest_fd fs = int i" "int i \<notin> set (map fst fs)"
    unfolding lowest_fd_def by fastforce
  then show "0 \<le> lowest_fd fs" "lowest_fd fs \<notin> set (map fst fs)" by simp_all
qed

lemma files_fine_open [fine_intros]: "files_fine fs \<Longrightarrow> lowest_fd fs < FD_SETSIZE \<Longrightarrow> files_fine ((lowest_fd fs, file_for path) # fs)"
  using lowest_fd_free [of fs]
  by (simp add: files_fine_def file_for_def cuddlk_janitor_open_def new_file_def)

lemma files_fine_close [fine_intros]: "files_fine fs \<Longrightarrow> files_fine (filter (\<lambda>f. fst f \<noteq> fd) fs)"
  by (auto simp: files_fine_def distinct_map_filter)

lemma files_fine_update [fine_intros]:
  "files_fine fs \<Longrightarrow> fd \<in> set (map fst fs) \<Longrightarrow> file_ok f \<Longrightarrow> files_fine (AList.update fd f fs)"
proof -
  assume fs: "files_fine fs" and fd: "fd \<in> set (map fst fs)" and f: "file_ok f"
  from fd fs have b: "0 \<le> fd" "fd < FD_SETSIZE" by (auto simp: files_fine_def)
  have "set (AList.update fd f fs) \<subseteq> insert (fd, f) (set fs)" by (induction fs) auto
  with fs f b show ?thesis by (auto simp: files_fine_def distinct_update)
qed

lemma open_file_at: "fd \<in> open_fds s \<Longrightarrow> \<exists>f. map_of (files s) fd = Some f \<and> (fd, f) \<in> set (files s)"
  unfolding open_fds_def by (metis list.set_map map_of_SomeD map_of_eq_None_iff not_None_eq)

lemma file_ok_at: "files_fine (files s) \<Longrightarrow> (fd, f) \<in> set (files s) \<Longrightarrow> file_ok f"
  by (auto simp: files_fine_def)

subsection \<open>The kernel's part\<close>

lemma fits_copied_in: "fits (copied_in ok room env p) q \<Longrightarrow> payload_kind q = payload_kind p"
  by (cases p; cases q) (simp_all add: fits_def copied_in_def split: if_splits)

lemma kernel_ioctl:
  assumes "kernel_fine cfg k"
  shows "\<exists>ret out k'. cuddlk_manager_ioctl cfg (copied_in ok (refs_room k) env p) cmd k = Some (ret, out, k') \<and>
    kernel_fine cfg k' \<and> k_shape k' = k_shape k \<and> (\<forall>q. out = Some q \<longrightarrow> payload_kind q = payload_kind p)"
proof -
  let ?env = "copied_in ok (refs_room k) env p"
  from assms have k: "manager_inv cfg k" "refs_few k" "all_named cfg k" "\<not> k_locked k"
    by (simp_all add: kernel_fine_def)
  obtain ret out k' where i: "cuddlk_manager_ioctl cfg ?env cmd k = Some (ret, out, k')"
    "manager_inv cfg k'" "k_shape k' = k_shape k"
    by (rule manager_ioctl_keeps [OF k])
  have "list_room ?env \<le> (if refs_room k then 1 else 0)" by (simp add: list_room_def copied_in_def)
  with manager_ioctl_frame(1,2) [OF i(1)] k(2) have "refs_few k'"
    by (auto simp: refs_few_def refs_room_def split: if_splits)
  moreover have "\<not> k_locked k'" using k_shape_table [OF i(3)] k(4) by simp
  moreover have "all_named cfg k'" by (rule all_named_shape [OF i(3) k(3)])
  moreover have "payload_kind q = payload_kind p" if "out = Some q" for q
    by (rule fits_copied_in [OF manager_ioctl_frame(3) [OF i(1) that]])
  ultimately show ?thesis using i by (auto simp: kernel_fine_def)
qed

lemma kernel_janitor_release:
  assumes "kernel_fine cfg k" "private_data j \<noteq> Freed"
  shows "\<exists>j' k'. cuddlk_janitor_release j k = Some (0, j', k') \<and> kernel_fine cfg k' \<and> k_shape k' = k_shape k"
proof (cases "private_data j")
  case Null
  with assms(1) show ?thesis by (simp add: cuddlk_janitor_release_def)
next
  case (Live pid)
  from assms(1) have k: "manager_inv cfg k" "refs_few k" "\<not> k_locked k" "all_named cfg k"
    by (simp_all add: kernel_fine_def)
  obtain k' where k': "cuddlk_manager_free_refs_for_pid pid k = Some k'" "manager_inv cfg k'" "k_shape k' = k_shape k"
    "cuddlk_mem_refs k' = filter (\<lambda>x. ref_pid x \<noteq> pid) (cuddlk_mem_refs k)"
    "cuddlk_event_refs k' = filter (\<lambda>x. ref_pid x \<noteq> pid) (cuddlk_event_refs k)"
    using manager_free_refs_outcome [OF k(1-3)] by blast
  have "refs_few k'"
    using k(2) k'(4,5) by (simp add: refs_few_def le_less_trans [OF length_filter_le])
  moreover have "\<not> k_locked k'" using k_shape_table [OF k'(3)] k(3) by simp
  moreover have "all_named cfg k'" by (rule all_named_shape [OF k'(3) k(4)])
  ultimately show ?thesis
    using Live k'(1,2,3) by (simp add: cuddlk_janitor_release_def kernel_fine_def)
next
  case Freed
  with assms(2) show ?thesis by simp
qed

lemma janitor_ioctl_ok: "private_data j \<noteq> Freed \<Longrightarrow> private_data (snd (cuddlk_janitor_ioctl c ok cmd j)) \<noteq> Freed"
  by (auto simp: cuddlk_janitor_ioctl_def split: ioctl_cmd.splits option.splits)

subsection \<open>The promises\<close>

lemma linux_open_law:
  assumes "linux_fine cfg s"
  shows "\<exists>fd errno s'. linux_open path s = Some (fd, errno, s') \<and>
    (fd = - 1 \<and> 0 < errno \<and> leaves open_fds (linux_fine cfg) (open_fds s) s' \<or>
     0 \<le> fd \<and> fd \<notin> open_fds s \<and> leaves open_fds (linux_fine cfg) (insert fd (open_fds s)) s')"
proof (cases "ce_open (now s)")
  case (Some e)
  with fineD(3) [OF assms] show ?thesis
    by (simp add: linux_open_def leaves_def fine_tick [OF assms] errors_positive_def)
next
  case None
  show ?thesis
  proof (cases "lowest_fd (files s) \<ge> FD_SETSIZE")
    case True
    with None show ?thesis by (simp add: linux_open_def leaves_def fine_tick [OF assms] EMFILE_def)
  next
    case False
    with None show ?thesis
      using lowest_fd_free [of "files s"] fine_files [OF assms files_fine_open [OF fineD(2) [OF assms], of path]]
      by (simp add: linux_open_def leaves_def open_fds_def Let_def)
  qed
qed

lemma linux_close_law:
  assumes "linux_fine cfg s" "fd \<in> open_fds s"
  shows "\<exists>ret errno s'. linux_close fd s = Some (ret, errno, s') \<and>
    (ret = 0 \<or> ret = - 1 \<and> 0 < errno) \<and> leaves open_fds (linux_fine cfg) (open_fds s - {fd}) s'"
proof -
  from open_file_at [OF assms(2)] obtain f where f: "map_of (files s) fd = Some f" "(fd, f) \<in> set (files s)" by blast
  have r: "fst (close_result s) = 0 \<or> fst (close_result s) = - 1 \<and> 0 < snd (close_result s)"
    using fineD(3) [OF assms(1)] by (auto simp: close_result_def errors_positive_def split: option.split)
  have fds: "open_fds (s\<lparr>kern := k, files := filter (\<lambda>f. fst f \<noteq> fd) (files s)\<rparr>) = open_fds s - {fd}" for k
    by (auto simp: open_fds_def)
  note fine = fine_update [OF assms(1) _ files_fine_close [OF fineD(2) [OF assms(1)], of fd]]
  obtain k where k: "(case f of Janitor_File j \<Rightarrow> do { (_, _, k) \<leftarrow> cuddlk_janitor_release j (kern s); Some k }
      | _ \<Rightarrow> Some (kern s)) = Some k" "kernel_fine cfg k"
  proof (cases f)
    case (Janitor_File j)
    with file_ok_at [OF fineD(2) [OF assms(1)] f(2)] kernel_janitor_release [OF fineD(1) [OF assms(1)], of j] that
    show ?thesis by auto
  qed (use fineD(1) [OF assms(1)] that in simp_all)
  from f(1) k r fine [OF k(2)] show ?thesis
    by (cases "close_result s") (simp add: linux_close_def leaves_def fds)
qed

lemma linux_ioctl_law:
  assumes "linux_fine cfg s" "fd \<in> open_fds s"
  shows "\<exists>ret errno p' s'. linux_ioctl cfg fd cmd p s = Some (ret, errno, p', s') \<and>
    payload_kind p' = payload_kind p \<and> leaves open_fds (linux_fine cfg) (open_fds s) s'"
proof -
  from open_file_at [OF assms(2)] obtain f where f: "map_of (files s) fd = Some f" "(fd, f) \<in> set (files s)" by blast
  show ?thesis
  proof (cases f)
    case Manager_File
    from kernel_ioctl [OF fineD(1) [OF assms(1)], of "ce_copy_in (now s)" "ce_kernel (now s)" p cmd]
    obtain ret out k where "cuddlk_manager_ioctl cfg
        (copied_in (ce_copy_in (now s)) (refs_room (kern s)) (ce_kernel (now s)) p) cmd (kern s) = Some (ret, out, k)"
      "kernel_fine cfg k" "\<forall>q. out = Some q \<longrightarrow> payload_kind q = payload_kind p" by blast
    with f(1) Manager_File fine_kern [OF assms(1)] show ?thesis
      by (cases "syscall_result ret") (auto simp: linux_ioctl_def leaves_def open_fds_def split: option.split)
  next
    case (Janitor_File j)
    obtain ret j' where i: "cuddlk_janitor_ioctl (janitor_copied (ce_copy_in (now s)) p) (ce_kzalloc (now s)) cmd j = (ret, j')"
      by fastforce
    from file_ok_at [OF fineD(2) [OF assms(1)] f(2)] Janitor_File i janitor_ioctl_ok have "file_ok (Janitor_File j')"
      by (metis file_ok.simps(1) snd_conv)
    from files_fine_update [OF fineD(2) [OF assms(1)] _ this] assms(2)
    have "files_fine (AList.update fd (Janitor_File j') (files s))" by (simp add: open_fds_def)
    from fine_files [OF assms(1) this] f(1) Janitor_File i assms(2) show ?thesis
      by (cases "syscall_result ret") (simp add: linux_ioctl_def leaves_def open_fds_def dom_update insert_absorb)
  next
    case (Device_File path)
    with f(1) show ?thesis by (simp add: linux_ioctl_def leaves_def fine_tick [OF assms(1)])
  qed
qed

interpretation lx: small_files "linux_posix cfg" open_fds "linux_fine cfg" for cfg
proof
  fix s path
  assume "linux_fine cfg s"
  then show "\<exists>fd errno s'. sys_open (linux_posix cfg) path s = Some (fd, errno, s') \<and>
      (fd = - 1 \<and> 0 < errno \<and> leaves open_fds (linux_fine cfg) (open_fds s) s' \<or>
       0 \<le> fd \<and> fd \<notin> open_fds s \<and> leaves open_fds (linux_fine cfg) (insert fd (open_fds s)) s')"
    by (simp add: linux_posix_def linux_open_law)
next
  fix s fd
  assume "linux_fine cfg s" "fd \<in> open_fds s"
  then show "\<exists>ret errno s'. sys_close (linux_posix cfg) fd s = Some (ret, errno, s') \<and>
      (ret = 0 \<or> ret = - 1 \<and> 0 < errno) \<and> leaves open_fds (linux_fine cfg) (open_fds s - {fd}) s'"
    by (simp add: linux_posix_def linux_close_law)
next
  fix s fd cmd p
  assume "linux_fine cfg s" "fd \<in> open_fds s"
  then show "\<exists>ret errno p' s'. sys_ioctl (linux_posix cfg) fd cmd p s = Some (ret, errno, p', s') \<and>
      payload_kind p' = payload_kind p \<and> leaves open_fds (linux_fine cfg) (open_fds s) s'"
    by (simp add: linux_posix_def linux_ioctl_law)
next
  fix s fd len offset
  assume s: "linux_fine cfg s" "fd \<in> open_fds s"
  from fineD(3) [OF s(1)] show "\<exists>addr errno s'. sys_mmap (linux_posix cfg) len fd offset s = Some (addr, errno, s') \<and>
      (addr = - 1 \<longrightarrow> 0 < errno) \<and> leaves open_fds (linux_fine cfg) (open_fds s) s'"
    by (auto simp: linux_posix_def call_defs leaves_def fine_tick [OF s(1)] errors_positive_def split: sum.split)
next
  fix s addr len
  assume s: "linux_fine cfg s"
  show "\<exists>ret errno s'. sys_munmap (linux_posix cfg) addr len s = Some (ret, errno, s') \<and>
      leaves open_fds (linux_fine cfg) (open_fds s) s'"
    by (simp add: linux_posix_def call_defs leaves_def fine_intros s split: option.split)
next
  fix s fd buf
  assume s: "linux_fine cfg s"
  show "\<exists>ret errno v s'. sys_read (linux_posix cfg) fd buf s = Some (ret, errno, v, s') \<and>
      leaves open_fds (linux_fine cfg) (open_fds s) s'"
    by (simp add: linux_posix_def call_defs leaves_def fine_intros s split: sum.split prod.split)
next
  fix s fd v
  assume s: "linux_fine cfg s"
  show "\<exists>ret errno s'. sys_write (linux_posix cfg) fd v s = Some (ret, errno, s') \<and>
      leaves open_fds (linux_fine cfg) (open_fds s) s'"
    by (simp add: linux_posix_def call_defs leaves_def fine_intros s split: sum.split)
next
  fix s n fds tv
  assume s: "linux_fine cfg s"
  show "\<exists>ret errno ready s'. sys_select (linux_posix cfg) n fds tv s = Some (ret, errno, ready, s') \<and>
      ready \<subseteq> fds \<and> leaves open_fds (linux_fine cfg) (open_fds s) s'"
    by (auto simp: linux_posix_def call_defs leaves_def fine_intros s split: sum.split prod.split)
next
  fix s fd
  assume "linux_fine cfg s" "fd \<in> open_fds s"
  then show "0 \<le> fd \<and> fd < FD_SETSIZE" by (auto simp: linux_fine_def files_fine_def open_fds_def)
qed

end
