(* ===== verification/End_To_End.thy ===== *)
theory End_To_End
  imports Linux_Process
begin

section \<open>From a library call to the manager's table\<close>

text \<open>
  The functions of the library run on the composed system. A data call is one open, one
  request and one close; \<open>advance n\<close> is the state after \<open>n\<close> calls, \<open>ahead s n\<close> the
  environment of the call number \<open>n\<close> from now.
\<close>

definition ahead :: "linux \<Rightarrow> nat \<Rightarrow> call_env" where
  "ahead s n = (case n of 0 \<Rightarrow> now s | Suc m \<Rightarrow> later s m)"

definition advance :: "nat \<Rightarrow> linux \<Rightarrow> linux" where
  "advance n s = s\<lparr>now := ahead s n, later := (\<lambda>m. ahead s (n + Suc m))\<rparr>"

lemma ahead_simps [simp]:
  "ahead s 0 = now s" "ahead s (Suc m) = later s m" "ahead (s\<lparr>kern := k\<rparr>) = ahead s"
  "ahead (s\<lparr>files := fs\<rparr>) = ahead s" "ahead (s\<lparr>my_pid := pid\<rparr>) = ahead s"
  by (simp_all add: ahead_def fun_eq_iff split: nat.split)

lemma ahead_advance [simp]: "ahead (advance n s) m = ahead s (n + m)"
  by (cases m) (simp_all add: advance_def)

lemma advance_fields [simp]:
  "kern (advance n s) = kern s" "files (advance n s) = files s" "my_pid (advance n s) = my_pid s"
  "open_fds (advance n s) = open_fds s" "now (advance n s) = ahead s n"
  "garbage_id (advance n s) = garbage_id s" "garbage_meminfo (advance n s) = garbage_meminfo s"
  "garbage_eventinfo (advance n s) = garbage_eventinfo s" "garbage_options (advance n s) = garbage_options s"
  "garbage_text (advance n s) = garbage_text s"
  by (simp_all add: advance_def open_fds_def)

lemma later_advance [simp]: "later (advance n s) m = later s (n + m)"
  by (simp add: advance_def)

lemma advance_advance [simp]: "advance m (advance n s) = advance (n + m) s"
proof (rule linux.equality)
  show "later (advance m (advance n s)) = later (advance (n + m) s)"
    by (simp add: fun_eq_iff add.assoc)
qed simp_all

lemma advance_update: "advance n (s\<lparr>kern := k\<rparr>) = (advance n s)\<lparr>kern := k\<rparr>"
  "advance n (s\<lparr>files := fs\<rparr>) = (advance n s)\<lparr>files := fs\<rparr>"
  by (simp_all add: advance_def)

lemma advance_files: "(advance n s)\<lparr>kern := k, files := files s\<rparr> = (advance n s)\<lparr>kern := k\<rparr>"
  by (simp add: advance_def)

lemma tick_advance: "tick s = advance 1 s"
  by (rule linux.equality) (simp_all add: tick_def advance_def)

lemma linux_posix_simps [simp]:
  "sys_open (linux_posix cfg) = linux_open" "sys_close (linux_posix cfg) = linux_close"
  "sys_ioctl (linux_posix cfg) = linux_ioctl cfg" "sys_mmap (linux_posix cfg) = linux_mmap"
  "sys_munmap (linux_posix cfg) = linux_munmap" "sys_read (linux_posix cfg) = linux_read"
  "sys_write (linux_posix cfg) = linux_write" "sys_select (linux_posix cfg) = linux_select"
  "sys_getpid (linux_posix cfg) = my_pid" "stack_id (linux_posix cfg) = garbage_id"
  "stack_meminfo (linux_posix cfg) = garbage_meminfo" "stack_eventinfo (linux_posix cfg) = garbage_eventinfo"
  "stack_text (linux_posix cfg) = garbage_text" "stack_options (linux_posix cfg) = garbage_options"
  by (simp_all add: linux_posix_def)

subsection \<open>One data call\<close>

text \<open>The environment in which the handler sees the request of a call.\<close>

definition request_env :: "linux \<Rightarrow> nat \<Rightarrow> ioctl_payload \<Rightarrow> ioctl_env" where
  "request_env s n p = copied_in (ce_copy_in (ahead s n)) (refs_room (kern s)) (ce_kernel (ahead s n)) p"

definition close_error :: "call_env \<Rightarrow> c_int" where
  "close_error e = (case ce_close e of None \<Rightarrow> 0 | Some n \<Rightarrow> - n)"

lemma filter_fresh: "fd \<notin> set (map fst fs) \<Longrightarrow> filter (\<lambda>f. fst f \<noteq> fd) fs = fs"
  by (rule filter_True) auto

lemma linux_data_call:
  assumes "ce_open (ahead s 0) = None" "lowest_fd (files s) < FD_SETSIZE"
    and "cuddlk_manager_ioctl cfg (request_env s 1 p) cmd (kern s) = Some (ret, out, k)"
  shows "manager_data_call (linux_posix cfg) cmd p s =
    Some (if ret \<noteq> 0 then (ret, None, advance 3 (s\<lparr>kern := k\<rparr>))
      else (close_error (ahead s 2), Some (case out of None \<Rightarrow> p | Some q \<Rightarrow> q), advance 3 (s\<lparr>kern := k\<rparr>)))"
proof -
  let ?fd = "lowest_fd (files s)" and ?p' = "case out of None \<Rightarrow> p | Some q \<Rightarrow> q"
  let ?s1 = "advance 1 (s\<lparr>files := (?fd, Manager_File) # files s\<rparr>)"
  let ?s2 = "advance 1 (?s1\<lparr>kern := k\<rparr>)"
  have fd: "?fd \<noteq> - 1" "?fd \<notin> set (map fst (files s))" using lowest_fd_free [of "files s"] by auto
  have o: "linux_open ''/dev/cuddl'' s = Some (?fd, 0, ?s1)"
    using assms(1,2) by (simp add: linux_open_def Let_def tick_advance file_for_def)
  have i: "linux_ioctl cfg ?fd cmd p ?s1 = Some (fst (syscall_result ret), snd (syscall_result ret), ?p', ?s2)"
    using assms(3) by (simp add: linux_ioctl_def request_env_def tick_advance split: prod.split)
  have "advance 1 (?s2\<lparr>files := files s\<rparr>) = advance 3 (s\<lparr>kern := k\<rparr>)"
    by (simp add: advance_update advance_files numeral_3_eq_3)
  then have c: "linux_close ?fd ?s2 = Some (fst (close_result ?s2), snd (close_result ?s2), advance 3 (s\<lparr>kern := k\<rparr>))"
    using fd(2) by (simp add: linux_close_def filter_fresh tick_advance advance_update split: prod.split)
  have r: "close_result ?s2 = (case ce_close (ahead s 2) of None \<Rightarrow> (0, 0) | Some e \<Rightarrow> (- 1, e))"
    by (simp add: close_result_def numeral_2_eq_2)
  show ?thesis
    using o i c [unfolded r] fd(1)
    by (auto simp: manager_data_call_def close_error_def syscall_result_def Let_def split: option.split)
qed

subsection \<open>Claims and releases of the library\<close>

text \<open>Nothing stands in the way of the request of call number \<open>n\<close>.\<close>

definition served :: "linux \<Rightarrow> nat \<Rightarrow> bool" where
  "served s n \<longleftrightarrow> ce_copy_in (ahead s n) \<and> all_succeed (ce_kernel (ahead s n)) \<and> refs_room (kern s)"

definition mem_claim_request ::
  "linux \<Rightarrow> string option \<Rightarrow> string option \<Rightarrow> string option \<Rightarrow> c_int \<Rightarrow> c_int \<Rightarrow> cuddlci_memregion_claim_ioctl_data" where
  "mem_claim_request s g d r i opts = \<lparr>mc_version_code = CUDDL_VERSION_CODE,
     mc_id = populate_id_from_args (garbage_id s) g d r i, mc_info = garbage_meminfo s,
     mc_pid = my_pid s, mc_options = opts\<rparr>"

lemma request_env_served:
  assumes "served s n"
  shows "all_succeed (request_env s n p)" "cfu_mem_claim (request_env s n (Mem_Claim_Data md)) = Some md"
  using assms by (simp_all add: served_def request_env_def copied_in_def all_succeed_def)

lemma kernel_fineD:
  assumes "kernel_fine cfg k"
  shows "manager_inv cfg k" "refs_few k" "all_named cfg k" "\<not> k_locked k"
  using assms by (simp_all add: kernel_fine_def)

lemma request_kernel_fine:
  assumes "kernel_fine cfg (kern s)" "cuddlk_manager_ioctl cfg (request_env s n p) cmd (kern s) = Some (ret, out, k)"
  shows "kernel_fine cfg k"
proof -
  obtain ret' out' k' where
    "cuddlk_manager_ioctl cfg (request_env s n p) cmd (kern s) = Some (ret', out', k')" "kernel_fine cfg k'"
    using kernel_ioctl [OF assms(1), of "ce_copy_in (ahead s n)" "ce_kernel (ahead s n)" p cmd]
    unfolding request_env_def [symmetric] by blast
  with assms(2) show ?thesis by simp
qed

lemma library_claim:
  assumes fine: "kernel_fine cfg (kern s)" "refs_exact (kern s)" "lowest_fd (files s) < FD_SETSIZE"
    and env: "ce_open (ahead s 0) = None" "served s 1"
  obtains ret md' k where
    "cuddl_memregion_claim ucfg (linux_posix cfg) meminfo g d r i opts s =
       Some (if ret \<noteq> 0 then (ret, meminfo, advance 3 (s\<lparr>kern := k\<rparr>))
         else (close_error (ahead s 2), mc_info md', advance 3 (s\<lparr>kern := k\<rparr>)))"
    "mem_claim_meets (kern s) (mem_claim_request s g d r i opts) ret
       (if ret = 0 then Some (Mem_Claim_Data md') else None) k"
    "refs_exact k" "kernel_fine cfg k" "event_holders k = event_holders (kern s)"
proof -
  let ?req = "mem_claim_request s g d r i opts" and ?cmd = "CUDDLCI_MEMREGION_CLAIM_IOCTL ucfg"
  have cmd: "?cmd = CUDDLCI_MEMREGION_CLAIM_UIO_IOCTL \<or> ?cmd = CUDDLCI_MEMREGION_CLAIM_UDD_IOCTL"
    by (simp add: user_cmd_defs)
  have v: "version_code_is_compat (mc_version_code ?req)" by (simp add: mem_claim_request_def)
  from mem_claim_ioctl [OF kernel_fineD(1,2) [OF fine(1)] fine(2) kernel_fineD(4) [OF fine(1)]
      request_env_served(1,2) [OF env(2)] v cmd]
  obtain ret out k where io: "cuddlk_manager_ioctl cfg (request_env s 1 (Mem_Claim_Data ?req)) ?cmd (kern s) = Some (ret, out, k)"
    "mem_claim_meets (kern s) ?req ret out k" "refs_exact k" "event_holders k = event_holders (kern s)" by blast
  have call: "manager_data_call (linux_posix cfg) ?cmd (Mem_Claim_Data ?req) s =
    Some (if ret \<noteq> 0 then (ret, None, advance 3 (s\<lparr>kern := k\<rparr>))
      else (close_error (ahead s 2), Some (case out of None \<Rightarrow> Mem_Claim_Data ?req | Some q \<Rightarrow> q), advance 3 (s\<lparr>kern := k\<rparr>)))"
    by (rule linux_data_call [OF env(1) fine(3) io(1)])
  have claim: "cuddl_memregion_claim ucfg (linux_posix cfg) meminfo g d r i opts s =
      do { (ret, out, s) \<leftarrow> manager_data_call (linux_posix cfg) ?cmd (Mem_Claim_Data ?req) s;
           case out of None \<Rightarrow> Some (ret, meminfo, s)
           | Some (Mem_Claim_Data req) \<Rightarrow> Some (ret, mc_info req, s) | _ \<Rightarrow> None }"
    by (simp add: cuddl_memregion_claim_def mem_claim_request_def Let_def)
  show ?thesis
  proof (cases "ret = 0")
    case False
    have "mem_claim_meets (kern s) ?req ret None k"
      using io(2) False by (auto simp: mem_claim_meets_def split: option.splits prod.splits)
    with False that [of ret k ?req] io(3,4) request_kernel_fine [OF fine(1) io(1)] show ?thesis
      by (simp add: claim call)
  next
    case True
    with io(2) obtain md' where "out = Some (Mem_Claim_Data md')"
      by (auto simp: mem_claim_meets_def split: option.splits prod.splits)
    with True that [of ret k md'] io(2-4) request_kernel_fine [OF fine(1) io(1)] show ?thesis
      by (simp add: claim call)
  qed
qed

lemma library_release:
  assumes fine: "kernel_fine cfg (kern s)" "refs_exact (kern s)" "lowest_fd (files s) < FD_SETSIZE"
    and env: "ce_open (ahead s 0) = None" "ce_copy_in (ahead s 1)" "\<forall>n < 10. kz_ok (ce_kernel (ahead s 1)) n"
    and held: "my_pid s \<in> set (mem_holders (kern s) i j)"
  obtains k where
    "cuddli_memregion_release_by_token ucfg (linux_posix cfg) \<lparr>device_index = i, resource_index = j\<rparr> s =
       Some (close_error (ahead s 2), advance 3 (s\<lparr>kern := k\<rparr>))"
    "mem_holders k = set_holders i j (remove1 (my_pid s) (mem_holders (kern s) i j)) (mem_holders (kern s))"
    "refs_exact k" "kernel_fine cfg k" "event_holders k = event_holders (kern s)"
proof -
  let ?req = "\<lparr>mrel_version_code = CUDDL_VERSION_CODE, mrel_token = \<lparr>device_index = i, resource_index = j\<rparr>,
    mrel_pid = my_pid s\<rparr>" and ?cmd = "CUDDLCI_MEMREGION_RELEASE_IOCTL ucfg"
  have cmd: "?cmd = CUDDLCI_MEMREGION_RELEASE_UIO_IOCTL \<or> ?cmd = CUDDLCI_MEMREGION_RELEASE_UDD_IOCTL"
    by (simp add: user_cmd_defs)
  have e: "\<forall>n < 10. kz_ok (request_env s 1 p) n" "cfu_mem_release (request_env s 1 (Mem_Release_Data mr)) = Some mr"
    for p mr using env(2,3) by (simp_all add: request_env_def copied_in_def)
  from mem_release_ioctl [OF kernel_fineD(1,2) [OF fine(1)] fine(2) kernel_fineD(4) [OF fine(1)]
      e _ cmd, of ?req i j] held
  obtain k where io: "cuddlk_manager_ioctl cfg (request_env s 1 (Mem_Release_Data ?req)) ?cmd (kern s) = Some (0, None, k)"
    "mem_holders k = set_holders i j (remove1 (my_pid s) (mem_holders (kern s) i j)) (mem_holders (kern s))"
    "refs_exact k" "event_holders k = event_holders (kern s)" by auto
  from linux_data_call [OF env(1) fine(3) io(1)] that [of k] io(2-4) request_kernel_fine [OF fine(1) io(1)]
  show ?thesis by (simp add: cuddli_memregion_release_by_token_def)
qed

end
