(* ===== verification/Linux_Properties.thy ===== *)
theory Linux_Properties
  imports End_To_End
begin

section \<open>Properties of the library over the kernel\<close>

text \<open>
  What a caller of the library gets from the kernel: the names that reach its searches, claims
  measured against the holders' specification, what happens to a claim when a later step
  fails, and the table of descriptors. A sample system serves as the concrete input.
\<close>

subsection \<open>Names\<close>

text \<open>Two identifiers that a search cannot tell apart.\<close>

definition names_agree :: "cuddl_resource_id \<Rightarrow> cuddl_resource_id \<Rightarrow> bool" where
  "names_agree a b \<longleftrightarrow> cstr (id_group a) = cstr (id_group b) \<and> cstr (id_device a) = cstr (id_device b) \<and>
     cstr (id_resource a) = cstr (id_resource b) \<and> id_instance a = id_instance b"

lemma name_matches_cong: "cstr a = cstr b \<Longrightarrow> name_matches (Some a) = name_matches (Some b)"
  by (simp add: name_matches_def fun_eq_iff)

lemma name_given_cong: "cstr a = cstr b \<Longrightarrow> name_given (Some a) = name_given (Some b)"
  by (simp add: name_given_def strnlen_pos_iff)

lemma slot_cong:
  assumes "cstr a = cstr b"
  shows "memregion_slot d (Some a) = memregion_slot d (Some b)" "eventsrc_slot d (Some a) = eventsrc_slot d (Some b)"
  by (simp_all add: memregion_slot_def eventsrc_slot_def name_matches_cong [OF assms])

lemma matching_slot_cong:
  assumes "cstr a = cstr a'" "cstr b = cstr b'" "cstr c = cstr c'"
  shows "matching_slot st (Some a) (Some b) (Some c) k t i = matching_slot st (Some a') (Some b') (Some c') k t i"
proof -
  have "resource_matches t (Some c) d = resource_matches t (Some c') d" for d
    by (cases t) (simp_all add: resource_matches_def slot_cong [OF assms(3)])
  then have "device_matches (Some a) (Some b) (Some c) k t = device_matches (Some a') (Some b') (Some c') k t"
    by (simp add: device_matches_def fun_eq_iff name_matches_cong [OF assms(1)]
        name_matches_cong [OF assms(2)] name_given_cong [OF assms(3)])
  then have "slot_matches st (Some a) (Some b) (Some c) k t = slot_matches st (Some a') (Some b') (Some c') k t"
    by (intro ext) (simp only: slot_matches_def)
  then show ?thesis by (simp add: matching_slot_def)
qed

lemma lookup_names:
  assumes "names_agree a b"
  shows "lookup_memregion st a = lookup_memregion st b" "lookup_eventsrc st a = lookup_eventsrc st b"
proof -
  from assms have n: "cstr (id_group a) = cstr (id_group b)" "cstr (id_device a) = cstr (id_device b)"
    "cstr (id_resource a) = cstr (id_resource b)" "id_instance a = id_instance b" by (simp_all add: names_agree_def)
  show "lookup_memregion st a = lookup_memregion st b" "lookup_eventsrc st a = lookup_eventsrc st b"
    by (simp_all add: lookup_memregion_def lookup_eventsrc_def matching_slot_cong [OF n(1-3)] slot_cong [OF n(3)] n(4))
qed

text \<open>What an argument of the library asks for: a null pointer asks for anything.\<close>

definition asked :: "string option \<Rightarrow> string" where
  "asked arg = (case arg of None \<Rightarrow> [] | Some name \<Rightarrow> name)"

lemma cstr_populate_name:
  assumes "length (cstr (asked arg)) < CUDDLCI_MAX_STR_LEN - 1" "field \<noteq> []"
  shows "cstr (populate_name field arg) = cstr (asked arg)"
proof (cases arg)
  case None
  with assms(2) show ?thesis by (cases field) (simp_all add: populate_name_def asked_def)
next
  case (Some name)
  with assms(1) show ?thesis by (simp add: populate_name_def asked_def cstr_strncpy)
qed

text \<open>The names that a caller passes are the names that the kernel searches for, whatever was in
  the local variable before: for names of at most 254 characters a search with the populated
  identifier finds exactly what a search with the caller's names finds, and a null pointer is
  a wildcard.\<close>

theorem names_reach_kernel:
  assumes "length (cstr (asked g)) < CUDDLCI_MAX_STR_LEN - 1" "length (cstr (asked d)) < CUDDLCI_MAX_STR_LEN - 1"
    "length (cstr (asked r)) < CUDDLCI_MAX_STR_LEN - 1"
    and "id_group rid \<noteq> []" "id_device rid \<noteq> []" "id_resource rid \<noteq> []"
  shows "lookup_memregion st (populate_id_from_args rid g d r i) =
      lookup_memregion st \<lparr>id_group = asked g, id_device = asked d, id_resource = asked r, id_instance = i\<rparr> \<and>
    lookup_eventsrc st (populate_id_from_args rid g d r i) =
      lookup_eventsrc st \<lparr>id_group = asked g, id_device = asked d, id_resource = asked r, id_instance = i\<rparr>"
proof -
  have "names_agree (populate_id_from_args rid g d r i)
      \<lparr>id_group = asked g, id_device = asked d, id_resource = asked r, id_instance = i\<rparr>"
    using assms by (simp add: names_agree_def populate_id_from_args_def cstr_populate_name)
  from lookup_names [OF this] show ?thesis by blast
qed

definition sample_garbage :: string where
  "sample_garbage = replicate CUDDLCI_MAX_STR_LEN (CHR ''x'')"

lemma sample_garbage_nonempty [simp]: "sample_garbage \<noteq> []"
  by (simp add: sample_garbage_def CUDDLCI_MAX_STR_LEN_def)

definition sample_stack_id :: cuddl_resource_id where
  "sample_stack_id = \<lparr>id_group = sample_garbage, id_device = sample_garbage, id_resource = sample_garbage, id_instance = 7\<rparr>"

theorem names_reach_kernel_witness:
  "\<exists>m. lookup_memregion sample_state
     (populate_id_from_args sample_stack_id (Some ''mfg'') (Some ''card'') (Some ''regs'') 1) = Some (0, 0, m)"
proof -
  have "length (cstr (asked (Some s))) < CUDDLCI_MAX_STR_LEN - 1" if "length s < 10" for s
    using that length_cstr_le [of s] by (simp add: asked_def CUDDLCI_MAX_STR_LEN_def)
  then have n: "length (cstr (asked (Some ''mfg''))) < CUDDLCI_MAX_STR_LEN - 1"
    "length (cstr (asked (Some ''card''))) < CUDDLCI_MAX_STR_LEN - 1"
    "length (cstr (asked (Some ''regs''))) < CUDDLCI_MAX_STR_LEN - 1" by simp_all
  have e: "id_group sample_stack_id \<noteq> []" "id_device sample_stack_id \<noteq> []" "id_resource sample_stack_id \<noteq> []"
    by (simp_all add: sample_stack_id_def)
  from sample_lookup show ?thesis
    using names_reach_kernel [OF n e, of sample_state 1] by (auto simp: asked_def sample_id_def)
qed

subsection \<open>A sample system\<close>

definition good_call :: call_env where
  "good_call = \<lparr>ce_open = None, ce_close = None, ce_copy_in = True, ce_kernel = quiet_env, ce_kzalloc = True,
     ce_mmap = Inr 4096, ce_munmap = None, ce_read = Inr (4, 1), ce_write = Inr 4, ce_select = Inr (1, {0, 1, 2, 3})\<rparr>"

definition sample_linux :: "(nat \<Rightarrow> call_env) \<Rightarrow> kstate \<Rightarrow> linux" where
  "sample_linux envs k = \<lparr>kern = k, files = [], my_pid = 42, now = envs 0, later = (\<lambda>n. envs (Suc n)),
     garbage_id = sample_stack_id, garbage_meminfo = mc_info (sample_claim 0),
     garbage_eventinfo = ec_info sample_event_claim, garbage_options = 0, garbage_text = sample_garbage\<rparr>"

definition sample_region :: cuddl_memregion where
  "sample_region = \<lparr>um_region_addr = 0, um_region_len = 0, um_region_flags = 0, um_priv_pa_addr = 0,
     um_priv_pa_len = 0, um_priv_fd = 0, um_priv_token = \<lparr>device_index = 0, resource_index = 0\<rparr>\<rparr>"

lemma sample_linux_simps [simp]:
  "kern (sample_linux envs k) = k" "files (sample_linux envs k) = []" "my_pid (sample_linux envs k) = 42"
  "ahead (sample_linux envs k) n = envs n" "garbage_id (sample_linux envs k) = sample_stack_id"
  "open_fds (sample_linux envs k) = {}" "now (sample_linux envs k) = envs 0"
  "later (sample_linux envs k) n = envs (Suc n)"
  by (simp_all add: sample_linux_def open_fds_def ahead_def split: nat.split)

lemma sample_kernel_fine: "kernel_fine sample_cfg sample_state"
  using sample_state_facts(2,3) sample_state_few sample_state_named by (simp add: kernel_fine_def)

lemma lowest_Nil [simp]: "lowest_fd [] = 0"
  by (simp add: lowest_fd_def)

lemma FD_SETSIZE_pos [simp]: "0 < FD_SETSIZE"
  by (simp add: FD_SETSIZE_def)

lemma quiet_succeeds [simp]: "all_succeed quiet_env"
  by (simp add: all_succeed_def quiet_env_def)

lemma sample_room: "refs_room sample_state"
  by (simp add: refs_room_def sample_state_facts(5,6))

subsection \<open>Claims through the library\<close>

lemma mem_claim_meets_cases:
  assumes "mem_claim_meets st md ret out st'"
  obtains "lookup_memregion st (mc_id md) = None" "ret = - ENXIO" "mem_holders st' = mem_holders st"
  | i j m where "lookup_memregion st (mc_id md) = Some (i, j, m)"
      "spec_claim (has_flag (mr_flags m) CUDDLK_MEMF_SHARED) (has_flag (mc_options md) CUDDL_MEM_CLAIMF_HOSTILE)
         (mc_pid md) (mem_holders st (int i) (int j)) = (ret, mem_holders st' (int i) (int j))"
      "mem_holders st' = set_holders (int i) (int j) (mem_holders st' (int i) (int j)) (mem_holders st)"
      "ret = 0 \<Longrightarrow> \<exists>md'. out = Some (Mem_Claim_Data md') \<and>
         mi_token (mc_info md') = \<lparr>device_index = int i, resource_index = int j\<rparr>"
proof (cases "lookup_memregion st (mc_id md)")
  case None
  with assms that(1) show ?thesis by (simp add: mem_claim_meets_def)
next
  case (Some x)
  then obtain i j m where lk: "lookup_memregion st (mc_id md) = Some (i, j, m)" by (cases x) auto
  obtain ret' hs where sp: "spec_claim (has_flag (mr_flags m) CUDDLK_MEMF_SHARED)
      (has_flag (mc_options md) CUDDL_MEM_CLAIMF_HOSTILE) (mc_pid md) (mem_holders st (int i) (int j)) = (ret', hs)"
    by fastforce
  from assms lk sp have r: "ret = ret'" "mem_holders st' = set_holders (int i) (int j) hs (mem_holders st)"
    "ret = 0 \<longrightarrow> (\<exists>md'. out = Some (Mem_Claim_Data md') \<and>
       mi_token (mc_info md') = \<lparr>device_index = int i, resource_index = int j\<rparr>)"
    by (auto simp: mem_claim_meets_def)
  have "mem_holders st' (int i) (int j) = hs" by (simp add: r(2) set_holders_def)
  with that(2) [OF lk] sp r show ?thesis by metis
qed

text \<open>C13: a claim through the library, from the caller's names to the manager's table. When open,
  request and close succeed, the result is \<open>-ENXIO\<close> if the kernel finds no such region, and
  otherwise what the specification says for the holders of the region found; on zero the
  process has become a holder and the caller has the token of that region. The counts of
  the kernel stay exact, and every descriptor is closed again.\<close>

theorem library_claim_refines:
  assumes "kernel_fine cfg (kern s)" "refs_exact (kern s)" "lowest_fd (files s) < FD_SETSIZE"
    and "ce_open (ahead s 0) = None" "served s 1" "ce_close (ahead s 2) = None"
  shows "\<exists>ret meminfo' s'. cuddl_memregion_claim ucfg (linux_posix cfg) meminfo g d r i opts s = Some (ret, meminfo', s') \<and>
    (case lookup_memregion (kern s) (populate_id_from_args (garbage_id s) g d r i) of
       None \<Rightarrow> ret = - ENXIO \<and> mem_holders (kern s') = mem_holders (kern s)
     | Some (a, b, m) \<Rightarrow>
         (ret, mem_holders (kern s') (int a) (int b)) =
           spec_claim (has_flag (mr_flags m) CUDDLK_MEMF_SHARED) (has_flag opts CUDDL_MEM_CLAIMF_HOSTILE)
             (my_pid s) (mem_holders (kern s) (int a) (int b)) \<and>
         mem_holders (kern s') =
           set_holders (int a) (int b) (mem_holders (kern s') (int a) (int b)) (mem_holders (kern s)) \<and>
         (ret = 0 \<longrightarrow> mi_token meminfo' = \<lparr>device_index = int a, resource_index = int b\<rparr>)) \<and>
    refs_exact (kern s') \<and> kernel_fine cfg (kern s') \<and> files s' = files s"
proof -
  obtain ret md' k where c:
    "cuddl_memregion_claim ucfg (linux_posix cfg) meminfo g d r i opts s =
       Some (if ret \<noteq> 0 then (ret, meminfo, advance 3 (s\<lparr>kern := k\<rparr>))
         else (close_error (ahead s 2), mc_info md', advance 3 (s\<lparr>kern := k\<rparr>)))"
    and m: "mem_claim_meets (kern s) (mem_claim_request s g d r i opts) ret
       (if ret = 0 then Some (Mem_Claim_Data md') else None) k"
    and k: "refs_exact k" "kernel_fine cfg k" "event_holders k = event_holders (kern s)"
    by (rule library_claim [OF assms(1-5)])
  have e: "close_error (ahead s 2) = 0" using assms(6) by (simp add: close_error_def)
  let ?info = "if ret \<noteq> 0 then meminfo else mc_info md'"
  have run: "cuddl_memregion_claim ucfg (linux_posix cfg) meminfo g d r i opts s = Some (ret, ?info, advance 3 (s\<lparr>kern := k\<rparr>))"
    using c e by simp
  have req: "mc_id (mem_claim_request s g d r i opts) = populate_id_from_args (garbage_id s) g d r i"
    "mc_options (mem_claim_request s g d r i opts) = opts" "mc_pid (mem_claim_request s g d r i opts) = my_pid s"
    by (simp_all add: mem_claim_request_def)
  from m show ?thesis
    by (rule mem_claim_meets_cases)
      (intro exI [of _ ret] exI [of _ ?info] exI [of _ "advance 3 (s\<lparr>kern := k\<rparr>)"]; simp add: run k req)+
qed

lemma sample_populate:
  "\<exists>m. lookup_memregion sample_state
     (populate_id_from_args sample_stack_id (Some ''mfg'') (Some ''card'') (Some ''regs'') 1) = Some (0, 0, m) \<and>
     mr_flags m = 0"
proof -
  have "names_agree (populate_id_from_args sample_stack_id (Some ''mfg'') (Some ''card'') (Some ''regs'') 1) sample_id"
    by (simp add: names_agree_def populate_id_from_args_def populate_name_def sample_id_def
        CUDDLCI_MAX_STR_LEN_def cstr_strncpy)
  from lookup_names(1) [OF this] sample_lookup show ?thesis by simp
qed

lemma no_flag_0 [simp]: "\<not> has_flag 0 f"
  by (simp add: has_flag_def)

lemma sample_served: "envs n = good_call \<Longrightarrow> served (sample_linux envs sample_state) n"
  by (simp add: served_def sample_room good_call_def)

lemma good_call_simps [simp]:
  "ce_open good_call = None" "ce_close good_call = None" "ce_copy_in good_call" "ce_kernel good_call = quiet_env"
  by (simp_all add: good_call_def)

theorem library_claim_refines_witness:
  "\<exists>meminfo' s'. cuddl_memregion_claim \<lparr>xeno = False, u_commit_hash = [], u_repo_is_dirty = False\<rparr>
      (linux_posix sample_cfg) (mc_info (sample_claim 0)) (Some ''mfg'') (Some ''card'') (Some ''regs'') 1 0
      (sample_linux (\<lambda>_. good_call) sample_state) = Some (0, meminfo', s') \<and>
    mem_holders (kern s') 0 0 = [42] \<and> mi_token meminfo' = \<lparr>device_index = 0, resource_index = 0\<rparr> \<and> files s' = []"
proof -
  let ?s = "sample_linux (\<lambda>_. good_call) sample_state"
  from sample_populate obtain m where lk: "lookup_memregion sample_state
     (populate_id_from_args sample_stack_id (Some ''mfg'') (Some ''card'') (Some ''regs'') 1) = Some (0, 0, m)"
    "mr_flags m = 0" by blast
  have h: "kernel_fine sample_cfg (kern ?s)" "refs_exact (kern ?s)" "lowest_fd (files ?s) < FD_SETSIZE"
    "ce_open (ahead ?s 0) = None" "served ?s 1" "ce_close (ahead ?s 2) = None"
    using sample_kernel_fine sample_state_exact sample_served [of "\<lambda>_. good_call" 1] by simp_all
  from library_claim_refines [OF h, of "\<lparr>xeno = False, u_commit_hash = [], u_repo_is_dirty = False\<rparr>"
      "mc_info (sample_claim 0)" "Some ''mfg''" "Some ''card''" "Some ''regs''" 1 0] lk
  show ?thesis by (auto simp: spec_claim_def sample_no_holders)
qed

lemma ahead_5: "ahead s 5 = later s 4"
  by (auto simp: ahead_def split: nat.split)

lemma claim_keeps_holders:
  assumes "mem_claim_meets st md ret out st'" "ret \<noteq> 0"
  shows "mem_holders st' = mem_holders st"
  using assms(1)
proof (rule mem_claim_meets_cases)
  fix i j m
  assume sp: "spec_claim (has_flag (mr_flags m) CUDDLK_MEMF_SHARED) (has_flag (mc_options md) CUDDL_MEM_CLAIMF_HOSTILE)
      (mc_pid md) (mem_holders st (int i) (int j)) = (ret, mem_holders st' (int i) (int j))"
    and m: "mem_holders st' = set_holders (int i) (int j) (mem_holders st' (int i) (int j)) (mem_holders st)"
  from sp assms(2) have "mem_holders st' (int i) (int j) = mem_holders st (int i) (int j)"
    by (auto simp: spec_claim_def split: if_splits)
  with m show ?thesis by (metis set_holders_same)
qed

text \<open>C18: a region that was claimed but cannot be mapped is given back. When the claim's calls and
  the release's calls succeed and the device file cannot be opened, \<^verbatim>\<open>claim_and_map\<close>
  fails, the caller's structure is untouched, and in the kernel every resource has the holders
  it had before; no descriptor stays open.\<close>

theorem map_failure_gives_claim_back:
  assumes "kernel_fine cfg (kern s)" "refs_exact (kern s)" "lowest_fd (files s) < FD_SETSIZE"
    and "ce_open (ahead s 0) = None" "served s 1" "ce_close (ahead s 2) = None"
    and "ce_open (ahead s 3) = Some e" "0 < e"
    and "ce_open (ahead s 4) = None" "ce_copy_in (ahead s 5)" "\<forall>n < 10. kz_ok (ce_kernel (ahead s 5)) n"
  shows "\<exists>ret s'. cuddl_memregion_claim_and_map ucfg (linux_posix cfg) memregion g d r i copts mopts s =
      Some (ret, memregion, s') \<and> ret \<noteq> 0 \<and>
    mem_holders (kern s') = mem_holders (kern s) \<and> event_holders (kern s') = event_holders (kern s) \<and>
    refs_exact (kern s') \<and> files s' = files s"
proof -
  obtain ret md' k where c:
    "cuddl_memregion_claim ucfg (linux_posix cfg) (garbage_meminfo s) g d r i copts s =
       Some (if ret \<noteq> 0 then (ret, garbage_meminfo s, advance 3 (s\<lparr>kern := k\<rparr>))
         else (close_error (ahead s 2), mc_info md', advance 3 (s\<lparr>kern := k\<rparr>)))"
    and m: "mem_claim_meets (kern s) (mem_claim_request s g d r i copts) ret
       (if ret = 0 then Some (Mem_Claim_Data md') else None) k"
    and k: "refs_exact k" "kernel_fine cfg k" "event_holders k = event_holders (kern s)"
    by (rule library_claim [OF assms(1-5)])
  show ?thesis
  proof (cases "ret = 0")
    case False
    with c k claim_keeps_holders [OF m] show ?thesis by (simp add: cuddl_memregion_claim_and_map_def)
  next
    case True
    let ?s4 = "advance 4 (s\<lparr>kern := k\<rparr>)"
    have run: "cuddl_memregion_claim ucfg (linux_posix cfg) (garbage_meminfo s) g d r i copts s =
        Some (0, mc_info md', advance 3 (s\<lparr>kern := k\<rparr>))"
      using c True assms(6) by (simp add: close_error_def)
    have map: "cuddl_memregion_map (linux_posix cfg) memregion (mc_info md') mopts (advance 3 (s\<lparr>kern := k\<rparr>)) =
        Some (- e, memregion, ?s4)"
      using assms(7) by (simp add: cuddl_memregion_map_def linux_open_def tick_advance)
    from m True obtain a b where tok: "mi_token (mc_info md') = \<lparr>device_index = a, resource_index = b\<rparr>"
      and h: "mem_holders k = set_holders a b (my_pid s # mem_holders (kern s) a b) (mem_holders (kern s))"
      by (elim mem_claim_meets_cases) (auto simp: spec_claim_def mem_claim_request_def split: if_splits)
    have held: "my_pid ?s4 \<in> set (mem_holders (kern ?s4) a b)" by (simp add: h set_holders_def)
    have env: "kernel_fine cfg (kern ?s4)" "refs_exact (kern ?s4)" "lowest_fd (files ?s4) < FD_SETSIZE"
      "ce_open (ahead ?s4 0) = None" "ce_copy_in (ahead ?s4 1)" "\<forall>n < 10. kz_ok (ce_kernel (ahead ?s4 1)) n"
      using assms(3,9-11) k ahead_5 [of s] by simp_all
    obtain k2 where r: "cuddli_memregion_release_by_token ucfg (linux_posix cfg) \<lparr>device_index = a, resource_index = b\<rparr> ?s4 =
         Some (close_error (ahead ?s4 2), advance 3 (?s4\<lparr>kern := k2\<rparr>))"
      "mem_holders k2 = set_holders a b (remove1 (my_pid ?s4) (mem_holders (kern ?s4) a b)) (mem_holders (kern ?s4))"
      "refs_exact k2" "event_holders k2 = event_holders (kern ?s4)"
      by (rule library_release [OF env held])
    have "mem_holders k2 = mem_holders (kern s)"
      unfolding r(2) by (auto simp: h set_holders_def fun_eq_iff)
    with run map tok r assms(8) k(3) show ?thesis
      by (simp add: cuddl_memregion_claim_and_map_def cuddl_memregion_release_def)
  qed
qed

definition no_device_file :: "nat \<Rightarrow> call_env" where
  "no_device_file n = (if n = 3 then good_call\<lparr>ce_open := Some ENODEV\<rparr> else good_call)"

lemma no_device_file_simps:
  "no_device_file 0 = good_call" "no_device_file 1 = good_call" "no_device_file 2 = good_call"
  "no_device_file 4 = good_call" "no_device_file 5 = good_call" "ce_open (no_device_file 3) = Some ENODEV"
  by (simp_all add: no_device_file_def)

theorem map_failure_gives_claim_back_witness:
  "\<exists>ret s'. cuddl_memregion_claim_and_map \<lparr>xeno = False, u_commit_hash = [], u_repo_is_dirty = False\<rparr>
      (linux_posix sample_cfg) sample_region (Some ''mfg'') (Some ''card'') (Some ''regs'') 1 0 0
      (sample_linux no_device_file sample_state) = Some (ret, sample_region, s') \<and> ret \<noteq> 0 \<and>
    mem_holders (kern s') = (\<lambda>i j. []) \<and> files s' = []"
proof -
  let ?s = "sample_linux no_device_file sample_state"
  have h: "kernel_fine sample_cfg (kern ?s)" "refs_exact (kern ?s)" "lowest_fd (files ?s) < FD_SETSIZE"
    "ce_open (ahead ?s 0) = None" "served ?s 1" "ce_close (ahead ?s 2) = None"
    "ce_open (ahead ?s 3) = Some ENODEV" "0 < ENODEV"
    "ce_open (ahead ?s 4) = None" "ce_copy_in (ahead ?s 5)" "\<forall>n < 10. kz_ok (ce_kernel (ahead ?s 5)) n"
    using sample_kernel_fine sample_state_exact sample_served [of no_device_file 1]
    by (simp_all only: sample_linux_simps no_device_file_simps good_call_simps lowest_Nil FD_SETSIZE_pos)
      (simp_all add: quiet_env_def)
  from map_failure_gives_claim_back [OF h, of "\<lparr>xeno = False, u_commit_hash = [], u_repo_is_dirty = False\<rparr>" sample_region
      "Some ''mfg''" "Some ''card''" "Some ''regs''" 1 0 0] show ?thesis
    by (auto simp: sample_no_holders)
qed

text \<open>C33: a claim whose \<^verbatim>\<open>close\<close> fails is reported as a failure although it was granted:
  \<^verbatim>\<open>claim_and_map\<close> returns the error of \<^verbatim>\<open>close\<close> without releasing, and the process
  stays a holder of the region with no way to learn its token.\<close>

theorem claim_close_failure_keeps_claim:
  assumes "kernel_fine cfg (kern s)" "refs_exact (kern s)" "lowest_fd (files s) < FD_SETSIZE"
    and "ce_open (ahead s 0) = None" "served s 1" "ce_close (ahead s 2) = Some e" "0 < e"
    and "lookup_memregion (kern s) (populate_id_from_args (garbage_id s) g d r i) = Some (a, b, m)"
    and "mem_holders (kern s) (int a) (int b) = []"
  shows "\<exists>s'. cuddl_memregion_claim_and_map ucfg (linux_posix cfg) memregion g d r i copts mopts s =
      Some (- e, memregion, s') \<and> mem_holders (kern s') (int a) (int b) = [my_pid s]"
proof -
  obtain ret md' k where c:
    "cuddl_memregion_claim ucfg (linux_posix cfg) (garbage_meminfo s) g d r i copts s =
       Some (if ret \<noteq> 0 then (ret, garbage_meminfo s, advance 3 (s\<lparr>kern := k\<rparr>))
         else (close_error (ahead s 2), mc_info md', advance 3 (s\<lparr>kern := k\<rparr>)))"
    and m: "mem_claim_meets (kern s) (mem_claim_request s g d r i copts) ret
       (if ret = 0 then Some (Mem_Claim_Data md') else None) k"
    by (rule library_claim [OF assms(1-5)])
  from m assms(8,9) have "ret = 0" "mem_holders k (int a) (int b) = [my_pid s]"
    by (elim mem_claim_meets_cases; force simp: mem_claim_request_def spec_claim_def)+
  with c assms(6,7) show ?thesis
    by (simp add: cuddl_memregion_claim_and_map_def close_error_def)
qed

definition failing_close :: "nat \<Rightarrow> call_env" where
  "failing_close n = (if n = 2 then good_call\<lparr>ce_close := Some 4\<rparr> else good_call)"

theorem claim_close_failure_keeps_claim_witness:
  "\<exists>s'. cuddl_memregion_claim_and_map \<lparr>xeno = False, u_commit_hash = [], u_repo_is_dirty = False\<rparr>
      (linux_posix sample_cfg) sample_region (Some ''mfg'') (Some ''card'') (Some ''regs'') 1 0 0
      (sample_linux failing_close sample_state) = Some (- 4, sample_region, s') \<and> mem_holders (kern s') 0 0 = [42]"
proof -
  let ?s = "sample_linux failing_close sample_state"
  from sample_populate obtain m where lk: "lookup_memregion (kern ?s)
     (populate_id_from_args (garbage_id ?s) (Some ''mfg'') (Some ''card'') (Some ''regs'') 1) = Some (0, 0, m)" by auto
  have h: "kernel_fine sample_cfg (kern ?s)" "refs_exact (kern ?s)" "lowest_fd (files ?s) < FD_SETSIZE"
    "ce_open (ahead ?s 0) = None" "served ?s 1" "ce_close (ahead ?s 2) = Some 4" "(0::c_int) < 4"
    using sample_kernel_fine sample_state_exact sample_served [of failing_close 1]
    by (simp_all add: failing_close_def del: One_nat_def)
  have n: "mem_holders (kern ?s) (int 0) (int 0) = []" by (simp add: sample_no_holders)
  from claim_close_failure_keeps_claim [OF h lk n] show ?thesis by auto
qed

subsection \<open>Descriptors\<close>

text \<open>The library loses no descriptor on any path. On every state of the system, with whatever
  failures, mapping a region (opening an event source) returns; on zero exactly one descriptor
  is new, the one that the caller's structure holds, and \<^verbatim>\<open>unmap_and_release\<close>
  (\<^verbatim>\<open>close_and_release\<close>) closes it again, whatever it returns; otherwise no descriptor is new
  and the caller's structure is as it was.\<close>

theorem descriptors_balanced:
  assumes "linux_fine cfg s"
  shows "(\<exists>ret memregion' s'. cuddl_memregion_claim_and_map ucfg (linux_posix cfg) memregion g d r i copts mopts s =
       Some (ret, memregion', s') \<and>
       (if ret = 0 then um_priv_fd memregion' \<notin> open_fds s \<and> open_fds s' = insert (um_priv_fd memregion') (open_fds s) \<and>
          (\<exists>ret2 s2. cuddl_memregion_unmap_and_release ucfg (linux_posix cfg) memregion' s' = Some (ret2, s2) \<and>
             open_fds s2 = open_fds s)
        else memregion' = memregion \<and> open_fds s' = open_fds s)) \<and>
    (\<exists>ret ev' s'. cuddl_eventsrc_claim_and_open ucfg (linux_posix cfg) ev g d r i copts mopts s = Some (ret, ev', s') \<and>
       (if ret = 0 then ue_priv_fd ev' \<notin> open_fds s \<and> open_fds s' = insert (ue_priv_fd ev') (open_fds s) \<and>
          (\<exists>ret2 s2. cuddl_eventsrc_close_and_release ucfg (linux_posix cfg) ev' s' = Some (ret2, s2) \<and>
             open_fds s2 = open_fds s)
        else ev' = ev \<and> open_fds s' = open_fds s))"
proof
  obtain ret m' s' where m: "cuddl_memregion_claim_and_map ucfg (linux_posix cfg) memregion g d r i copts mopts s = Some (ret, m', s')"
    "if ret = 0 then um_priv_fd m' \<notin> open_fds s \<and>
       leaves open_fds (linux_fine cfg) (insert (um_priv_fd m') (open_fds s)) s'
     else m' = memregion \<and> leaves open_fds (linux_fine cfg) (open_fds s) s'"
    by (rule lx.claim_and_map_total [OF assms])
  have "\<exists>ret2 s2. cuddl_memregion_unmap_and_release ucfg (linux_posix cfg) m' s' = Some (ret2, s2) \<and> open_fds s2 = open_fds s"
    if "ret = 0"
    using m(2) that lx.unmap_and_release_total [of cfg s' m' ucfg] by (auto simp: leaves_def)
  with m show "\<exists>ret memregion' s'. cuddl_memregion_claim_and_map ucfg (linux_posix cfg) memregion g d r i copts mopts s =
       Some (ret, memregion', s') \<and>
       (if ret = 0 then um_priv_fd memregion' \<notin> open_fds s \<and> open_fds s' = insert (um_priv_fd memregion') (open_fds s) \<and>
          (\<exists>ret2 s2. cuddl_memregion_unmap_and_release ucfg (linux_posix cfg) memregion' s' = Some (ret2, s2) \<and>
             open_fds s2 = open_fds s)
        else memregion' = memregion \<and> open_fds s' = open_fds s)"
    by (intro exI [of _ ret] exI [of _ m'] exI [of _ s']) (simp add: leaves_def split: if_splits)
next
  obtain ret ev' s' where m: "cuddl_eventsrc_claim_and_open ucfg (linux_posix cfg) ev g d r i copts mopts s = Some (ret, ev', s')"
    "if ret = 0 then ue_priv_fd ev' \<notin> open_fds s \<and>
       leaves open_fds (linux_fine cfg) (insert (ue_priv_fd ev') (open_fds s)) s'
     else ev' = ev \<and> leaves open_fds (linux_fine cfg) (open_fds s) s'"
    by (rule lx.claim_and_open_total [OF assms])
  have "\<exists>ret2 s2. cuddl_eventsrc_close_and_release ucfg (linux_posix cfg) ev' s' = Some (ret2, s2) \<and> open_fds s2 = open_fds s"
    if "ret = 0"
    using m(2) that lx.close_and_release_total [of cfg s' ev' ucfg] by (auto simp: leaves_def)
  with m show "\<exists>ret ev' s'. cuddl_eventsrc_claim_and_open ucfg (linux_posix cfg) ev g d r i copts mopts s = Some (ret, ev', s') \<and>
       (if ret = 0 then ue_priv_fd ev' \<notin> open_fds s \<and> open_fds s' = insert (ue_priv_fd ev') (open_fds s) \<and>
          (\<exists>ret2 s2. cuddl_eventsrc_close_and_release ucfg (linux_posix cfg) ev' s' = Some (ret2, s2) \<and>
             open_fds s2 = open_fds s)
        else ev' = ev \<and> open_fds s' = open_fds s)"
    by (intro exI [of _ ret] exI [of _ ev'] exI [of _ s']) (simp add: leaves_def split: if_splits)
qed

lemma errors_good [simp]: "errors_positive good_call"
  by (simp add: errors_positive_def good_call_def)

lemma sample_linux_fine: "(\<And>n. errors_positive (envs n)) \<Longrightarrow> linux_fine sample_cfg (sample_linux envs sample_state)"
  by (simp add: linux_fine_def sample_kernel_fine files_fine_def)

theorem descriptors_balanced_witness:
  "\<exists>ret memregion' s'. cuddl_memregion_claim_and_map \<lparr>xeno = False, u_commit_hash = [], u_repo_is_dirty = False\<rparr>
      (linux_posix sample_cfg) sample_region (Some ''mfg'') None None 0 0 0 (sample_linux no_device_file sample_state) =
      Some (ret, memregion', s') \<and> (ret \<noteq> 0 \<or> card (open_fds s') = 1)"
proof -
  have "errors_positive (no_device_file n)" for n
    by (simp add: no_device_file_def) (simp add: errors_positive_def good_call_def)
  then have f: "linux_fine sample_cfg (sample_linux no_device_file sample_state)" by (rule sample_linux_fine)
  from descriptors_balanced [OF f, THEN conjunct1, of "\<lparr>xeno = False, u_commit_hash = [], u_repo_is_dirty = False\<rparr>"
      sample_region "Some ''mfg''" None None 0 0 0]
  obtain ret m' s' where m: "cuddl_memregion_claim_and_map \<lparr>xeno = False, u_commit_hash = [], u_repo_is_dirty = False\<rparr>
      (linux_posix sample_cfg) sample_region (Some ''mfg'') None None 0 0 0 (sample_linux no_device_file sample_state) =
      Some (ret, m', s')" "ret = 0 \<longrightarrow> open_fds s' = insert (um_priv_fd m') (open_fds (sample_linux no_device_file sample_state))"
    by (elim exE conjE) (auto split: if_splits)
  from m(2) have "ret \<noteq> 0 \<or> card (open_fds s') = 1" by (auto simp: open_fds_def)
  with m(1) show ?thesis by blast
qed

end
