(* ===== verification/User_Properties.thy ===== *)
theory User_Properties
  imports Linux_Properties
begin

section \<open>Waiting, sets of event sources and texts\<close>

text \<open>
  The functions of the library that do not ask the manager: reading event counts, waiting on
  a set of event sources, and the text that names the commit.
\<close>

subsection \<open>Waiting for one event source\<close>

text \<open>The count of events that a wait returns. The kernel counts in 32 bits without a sign
  and the function returns an \<^verbatim>\<open>int\<close>: for counts below \<open>2\<^sup>3\<^sup>1\<close> the caller gets the count,
  above it a negative number that cannot be told from an error. Waiting without a timeout
  and waiting with one agree on this as soon as the descriptor is ready.\<close>

theorem wait_returns_count:
  assumes "sys_read os (ue_priv_fd ev) 0 s = Some (n, e, v, s')" "n \<noteq> - 1" "0 \<le> ue_priv_fd ev" "ue_priv_fd ev < FD_SETSIZE"
    and "sys_select os (ue_priv_fd ev + 1) {ue_priv_fd ev} (timeval_of timeout) s0 = Some (r, e0, {ue_priv_fd ev}, s)" "r \<noteq> - 1"
  shows "\<exists>ret. cuddl_eventsrc_wait os ev s = Some (ret, s') \<and> cuddl_eventsrc_timed_wait os ev timeout s0 = Some (ret, s') \<and>
    ret = (if unat v < 2 ^ 31 then int (unat v) else int (unat v) - 2 ^ 32) \<and> (ret < 0 \<longleftrightarrow> 2 ^ 31 \<le> unat v)"
proof -
  have w: "c_int_wrap (uint v) = (if unat v < 2 ^ 31 then int (unat v) else int (unat v) - 2 ^ 32)"
  proof -
    have b: "0 \<le> uint v" "uint v < 2 ^ 32" using uint_ge_0 [of v] uint_lt2p [of v] by simp_all
    have u: "unat v < 2 ^ 31 \<longleftrightarrow> uint v < 2 ^ 31"
      using of_nat_less_iff [of "unat v" "2 ^ 31", where ?'a = int] by simp
    have "c_int_wrap (uint v) = uint v - 2 ^ 32" if "2 ^ 31 \<le> uint v"
    proof -
      have "(uint v + 2 ^ 31) mod 2 ^ 32 = (uint v - 2 ^ 31 + 2 ^ 32) mod 2 ^ 32" by (simp add: add.commute)
      also have "\<dots> = uint v - 2 ^ 31" unfolding mod_add_self2 using b that by (intro mod_pos_pos_trivial) simp_all
      finally show ?thesis by (simp add: c_int_wrap_def)
    qed
    moreover have "c_int_wrap (uint v) = uint v" if "uint v < 2 ^ 31"
      using that order_trans [OF _ b(1), of "- (2 ^ 31)"] by (intro c_int_wrap_id) simp_all
    ultimately show ?thesis using u by auto
  qed
  have "uint v < 2 ^ 32" using uint_lt2p [of v] by simp
  moreover have "cuddl_eventsrc_wait os ev s = Some (c_int_wrap (uint v), s')"
    using assms(1,2) by (simp add: cuddl_eventsrc_wait_def)
  moreover have "cuddl_eventsrc_timed_wait os ev timeout s0 = Some (c_int_wrap (uint v), s')"
    using assms by (simp add: cuddl_eventsrc_timed_wait_def Let_def FD_SET_def FD_ISSET_def FD_SETSIZE_def)
  ultimately show ?thesis by (auto simp: w)
qed

subsection \<open>Texts\<close>

text \<open>What a buffer of a given size can hold of the name of a commit.\<close>

definition commit_text :: "string \<Rightarrow> bool \<Rightarrow> nat \<Rightarrow> string" where
  "commit_text hash dirty n = take (n - 1) (cstr hash @ (if dirty then ''(M)'' else []))"

lemma size_rest: "k < unat len \<Longrightarrow> unat len < 2 ^ 31 \<Longrightarrow> unat ((len :: size_t) - of_nat k - 1) = unat len - k - 1"
  by (simp add: unat_sub_if_size unat_of_nat)

lemma commit_id_content:
  assumes "0 < unat len" "unat len < 2 ^ 31" "length buf = unat len"
  shows "cstr (snd (cuddl_get_userspace_commit_id ucfg buf len)) = commit_text (u_commit_hash ucfg) (u_repo_is_dirty ucfg) (unat len)"
proof -
  have pos: "0 < len" using assms(1) by (simp add: word_less_nat_alt)
  have "unat (len - 1) = unat len - 1" using size_rest [of 0 len] assms(1,2) by simp
  then have r1: "int_of_size (len - 1) = int (unat len - 1)" using assms(2) by (simp add: int_of_size_small)
  let ?b0 = "buf[0 := NUL]"
  have b0: "cstr ?b0 = []" using assms(1,3) by (cases buf) auto
  show ?thesis
  proof (cases "unat len = 1")
    case True
    with b0 pos r1 show ?thesis by (simp add: cuddl_get_userspace_commit_id_def commit_text_def)
  next
    case False
    define b1 where "b1 = strncat ?b0 (u_commit_hash ucfg) (unat len - Suc 0)"
    have b1: "cstr b1 = take (unat len - 1) (cstr (u_commit_hash ucfg))" by (simp add: b1_def cstr_strncat b0)
    define k where "k = length (cstr b1)"
    have k: "k \<le> unat len - 1" "k < unat len" using assms(1) unfolding k_def b1 by simp_all
    have s: "strnlen b1 (unat len) = k" using k by (simp add: strnlen_eq k_def)
    from size_rest [OF k(2) assms(2)] have r2: "int_of_size (len - of_nat k - 1) = int (unat len - k - 1)"
      using assms(2) by (simp add: int_of_size_small)
    have c: "cstr (strncat b1 t n) = take (unat len - 1) (cstr (u_commit_hash ucfg)) @ take n (cstr t)" for t n
      unfolding cstr_strncat b1 ..
    have t: "commit_text (u_commit_hash ucfg) (u_repo_is_dirty ucfg) (unat len) =
        take (unat len - 1) (cstr (u_commit_hash ucfg)) @
        take (unat len - k - 1) (if u_repo_is_dirty ucfg then ''(M)'' else [])"
      by (simp add: commit_text_def k_def b1 min_def)
    have n: "\<not> int_of_size (len - 1) \<le> 0" "nat (int_of_size (len - 1)) = unat len - Suc 0"
      "int_of_size (len - of_nat k - 1) \<le> 0 \<longleftrightarrow> unat len - k - 1 = 0"
      "nat (int_of_size (len - of_nat k - 1)) = unat len - k - 1"
      using False assms(1) unfolding r1 r2 nat_int by linarith+
    show ?thesis
    proof (cases "unat len - k - 1 = 0")
      case True
      with pos n s show ?thesis unfolding t cuddl_get_userspace_commit_id_def Let_def
        by (simp only: b1_def [symmetric] if_True if_False snd_conv b1) (simp add: b1)
    next
      case False
      with pos n s c show ?thesis unfolding t cuddl_get_userspace_commit_id_def Let_def
        by (cases "u_repo_is_dirty ucfg") (simp_all only: b1_def [symmetric] if_True if_False snd_conv, simp_all)
    qed
  qed
qed

text \<open>The two functions that name the commit agree: with the same commit the library and the
  kernel write the same buffer, for every size. What a reader finds is the hash followed by
  \<^verbatim>\<open>(M)\<close> for a modified tree, cut to the buffer, and always terminated.\<close>

theorem commit_ids_agree:
  assumes "u_commit_hash ucfg = commit_hash kcfg" "u_repo_is_dirty ucfg = repo_is_dirty kcfg"
  shows "cuddl_get_userspace_commit_id ucfg buf len = cuddlk_get_commit_id kcfg buf len \<and>
    (0 < unat len \<and> unat len < 2 ^ 31 \<and> length buf = unat len \<longrightarrow>
       cstr (snd (cuddl_get_userspace_commit_id ucfg buf len)) = commit_text (commit_hash kcfg) (repo_is_dirty kcfg) (unat len))"
proof
  show "cuddl_get_userspace_commit_id ucfg buf len = cuddlk_get_commit_id kcfg buf len"
    unfolding cuddl_get_userspace_commit_id_def cuddlk_get_commit_id_def assms ..
qed (use commit_id_content [of len buf ucfg] in \<open>simp add: assms\<close>)

theorem commit_ids_agree_witness:
  "cuddlk_get_commit_id sample_cfg (replicate 5 NUL) 5 =
     cuddl_get_userspace_commit_id \<lparr>xeno = False, u_commit_hash = ''0123abc'', u_repo_is_dirty = False\<rparr> (replicate 5 NUL) 5 \<and>
   cstr (snd (cuddlk_get_commit_id sample_cfg (replicate 5 NUL) 5)) = ''0123''"
proof -
  let ?u = "\<lparr>xeno = False, u_commit_hash = ''0123abc'', u_repo_is_dirty = False\<rparr>"
  have "u_commit_hash ?u = commit_hash sample_cfg" "u_repo_is_dirty ?u = repo_is_dirty sample_cfg"
    by (simp_all add: sample_cfg_def)
  note agree = commit_ids_agree [OF this, of "replicate 5 NUL" 5]
  from agree [THEN conjunct2] have "cstr (snd (cuddl_get_userspace_commit_id ?u (replicate 5 NUL) 5)) = ''0123''"
    by (simp add: commit_text_def sample_cfg_def)
  with agree [THEN conjunct1] show ?thesis by metis
qed

subsection \<open>Sets of event sources\<close>

fun add_all :: "cuddl_eventsrcset \<Rightarrow> cuddl_eventsrc list \<Rightarrow> cuddl_eventsrcset option" where
  "add_all es [] = Some es"
| "add_all es (ev # evs) = do { es \<leftarrow> cuddl_eventsrcset_add es ev; add_all es evs }"

lemma add_all_outcome:
  assumes "\<forall>ev \<in> set evs. 0 \<le> ue_priv_fd ev \<and> ue_priv_fd ev < FD_SETSIZE"
    and "es_fds es \<subseteq> {0..es_max_fd es}" "0 \<le> es_max_fd es" "es_max_fd es < FD_SETSIZE"
  shows "\<exists>es'. add_all es evs = Some es' \<and> es_fds es' = es_fds es \<union> ue_priv_fd ` set evs \<and>
    es_fds es' \<subseteq> {0..es_max_fd es'} \<and> 0 \<le> es_max_fd es' \<and> es_max_fd es' < FD_SETSIZE"
  using assms
proof (induction evs arbitrary: es)
  case Nil
  then show ?case by simp
next
  case (Cons ev evs)
  let ?es = "es\<lparr>es_fds := insert (ue_priv_fd ev) (es_fds es), es_max_fd := max (es_max_fd es) (ue_priv_fd ev)\<rparr>"
  have "cuddl_eventsrcset_add es ev = Some ?es"
    using Cons.prems(1) by (auto simp: cuddl_eventsrcset_add_def FD_SET_def max_def)
  moreover have "\<exists>es'. add_all ?es evs = Some es' \<and> es_fds es' = es_fds ?es \<union> ue_priv_fd ` set evs \<and>
    es_fds es' \<subseteq> {0..es_max_fd es'} \<and> 0 \<le> es_max_fd es' \<and> es_max_fd es' < FD_SETSIZE"
    by (rule Cons.IH) (use Cons.prems in \<open>auto simp: le_max_iff_disj\<close>)
  ultimately show ?case by auto
qed

text \<open>The loop after \<^verbatim>\<open>select\<close>, when every read succeeds.\<close>

definition reads_well :: "linux \<Rightarrow> bool" where
  "reads_well s \<longleftrightarrow> (\<forall>n. \<exists>k v. ce_read (ahead s n) = Inr (k, v) \<and> k \<noteq> - 1)"

lemma reads_well_advance: "reads_well s \<Longrightarrow> reads_well (advance n s)"
  by (simp add: reads_well_def)

lemma read_ready_counts:
  assumes "reads_well s" "\<forall>fd \<in> set l. 0 \<le> fd \<and> fd < FD_SETSIZE" "0 \<le> n" "n + int (length l) < 2 ^ 31"
  shows "\<exists>s'. read_ready (linux_posix cfg) fds l n s =
    Some (let m = n + int (length (filter (\<lambda>fd. fd \<in> fds) l)) in if m = 0 then - ETIMEDOUT else m, s')"
  using assms
proof (induction l arbitrary: n s)
  case Nil
  then show ?case by simp
next
  case (Cons fd l)
  have i: "FD_ISSET fd fds = Some (fd \<in> fds)" using Cons.prems(2) by (simp add: FD_ISSET_def)
  show ?case
  proof (cases "fd \<in> fds")
    case False
    with Cons.IH [of s n] Cons.prems i show ?thesis by simp
  next
    case True
    from Cons.prems(1) have "\<exists>k v. ce_read (ahead s 0) = Inr (k, v) \<and> k \<noteq> - 1" unfolding reads_well_def by blast
    then obtain k v where r: "linux_read fd 0 s = Some (k, 0, v, advance 1 s)" "k \<noteq> - 1"
      by (auto simp: linux_read_def tick_advance)
    have w: "c_int_wrap (n + 1) = n + 1" using Cons.prems(3,4) by (intro c_int_wrap_id) simp_all
    from Cons.IH [OF reads_well_advance [OF Cons.prems(1), of 1], of "n + 1"] Cons.prems(2-4)
    show ?thesis using True i r w by (auto simp: Let_def add.assoc)
  qed
qed

lemma filter_upto_card: "R \<subseteq> {0..m} \<Longrightarrow> length (filter (\<lambda>fd. fd \<in> R) [0..m]) = card R" for m :: int
proof -
  assume "R \<subseteq> {0..m}"
  then have "set (filter (\<lambda>fd. fd \<in> R) [0..m]) = R" by auto
  moreover have "distinct (filter (\<lambda>fd. fd \<in> R) [0..m])" by simp
  ultimately show ?thesis by (metis distinct_card)
qed

text \<open>C27: waiting for a set. Event sources that are open can be put into a set; when
  \<^verbatim>\<open>select\<close> reports some descriptors and the reads succeed, the wait returns how many members are ready, or
  \<open>-ETIMEDOUT\<close> if none is, and membership in the result is readiness, for every member and
  for no other descriptor.\<close>

theorem set_wait_reports_ready:
  assumes "linux_fine cfg s" "ue_priv_fd ` set evs \<subseteq> open_fds s"
    and "ce_select (ahead s 0) = Inr (r, ready)" "r \<noteq> - 1" "reads_well (advance 1 s)"
  shows "\<exists>es es' s'. add_all (cuddl_eventsrcset_zero es0) evs = Some es \<and>
    cuddl_eventsrcset_timed_wait (linux_posix cfg) es timeout (Some any) s =
      Some (if ue_priv_fd ` set evs \<inter> ready = {} then - ETIMEDOUT else int (card (ue_priv_fd ` set evs \<inter> ready)), Some es', s') \<and>
    es_fds es' = ue_priv_fd ` set evs \<inter> ready \<and>
    (\<forall>ev \<in> set evs. cuddl_eventsrcset_contains es' ev = Some (ue_priv_fd ev \<in> ready))"
proof -
  have fds: "\<forall>ev \<in> set evs. 0 \<le> ue_priv_fd ev \<and> ue_priv_fd ev < FD_SETSIZE"
    using assms(2) lx.fds_small [OF assms(1)] by blast
  obtain es where es: "add_all (cuddl_eventsrcset_zero es0) evs = Some es" "es_fds es = ue_priv_fd ` set evs"
    "es_fds es \<subseteq> {0..es_max_fd es}" "0 \<le> es_max_fd es" "es_max_fd es < FD_SETSIZE"
    using add_all_outcome [OF fds, of "cuddl_eventsrcset_zero es0"] by (auto simp: cuddl_eventsrcset_zero_def)
  let ?R = "es_fds es \<inter> ready" and ?l = "[0..es_max_fd es]"
  have w: "c_int_wrap (es_max_fd es + 1) = es_max_fd es + 1"
    using es(4,5) by (intro c_int_wrap_id) (simp_all add: FD_SETSIZE_def)
  have "{fd \<in> es_fds es. fd < es_max_fd es + 1 \<and> fd \<in> ready} = ?R" using es(3) by auto
  then have sel: "linux_select (es_max_fd es + 1) (es_fds es) (timeval_of timeout) s = Some (r, 0, ?R, advance 1 s)"
    using assms(3) by (simp add: linux_select_def tick_advance)
  have R: "?R \<subseteq> {0..es_max_fd es}" using es(3) by blast
  have "\<exists>s'. read_ready (linux_posix cfg) ?R ?l 0 (advance 1 s) =
    Some (let m = 0 + int (length (filter (\<lambda>fd. fd \<in> ?R) ?l)) in if m = 0 then - ETIMEDOUT else m, s')"
    by (rule read_ready_counts [OF assms(5)]) (use es(4,5) in \<open>simp_all add: FD_SETSIZE_def\<close>)
  then obtain s' where run: "read_ready (linux_posix cfg) ?R ?l 0 (advance 1 s) =
      Some (if ?R = {} then - ETIMEDOUT else int (card ?R), s')"
    unfolding filter_upto_card [OF R] using finite_subset [OF R] by (auto simp: Let_def simp del: filter_False)
  have "cuddl_eventsrcset_timed_wait (linux_posix cfg) es timeout (Some any) s =
      Some (if ?R = {} then - ETIMEDOUT else int (card ?R), Some (es\<lparr>es_fds := ?R\<rparr>), s')"
    using sel run assms(4) by (simp add: cuddl_eventsrcset_timed_wait_def w)
  moreover have "\<forall>ev \<in> set evs. cuddl_eventsrcset_contains (es\<lparr>es_fds := ?R\<rparr>) ev = Some (ue_priv_fd ev \<in> ready)"
    using fds es(2) by (simp add: cuddl_eventsrcset_contains_def FD_ISSET_def)
  ultimately show ?thesis using es(1,2) by (intro exI [of _ es] exI [of _ "es\<lparr>es_fds := ?R\<rparr>"]) auto
qed

definition empty_set :: cuddl_eventsrcset where
  "empty_set = \<lparr>es_fds = {}, es_max_fd = 0\<rparr>"

definition two_events :: "cuddl_eventsrc list" where
  "two_events = map (\<lambda>fd. \<lparr>ue_flags = 0, ue_priv_fd = fd, ue_priv_token = \<lparr>device_index = 0, resource_index = 0\<rparr>\<rparr>) [1, 5]"

theorem set_wait_reports_ready_witness:
  "\<exists>es es' s'. add_all (cuddl_eventsrcset_zero empty_set) two_events = Some es \<and>
    cuddl_eventsrcset_timed_wait (linux_posix sample_cfg) es \<lparr>tv_sec = 1, tv_nsec = 0\<rparr> (Some empty_set)
      ((sample_linux (\<lambda>_. good_call) sample_state)\<lparr>files := [(1, Device_File []), (5, Device_File [])]\<rparr>) = Some (1, Some es', s') \<and>
    es_fds es' = {1}"
proof -
  let ?s = "(sample_linux (\<lambda>_. good_call) sample_state)\<lparr>files := [(1, Device_File []), (5, Device_File [])]\<rparr>"
  have fds: "ue_priv_fd ` set two_events = {1, 5}" by (simp add: two_events_def)
  have "linux_fine sample_cfg ?s"
    using sample_linux_fine [of "\<lambda>_. good_call"] by (simp add: linux_fine_def files_fine_def FD_SETSIZE_def)
  moreover have "ue_priv_fd ` set two_events \<subseteq> open_fds ?s" by (simp add: fds open_fds_def)
  moreover have "ce_select (ahead ?s 0) = Inr (1, {0, 1, 2, 3})" "(1 :: c_int) \<noteq> - 1" "reads_well (advance 1 ?s)"
    by (simp_all add: good_call_def reads_well_def)
  moreover have "{1, 5} \<inter> {0, 1, 2, 3} = {1 :: int}" by auto
  ultimately show ?thesis
    using set_wait_reports_ready [of sample_cfg ?s two_events 1 "{0, 1, 2, 3}" empty_set "\<lparr>tv_sec = 1, tv_nsec = 0\<rparr>" empty_set]
    unfolding fds by auto
qed

text \<open>An event source that has counted \<open>2\<^sup>3\<^sup>1 + 1\<close> events.\<close>

definition many_events :: linux where
  "many_events = sample_linux (\<lambda>_. good_call\<lparr>ce_read := Inr (4, 2147483649)\<rparr>) sample_state"

definition third_event :: cuddl_eventsrc where
  "third_event = \<lparr>ue_flags = 0, ue_priv_fd = 3, ue_priv_token = \<lparr>device_index = 0, resource_index = 0\<rparr>\<rparr>"

theorem wait_returns_count_witness:
  "\<exists>ret s'. cuddl_eventsrc_wait (linux_posix sample_cfg) third_event (advance 1 many_events) = Some (ret, s') \<and>
    ret = 1 - 2 ^ 31 \<and> ret < 0"
proof -
  let ?os = "linux_posix sample_cfg" and ?t = "\<lparr>tv_sec = 1, tv_nsec = 0\<rparr>" and ?s = "advance 1 many_events"
  have fd: "ue_priv_fd third_event = 3" by (simp add: third_event_def)
  have r: "sys_read ?os (ue_priv_fd third_event) 0 ?s = Some (4, 0, 2147483649, advance 1 ?s)" "(4 :: c_int) \<noteq> - 1"
    "0 \<le> ue_priv_fd third_event" "ue_priv_fd third_event < FD_SETSIZE"
    by (simp_all add: linux_read_def many_events_def tick_advance fd FD_SETSIZE_def)
  have "{x :: c_int. x = 3 \<and> x < 4 \<and> x \<in> {0, 1, 2, 3}} = {3}" by auto
  then have "sys_select ?os (ue_priv_fd third_event + 1) {ue_priv_fd third_event} (timeval_of ?t) many_events =
      Some (1, 0, {ue_priv_fd third_event}, ?s)" "(1 :: c_int) \<noteq> - 1"
    by (simp_all add: linux_select_def many_events_def tick_advance fd good_call_def)
  from wait_returns_count [OF r this] show ?thesis by auto
qed

end
