(* ===== verification/Process_End.thy ===== *)
theory Process_End
  imports Linux_Properties
begin

section \<open>Start and end of a process\<close>

text \<open>
  The constructor of the library registers the process with the janitor; when the process
  ends, however it ends, the kernel closes its files and the janitor's release frees what the
  process still holds.
\<close>

subsection \<open>The end of a process\<close>

text \<open>The processes whose references the closing of a file frees.\<close>

fun freed_by :: "open_file \<Rightarrow> pid_t set" where
  "freed_by (Janitor_File j) = (case private_data j of Live pid \<Rightarrow> {pid} | _ \<Rightarrow> {})"
| "freed_by _ = {}"

lemma close_step:
  assumes "linux_fine cfg s" "map_of (files s) fd = Some f"
  obtains ret errno s' where "linux_close fd s = Some (ret, errno, s')" "linux_fine cfg s'"
    "refs_exact (kern s) \<longrightarrow> refs_exact (kern s')"
    "files s' = filter (\<lambda>f. fst f \<noteq> fd) (files s)"
    "mem_holders (kern s') = (\<lambda>a b. filter (\<lambda>q. q \<notin> freed_by f) (mem_holders (kern s) a b))"
    "event_holders (kern s') = (\<lambda>a b. filter (\<lambda>q. q \<notin> freed_by f) (event_holders (kern s) a b))"
    "k_shape (kern s') = k_shape (kern s)" "refs_room (kern s) \<longrightarrow> refs_room (kern s')"
proof -
  from assms(2) have fd: "fd \<in> open_fds s" "file_ok f"
    using file_ok_at [OF fineD(2) [OF assms(1)] map_of_SomeD] by (force simp: open_fds_def dest: map_of_SomeD)+
  from linux_close_law [OF assms(1) fd(1)] obtain ret errno s' where
    c: "linux_close fd s = Some (ret, errno, s')" "linux_fine cfg s'" by (auto simp: leaves_def)
  have fin: "files s' = filter (\<lambda>f. fst f \<noteq> fd) (files s)" using c(1) assms(2)
    by (cases "close_result s") (auto simp: linux_close_def bind_eq_Some_conv)
  note k = kernel_fineD [OF fineD(1) [OF assms(1)]]
  show ?thesis
  proof (cases "\<exists>j pid. f = Janitor_File j \<and> private_data j = Live pid")
    case True
    then obtain j pid where j: "f = Janitor_File j" "private_data j = Live pid" by blast
    obtain k' where k': "cuddlk_manager_free_refs_for_pid pid (kern s) = Some k'" "refs_exact (kern s) \<longrightarrow> refs_exact k'"
      "k_shape k' = k_shape (kern s)"
      "cuddlk_mem_refs k' = filter (\<lambda>x. ref_pid x \<noteq> pid) (cuddlk_mem_refs (kern s))"
      "cuddlk_event_refs k' = filter (\<lambda>x. ref_pid x \<noteq> pid) (cuddlk_event_refs (kern s))"
      using manager_free_refs_outcome [OF k(1,2,4)] by blast
    have "kern s' = k'" using c(1) assms(2) j k'(1)
      by (auto simp: linux_close_def cuddlk_janitor_release_def split: prod.splits)
    moreover have "refs_room (kern s) \<longrightarrow> refs_room k'"
      using k'(4,5) by (auto simp: refs_room_def intro: le_less_trans [OF length_filter_le])
    ultimately show ?thesis using c fin j k' that by (simp add: mem_holders_def event_holders_def holders_of_free)
  next
    case False
    then have e: "freed_by f = {}" using fd(2) by (cases f) (auto split: kptr.splits)
    have "kern s' = kern s" using c(1) assms(2) fd(2) False
      by (cases f; cases "case f of Janitor_File j \<Rightarrow> private_data j")
        (auto simp: linux_close_def cuddlk_janitor_release_def bind_eq_Some_conv split: prod.splits if_splits kptr.splits)
    with c fin e that show ?thesis by simp
  qed
qed

text \<open>The processes whose references the closing of the files with given descriptors frees.\<close>

definition freed_with :: "c_int set \<Rightarrow> (c_int \<times> open_file) list \<Rightarrow> pid_t set" where
  "freed_with fds fs = {pid. \<exists>(fd, f) \<in> set fs. fd \<in> fds \<and> pid \<in> freed_by f}"

lemma freed_with_Cons:
  assumes "distinct (map fst fs)" "map_of fs fd = Some f" "fd \<notin> fds"
  shows "freed_with (insert fd fds) fs = freed_by f \<union> freed_with fds (filter (\<lambda>x. fst x \<noteq> fd) fs)"
proof -
  have "(fd, f') \<in> set fs \<longleftrightarrow> f' = f" for f'
    using assms(1,2) by (metis map_of_eq_Some_iff option.inject)
  with assms(3) show ?thesis by (fastforce simp: freed_with_def)
qed

lemma close_all_outcome:
  assumes "linux_fine cfg s" "distinct fds" "set fds \<subseteq> open_fds s"
  shows "\<exists>s'. close_all fds s = Some s' \<and> linux_fine cfg s' \<and> (refs_exact (kern s) \<longrightarrow> refs_exact (kern s')) \<and>
    files s' = filter (\<lambda>f. fst f \<notin> set fds) (files s) \<and>
    mem_holders (kern s') = (\<lambda>a b. filter (\<lambda>q. q \<notin> freed_with (set fds) (files s)) (mem_holders (kern s) a b)) \<and>
    event_holders (kern s') = (\<lambda>a b. filter (\<lambda>q. q \<notin> freed_with (set fds) (files s)) (event_holders (kern s) a b)) \<and>
    k_shape (kern s') = k_shape (kern s) \<and> (refs_room (kern s) \<longrightarrow> refs_room (kern s'))"
  using assms
proof (induction fds arbitrary: s)
  case Nil
  then show ?case by (simp add: freed_with_def)
next
  case (Cons fd fds)
  from Cons.prems(3) open_file_at obtain f where f: "map_of (files s) fd = Some f" by fastforce
  obtain ret errno s1 where c: "linux_close fd s = Some (ret, errno, s1)" "linux_fine cfg s1"
    "refs_exact (kern s) \<longrightarrow> refs_exact (kern s1)"
    "files s1 = filter (\<lambda>f. fst f \<noteq> fd) (files s)"
    "mem_holders (kern s1) = (\<lambda>a b. filter (\<lambda>q. q \<notin> freed_by f) (mem_holders (kern s) a b))"
    "event_holders (kern s1) = (\<lambda>a b. filter (\<lambda>q. q \<notin> freed_by f) (event_holders (kern s) a b))"
    "k_shape (kern s1) = k_shape (kern s)" "refs_room (kern s) \<longrightarrow> refs_room (kern s1)"
    by (rule close_step [OF Cons.prems(1) f])
  have "set fds \<subseteq> open_fds s1" using Cons.prems(2,3) by (fastforce simp: open_fds_def c(4))
  from Cons.IH [OF c(2) _ this] Cons.prems(2) obtain s' where s': "close_all fds s1 = Some s'"
    "linux_fine cfg s'" "refs_exact (kern s1) \<longrightarrow> refs_exact (kern s')" "files s' = filter (\<lambda>f. fst f \<notin> set fds) (files s1)"
    "mem_holders (kern s') = (\<lambda>a b. filter (\<lambda>q. q \<notin> freed_with (set fds) (files s1)) (mem_holders (kern s1) a b))"
    "event_holders (kern s') = (\<lambda>a b. filter (\<lambda>q. q \<notin> freed_with (set fds) (files s1)) (event_holders (kern s1) a b))"
    "k_shape (kern s') = k_shape (kern s1)" "refs_room (kern s1) \<longrightarrow> refs_room (kern s')"
    by auto
  have "freed_with (insert fd (set fds)) (files s) = freed_by f \<union> freed_with (set fds) (files s1)"
    using freed_with_Cons [OF _ f] fineD(2) [OF Cons.prems(1)] Cons.prems(2) by (simp add: c(4) files_fine_def)
  with s' c show ?case by (simp add: filter_filter conj_commute)
qed

lemma process_exit_outcome:
  assumes "linux_fine cfg s"
  obtains s' where "process_exit s = Some s'" "linux_fine cfg s'" "refs_exact (kern s) \<longrightarrow> refs_exact (kern s')" "files s' = []"
    "mem_holders (kern s') = (\<lambda>a b. filter (\<lambda>q. q \<notin> freed_with (open_fds s) (files s)) (mem_holders (kern s) a b))"
    "event_holders (kern s') = (\<lambda>a b. filter (\<lambda>q. q \<notin> freed_with (open_fds s) (files s)) (event_holders (kern s) a b))"
    "k_shape (kern s') = k_shape (kern s)" "refs_room (kern s) \<longrightarrow> refs_room (kern s')"
proof -
  have "distinct (sort (map fst (files s)))" "set (sort (map fst (files s))) = open_fds s"
    using fineD(2) [OF assms] by (simp_all add: files_fine_def open_fds_def)
  moreover have "filter (\<lambda>f. fst f \<notin> open_fds s) (files s) = []" by (auto simp: open_fds_def filter_empty_conv)
  ultimately show ?thesis
    using close_all_outcome [OF assms, of "sort (map fst (files s))"] that unfolding process_exit_def by auto
qed


text \<open>What a file of the process frees when it is closed: the references of the process itself.\<close>

definition pid_registered :: "linux \<Rightarrow> bool" where
  "pid_registered s \<longleftrightarrow> (\<exists>(fd, f) \<in> set (files s). freed_by f = {my_pid s})"

definition only_own :: "linux \<Rightarrow> bool" where
  "only_own s \<longleftrightarrow> (\<forall>(fd, f) \<in> set (files s). freed_by f \<subseteq> {my_pid s})"

lemma freed_with_own: "pid_registered s \<Longrightarrow> only_own s \<Longrightarrow> freed_with (open_fds s) (files s) = {my_pid s}"
  by (force simp: pid_registered_def only_own_def freed_with_def open_fds_def)

text \<open>A process cannot end without giving back what it holds. Once the janitor has a file that
  is registered for the process, its end, in any state of the system, closes every file and
  removes exactly the references of this process from the holders of every region and of
  every event source; the holders of other processes stay in order and the counts stay exact.\<close>

theorem process_end_gives_back:
  assumes "linux_fine cfg s" "refs_exact (kern s)" "pid_registered s" "only_own s"
  shows "\<exists>s'. process_exit s = Some s' \<and> files s' = [] \<and> linux_fine cfg s' \<and> refs_exact (kern s') \<and>
    mem_holders (kern s') = (\<lambda>a b. filter (\<lambda>q. q \<noteq> my_pid s) (mem_holders (kern s) a b)) \<and>
    event_holders (kern s') = (\<lambda>a b. filter (\<lambda>q. q \<noteq> my_pid s) (event_holders (kern s) a b))"
  using process_exit_outcome [OF assms(1)] freed_with_own [OF assms(3,4)] assms(2) by (auto simp del: filter_False)

text \<open>A process that holds the sample region and is registered with descriptor 3.\<close>

definition holding_linux :: linux where
  "holding_linux = (sample_linux (\<lambda>_. good_call) held_state)
     \<lparr>files := [(3, Janitor_File \<lparr>private_data = Live 42, pid_allocs = 1\<rparr>)]\<rparr>"

lemma held_kernel_fine: "kernel_fine sample_cfg held_state"
  by (simp add: kernel_fine_def held_state_facts)

lemma held_room: "refs_room held_state"
proof -
  obtain ret out k where io: "cuddlk_manager_ioctl sample_cfg (claim_env 42) CUDDLCI_MEMREGION_CLAIM_UIO_IOCTL sample_state
      = Some (ret, out, k)"
    by (rule manager_ioctl_keeps [OF sample_state_facts(2) sample_state_few sample_state_named sample_state_facts(3)])
  with manager_ioctl_frame(1,2) [OF io] show ?thesis
    by (simp add: held_state_def refs_room_def sample_state_facts(5,6) list_room_def split: if_splits)
qed

lemma holding_linux_facts:
  "linux_fine sample_cfg holding_linux" "refs_exact (kern holding_linux)" "pid_registered holding_linux"
  "only_own holding_linux" "my_pid holding_linux = 42" "kern holding_linux = held_state"
  using held_kernel_fine held_state_facts(3)
  by (simp_all add: holding_linux_def linux_fine_def files_fine_def pid_registered_def only_own_def FD_SETSIZE_def)

theorem process_end_gives_back_witness:
  "\<exists>s'. process_exit holding_linux = Some s' \<and> mem_holders held_state 0 0 = [42] \<and> mem_holders (kern s') 0 0 = []"
  using process_end_gives_back [OF holding_linux_facts(1-4)]
  by (auto simp: holding_linux_facts(5,6) held_state_facts(5))

lemma startup_run:
  assumes "\<not> xeno ucfg" "lowest_fd (files s) < FD_SETSIZE" "ce_open (ahead s 0) = None"
    and "cuddlk_janitor_ioctl (janitor_copied (ce_copy_in (ahead s 1))
        (Janitor_Pid_Data \<lparr>jp_version_code = CUDDL_VERSION_CODE, jp_pid = my_pid s\<rparr>))
      (ce_kzalloc (ahead s 1)) CUDDLCI_JANITOR_REGISTER_PID_IOCTL new_file = (ret, j)" "- 4095 \<le> ret" "ret \<le> 0"
  shows "cuddl_startup ucfg (linux_posix cfg) real s =
    Some (if ret < 0 then ret else lowest_fd (files s),
      advance 2 (s\<lparr>files := (lowest_fd (files s), Janitor_File j) # files s\<rparr>))"
proof -
  let ?fd = "lowest_fd (files s)"
  let ?s1 = "advance 1 (s\<lparr>files := (?fd, Janitor_File new_file) # files s\<rparr>)"
  have o: "linux_open ''/dev/cuddl_janitor'' s = Some (?fd, 0, ?s1)"
    using assms(2,3) by (simp add: linux_open_def Let_def tick_advance file_for_def cuddlk_janitor_open_def)
  have i: "linux_ioctl cfg ?fd CUDDLCI_JANITOR_REGISTER_PID_IOCTL
      (Janitor_Pid_Data \<lparr>jp_version_code = CUDDL_VERSION_CODE, jp_pid = my_pid s\<rparr>) ?s1 =
    Some (if ret < 0 then - 1 else 0, if ret < 0 then - ret else 0,
      Janitor_Pid_Data \<lparr>jp_version_code = CUDDL_VERSION_CODE, jp_pid = my_pid s\<rparr>,
      advance 2 (s\<lparr>files := (?fd, Janitor_File j) # files s\<rparr>))"
    using assms(4-6)
    by (auto simp: linux_ioctl_def syscall_result_def tick_advance advance_update numeral_2_eq_2)
  from o i assms(1) lowest_fd_free(1) [of "files s"] show ?thesis
    by (auto simp: cuddl_startup_def cuddli_open_janitor_def janitor_os_def)
qed

lemma startup_cases:
  assumes "linux_fine cfg s" "\<not> xeno ucfg" "lowest_fd (files s) < FD_SETSIZE"
  obtains e where "ce_open (ahead s 0) = Some e" "0 < e" "cuddl_startup ucfg (linux_posix cfg) real s = Some (- e, tick s)"
  | ret j where "ce_open (ahead s 0) = None"
      "cuddl_startup ucfg (linux_posix cfg) real s = Some (if ret < 0 then ret else lowest_fd (files s),
         advance 2 (s\<lparr>files := (lowest_fd (files s), Janitor_File j) # files s\<rparr>))"
      "linux_fine cfg (advance 2 (s\<lparr>files := (lowest_fd (files s), Janitor_File j) # files s\<rparr>))"
      "if ce_copy_in (ahead s 1) \<and> ce_kzalloc (ahead s 1) then ret = 0 \<and> private_data j = Live (my_pid s)
       else ret < 0 \<and> private_data j = Null"
proof (cases "ce_open (ahead s 0)")
  case (Some e)
  with fineD(3) [OF assms(1)] have "0 < e" by (simp add: errors_positive_def)
  with Some assms(2) that(1) show ?thesis
    by (simp add: cuddl_startup_def cuddli_open_janitor_def janitor_os_def linux_open_def)
next
  case None
  let ?c = "janitor_copied (ce_copy_in (ahead s 1))
    (Janitor_Pid_Data \<lparr>jp_version_code = CUDDL_VERSION_CODE, jp_pid = my_pid s\<rparr>)"
  obtain ret j where j: "cuddlk_janitor_ioctl ?c (ce_kzalloc (ahead s 1)) CUDDLCI_JANITOR_REGISTER_PID_IOCTL new_file = (ret, j)"
    by fastforce
  from j have r: "- 4095 \<le> ret" "ret \<le> 0" "private_data j \<noteq> Freed"
    "if ce_copy_in (ahead s 1) \<and> ce_kzalloc (ahead s 1) then ret = 0 \<and> private_data j = Live (my_pid s)
     else ret < 0 \<and> private_data j = Null"
    by (auto simp: cuddlk_janitor_ioctl_def janitor_copied_def new_file_def split: if_splits)
  have "linux_fine cfg (advance 2 (s\<lparr>files := (lowest_fd (files s), Janitor_File j) # files s\<rparr>))"
    using assms(1,3) lowest_fd_free [of "files s"] r(3)
    by (auto simp: linux_fine_def files_fine_def advance_def ahead_def split: nat.split)
  with startup_run [OF assms(2,3) None j r(1,2), of cfg real] None r(4) that(2) show ?thesis by blast
qed

text \<open>Starting up. When the device of the janitor can be opened, copied from and allocated for,
  the constructor of the library returns the lowest free descriptor; the kernel is as it was
  and the process is registered: from now on its end gives back what it holds. A system call
  that fails leaves it unregistered, with a negative result.\<close>

theorem startup_registers:
  assumes "linux_fine cfg s" "\<not> xeno ucfg" "lowest_fd (files s) < FD_SETSIZE" "only_own s"
  shows "\<exists>ret s'. cuddl_startup ucfg (linux_posix cfg) real s = Some (ret, s') \<and> kern s' = kern s \<and>
    linux_fine cfg s' \<and> only_own s' \<and>
    (if ce_open (ahead s 0) = None \<and> ce_copy_in (ahead s 1) \<and> ce_kzalloc (ahead s 1)
     then ret = lowest_fd (files s) \<and> pid_registered s' \<and> my_pid s' = my_pid s
     else ret < 0)"
proof (rule startup_cases [OF assms(1-3), of real])
  fix e
  assume "ce_open (ahead s 0) = Some e" "0 < e" "cuddl_startup ucfg (linux_posix cfg) real s = Some (- e, tick s)"
  with assms(4) fine_tick [OF assms(1)] show ?thesis by (simp add: only_own_def)
next
  fix ret j
  assume "ce_open (ahead s 0) = None"
    "cuddl_startup ucfg (linux_posix cfg) real s = Some (if ret < 0 then ret else lowest_fd (files s),
         advance 2 (s\<lparr>files := (lowest_fd (files s), Janitor_File j) # files s\<rparr>))"
    "linux_fine cfg (advance 2 (s\<lparr>files := (lowest_fd (files s), Janitor_File j) # files s\<rparr>))"
    "if ce_copy_in (ahead s 1) \<and> ce_kzalloc (ahead s 1) then ret = 0 \<and> private_data j = Live (my_pid s)
     else ret < 0 \<and> private_data j = Null"
  with assms(4) show ?thesis by (auto simp: only_own_def pid_registered_def split: if_splits)
qed

theorem startup_registers_witness:
  "\<exists>s'. cuddl_startup \<lparr>xeno = False, u_commit_hash = [], u_repo_is_dirty = False\<rparr> (linux_posix sample_cfg)
      (linux_posix sample_cfg) (sample_linux (\<lambda>_. good_call) sample_state) = Some (0, s') \<and> pid_registered s'"
proof -
  let ?s = "sample_linux (\<lambda>_. good_call) sample_state"
  have h: "linux_fine sample_cfg ?s" "\<not> xeno \<lparr>xeno = False, u_commit_hash = [], u_repo_is_dirty = False\<rparr>"
    "lowest_fd (files ?s) < FD_SETSIZE" "only_own ?s"
    by (simp_all add: sample_linux_fine only_own_def)
  from startup_registers [OF h, of "linux_posix sample_cfg"] show ?thesis by (auto simp: good_call_def)
qed

text \<open>What the destructor leaves open. It closes the descriptor that the constructor returned, and
  with it the registration, when that number is positive. Two files stay open: one whose
  registration the kernel refused (the constructor returned an error and lost the number), and
  one that got the number 0 because the standard input of the process was closed.\<close>

theorem startup_then_cleanup:
  assumes "\<not> xeno ucfg" "lowest_fd (files s) < FD_SETSIZE" "linux_fine cfg s"
  shows "\<exists>ret s1 s2. cuddl_startup ucfg (linux_posix cfg) real s = Some (ret, s1) \<and>
    cuddl_cleanup ucfg (linux_posix cfg) real ret s1 = Some s2 \<and>
    (ret < 0 \<longleftrightarrow> \<not> (ce_open (ahead s 0) = None \<and> ce_copy_in (ahead s 1) \<and> ce_kzalloc (ahead s 1))) \<and>
    (if ret > 0 \<or> ce_open (ahead s 0) \<noteq> None then files s2 = files s
     else open_fds s2 = insert (lowest_fd (files s)) (open_fds s) \<and> lowest_fd (files s) \<notin> open_fds s)"
proof (rule startup_cases [OF assms(3,1,2), of real])
  fix e
  assume e: "ce_open (ahead s 0) = Some e" "0 < e" "cuddl_startup ucfg (linux_posix cfg) real s = Some (- e, tick s)"
  then show ?thesis by (simp add: cuddl_cleanup_def cuddli_close_janitor_def)
next
  fix ret j
  let ?fd = "lowest_fd (files s)" and ?s1 = "advance 2 (s\<lparr>files := (lowest_fd (files s), Janitor_File j) # files s\<rparr>)"
  assume j: "ce_open (ahead s 0) = None"
    "cuddl_startup ucfg (linux_posix cfg) real s = Some (if ret < 0 then ret else ?fd, ?s1)" "linux_fine cfg ?s1"
    "if ce_copy_in (ahead s 1) \<and> ce_kzalloc (ahead s 1) then ret = 0 \<and> private_data j = Live (my_pid s)
     else ret < 0 \<and> private_data j = Null"
  note fd = lowest_fd_free [of "files s"]
  have fds: "open_fds ?s1 = insert ?fd (open_fds s)" by (simp add: open_fds_def advance_def)
  from linux_close_law [OF j(3), of ?fd] fds obtain r e s2 where c: "linux_close ?fd ?s1 = Some (r, e, s2)" by auto
  then have "files s2 = files s" using fd(2)
    by (cases "close_result ?s1") (auto simp: linux_close_def bind_eq_Some_conv filter_fresh)
  with c j(1,2,4) assms(1) fd fds show ?thesis
    by (cases "?fd = 0")
      (auto simp: cuddl_cleanup_def cuddli_close_janitor_def janitor_os_def open_fds_def split: if_splits)
qed

definition no_room_for_pid :: "nat \<Rightarrow> call_env" where
  "no_room_for_pid n = (if n = 1 then good_call\<lparr>ce_kzalloc := False\<rparr> else good_call)"

theorem startup_then_cleanup_witness:
  "\<exists>ret s1 s2. cuddl_startup \<lparr>xeno = False, u_commit_hash = [], u_repo_is_dirty = False\<rparr> (linux_posix sample_cfg)
      (linux_posix sample_cfg) (sample_linux no_room_for_pid sample_state) = Some (ret, s1) \<and>
    cuddl_cleanup \<lparr>xeno = False, u_commit_hash = [], u_repo_is_dirty = False\<rparr> (linux_posix sample_cfg)
      (linux_posix sample_cfg) ret s1 = Some s2 \<and> ret < 0 \<and> open_fds s2 = {0}"
proof -
  let ?s = "sample_linux no_room_for_pid sample_state"
  have "errors_positive (no_room_for_pid n)" for n
    by (simp add: no_room_for_pid_def) (simp add: errors_positive_def good_call_def)
  then have h: "\<not> xeno \<lparr>xeno = False, u_commit_hash = [], u_repo_is_dirty = False\<rparr>"
    "lowest_fd (files ?s) < FD_SETSIZE" "linux_fine sample_cfg ?s"
    by (simp_all add: sample_linux_fine)
  have e: "\<not> ce_kzalloc (ahead ?s 1)" "ce_open (ahead ?s 0) = None"
    by (simp_all only: sample_linux_simps) (simp_all add: no_room_for_pid_def)
  from startup_then_cleanup [OF h, of "linux_posix sample_cfg"] e show ?thesis
    by (elim exE conjE) (auto simp del: ahead_simps)
qed

text \<open>C15: the end of a process lets others in. When only the process that ends holds a region, the
  next claim of that region through the library, by any process and whether the region is
  shared or not, succeeds, and that process is then its only holder.\<close>

theorem end_lets_others_claim:
  assumes "linux_fine cfg s" "refs_exact (kern s)" "pid_registered s" "only_own s"
    and "lookup_memregion (kern s) (populate_id_from_args gid g d r i) = Some (a, b, m)"
    and "set (mem_holders (kern s) (int a) (int b)) \<subseteq> {my_pid s}"
  shows "\<exists>s1. process_exit s = Some s1 \<and>
    (\<forall>t. kern t = kern s1 \<and> garbage_id t = gid \<and> lowest_fd (files t) < FD_SETSIZE \<and> ce_open (ahead t 0) = None \<and>
       served t 1 \<and> ce_close (ahead t 2) = None \<longrightarrow>
       (\<exists>meminfo' t'. cuddl_memregion_claim ucfg (linux_posix cfg) meminfo g d r i opts t = Some (0, meminfo', t') \<and>
          mem_holders (kern t') (int a) (int b) = [my_pid t]))"
proof -
  obtain s1 where x: "process_exit s = Some s1" "linux_fine cfg s1" "refs_exact (kern s) \<longrightarrow> refs_exact (kern s1)" "files s1 = []"
    "mem_holders (kern s1) = (\<lambda>a b. filter (\<lambda>q. q \<notin> freed_with (open_fds s) (files s)) (mem_holders (kern s) a b))"
    "event_holders (kern s1) = (\<lambda>a b. filter (\<lambda>q. q \<notin> freed_with (open_fds s) (files s)) (event_holders (kern s) a b))"
    "k_shape (kern s1) = k_shape (kern s)"
    by (rule process_exit_outcome [OF assms(1)])
  have none: "mem_holders (kern s1) (int a) (int b) = []"
    using assms(6) by (auto simp: x(5) freed_with_own [OF assms(3,4)] filter_empty_conv)
  from lookup_memregion_shape [OF kernel_fineD(1) [OF fineD(1) [OF assms(1)]] x(7),
      of "populate_id_from_args gid g d r i"] assms(5)
  obtain m' where lk: "lookup_memregion (kern s1) (populate_id_from_args gid g d r i) = Some (a, b, m')" by auto
  have "\<exists>meminfo' t'. cuddl_memregion_claim ucfg (linux_posix cfg) meminfo g d r i opts t = Some (0, meminfo', t') \<and>
      mem_holders (kern t') (int a) (int b) = [my_pid t]"
    if t: "kern t = kern s1" "garbage_id t = gid" "lowest_fd (files t) < FD_SETSIZE" "ce_open (ahead t 0) = None"
      "served t 1" "ce_close (ahead t 2) = None" for t
  proof -
    have k: "kernel_fine cfg (kern t)" "refs_exact (kern t)" using t(1) x(3) assms(2) fineD(1) [OF x(2)] by simp_all
    have lk': "lookup_memregion (kern t) (mc_id (mem_claim_request t g d r i opts)) = Some (a, b, m')"
      "mem_holders (kern t) (int a) (int b) = []" using t(1,2) lk none by (simp_all add: mem_claim_request_def)
    obtain ret md' k where c: "cuddl_memregion_claim ucfg (linux_posix cfg) meminfo g d r i opts t =
         Some (if ret \<noteq> 0 then (ret, meminfo, advance 3 (t\<lparr>kern := k\<rparr>))
           else (close_error (ahead t 2), mc_info md', advance 3 (t\<lparr>kern := k\<rparr>)))"
      and m: "mem_claim_meets (kern t) (mem_claim_request t g d r i opts) ret
         (if ret = 0 then Some (Mem_Claim_Data md') else None) k"
      by (rule library_claim [OF k t(3-5)])
    from m lk' have "ret = 0" "mem_holders k (int a) (int b) = [my_pid t]"
      by (elim mem_claim_meets_cases; force simp: mem_claim_request_def spec_claim_def)+
    with c t(6) show ?thesis by (simp add: close_error_def)
  qed
  with x(1) show ?thesis by blast
qed

theorem end_lets_others_claim_witness:
  "\<exists>s1 meminfo' t'. process_exit holding_linux = Some s1 \<and>
    cuddl_memregion_claim \<lparr>xeno = False, u_commit_hash = [], u_repo_is_dirty = False\<rparr> (linux_posix sample_cfg)
      (mc_info (sample_claim 0)) (Some ''mfg'') (Some ''card'') (Some ''regs'') 1 0
      ((sample_linux (\<lambda>_. good_call) (kern s1))\<lparr>my_pid := 7\<rparr>) = Some (0, meminfo', t') \<and>
    mem_holders (kern t') 0 0 = [7]"
proof -
  let ?ucfg = "\<lparr>xeno = False, u_commit_hash = [], u_repo_is_dirty = False\<rparr>"
  have "names_agree (populate_id_from_args sample_stack_id (Some ''mfg'') (Some ''card'') (Some ''regs'') 1) sample_id"
    by (simp add: names_agree_def populate_id_from_args_def populate_name_def sample_id_def
        CUDDLCI_MAX_STR_LEN_def cstr_strncpy)
  from lookup_names(1) [OF this] held_lookup obtain m where
    lk: "lookup_memregion (kern holding_linux)
      (populate_id_from_args sample_stack_id (Some ''mfg'') (Some ''card'') (Some ''regs'') 1) = Some (0, 0, m)"
    by (auto simp: holding_linux_facts(6))
  have h: "set (mem_holders (kern holding_linux) (int 0) (int 0)) \<subseteq> {my_pid holding_linux}"
    by (simp add: holding_linux_facts(5,6) held_state_facts(5))
  obtain s1 where s1: "process_exit holding_linux = Some s1"
    and next_claim: "\<forall>t. kern t = kern s1 \<and> garbage_id t = sample_stack_id \<and> lowest_fd (files t) < FD_SETSIZE \<and>
       ce_open (ahead t 0) = None \<and> served t 1 \<and> ce_close (ahead t 2) = None \<longrightarrow>
       (\<exists>meminfo' t'. cuddl_memregion_claim ?ucfg (linux_posix sample_cfg) (mc_info (sample_claim 0)) (Some ''mfg'')
          (Some ''card'') (Some ''regs'') 1 0 t = Some (0, meminfo', t') \<and>
          mem_holders (kern t') (int 0) (int 0) = [my_pid t])"
    using end_lets_others_claim [OF holding_linux_facts(1-4) lk h, of ?ucfg "mc_info (sample_claim 0)" 0] by blast
  let ?t = "(sample_linux (\<lambda>_. good_call) (kern s1))\<lparr>my_pid := 7\<rparr>"
  have "refs_room (kern s1)"
    using process_exit_outcome [OF holding_linux_facts(1)] s1 held_room
    by (metis holding_linux_facts(6) option.inject)
  then have "served ?t 1" by (simp add: served_def good_call_def)
  with next_claim [rule_format, of ?t] s1 show ?thesis by (auto simp del: One_nat_def)
qed

end
