(* ===== verification/Process_Life.thy ===== *)
theory Process_Life
  imports Process_End "HOL-Library.Multiset"
begin

section \<open>Whole runs of a process\<close>

text \<open>
  A process that has started holds a descriptor of the janitor and, for every region mapped
  and every event source opened, the structure that the library filled in. The steps are the
  calls of the library, with every result, and whatever other processes do to the kernel in
  between.
\<close>

subsection \<open>The janitor's file is out of reach\<close>

text \<open>
  The calls of the library use only descriptors that they opened themselves. Seen without the
  janitor's descriptor the system still keeps the promises of \<open>small_files\<close>, now with the
  registration as part of the invariant; so every function of the library keeps it.
\<close>

definition guarded :: "kcfg \<Rightarrow> c_int \<Rightarrow> linux \<Rightarrow> bool" where
  "guarded cfg jfd s \<longleftrightarrow> linux_fine cfg s \<and> (\<exists>f. map_of (files s) jfd = Some f \<and> freed_by f = {my_pid s})"

definition other_fds :: "c_int \<Rightarrow> linux \<Rightarrow> c_int set" where
  "other_fds jfd s = open_fds s - {jfd}"

lemma guardedD:
  assumes "guarded cfg jfd s"
  shows "linux_fine cfg s" "pid_registered s" "jfd \<in> open_fds s"
  using assms by (force simp: guarded_def pid_registered_def open_fds_def dest: map_of_SomeD)+

lemma linux_open_frame:
  assumes "linux_open path s = Some (fd, e, s')" "map_of (files s) jfd = Some f"
  shows "map_of (files s') jfd = Some f \<and> my_pid s' = my_pid s"
proof -
  have "jfd \<noteq> lowest_fd (files s)"
    using lowest_fd_free(2) [of "files s"] assms(2) by (force dest: map_of_SomeD)
  with assms show ?thesis by (auto simp: linux_open_def Let_def split: option.splits if_splits)
qed

lemma linux_close_frame:
  assumes "linux_close fd s = Some (ret, e, s')" "fd \<noteq> jfd" "map_of (files s) jfd = Some f"
  shows "map_of (files s') jfd = Some f \<and> my_pid s' = my_pid s"
proof -
  have "map_of (filter (\<lambda>f. fst f \<noteq> fd) fs) jfd = map_of fs jfd" for fs :: "(c_int \<times> open_file) list"
    using assms(2) by (induction fs) auto
  with assms show ?thesis
    by (cases "close_result s") (auto simp: linux_close_def bind_eq_Some_conv split: option.splits)
qed

lemma linux_ioctl_frame:
  assumes "linux_ioctl cfg fd cmd p s = Some (ret, e, p', s')" "fd \<noteq> jfd" "map_of (files s) jfd = Some f"
  shows "map_of (files s') jfd = Some f \<and> my_pid s' = my_pid s"
proof (cases "map_of (files s) fd")
  case None
  with assms show ?thesis by (auto simp: linux_ioctl_def)
next
  case (Some opened)
  show ?thesis
  proof (cases opened)
    case Manager_File
    from assms(1) have "\<exists>k. s' = tick (s\<lparr>kern := k\<rparr>)"
      by (auto simp: linux_ioctl_def Some Manager_File bind_eq_Some_conv Let_def case_prod_unfold)
    with assms(3) show ?thesis by auto
  next
    case (Janitor_File j)
    from assms(1) have "\<exists>g. s' = tick (s\<lparr>files := AList.update fd g (files s)\<rparr>)"
      by (auto simp: linux_ioctl_def Some Janitor_File Let_def case_prod_unfold)
    with assms(2,3) show ?thesis by (auto simp: update_conv')
  next
    case (Device_File path)
    with Some assms show ?thesis by (auto simp: linux_ioctl_def)
  qed
qed

lemma linux_rest_frame:
  "linux_mmap len fd offset s = Some (addr, e, s') \<Longrightarrow> files s' = files s \<and> my_pid s' = my_pid s"
  "linux_munmap a len s = Some (ret, e, s') \<Longrightarrow> files s' = files s \<and> my_pid s' = my_pid s"
  "linux_read fd buf s = Some (ret, e, v, s') \<Longrightarrow> files s' = files s \<and> my_pid s' = my_pid s"
  "linux_write fd v s = Some (ret, e, s') \<Longrightarrow> files s' = files s \<and> my_pid s' = my_pid s"
  "linux_select n fds tv s = Some (ret, e, fds', s') \<Longrightarrow> files s' = files s \<and> my_pid s' = my_pid s"
  by (auto simp: call_defs split: option.splits sum.splits)

lemma leaves_guarded:
  assumes "guarded cfg jfd s" "leaves open_fds (linux_fine cfg) F s'"
    and "\<And>f. map_of (files s) jfd = Some f \<Longrightarrow> map_of (files s') jfd = Some f \<and> my_pid s' = my_pid s"
    and "F' = F - {jfd}"
  shows "leaves (other_fds jfd) (guarded cfg jfd) F' s'"
  using assms by (fastforce simp: leaves_def guarded_def other_fds_def)

interpretation lj: small_files "linux_posix cfg" "other_fds jfd" "guarded cfg jfd" for cfg jfd
proof
  fix s path
  assume g: "guarded cfg jfd s"
  from linux_open_law [OF guardedD(1) [OF g], of path] obtain fd e s' where o: "linux_open path s = Some (fd, e, s')"
    "fd = - 1 \<and> 0 < e \<and> leaves open_fds (linux_fine cfg) (open_fds s) s' \<or>
     0 \<le> fd \<and> fd \<notin> open_fds s \<and> leaves open_fds (linux_fine cfg) (insert fd (open_fds s)) s'" by blast
  note fr = linux_open_frame [OF o(1), of jfd]
  show "\<exists>fd errno s'. sys_open (linux_posix cfg) path s = Some (fd, errno, s') \<and>
      (fd = - 1 \<and> 0 < errno \<and> leaves (other_fds jfd) (guarded cfg jfd) (other_fds jfd s) s' \<or>
       0 \<le> fd \<and> fd \<notin> other_fds jfd s \<and> leaves (other_fds jfd) (guarded cfg jfd) (insert fd (other_fds jfd s)) s')"
  proof (cases "fd = - 1 \<and> 0 < e \<and> leaves open_fds (linux_fine cfg) (open_fds s) s'")
    case True
    with o(1) leaves_guarded [OF g _ fr, of "open_fds s" "other_fds jfd s"] show ?thesis
      by (auto simp: other_fds_def)
  next
    case False
    with o(2) have fd: "0 \<le> fd" "fd \<notin> open_fds s" "leaves open_fds (linux_fine cfg) (insert fd (open_fds s)) s'" by auto
    with guardedD(3) [OF g] have "insert fd (other_fds jfd s) = insert fd (open_fds s) - {jfd}" "fd \<notin> other_fds jfd s"
      by (auto simp: other_fds_def)
    with o(1) fd leaves_guarded [OF g fd(3) fr] show ?thesis by auto
  qed
next
  fix s fd
  assume g: "guarded cfg jfd s" and fd: "fd \<in> other_fds jfd s"
  then have fd': "fd \<in> open_fds s" "fd \<noteq> jfd" by (simp_all add: other_fds_def)
  from linux_close_law [OF guardedD(1) [OF g] fd'(1)] obtain ret e s' where c: "linux_close fd s = Some (ret, e, s')"
    "ret = 0 \<or> ret = - 1 \<and> 0 < e" "leaves open_fds (linux_fine cfg) (open_fds s - {fd}) s'" by blast
  show "\<exists>ret errno s'. sys_close (linux_posix cfg) fd s = Some (ret, errno, s') \<and>
      (ret = 0 \<or> ret = - 1 \<and> 0 < errno) \<and> leaves (other_fds jfd) (guarded cfg jfd) (other_fds jfd s - {fd}) s'"
  proof -
    have "other_fds jfd s - {fd} = open_fds s - {fd} - {jfd}" by (auto simp: other_fds_def)
    with leaves_guarded [OF g c(3) linux_close_frame [OF c(1) fd'(2)]] c(1,2) show ?thesis by auto
  qed
next
  fix s fd cmd p
  assume g: "guarded cfg jfd s" and fd: "fd \<in> other_fds jfd s"
  then have fd': "fd \<in> open_fds s" "fd \<noteq> jfd" by (simp_all add: other_fds_def)
  from linux_ioctl_law [OF guardedD(1) [OF g] fd'(1), of cmd p] obtain ret e p' s' where
    c: "linux_ioctl cfg fd cmd p s = Some (ret, e, p', s')" "payload_kind p' = payload_kind p"
    "leaves open_fds (linux_fine cfg) (open_fds s) s'" by blast
  show "\<exists>ret errno p' s'. sys_ioctl (linux_posix cfg) fd cmd p s = Some (ret, errno, p', s') \<and>
      payload_kind p' = payload_kind p \<and> leaves (other_fds jfd) (guarded cfg jfd) (other_fds jfd s) s'"
    using c leaves_guarded [OF g c(3) linux_ioctl_frame [OF c(1) fd'(2)], of "other_fds jfd s"]
    by (auto simp: other_fds_def)
next
  fix s fd len offset
  assume g: "guarded cfg jfd s" and fd: "fd \<in> other_fds jfd s"
  from lx.mmap_file [OF guardedD(1) [OF g], of fd len offset] fd obtain addr e s' where
    c: "linux_mmap len fd offset s = Some (addr, e, s')" "addr = - 1 \<longrightarrow> 0 < e"
    "leaves open_fds (linux_fine cfg) (open_fds s) s'" by (auto simp: other_fds_def)
  show "\<exists>addr errno s'. sys_mmap (linux_posix cfg) len fd offset s = Some (addr, errno, s') \<and>
      (addr = - 1 \<longrightarrow> 0 < errno) \<and> leaves (other_fds jfd) (guarded cfg jfd) (other_fds jfd s) s'"
    using c leaves_guarded [OF g c(3), of "other_fds jfd s"] linux_rest_frame(1) [OF c(1)]
    by (auto simp: other_fds_def)
next
  fix s addr len
  assume g: "guarded cfg jfd s"
  from lx.munmap_file [OF guardedD(1) [OF g], of addr len] obtain ret e s' where
    c: "linux_munmap addr len s = Some (ret, e, s')" "leaves open_fds (linux_fine cfg) (open_fds s) s'" by auto
  show "\<exists>ret errno s'. sys_munmap (linux_posix cfg) addr len s = Some (ret, errno, s') \<and>
      leaves (other_fds jfd) (guarded cfg jfd) (other_fds jfd s) s'"
    using c leaves_guarded [OF g c(2), of "other_fds jfd s"] linux_rest_frame(2) [OF c(1)]
    by (auto simp: other_fds_def)
next
  fix s fd buf
  assume g: "guarded cfg jfd s"
  from lx.read_file [OF guardedD(1) [OF g], of fd buf] obtain ret e v s' where
    c: "linux_read fd buf s = Some (ret, e, v, s')" "leaves open_fds (linux_fine cfg) (open_fds s) s'" by auto
  show "\<exists>ret errno v s'. sys_read (linux_posix cfg) fd buf s = Some (ret, errno, v, s') \<and>
      leaves (other_fds jfd) (guarded cfg jfd) (other_fds jfd s) s'"
    using c leaves_guarded [OF g c(2), of "other_fds jfd s"] linux_rest_frame(3) [OF c(1)]
    by (auto simp: other_fds_def)
next
  fix s fd v
  assume g: "guarded cfg jfd s"
  from lx.write_file [OF guardedD(1) [OF g], of fd v] obtain ret e s' where
    c: "linux_write fd v s = Some (ret, e, s')" "leaves open_fds (linux_fine cfg) (open_fds s) s'" by auto
  show "\<exists>ret errno s'. sys_write (linux_posix cfg) fd v s = Some (ret, errno, s') \<and>
      leaves (other_fds jfd) (guarded cfg jfd) (other_fds jfd s) s'"
    using c leaves_guarded [OF g c(2), of "other_fds jfd s"] linux_rest_frame(4) [OF c(1)]
    by (auto simp: other_fds_def)
next
  fix s n fds tv
  assume g: "guarded cfg jfd s"
  from lx.select_files [OF guardedD(1) [OF g], of n fds tv] obtain ret e ready s' where
    c: "linux_select n fds tv s = Some (ret, e, ready, s')" "ready \<subseteq> fds"
    "leaves open_fds (linux_fine cfg) (open_fds s) s'" by auto
  show "\<exists>ret errno ready s'. sys_select (linux_posix cfg) n fds tv s = Some (ret, errno, ready, s') \<and>
      ready \<subseteq> fds \<and> leaves (other_fds jfd) (guarded cfg jfd) (other_fds jfd s) s'"
    using c leaves_guarded [OF g c(3), of "other_fds jfd s"] linux_rest_frame(5) [OF c(1)]
    by (auto simp: other_fds_def)
next
  fix s fd
  assume "guarded cfg jfd s" "fd \<in> other_fds jfd s"
  then show "0 \<le> fd \<and> fd < FD_SETSIZE" using lx.fds_small [OF guardedD(1)] by (auto simp: other_fds_def)
qed

subsection \<open>Steps\<close>

record process =
  p_linux :: linux
  p_regions :: "cuddl_memregion list"
  p_events :: "cuddl_eventsrc list"

inductive library_step :: "ucfg \<Rightarrow> kcfg \<Rightarrow> process \<Rightarrow> process \<Rightarrow> bool" for ucfg cfg where
  map_region: "cuddl_memregion_claim_and_map ucfg (linux_posix cfg) m0 g d r i copts mopts (p_linux p) = Some (0, m, s) \<Longrightarrow>
    library_step ucfg cfg p (p\<lparr>p_linux := s, p_regions := m # p_regions p\<rparr>)"
| map_fails: "cuddl_memregion_claim_and_map ucfg (linux_posix cfg) m0 g d r i copts mopts (p_linux p) = Some (ret, m, s) \<Longrightarrow>
    ret \<noteq> 0 \<Longrightarrow> library_step ucfg cfg p (p\<lparr>p_linux := s\<rparr>)"
| unmap_region: "m \<in> set (p_regions p) \<Longrightarrow>
    cuddl_memregion_unmap_and_release ucfg (linux_posix cfg) m (p_linux p) = Some (ret, s) \<Longrightarrow>
    library_step ucfg cfg p (p\<lparr>p_linux := s, p_regions := remove1 m (p_regions p)\<rparr>)"
| open_event: "cuddl_eventsrc_claim_and_open ucfg (linux_posix cfg) e0 g d r i copts oopts (p_linux p) = Some (0, e, s) \<Longrightarrow>
    library_step ucfg cfg p (p\<lparr>p_linux := s, p_events := e # p_events p\<rparr>)"
| open_fails: "cuddl_eventsrc_claim_and_open ucfg (linux_posix cfg) e0 g d r i copts oopts (p_linux p) = Some (ret, e, s) \<Longrightarrow>
    ret \<noteq> 0 \<Longrightarrow> library_step ucfg cfg p (p\<lparr>p_linux := s\<rparr>)"
| close_event: "e \<in> set (p_events p) \<Longrightarrow>
    cuddl_eventsrc_close_and_release ucfg (linux_posix cfg) e (p_linux p) = Some (ret, s) \<Longrightarrow>
    library_step ucfg cfg p (p\<lparr>p_linux := s, p_events := remove1 e (p_events p)\<rparr>)"
| wait_event: "e \<in> set (p_events p) \<Longrightarrow>
    cuddl_eventsrc_timed_wait (linux_posix cfg) e timeout (p_linux p) = Some (ret, s) \<Longrightarrow>
    library_step ucfg cfg p (p\<lparr>p_linux := s\<rparr>)"
| switch_event: "cuddl_eventsrc_enable (linux_posix cfg) e (p_linux p) = Some (ret, s) \<or>
      cuddl_eventsrc_disable (linux_posix cfg) e (p_linux p) = Some (ret, s) \<Longrightarrow>
    library_step ucfg cfg p (p\<lparr>p_linux := s\<rparr>)"
| ask_value: "manager_value_call (linux_posix cfg) cmd payload (p_linux p) = Some (ret, s) \<Longrightarrow>
    library_step ucfg cfg p (p\<lparr>p_linux := s\<rparr>)"
| ask_data: "manager_data_call (linux_posix cfg) cmd payload (p_linux p) = Some (ret, out, s) \<Longrightarrow>
    library_step ucfg cfg p (p\<lparr>p_linux := s\<rparr>)"
| others: "kernel_fine cfg k \<Longrightarrow> library_step ucfg cfg p (p\<lparr>p_linux := (p_linux p)\<lparr>kern := k\<rparr>\<rparr>)"

text \<open>
  The invariant: the descriptors that are open are the ones that were open at the start, one
  for every structure that the process holds, and the janitor's, which is registered.
\<close>

definition held_fds :: "process \<Rightarrow> c_int list" where
  "held_fds p = map um_priv_fd (p_regions p) @ map ue_priv_fd (p_events p)"

definition process_fine :: "kcfg \<Rightarrow> c_int \<Rightarrow> c_int set \<Rightarrow> process \<Rightarrow> bool" where
  "process_fine cfg jfd base p \<longleftrightarrow> guarded cfg jfd (p_linux p) \<and> distinct (held_fds p) \<and>
     base \<inter> set (held_fds p) = {} \<and> other_fds jfd (p_linux p) = base \<union> set (held_fds p)"

lemma fds_remove1:
  "m \<in> set l \<Longrightarrow> distinct (map f l) \<Longrightarrow>
    set (map f (remove1 m l)) = set (map f l) - {f m} \<and> distinct (map f (remove1 m l))"
  by (induction l) (auto simp: image_iff)

lemma guarded_others: "guarded cfg jfd s \<Longrightarrow> kernel_fine cfg k \<Longrightarrow> guarded cfg jfd (s\<lparr>kern := k\<rparr>)"
  by (simp add: guarded_def linux_fine_def)

lemma other_fds_kern [simp]: "other_fds jfd (s\<lparr>kern := k\<rparr>) = other_fds jfd s"
  by (simp add: other_fds_def open_fds_def)

lemma fine_same:
  "process_fine cfg jfd base p \<Longrightarrow> leaves (other_fds jfd) (guarded cfg jfd) (other_fds jfd (p_linux p)) s \<Longrightarrow>
    process_fine cfg jfd base (p\<lparr>p_linux := s\<rparr>)"
  by (simp add: process_fine_def leaves_def held_fds_def)

lemma fine_dropped:
  assumes "process_fine cfg jfd base p" "fd \<in> set (held_fds p)"
    and "leaves (other_fds jfd) (guarded cfg jfd) (other_fds jfd (p_linux p) - {fd}) (p_linux p')"
    and "distinct (held_fds p')" "set (held_fds p') = set (held_fds p) - {fd}"
  shows "process_fine cfg jfd base p'"
  using assms by (auto simp: process_fine_def leaves_def)

lemma held_remove1:
  assumes "distinct (held_fds p)"
  shows "m \<in> set (p_regions p) \<Longrightarrow> p' = p\<lparr>p_linux := s, p_regions := remove1 m (p_regions p)\<rparr> \<Longrightarrow>
      distinct (held_fds p') \<and> set (held_fds p') = set (held_fds p) - {um_priv_fd m}"
    and "e \<in> set (p_events p) \<Longrightarrow> p' = p\<lparr>p_linux := s, p_events := remove1 e (p_events p)\<rparr> \<Longrightarrow>
      distinct (held_fds p') \<and> set (held_fds p') = set (held_fds p) - {ue_priv_fd e}"
proof -
  let ?R = "um_priv_fd ` set (p_regions p)" and ?E = "ue_priv_fd ` set (p_events p)"
  from assms have d: "distinct (map um_priv_fd (p_regions p))" "distinct (map ue_priv_fd (p_events p))" "?R \<inter> ?E = {}"
    by (simp_all add: held_fds_def)
  show "distinct (held_fds p') \<and> set (held_fds p') = set (held_fds p) - {um_priv_fd m}"
    if m: "m \<in> set (p_regions p)" "p' = p\<lparr>p_linux := s, p_regions := remove1 m (p_regions p)\<rparr>"
  proof -
    from m(1) d(3) have "um_priv_fd m \<notin> ?E" by blast
    with fds_remove1 [OF m(1) d(1)] d(2,3) show ?thesis by (simp add: held_fds_def m(2)) blast
  qed
  show "distinct (held_fds p') \<and> set (held_fds p') = set (held_fds p) - {ue_priv_fd e}"
    if e: "e \<in> set (p_events p)" "p' = p\<lparr>p_linux := s, p_events := remove1 e (p_events p)\<rparr>"
  proof -
    from e(1) d(3) have "ue_priv_fd e \<notin> ?R" by blast
    with fds_remove1 [OF e(1) d(2)] d(1,3) show ?thesis by (simp add: held_fds_def e(2)) blast
  qed
qed

lemma map_outcome:
  assumes "process_fine cfg jfd base p"
    and "cuddl_memregion_claim_and_map ucfg (linux_posix cfg) m0 g d r i copts mopts (p_linux p) = Some (ret, m, s)"
  shows "if ret = 0 then um_priv_fd m \<notin> other_fds jfd (p_linux p) \<and>
       leaves (other_fds jfd) (guarded cfg jfd) (insert (um_priv_fd m) (other_fds jfd (p_linux p))) s
     else leaves (other_fds jfd) (guarded cfg jfd) (other_fds jfd (p_linux p)) s"
proof -
  from assms(1) have "guarded cfg jfd (p_linux p)" by (simp add: process_fine_def)
  then obtain ret' m' s' where
    "cuddl_memregion_claim_and_map ucfg (linux_posix cfg) m0 g d r i copts mopts (p_linux p) = Some (ret', m', s')"
    "if ret' = 0 then um_priv_fd m' \<notin> other_fds jfd (p_linux p) \<and>
       leaves (other_fds jfd) (guarded cfg jfd) (insert (um_priv_fd m') (other_fds jfd (p_linux p))) s'
     else m' = m0 \<and> leaves (other_fds jfd) (guarded cfg jfd) (other_fds jfd (p_linux p)) s'"
    by (rule lj.claim_and_map_total)
  with assms(2) show ?thesis by (simp split: if_splits)
qed

lemma open_outcome:
  assumes "process_fine cfg jfd base p"
    and "cuddl_eventsrc_claim_and_open ucfg (linux_posix cfg) e0 g d r i copts mopts (p_linux p) = Some (ret, e, s)"
  shows "if ret = 0 then ue_priv_fd e \<notin> other_fds jfd (p_linux p) \<and>
       leaves (other_fds jfd) (guarded cfg jfd) (insert (ue_priv_fd e) (other_fds jfd (p_linux p))) s
     else leaves (other_fds jfd) (guarded cfg jfd) (other_fds jfd (p_linux p)) s"
proof -
  from assms(1) have "guarded cfg jfd (p_linux p)" by (simp add: process_fine_def)
  then obtain ret' m' s' where
    "cuddl_eventsrc_claim_and_open ucfg (linux_posix cfg) e0 g d r i copts mopts (p_linux p) = Some (ret', m', s')"
    "if ret' = 0 then ue_priv_fd m' \<notin> other_fds jfd (p_linux p) \<and>
       leaves (other_fds jfd) (guarded cfg jfd) (insert (ue_priv_fd m') (other_fds jfd (p_linux p))) s'
     else m' = e0 \<and> leaves (other_fds jfd) (guarded cfg jfd) (other_fds jfd (p_linux p)) s'"
    by (rule lj.claim_and_open_total)
  with assms(2) show ?thesis by (simp split: if_splits)
qed

lemma fine_added:
  assumes "process_fine cfg jfd base p" "fd \<notin> other_fds jfd (p_linux p)"
    and "leaves (other_fds jfd) (guarded cfg jfd) (insert fd (other_fds jfd (p_linux p))) (p_linux p')"
    and "mset (held_fds p') = add_mset fd (mset (held_fds p))"
  shows "process_fine cfg jfd base p'"
proof -
  have h: "fd \<notin> set (held_fds p)" "fd \<notin> base" using assms(1,2) by (auto simp: process_fine_def)
  have "set (held_fds p') = insert fd (set (held_fds p))"
    using assms(4) by (metis set_mset_add_mset_insert set_mset_mset)
  moreover have "distinct (held_fds p')"
    using assms(1,4) h by (metis distinct.simps(2) mset.simps(2) mset_eq_imp_distinct_iff process_fine_def)
  ultimately show ?thesis using assms(1,3) h by (auto simp: process_fine_def leaves_def)
qed

lemma library_step_fine:
  assumes "library_step ucfg cfg p p'" "process_fine cfg jfd base p"
  shows "process_fine cfg jfd base p'"
  using assms
proof (induction rule: library_step.induct)
  case (map_region m0 g d r i copts mopts p m s)
  from map_outcome [OF map_region.prems map_region.hyps] show ?case
    by (intro fine_added [OF map_region.prems, of "um_priv_fd m"]) (simp_all add: held_fds_def)
next
  case (map_fails m0 g d r i copts mopts p ret m s)
  from map_outcome [OF map_fails.prems map_fails.hyps(1)] map_fails.hyps(2) show ?case
    by (intro fine_same [OF map_fails.prems]) simp
next
  case (unmap_region m p ret s)
  then have g: "guarded cfg jfd (p_linux p)" "um_priv_fd m \<in> other_fds jfd (p_linux p)"
    by (auto simp: process_fine_def held_fds_def)
  from lj.unmap_and_release_total [OF g, of ucfg] unmap_region.hyps(2)
  have "leaves (other_fds jfd) (guarded cfg jfd) (other_fds jfd (p_linux p) - {um_priv_fd m}) s" by auto
  with unmap_region held_remove1(1) [OF _ unmap_region.hyps(1) refl, of s] show ?case
    by (intro fine_dropped [OF unmap_region.prems, of "um_priv_fd m"]) (simp_all add: process_fine_def held_fds_def)
next
  case (open_event e0 g d r i copts oopts p e s)
  from open_outcome [OF open_event.prems open_event.hyps] show ?case
    by (intro fine_added [OF open_event.prems, of "ue_priv_fd e"]) (simp_all add: held_fds_def)
next
  case (open_fails e0 g d r i copts oopts p ret e s)
  from open_outcome [OF open_fails.prems open_fails.hyps(1)] open_fails.hyps(2) show ?case
    by (intro fine_same [OF open_fails.prems]) simp
next
  case (close_event e p ret s)
  then have g: "guarded cfg jfd (p_linux p)" "ue_priv_fd e \<in> other_fds jfd (p_linux p)"
    by (auto simp: process_fine_def held_fds_def)
  from lj.close_and_release_total [OF g, of ucfg] close_event.hyps(2)
  have "leaves (other_fds jfd) (guarded cfg jfd) (other_fds jfd (p_linux p) - {ue_priv_fd e}) s" by auto
  with close_event held_remove1(2) [OF _ close_event.hyps(1) refl, of s] show ?case
    by (intro fine_dropped [OF close_event.prems, of "ue_priv_fd e"]) (simp_all add: process_fine_def held_fds_def)
next
  case (wait_event e p timeout ret s)
  then have g: "guarded cfg jfd (p_linux p)" "ue_priv_fd e \<in> other_fds jfd (p_linux p)"
    by (auto simp: process_fine_def held_fds_def)
  from lj.try_wait_total [OF g, of timeout] wait_event.hyps(2)
  have "leaves (other_fds jfd) (guarded cfg jfd) (other_fds jfd (p_linux p)) s" by auto
  with wait_event.prems show ?case by (rule fine_same)
next
  case (switch_event e p ret s)
  then have g: "guarded cfg jfd (p_linux p)" by (simp add: process_fine_def)
  from lj.write_file [OF g, of "ue_priv_fd e" 1] lj.write_file [OF g, of "ue_priv_fd e" 0] switch_event.hyps
  have "leaves (other_fds jfd) (guarded cfg jfd) (other_fds jfd (p_linux p)) s"
    by (auto simp: cuddl_eventsrc_enable_def cuddl_eventsrc_disable_def)
  with switch_event.prems show ?case by (rule fine_same)
next
  case (ask_value cmd payload p ret s)
  then have g: "guarded cfg jfd (p_linux p)" by (simp add: process_fine_def)
  from lj.value_call_total [OF g, of cmd payload] ask_value.hyps
  have "leaves (other_fds jfd) (guarded cfg jfd) (other_fds jfd (p_linux p)) s" by auto
  with ask_value.prems show ?case by (rule fine_same)
next
  case (ask_data cmd payload p ret out s)
  then have g: "guarded cfg jfd (p_linux p)" by (simp add: process_fine_def)
  from lj.data_call_total [OF g, of cmd payload] ask_data.hyps
  have "leaves (other_fds jfd) (guarded cfg jfd) (other_fds jfd (p_linux p)) s" by auto
  with ask_data.prems show ?case by (rule fine_same)
next
  case (others k p)
  then show ?case by (simp add: process_fine_def held_fds_def guarded_others)
qed

lemma library_run_fine:
  "(library_step ucfg cfg)\<^sup>*\<^sup>* p p' \<Longrightarrow> process_fine cfg jfd base p \<Longrightarrow> process_fine cfg jfd base p'"
  by (induction rule: rtranclp_induct) (simp_all add: library_step_fine)

subsection \<open>Properties of runs\<close>

text \<open>C7: no run of the library loses or confuses a descriptor. After any sequence of calls, with any
  results and any interference of other processes, the open descriptors are those from before, one
  for every structure that the process still holds, all different, and the janitor's, which
  is still the registered one.\<close>

theorem runs_keep_descriptors:
  assumes "(library_step ucfg cfg)\<^sup>*\<^sup>* p p'" "process_fine cfg jfd base p"
  shows "open_fds (p_linux p') = insert jfd (base \<union> set (held_fds p')) \<and> distinct (held_fds p') \<and>
    base \<inter> set (held_fds p') = {} \<and> jfd \<notin> set (held_fds p') \<and> pid_registered (p_linux p') \<and> linux_fine cfg (p_linux p')"
proof -
  from library_run_fine [OF assms] have "process_fine cfg jfd base p'" .
  then have g: "guarded cfg jfd (p_linux p')" "distinct (held_fds p')" "base \<inter> set (held_fds p') = {}"
    "open_fds (p_linux p') - {jfd} = base \<union> set (held_fds p')" by (simp_all add: process_fine_def other_fds_def)
  with guardedD [OF g(1)] show ?thesis by auto
qed


lemma startup_process:
  assumes "linux_fine cfg s" "\<not> xeno ucfg" "lowest_fd (files s) < FD_SETSIZE"
    and "cuddl_startup ucfg (linux_posix cfg) real s = Some (jfd, s')" "0 \<le> jfd"
  shows "process_fine cfg jfd (open_fds s) \<lparr>p_linux = s', p_regions = [], p_events = []\<rparr>"
proof (rule startup_cases [OF assms(1-3), of real])
  fix e
  assume "0 < e" "cuddl_startup ucfg (linux_posix cfg) real s = Some (- e, tick s)"
  with assms(4,5) show ?thesis by simp
next
  fix ret j
  assume j: "cuddl_startup ucfg (linux_posix cfg) real s = Some (if ret < 0 then ret else lowest_fd (files s),
         advance 2 (s\<lparr>files := (lowest_fd (files s), Janitor_File j) # files s\<rparr>))"
      "linux_fine cfg (advance 2 (s\<lparr>files := (lowest_fd (files s), Janitor_File j) # files s\<rparr>))"
      "if ce_copy_in (ahead s 1) \<and> ce_kzalloc (ahead s 1) then ret = 0 \<and> private_data j = Live (my_pid s)
       else ret < 0 \<and> private_data j = Null"
  with assms(4,5) have "jfd = lowest_fd (files s)" "private_data j = Live (my_pid s)"
    "s' = advance 2 (s\<lparr>files := (lowest_fd (files s), Janitor_File j) # files s\<rparr>)" by (auto split: if_splits)
  with j(2) lowest_fd_free(2) [of "files s"] show ?thesis
    by (auto simp: process_fine_def guarded_def held_fds_def other_fds_def open_fds_def)
qed

text \<open>C6: every run ends cleanly. From a constructor that succeeded, through any sequence of calls
  of the library and of interference, to an end at any moment: closing the files of the process never goes
  wrong, and afterwards the kernel, still in a proper state, knows no reference of the process to any
  region or event source.\<close>

theorem every_run_ends_clean:
  assumes "linux_fine cfg s" "\<not> xeno ucfg" "lowest_fd (files s) < FD_SETSIZE"
    and "cuddl_startup ucfg (linux_posix cfg) real s = Some (jfd, s')" "0 \<le> jfd"
    and "(library_step ucfg cfg)\<^sup>*\<^sup>* \<lparr>p_linux = s', p_regions = [], p_events = []\<rparr> p"
  shows "\<exists>s2. process_exit (p_linux p) = Some s2 \<and> files s2 = [] \<and> kernel_fine cfg (kern s2) \<and>
    (\<forall>a b. my_pid (p_linux p) \<notin> set (mem_holders (kern s2) a b) \<and> my_pid (p_linux p) \<notin> set (event_holders (kern s2) a b))"
proof -
  from library_run_fine [OF assms(6) startup_process [OF assms(1-5)]]
  have g: "guarded cfg jfd (p_linux p)" by (simp add: process_fine_def)
  have f: "my_pid (p_linux p) \<in> freed_with (open_fds (p_linux p)) (files (p_linux p))"
    using guardedD(2) [OF g] by (force simp: pid_registered_def freed_with_def open_fds_def)
  obtain s2 where "process_exit (p_linux p) = Some s2" "linux_fine cfg s2" "files s2 = []"
    "mem_holders (kern s2) = (\<lambda>a b. filter (\<lambda>q. q \<notin> freed_with (open_fds (p_linux p)) (files (p_linux p)))
       (mem_holders (kern (p_linux p)) a b))"
    "event_holders (kern s2) = (\<lambda>a b. filter (\<lambda>q. q \<notin> freed_with (open_fds (p_linux p)) (files (p_linux p)))
       (event_holders (kern (p_linux p)) a b))"
    by (rule process_exit_outcome [OF guardedD(1) [OF g]])
  with f fineD(1) show ?thesis by auto
qed

subsection \<open>A sample run\<close>

abbreviation sample_ucfg :: ucfg where
  "sample_ucfg \<equiv> \<lparr>xeno = False, u_commit_hash = [], u_repo_is_dirty = False\<rparr>"

text \<open>Process 42 has started, and maps the sample region.\<close>

definition sample_started :: linux where
  "sample_started = advance 2 ((sample_linux (\<lambda>_. good_call) sample_state)
     \<lparr>files := [(0, Janitor_File \<lparr>private_data = Live 42, pid_allocs = 1\<rparr>)]\<rparr>)"

abbreviation sample_process :: process where
  "sample_process \<equiv> \<lparr>p_linux = sample_started, p_regions = [], p_events = []\<rparr>"

lemma sample_started_simps [simp]:
  "kern sample_started = sample_state" "my_pid sample_started = 42" "garbage_id sample_started = sample_stack_id"
  "files sample_started = [(0, Janitor_File \<lparr>private_data = Live 42, pid_allocs = 1\<rparr>)]"
  "ahead sample_started n = good_call" "now sample_started = good_call" "later sample_started n = good_call"
  by (simp_all add: sample_started_def)

lemma sample_startup:
  "cuddl_startup sample_ucfg (linux_posix sample_cfg) (linux_posix sample_cfg)
     (sample_linux (\<lambda>_. good_call) sample_state) = Some (0, sample_started)"
  using startup_run [of sample_ucfg "sample_linux (\<lambda>_. good_call) sample_state" 0
      "\<lparr>private_data = Live 42, pid_allocs = 1\<rparr>" sample_cfg]
  by (simp add: sample_started_def cuddlk_janitor_ioctl_def janitor_copied_def new_file_def good_call_def)

lemma sample_start_hyps:
  "linux_fine sample_cfg (sample_linux (\<lambda>_. good_call) sample_state)" "\<not> xeno sample_ucfg"
  "lowest_fd (files (sample_linux (\<lambda>_. good_call) sample_state)) < FD_SETSIZE"
  by (simp_all add: sample_linux_fine)

lemma sample_process_fine: "process_fine sample_cfg 0 {} sample_process"
  using startup_process [OF sample_start_hyps sample_startup] by simp

lemma sample_claim_and_map:
  obtains m s where
    "cuddl_memregion_claim_and_map sample_ucfg (linux_posix sample_cfg) sample_region
       (Some ''mfg'') (Some ''card'') (Some ''regs'') 1 0 0 sample_started = Some (0, m, s)"
    "mem_holders (kern s) 0 0 = [42]" "my_pid s = 42"
proof -
  let ?s = sample_started
  have h: "kernel_fine sample_cfg (kern ?s)" "refs_exact (kern ?s)" "lowest_fd (files ?s) < FD_SETSIZE"
    "ce_open (ahead ?s 0) = None" "served ?s 1"
    using sample_kernel_fine sample_state_exact sample_room
    by (simp_all add: served_def lowest_fd_def FD_SETSIZE_def)
  obtain ret md' k where c:
    "cuddl_memregion_claim sample_ucfg (linux_posix sample_cfg) (garbage_meminfo ?s) (Some ''mfg'') (Some ''card'') (Some ''regs'') 1 0 ?s =
       Some (if ret \<noteq> 0 then (ret, garbage_meminfo ?s, advance 3 (?s\<lparr>kern := k\<rparr>))
         else (close_error (ahead ?s 2), mc_info md', advance 3 (?s\<lparr>kern := k\<rparr>)))"
    and m: "mem_claim_meets (kern ?s) (mem_claim_request ?s (Some ''mfg'') (Some ''card'') (Some ''regs'') 1 0) ret
       (if ret = 0 then Some (Mem_Claim_Data md') else None) k"
    by (rule library_claim [OF h])
  from sample_populate m have r: "ret = 0" "mem_holders k 0 0 = [42]"
    by (elim mem_claim_meets_cases; force simp: mem_claim_request_def spec_claim_def sample_no_holders)+
  let ?s1 = "advance 3 (?s\<lparr>kern := k\<rparr>)"
  obtain mr s where map: "cuddl_memregion_map (linux_posix sample_cfg) sample_region (mc_info md') 0 ?s1 = Some (0, mr, s)"
    "kern s = k" "my_pid s = 42"
    by (auto simp: cuddl_memregion_map_def linux_open_def linux_mmap_def lowest_fd_def FD_SETSIZE_def
        tick_advance good_call_def)
  from c r(1) map(1) have "cuddl_memregion_claim_and_map sample_ucfg (linux_posix sample_cfg) sample_region
      (Some ''mfg'') (Some ''card'') (Some ''regs'') 1 0 0 ?s = Some (0, mr, s)"
    by (simp add: cuddl_memregion_claim_and_map_def close_error_def)
  with map(2,3) r(2) that [of mr s] show ?thesis by simp
qed

lemma sample_run:
  obtains m s where
    "(library_step sample_ucfg sample_cfg)\<^sup>*\<^sup>* sample_process \<lparr>p_linux = s, p_regions = [m], p_events = []\<rparr>"
    "mem_holders (kern s) 0 0 = [42]" "my_pid s = 42"
proof (rule sample_claim_and_map)
  fix m s
  assume h: "mem_holders (kern s) 0 0 = [42]" "my_pid s = 42"
    and "cuddl_memregion_claim_and_map sample_ucfg (linux_posix sample_cfg) sample_region
       (Some ''mfg'') (Some ''card'') (Some ''regs'') 1 0 0 sample_started = Some (0, m, s)"
  then have "library_step sample_ucfg sample_cfg sample_process (sample_process\<lparr>p_linux := s, p_regions := m # p_regions sample_process\<rparr>)"
    by (intro library_step.map_region) simp
  with h that [of s m] show thesis by (simp add: r_into_rtranclp)
qed

theorem runs_keep_descriptors_witness:
  "\<exists>(m :: cuddl_memregion) s. open_fds s = {0, um_priv_fd m} \<and> um_priv_fd m \<noteq> 0 \<and> pid_registered s \<and> mem_holders (kern s) 0 0 = [42]"
proof (rule sample_run)
  fix m s
  let ?p = "\<lparr>p_linux = s, p_regions = [m], p_events = []\<rparr>"
  assume run: "(library_step sample_ucfg sample_cfg)\<^sup>*\<^sup>* sample_process ?p"
    and h: "mem_holders (kern s) 0 0 = [42]"
  note inv = runs_keep_descriptors [OF run sample_process_fine]
  have held: "set (held_fds ?p) = {um_priv_fd m}" by (simp add: held_fds_def)
  from inv [THEN conjunct1] have "open_fds s = {0, um_priv_fd m}" by (simp add: held)
  moreover from inv [THEN conjunct2, THEN conjunct2, THEN conjunct2, THEN conjunct1] have "um_priv_fd m \<noteq> 0"
    by (simp add: held)
  moreover from inv [THEN conjunct2, THEN conjunct2, THEN conjunct2, THEN conjunct2, THEN conjunct1]
  have "pid_registered s" by simp
  ultimately show ?thesis using h by blast
qed


theorem every_run_ends_clean_witness:
  "\<exists>s s2. mem_holders (kern s) 0 0 = [42] \<and> process_exit s = Some s2 \<and> 42 \<notin> set (mem_holders (kern s2) 0 0)"
proof (rule sample_run)
  fix m s
  assume run: "(library_step sample_ucfg sample_cfg)\<^sup>*\<^sup>* sample_process \<lparr>p_linux = s, p_regions = [m], p_events = []\<rparr>"
    and h: "mem_holders (kern s) 0 0 = [42]" "my_pid s = 42"
  from every_run_ends_clean [OF sample_start_hyps sample_startup _ run] h show ?thesis by auto
qed

end
