(* ===== verification/Kernel_Runs.thy ===== *)
theory Kernel_Runs
  imports End_To_End
begin

section \<open>Runs of the kernel modules\<close>

text \<open>
  Drivers enter and remove devices, processes claim, release and end, in any order. The
  steps are the functions of the modules with every outcome; what is assumed of a caller
  is in the premises: a driver hands over a fresh structure and does not remove a device
  that is referenced, a process releases what it holds and does not claim hostilely.
\<close>

subsection \<open>Exclusive resources\<close>

definition mem_flags_at :: "kstate \<Rightarrow> c_int \<Rightarrow> c_int \<Rightarrow> c_int option" where
  "mem_flags_at st a b = do { p \<leftarrow> device_at st a; m \<leftarrow> get_memregion st p b; Some (mr_flags m) }"

definition event_flags_at :: "kstate \<Rightarrow> c_int \<Rightarrow> c_int \<Rightarrow> c_int option" where
  "event_flags_at st a b = do { p \<leftarrow> device_at st a; e \<leftarrow> get_eventsrc st p b; Some (ev_flags e) }"

text \<open>A resource that is not declared shared has at most one holder.\<close>

definition exclusive :: "c_int \<Rightarrow> (c_int \<Rightarrow> c_int \<Rightarrow> c_int option) \<Rightarrow> holders \<Rightarrow> bool" where
  "exclusive shared flags h \<longleftrightarrow>
     (\<forall>a b f. flags a b = Some f \<longrightarrow> \<not> has_flag f shared \<longrightarrow> length (h a b) \<le> 1)"

lemma exclusive_claim:
  assumes "exclusive shared flags h" "flags i j = Some f"
    and "spec_claim (has_flag f shared) False pid (h i j) = (ret, hs)"
  shows "exclusive shared flags (set_holders i j hs h)"
  using assms by (fastforce simp: exclusive_def spec_claim_def set_holders_def split: if_splits)

lemma exclusive_fewer:
  assumes "exclusive shared flags h" "\<And>a b. length (h' a b) \<le> length (h a b)"
  shows "exclusive shared flags h'"
  using assms order_trans unfolding exclusive_def by blast

lemma exclusive_release:
  "exclusive shared flags h \<Longrightarrow> exclusive shared flags (set_holders i j (remove1 pid (h i j)) h)"
  by (erule exclusive_fewer) (simp add: set_holders_def length_remove1)

lemma exclusive_enter:
  assumes "exclusive shared flags h" "\<And>a b. a \<noteq> i \<Longrightarrow> flags' a b = flags a b" "\<And>b. h i b = []"
  shows "exclusive shared flags' h"
  using assms unfolding exclusive_def by (metis le0 list.size(3))

lemma exclusive_clear:
  assumes "exclusive shared flags h" "\<And>a b. a \<noteq> i \<Longrightarrow> flags' a b = flags a b" "\<And>b. flags' i b = None"
  shows "exclusive shared flags' h"
  using assms unfolding exclusive_def by (metis option.distinct(1))

lemma arr_get_map: "arr_get (map f xs) i = map_option f (arr_get xs i)"
  by (auto simp: arr_get_def)

lemma flags_shape:
  assumes "k_shape st' = k_shape st"
  shows "mem_flags_at st' = mem_flags_at st" "event_flags_at st' = event_flags_at st"
proof -
  note at = k_shape_device_at [OF assms]
  have h: "map_option erase_counts (k_heap st' p) = map_option erase_counts (k_heap st p)" for p
    by (rule k_shape_heap [OF assms])
  have m: "map_option mr_flags (get_memregion s p b) =
      map_option (\<lambda>d. map_option mr_flags (arr_get (d_mem d) b)) (map_option erase_counts (k_heap s p)) \<bind> id" for s p b
    by (cases "k_heap s p")
      (simp_all add: get_memregion_def erase_counts_def arr_get_map option.map_comp comp_def)
  have e: "map_option ev_flags (get_eventsrc s p b) =
      map_option (\<lambda>d. map_option ev_flags (arr_get (d_events d) b)) (map_option erase_counts (k_heap s p)) \<bind> id" for s p b
    by (cases "k_heap s p")
      (simp_all add: get_eventsrc_def erase_counts_def arr_get_map option.map_comp comp_def)
  have "map_option mr_flags (get_memregion st' p b) = map_option mr_flags (get_memregion st p b)"
    "map_option ev_flags (get_eventsrc st' p b) = map_option ev_flags (get_eventsrc st p b)" for p b
    by (simp_all only: m e h)
  moreover have "mem_flags_at s a b = device_at s a \<bind> (\<lambda>p. map_option mr_flags (get_memregion s p b))"
    "event_flags_at s a b = device_at s a \<bind> (\<lambda>p. map_option ev_flags (get_eventsrc s p b))" for s a b
    by (simp_all add: mem_flags_at_def event_flags_at_def map_conv_bind_option comp_def)
  ultimately show "mem_flags_at st' = mem_flags_at st" "event_flags_at st' = event_flags_at st"
    by (simp_all add: at fun_eq_iff)
qed

lemma lookup_flags:
  assumes "manager_inv cfg st"
  shows "lookup_memregion st rid = Some (i, j, m) \<Longrightarrow> mem_flags_at st (int i) (int j) = Some (mr_flags m)"
    "lookup_eventsrc st rid = Some (i, j, e) \<Longrightarrow> event_flags_at st (int i) (int j) = Some (ev_flags e)"
proof -
  show "mem_flags_at st (int i) (int j) = Some (mr_flags m)" if "lookup_memregion st rid = Some (i, j, m)"
    using assms by (cases rule: with_memregion_cases [of cfg st rid]) (use that in \<open>auto simp: mem_flags_at_def\<close>)
  show "event_flags_at st (int i) (int j) = Some (ev_flags e)" if "lookup_eventsrc st rid = Some (i, j, e)"
    using assms by (cases rule: with_eventsrc_cases [of cfg st rid]) (use that in \<open>auto simp: event_flags_at_def\<close>)
qed

subsection \<open>Steps\<close>

inductive orderly_step :: "kcfg \<Rightarrow> kstate \<Rightarrow> kstate \<Rightarrow> bool" for cfg where
  prepare: "not_managed p st \<Longrightarrow> orderly_step cfg st (set_dev p d st)"
| manage: "not_managed p st \<Longrightarrow> k_heap st p = Some d \<Longrightarrow> fresh_device d \<Longrightarrow> resources_named cfg d \<Longrightarrow>
    cuddlk_device_manage cfg env p st = Some (ret, st') \<Longrightarrow> orderly_step cfg st st'"
| remove: "\<not> not_managed p st \<Longrightarrow> unreferenced p st \<Longrightarrow>
    cuddlk_device_release cfg env p st = Some (ret, st') \<Longrightarrow> orderly_step cfg st st'"
| claim_mem: "all_succeed io \<Longrightarrow> refs_room st \<Longrightarrow> cfu_mem_claim io = Some md \<Longrightarrow>
    version_code_is_compat (mc_version_code md) \<Longrightarrow> \<not> has_flag (mc_options md) CUDDL_MEM_CLAIMF_HOSTILE \<Longrightarrow>
    cmd = CUDDLCI_MEMREGION_CLAIM_UIO_IOCTL \<or> cmd = CUDDLCI_MEMREGION_CLAIM_UDD_IOCTL \<Longrightarrow>
    cuddlk_manager_ioctl cfg io cmd st = Some (ret, out, st') \<Longrightarrow> orderly_step cfg st st'"
| claim_event: "all_succeed io \<Longrightarrow> refs_room st \<Longrightarrow> cfu_event_claim io = Some ed \<Longrightarrow>
    version_code_is_compat (ec_version_code ed) \<Longrightarrow> \<not> has_flag (ec_options ed) CUDDL_EVENTSRC_CLAIMF_HOSTILE \<Longrightarrow>
    cmd = CUDDLCI_EVENTSRC_CLAIM_UIO_IOCTL \<or> cmd = CUDDLCI_EVENTSRC_CLAIM_UDD_IOCTL \<Longrightarrow>
    cuddlk_manager_ioctl cfg io cmd st = Some (ret, out, st') \<Longrightarrow> orderly_step cfg st st'"
| release_mem: "\<forall>n < 10. kz_ok io n \<Longrightarrow> refs_room st \<Longrightarrow> cfu_mem_release io = Some mr \<Longrightarrow>
    version_code_is_compat (mrel_version_code mr) \<Longrightarrow>
    mrel_token mr = \<lparr>device_index = a, resource_index = b\<rparr> \<Longrightarrow> mrel_pid mr \<in> set (mem_holders st a b) \<Longrightarrow>
    cmd = CUDDLCI_MEMREGION_RELEASE_UIO_IOCTL \<or> cmd = CUDDLCI_MEMREGION_RELEASE_UDD_IOCTL \<Longrightarrow>
    cuddlk_manager_ioctl cfg io cmd st = Some (ret, out, st') \<Longrightarrow> orderly_step cfg st st'"
| release_event: "\<forall>n < 10. kz_ok io n \<Longrightarrow> refs_room st \<Longrightarrow> cfu_event_release io = Some er \<Longrightarrow>
    version_code_is_compat (erel_version_code er) \<Longrightarrow>
    erel_token er = \<lparr>device_index = a, resource_index = b\<rparr> \<Longrightarrow> erel_pid er \<in> set (event_holders st a b) \<Longrightarrow>
    cmd = CUDDLCI_EVENTSRC_RELEASE_UIO_IOCTL \<or> cmd = CUDDLCI_EVENTSRC_RELEASE_UDD_IOCTL \<Longrightarrow>
    cuddlk_manager_ioctl cfg io cmd st = Some (ret, out, st') \<Longrightarrow> orderly_step cfg st st'"
| janitor: "private_data file \<noteq> Freed \<Longrightarrow>
    cuddlk_janitor_release file st = Some (ret, file', st') \<Longrightarrow> orderly_step cfg st st'"

definition orderly :: "kcfg \<Rightarrow> kstate \<Rightarrow> bool" where
  "orderly cfg st \<longleftrightarrow> kernel_fine cfg st \<and> refs_exact st \<and>
     exclusive CUDDLK_MEMF_SHARED (mem_flags_at st) (mem_holders st) \<and>
     exclusive CUDDLK_EVENTSRCF_SHARED (event_flags_at st) (event_holders st)"

lemma orderlyD:
  assumes "orderly cfg st"
  shows "kernel_fine cfg st" "refs_exact st" "exclusive CUDDLK_MEMF_SHARED (mem_flags_at st) (mem_holders st)"
    "exclusive CUDDLK_EVENTSRCF_SHARED (event_flags_at st) (event_holders st)"
  using assms by (simp_all add: orderly_def)

text \<open>Requests do not change the devices.\<close>

lemma orderly_request:
  assumes o: "orderly cfg st" and room: "refs_room st"
    and io: "cuddlk_manager_ioctl cfg io cmd st = Some (ret, out, st')" and "refs_exact st'"
    and "exclusive CUDDLK_MEMF_SHARED (mem_flags_at st) (mem_holders st')"
    and "exclusive CUDDLK_EVENTSRCF_SHARED (event_flags_at st) (event_holders st')"
  shows "orderly cfg st'"
proof -
  note k = kernel_fineD [OF orderlyD(1) [OF o]]
  obtain ret' out' st1 where "cuddlk_manager_ioctl cfg io cmd st = Some (ret', out', st1)"
    "manager_inv cfg st1" "k_shape st1 = k_shape st"
    by (rule manager_ioctl_keeps [OF k])
  with io have s: "manager_inv cfg st'" "k_shape st' = k_shape st" by simp_all
  have "list_room io \<le> 1" by (simp add: list_room_def)
  with manager_ioctl_frame(1,2) [OF io] room have "refs_few st'" by (auto simp: refs_few_def refs_room_def)
  moreover have "\<not> k_locked st'" using k_shape_table [OF s(2)] k(4) by simp
  moreover have "all_named cfg st'" by (rule all_named_shape [OF s(2) k(3)])
  ultimately show ?thesis using s(1) assms(4-6) by (simp add: orderly_def kernel_fine_def flags_shape [OF s(2)])
qed

lemma orderly_claim_mem:
  assumes o: "orderly cfg st" and io: "all_succeed io" "refs_room st" "cfu_mem_claim io = Some md"
      "version_code_is_compat (mc_version_code md)" "\<not> has_flag (mc_options md) CUDDL_MEM_CLAIMF_HOSTILE"
      "cmd = CUDDLCI_MEMREGION_CLAIM_UIO_IOCTL \<or> cmd = CUDDLCI_MEMREGION_CLAIM_UDD_IOCTL"
    and run: "cuddlk_manager_ioctl cfg io cmd st = Some (ret, out, st')"
  shows "orderly cfg st'"
proof -
  note k = kernel_fineD [OF orderlyD(1) [OF o]]
  from mem_claim_ioctl [OF k(1,2) orderlyD(2) [OF o] k(4) io(1,3,4,6)] run
  have c: "mem_claim_meets st md ret out st'" "refs_exact st'" "event_holders st' = event_holders st" by auto
  have "exclusive CUDDLK_MEMF_SHARED (mem_flags_at st) (mem_holders st')"
  proof (cases "lookup_memregion st (mc_id md)")
    case None
    with c(1) orderlyD(3) [OF o] show ?thesis by (simp add: mem_claim_meets_def)
  next
    case (Some x)
    then obtain i j m where lk: "lookup_memregion st (mc_id md) = Some (i, j, m)" by (cases x) auto
    obtain r hs where sp: "spec_claim (has_flag (mr_flags m) CUDDLK_MEMF_SHARED) False (mc_pid md)
        (mem_holders st (int i) (int j)) = (r, hs)" by fastforce
    with c(1) lk io(5) have "mem_holders st' = set_holders (int i) (int j) hs (mem_holders st)"
      by (simp add: mem_claim_meets_def)
    with exclusive_claim [OF orderlyD(3) [OF o] lookup_flags(1) [OF k(1) lk] sp] show ?thesis by simp
  qed
  with orderly_request [OF o io(2) run c(2)] orderlyD(4) [OF o] c(3) show ?thesis by simp
qed

lemma orderly_claim_event:
  assumes o: "orderly cfg st" and io: "all_succeed io" "refs_room st" "cfu_event_claim io = Some ed"
      "version_code_is_compat (ec_version_code ed)" "\<not> has_flag (ec_options ed) CUDDL_EVENTSRC_CLAIMF_HOSTILE"
      "cmd = CUDDLCI_EVENTSRC_CLAIM_UIO_IOCTL \<or> cmd = CUDDLCI_EVENTSRC_CLAIM_UDD_IOCTL"
    and run: "cuddlk_manager_ioctl cfg io cmd st = Some (ret, out, st')"
  shows "orderly cfg st'"
proof -
  note k = kernel_fineD [OF orderlyD(1) [OF o]]
  from event_claim_ioctl [OF k(1,2) orderlyD(2) [OF o] k(4) io(1,3,4,6)] run
  have c: "event_claim_meets st ed ret out st'" "refs_exact st'" "mem_holders st' = mem_holders st" by auto
  have "exclusive CUDDLK_EVENTSRCF_SHARED (event_flags_at st) (event_holders st')"
  proof (cases "lookup_eventsrc st (ec_id ed)")
    case None
    with c(1) orderlyD(4) [OF o] show ?thesis by (simp add: event_claim_meets_def)
  next
    case (Some x)
    then obtain i j e where lk: "lookup_eventsrc st (ec_id ed) = Some (i, j, e)" by (cases x) auto
    obtain r hs where sp: "spec_claim (has_flag (ev_flags e) CUDDLK_EVENTSRCF_SHARED) False (ec_pid ed)
        (event_holders st (int i) (int j)) = (r, hs)" by fastforce
    with c(1) lk io(5) have "event_holders st' = set_holders (int i) (int j) hs (event_holders st)"
      by (simp add: event_claim_meets_def)
    with exclusive_claim [OF orderlyD(4) [OF o] lookup_flags(2) [OF k(1) lk] sp] show ?thesis by simp
  qed
  with orderly_request [OF o io(2) run c(2)] orderlyD(3) [OF o] c(3) show ?thesis by simp
qed

lemma orderly_janitor:
  assumes o: "orderly cfg st" and j: "private_data file \<noteq> Freed" "cuddlk_janitor_release file st = Some (ret, file', st')"
  shows "orderly cfg st'"
proof (cases "private_data file")
  case Null
  with j(2) o show ?thesis by (simp add: cuddlk_janitor_release_def)
next
  case (Live pid)
  note k = kernel_fineD [OF orderlyD(1) [OF o]]
  obtain s where s: "cuddlk_manager_free_refs_for_pid pid st = Some s" "manager_inv cfg s" "k_shape s = k_shape st"
    "cuddlk_mem_refs s = filter (\<lambda>x. ref_pid x \<noteq> pid) (cuddlk_mem_refs st)"
    "cuddlk_event_refs s = filter (\<lambda>x. ref_pid x \<noteq> pid) (cuddlk_event_refs st)" "refs_exact st \<Longrightarrow> refs_exact s"
    using manager_free_refs_outcome [OF k(1,2,4), of pid] by blast
  with j Live have st': "st' = s" by (auto simp: cuddlk_janitor_release_def)
  have "refs_few s" using k(2) by (auto simp: refs_few_def s(4,5) intro: le_less_trans [OF length_filter_le])
  moreover have "exclusive CUDDLK_MEMF_SHARED (mem_flags_at st) (mem_holders s)"
    "exclusive CUDDLK_EVENTSRCF_SHARED (event_flags_at st) (event_holders s)"
    by (rule exclusive_fewer [OF orderlyD(3) [OF o]] exclusive_fewer [OF orderlyD(4) [OF o]];
        simp add: mem_holders_def event_holders_def s(4,5) holders_of_free)+
  ultimately show ?thesis
    using s(2,6) orderlyD(2) [OF o] k_shape_table [OF s(3)] k(4) all_named_shape [OF s(3) k(3)]
    by (simp add: st' orderly_def kernel_fine_def flags_shape [OF s(3)])
qed (use j(1) in simp)

text \<open>A change of one device that touches no reference: outside the table, entering it, leaving it.\<close>

lemma flags_other:
  assumes "but_for p st' st" "device_at st' a = device_at st a" "device_at st a \<noteq> Some p"
  shows "mem_flags_at st' a b = mem_flags_at st a b" "event_flags_at st' a b = event_flags_at st a b"
  using assms get_but_for(2,3) [OF assms(1)]
  by (cases "device_at st a"; auto simp: mem_flags_at_def event_flags_at_def)+

lemma holders_but_for: "but_for p st' st \<Longrightarrow> mem_holders st' = mem_holders st \<and> event_holders st' = event_holders st"
  by (simp add: but_for_def mem_holders_def event_holders_def)

lemma exact_but_for:
  assumes "refs_exact st" "but_for p st' st"
    and "\<And>i q. device_at st' i = Some q \<Longrightarrow> q \<noteq> p \<Longrightarrow> device_at st i = Some q"
    and "\<And>i j c. device_at st' i = Some p \<Longrightarrow> memregion_count st' p j = Some c \<Longrightarrow>
      c = int (count_where (tok_at i j) (cuddlk_mem_refs st))"
    and "\<And>i j c. device_at st' i = Some p \<Longrightarrow> eventsrc_count st' p j = Some c \<Longrightarrow>
      c = int (count_where (tok_at i j) (cuddlk_event_refs st))"
  shows "refs_exact st'"
proof -
  have refs: "cuddlk_mem_refs st' = cuddlk_mem_refs st" "cuddlk_event_refs st' = cuddlk_event_refs st"
    using assms(2) by (simp_all add: but_for_def)
  have x: "counts_exact memregion_count cuddlk_mem_refs st" "counts_exact eventsrc_count cuddlk_event_refs st"
    using assms(1) by (simp_all add: refs_exact_def)
  have "c = int (count_where (tok_at i j) (cuddlk_mem_refs st'))"
    if q: "device_at st' i = Some q" "memregion_count st' q j = Some c" for i q j c
  proof (cases "q = p")
    case True
    with q assms(4) show ?thesis by (simp add: refs)
  next
    case False
    with counts_exactD [OF x(1) assms(3) [OF q(1) False], of j c] q(2) get_but_for(4) [OF assms(2) False]
    show ?thesis by (simp add: refs)
  qed
  moreover have "c = int (count_where (tok_at i j) (cuddlk_event_refs st'))"
    if q: "device_at st' i = Some q" "eventsrc_count st' q j = Some c" for i q j c
  proof (cases "q = p")
    case True
    with q assms(5) show ?thesis by (simp add: refs)
  next
    case False
    with counts_exactD [OF x(2) assms(3) [OF q(1) False], of j c] q(2) get_but_for(5) [OF assms(2) False]
    show ?thesis by (simp add: refs)
  qed
  ultimately show ?thesis unfolding refs_exact_def counts_exact_def by blast
qed

lemma named_but_for:
  assumes "all_named cfg st" "but_for p st' st"
    and "\<And>i q. device_at st' i = Some q \<Longrightarrow> q \<noteq> p \<Longrightarrow> device_at st i = Some q"
    and "\<And>i d. device_at st' i = Some p \<Longrightarrow> k_heap st' p = Some d \<Longrightarrow> resources_named cfg d"
  shows "all_named cfg st'"
  unfolding all_named_def
proof (intro allI impI)
  fix i q d
  assume q: "device_at st' i = Some q" "k_heap st' q = Some d"
  show "resources_named cfg d"
  proof (cases "q = p")
    case True
    with q assms(4) show ?thesis by blast
  next
    case False
    with q assms(1,3) get_but_for(1) [OF assms(2) False] show ?thesis unfolding all_named_def by metis
  qed
qed

lemma orderly_outside:
  assumes o: "orderly cfg st" and p: "not_managed p st" "but_for p st' st" "k_table st' = k_table st" "\<not> k_locked st'"
  shows "orderly cfg st'"
proof -
  note k = kernel_fineD [OF orderlyD(1) [OF o]]
  have at: "device_at st' = device_at st" using p(3) by (simp add: device_at_def fun_eq_iff)
  note nm = not_managed_at [OF p(1)]
  have "mem_flags_at st' = mem_flags_at st" "event_flags_at st' = event_flags_at st"
    using flags_other [OF p(2)] nm by (simp_all add: at fun_eq_iff)
  moreover have "refs_exact st'" by (rule exact_but_for [OF orderlyD(2) [OF o] p(2)]) (simp_all add: at nm)
  moreover have "all_named cfg st'" by (rule named_but_for [OF k(3) p(2)]) (simp_all add: at nm)
  moreover have "refs_few st'" using k(2) p(2) by (simp add: refs_few_def but_for_def)
  ultimately show ?thesis
    using manager_inv_same_table [OF k(1) p(1-3)] p(4) o holders_but_for [OF p(2)]
    by (simp add: orderly_def kernel_fine_def)
qed

lemma orderly_enter:
  assumes o: "orderly cfg st" and p: "not_managed p st" "but_for p st' st" "\<not> k_locked st'"
    and i: "i < CUDDLK_MAX_MANAGED_DEVICES" "k_table st ! i = None" "k_table st' = (k_table st)[i := Some p]"
    and d: "k_heap st' p = Some d'" "registered cfg p d'" "fresh_device d" "same_identity d' d" "resources_named cfg d"
  shows "orderly cfg st'"
proof -
  note k = kernel_fineD [OF orderlyD(1) [OF o]]
  note ok = manager_invD [OF k(1)]
  note at = device_at_update [OF ok(1) i(1,3)]
  note nm = not_managed_at [OF p(1)]
  have free: "device_at st (int i) = None" using device_at_nth [OF ok(1) i(1)] i(2) by simp
  have here: "a = int i" if "device_at st' a = Some p" for a using that nm by (auto simp: at split: if_splits)
  have "count_where (tok_at (int i) b) (cuddlk_mem_refs st) = 0 \<and> count_where (tok_at (int i) b) (cuddlk_event_refs st) = 0" for b
    using ok(4) free unfolding refs_ok_def refs_placed_def
    by (fastforce simp: count_where_def tok_at_def filter_empty_conv)
  note none = this
  then have h: "mem_holders st (int i) b = []" "event_holders st (int i) b = []" for b
    unfolding mem_holders_def event_holders_def
    by (simp_all add: length_0_conv [symmetric] length_holders_of del: length_0_conv)
  have other: "device_at st a = Some q" if "device_at st' a = Some q" "q \<noteq> p" for a q
    using that by (auto simp: at split: if_splits)
  have zero: "c = int (count_where (tok_at a b) (cuddlk_mem_refs st))"
    if "device_at st' a = Some p" "memregion_count st' p b = Some c" for a b c
    using zero_counts(1) [OF d(3,4,1) that(2)] here [OF that(1)] none by simp
  have zero_event: "c = int (count_where (tok_at a b) (cuddlk_event_refs st))"
    if "device_at st' a = Some p" "eventsrc_count st' p b = Some c" for a b c
    using zero_counts(2) [OF d(3,4,1) that(2)] here [OF that(1)] none by simp
  have "refs_exact st'"
    by (rule exact_but_for [OF orderlyD(2) [OF o] p(2) other zero zero_event])
  moreover have "all_named cfg st'"
    by (rule named_but_for [OF k(3) p(2)])
      (use d(1,5) resources_named_identity [OF d(4)] in \<open>auto simp: at split: if_splits\<close>)
  moreover have "refs_few st'" using k(2) p(2) by (simp add: refs_few_def but_for_def)
  moreover have "exclusive CUDDLK_MEMF_SHARED (mem_flags_at st') (mem_holders st)"
    "exclusive CUDDLK_EVENTSRCF_SHARED (event_flags_at st') (event_holders st)"
    using exclusive_enter [OF orderlyD(3) [OF o], of "int i" "mem_flags_at st'"]
      exclusive_enter [OF orderlyD(4) [OF o], of "int i" "event_flags_at st'"] h flags_other [OF p(2)] nm
    by (simp_all add: at)
  ultimately show ?thesis
    using manager_inv_enter [OF k(1) p(1,2) i d(1-4)] p(3) holders_but_for [OF p(2)]
    by (simp add: orderly_def kernel_fine_def)
qed

lemma orderly_clear:
  assumes o: "orderly cfg st" and p: "but_for p st' st" "\<not> k_locked st'" "unreferenced p st"
    and i: "i < CUDDLK_MAX_MANAGED_DEVICES" "k_table st ! i = Some p" "k_table st' = (k_table st)[i := None]"
  shows "orderly cfg st'"
proof -
  note k = kernel_fineD [OF orderlyD(1) [OF o]]
  note ok = manager_invD [OF k(1)]
  note at = device_at_update [OF ok(1) i(1,3)]
  have here: "device_at st (int i) = Some p" using device_at_nth [OF ok(1) i(1)] i(2) by simp
  have only: "a = int i" if "device_at st a = Some p" for a using device_at_inj [OF ok(2) that here] .
  have gone: "device_at st' a \<noteq> Some p" for a using only by (auto simp: at)
  have "refs_exact st'"
    by (rule exact_but_for [OF orderlyD(2) [OF o] p(1)]) (use gone in \<open>auto simp: at split: if_splits\<close>)
  moreover have "all_named cfg st'"
    by (rule named_but_for [OF k(3) p(1)]) (use gone in \<open>auto simp: at split: if_splits\<close>)
  moreover have "refs_few st'" using k(2) p(1) by (simp add: refs_few_def but_for_def)
  moreover have "mem_flags_at st' (int i) b = None" "event_flags_at st' (int i) b = None" for b
    by (simp_all add: mem_flags_at_def event_flags_at_def at)
  then have "exclusive CUDDLK_MEMF_SHARED (mem_flags_at st') (mem_holders st)"
    "exclusive CUDDLK_EVENTSRCF_SHARED (event_flags_at st') (event_holders st)"
    using exclusive_clear [OF orderlyD(3) [OF o], of "int i" "mem_flags_at st'"]
      exclusive_clear [OF orderlyD(4) [OF o], of "int i" "event_flags_at st'"] flags_other [OF p(1)] only
    by (metis at)+
  ultimately show ?thesis
    using manager_inv_clear [OF k(1) p(1) i p(3)] p(2) holders_but_for [OF p(1)]
    by (simp add: orderly_def kernel_fine_def)
qed

lemma orderly_manage:
  assumes o: "orderly cfg st" and p: "not_managed p st" "k_heap st p = Some d" "fresh_device d" "resources_named cfg d"
    and run: "cuddlk_device_manage cfg env p st = Some (ret, st')"
  shows "orderly cfg st'"
proof -
  note k = kernel_fineD [OF orderlyD(1) [OF o]]
  have d: "arrays_ok d" "holds_nothing d" using p(3) by (simp_all add: fresh_device_def)
  obtain ret' s d' where m: "cuddlk_device_manage cfg env p st = Some (ret', s)"
    "\<not> k_locked s" "but_for p s st" "k_heap s p = Some d'"
    and bad: "ret' \<noteq> 0 \<Longrightarrow> k_table s = k_table st"
    and good: "ret' = 0 \<Longrightarrow> registered cfg p d' \<and> same_identity d' (d\<lparr>d_instance := instance_given st d\<rparr>) \<and>
       (\<exists>i < CUDDLK_MAX_MANAGED_DEVICES. k_table st ! i = None \<and> (\<forall>j < i. k_table st ! j \<noteq> None) \<and>
          k_table s = (k_table st)[i := Some p])"
    using manage_outcome [OF manager_inv_table_ok [OF k(1)] k(4) p(1,2) d, of cfg env] by metis
  have st': "s = st'" "ret' = ret" using run m(1) by simp_all
  show ?thesis
  proof (cases "ret' = 0")
    case True
    have "fresh_device (d\<lparr>d_instance := instance_given st d\<rparr>)" "resources_named cfg (d\<lparr>d_instance := instance_given st d\<rparr>)"
      using p(3,4) by (simp_all add: fresh_device_def arrays_ok_def holds_nothing_def resources_named_def)
    with good [OF True] show ?thesis
      using orderly_enter [OF o p(1) m(3,2) _ _ _ m(4)] st'(1) by blast
  next
    case False
    from orderly_outside [OF o p(1) m(3) bad [OF False] m(2)] show ?thesis by (simp add: st'(1))
  qed
qed

lemma orderly_remove:
  assumes o: "orderly cfg st" and p: "\<not> not_managed p st" "unreferenced p st"
    and run: "cuddlk_device_release cfg env p st = Some (ret, st')"
  shows "orderly cfg st'"
proof -
  note k = kernel_fineD [OF orderlyD(1) [OF o]]
  note ok = manager_invD [OF k(1)]
  from p(1) obtain n where n: "n < length (k_table st)" "k_table st ! n = Some p"
    by (auto simp: not_managed_def in_set_conv_nth)
  with ok(1) have "device_at st (int n) = Some p" by (simp add: device_at_nth table_len_def)
  with devices_registeredD [OF ok(3)] obtain d where d: "k_heap st p = Some d" "registered cfg p d" by blast
  obtain i s where r: "cuddlk_device_release cfg env p st = Some (if use_udd cfg then udd_unregister_ret env else 0, s)"
    "\<not> k_locked s" "but_for p s st"
    "i < CUDDLK_MAX_MANAGED_DEVICES" "k_table st ! i = Some p" "k_table s = (k_table st)[i := None]"
    using release_outcome [OF ok(1) k(4) d p(1), of env] by metis
  with run orderly_clear [OF o r(3,2) p(2) r(4-6)] show ?thesis by simp
qed

lemma orderly_step_keeps: "orderly_step cfg st st' \<Longrightarrow> orderly cfg st \<Longrightarrow> orderly cfg st'"
proof (induction rule: orderly_step.induct)
  case (prepare p st d)
  then show ?case using kernel_fineD(4) [OF orderlyD(1)] by (intro orderly_outside [OF prepare.prems prepare.hyps]) simp_all
next
  case (manage p st d env ret st')
  from orderly_manage [OF manage.prems manage.hyps] show ?case .
next
  case (remove p st env ret st')
  from orderly_remove [OF remove.prems remove.hyps] show ?case .
next
  case (claim_mem io st md cmd ret out st')
  from orderly_claim_mem [OF claim_mem.prems claim_mem.hyps] show ?case .
next
  case (claim_event io st ed cmd ret out st')
  from orderly_claim_event [OF claim_event.prems claim_event.hyps] show ?case .
next
  case (release_mem io st mr a b cmd ret out st')
  note o = release_mem.prems and k = kernel_fineD [OF orderlyD(1) [OF release_mem.prems]]
  from mem_release_ioctl [OF k(1,2) orderlyD(2) [OF o] k(4) release_mem.hyps(1,3,4,7,5,6)] release_mem.hyps(8)
  have r: "mem_holders st' = set_holders a b (remove1 (mrel_pid mr) (mem_holders st a b)) (mem_holders st)"
    "refs_exact st'" "event_holders st' = event_holders st" by auto
  with orderly_request [OF o release_mem.hyps(2,8) r(2)] exclusive_release [OF orderlyD(3) [OF o]] orderlyD(4) [OF o]
  show ?case by simp
next
  case (release_event io st er a b cmd ret out st')
  note o = release_event.prems and k = kernel_fineD [OF orderlyD(1) [OF release_event.prems]]
  from eventsrc_release_refines [OF k(1,2) orderlyD(2) [OF o] k(4) release_event.hyps(1,3,4,7,5,6)] release_event.hyps(8)
  have r: "event_holders st' = set_holders a b (remove1 (erel_pid er) (event_holders st a b)) (event_holders st)"
    "refs_exact st'" "mem_holders st' = mem_holders st" by auto
  with orderly_request [OF o release_event.hyps(2,8) r(2)] exclusive_release [OF orderlyD(4) [OF o]] orderlyD(3) [OF o]
  show ?case by simp
next
  case (janitor jf st ret jf' st')
  from orderly_janitor [OF janitor.prems janitor.hyps] show ?case .
qed

lemma orderly_empty: "orderly cfg (empty_kstate heap)"
  by (simp add: orderly_def kernel_fine_def manager_inv_empty all_named_def refs_few_def refs_exact_def
      counts_exact_def exclusive_def mem_flags_at_def event_flags_at_def)

lemma orderly_run: "(orderly_step cfg)\<^sup>*\<^sup>* st st' \<Longrightarrow> orderly cfg st \<Longrightarrow> orderly cfg st'"
  by (induction rule: rtranclp_induct) (simp_all add: orderly_step_keeps)

subsection \<open>Properties of runs\<close>

text \<open>C2: mutual exclusion. In every state that the modules reach from an empty table, by any
  sequence of devices entered and removed, claims that are not hostile, releases of what is
  held and ends of processes, a memory region or an event source that its driver did not
  declare shared has at most one holder.\<close>

theorem unshared_has_one_holder:
  assumes "(orderly_step cfg)\<^sup>*\<^sup>* (empty_kstate heap) st"
  shows "(mem_flags_at st a b = Some f \<and> \<not> has_flag f CUDDLK_MEMF_SHARED \<longrightarrow> length (mem_holders st a b) \<le> 1) \<and>
    (event_flags_at st a b = Some g \<and> \<not> has_flag g CUDDLK_EVENTSRCF_SHARED \<longrightarrow> length (event_holders st a b) \<le> 1)"
  using orderlyD(3,4) [OF orderly_run [OF assms orderly_empty]] by (auto simp: exclusive_def)

text \<open>C11: the invariant of the kernel over whole runs: in every state that the modules reach in
  this way the mutex is free, every managed device is registered and named, no device
  sits in two slots, every recorded reference leads to a managed resource, and the reference
  count of every resource is the number of its holders.\<close>

theorem reachable_kernel_sound:
  assumes "(orderly_step cfg)\<^sup>*\<^sup>* (empty_kstate heap) st"
  shows "\<not> k_locked st \<and> manager_inv cfg st \<and> all_named cfg st \<and>
    (\<forall>a p b m. device_at st a = Some p \<and> get_memregion st p b = Some m \<longrightarrow>
       mr_ref_count m = int (length (mem_holders st a b))) \<and>
    (\<forall>a p b e. device_at st a = Some p \<and> get_eventsrc st p b = Some e \<longrightarrow>
       ev_ref_count e = int (length (event_holders st a b)))"
proof -
  note o = orderly_run [OF assms orderly_empty]
  from orderlyD(2) [OF o] have x: "counts_exact memregion_count cuddlk_mem_refs st"
    "counts_exact eventsrc_count cuddlk_event_refs st" by (simp_all add: refs_exact_def)
  show ?thesis
    using kernel_fineD [OF orderlyD(1) [OF o]] mem.exact_count [OF x(1)] ev.exact_count [OF x(2)]
    by (simp add: mem_holders_def event_holders_def)
qed

text \<open>The sample run: the sample device is managed, process 42 claims its region.\<close>

lemma sample_orderly_run: "(orderly_step sample_cfg)\<^sup>*\<^sup>* (empty_kstate sample_heap) held_state"
proof -
  have "resources_named sample_cfg sample_device"
    by (simp add: resources_named_def sample_device_def sample_cfg_def CUDDLK_MAX_DEV_MEM_REGIONS_def
        zero_memregion_def eval_nat_numeral)
  then have 1: "orderly_step sample_cfg (empty_kstate sample_heap) sample_state"
    by (intro orderly_step.manage [OF _ _ fresh_sample _ sample_state_facts(1)]) simp_all
  obtain ret out st where io: "cuddlk_manager_ioctl sample_cfg (claim_env 42) CUDDLCI_MEMREGION_CLAIM_UIO_IOCTL sample_state
      = Some (ret, out, st)"
    by (rule manager_ioctl_keeps [OF sample_state_facts(2) sample_state_few sample_state_named sample_state_facts(3)])
  then have st: "held_state = st" by (simp add: held_state_def)
  have room: "refs_room sample_state" by (simp add: refs_room_def sample_state_facts(5,6))
  have md: "version_code_is_compat (mc_version_code (sample_claim 42))"
    "\<not> has_flag (mc_options (sample_claim 42)) CUDDL_MEM_CLAIMF_HOSTILE"
    by (simp_all add: sample_claim_def has_flag_def)
  from orderly_step.claim_mem [OF claim_env_simps(1) room _ md _ io] have "orderly_step sample_cfg sample_state st"
    by (simp add: sample_claim_def)
  with 1 show ?thesis by (simp add: st rtranclp.rtrancl_into_rtrancl r_into_rtranclp)
qed

lemma held_flags: "mem_flags_at held_state 0 0 = Some 0"
proof -
  from sample_lookup obtain m where "lookup_memregion sample_state sample_id = Some (0, 0, m)" "mr_flags m = 0" by blast
  with lookup_flags(1) [OF sample_state_facts(2)] flags_shape(1) [OF held_state_facts(7)] show ?thesis by force
qed

theorem unshared_has_one_holder_witness:
  "mem_flags_at held_state 0 0 = Some 0 \<and> mem_holders held_state 0 0 = [42] \<and> length (mem_holders held_state 0 0) \<le> 1"
  using unshared_has_one_holder [OF sample_orderly_run, of 0 0 0] held_flags held_state_facts(5)
  by (simp add: has_flag_def)

theorem reachable_kernel_sound_witness:
  "\<exists>p m. device_at held_state 0 = Some p \<and> get_memregion held_state p 0 = Some m \<and> mr_ref_count m = 1"
proof -
  from held_flags obtain p m where "device_at held_state 0 = Some p" "get_memregion held_state p 0 = Some m"
    by (auto simp: mem_flags_at_def bind_eq_Some_conv)
  with reachable_kernel_sound [OF sample_orderly_run] held_state_facts(5) show ?thesis by auto
qed

end
