(* ===== verification/Cpp_Values.thy ===== *)
theory Cpp_Values
  imports User_Queries
begin

section \<open>C++: exceptions, flags, names and versions (utility.hpp, general.hpp, version.hpp)\<close>

text \<open>
  The value classes of the C++ interface. A method that can throw returns a sum: \<open>Inl\<close> of
  the exception or \<open>Inr\<close> of its result. A \<^verbatim>\<open>std::string\<close> is a list of characters, null bytes
  included; making one from a \<^verbatim>\<open>char\<close> array reads up to the first null byte, and is
  undefined (\<open>None\<close>) when the array has none. A constructor, method or operator of a class is
  the definition \<open>Class_method\<close>; \<open>show_Class\<close> is the text that the stream output operator writes.
\<close>

subsection \<open>Exceptions (utility.hpp)\<close>

text \<open>
  \<^verbatim>\<open>std::system_error\<close>: the value of its code and the text it is made with. Under Xenomai
  \<^verbatim>\<open>throw_err\<close> first switches off a warning mode of the thread, which the model does not show.
\<close>

datatype system_error = System_Error (error_value: c_int) (error_text: string)

type_synonym 'a or_throws = "system_error + 'a"

definition throw_err :: "c_int \<Rightarrow> string \<Rightarrow> system_error" where
  "throw_err code msg = System_Error (- code) (msg @ '' returned '' @ dec_int code)"

definition array_text :: "string \<Rightarrow> string option" where
  "array_text s = (if NUL \<in> set s then Some (cstr s) else None)"

subsection \<open>Sets of flags (utility.hpp)\<close>

text \<open>\<open>Flags\<close> wraps an \<^verbatim>\<open>int\<close>; an element of the enumeration is its value.\<close>

datatype Flags = Flags (as_int: c_int)

definition Flags_is_set :: "Flags \<Rightarrow> c_int \<Rightarrow> bool" where
  "Flags_is_set fs f \<longleftrightarrow> as_int fs AND f \<noteq> 0"

definition Flags_set :: "Flags \<Rightarrow> c_int \<Rightarrow> Flags" where
  "Flags_set fs f = Flags (as_int fs OR f)"

definition Flags_clear :: "Flags \<Rightarrow> c_int \<Rightarrow> Flags" where
  "Flags_clear fs f = Flags (as_int fs AND NOT f)"

definition Flags_set_all :: "Flags \<Rightarrow> Flags \<Rightarrow> Flags" where
  "Flags_set_all fs gs = Flags (as_int fs OR as_int gs)"

definition Flags_clear_all :: "Flags \<Rightarrow> Flags \<Rightarrow> Flags" where
  "Flags_clear_all fs gs = Flags (as_int fs AND NOT (as_int gs))"

text \<open>The two assignments return the object itself, which is the new value here.\<close>

definition Flags_or_assign_flag :: "Flags \<Rightarrow> c_int \<Rightarrow> Flags" where
  "Flags_or_assign_flag fs r = Flags (as_int fs OR r)"

definition Flags_or_assign :: "Flags \<Rightarrow> Flags \<Rightarrow> Flags" where
  "Flags_or_assign fs r = Flags (as_int fs OR as_int r)"

definition Flags_or :: "Flags \<Rightarrow> Flags \<Rightarrow> Flags" where
  "Flags_or l r = Flags_set_all (Flags_set_all (Flags 0) l) r"

definition Flags_or_flag :: "Flags \<Rightarrow> c_int \<Rightarrow> Flags" where
  "Flags_or_flag l r = Flags_set (Flags_set_all (Flags 0) l) r"

definition flag_or_flag :: "c_int \<Rightarrow> c_int \<Rightarrow> Flags" where
  "flag_or_flag l r = Flags_set (Flags_set (Flags 0) l) r"

definition flag_or_Flags :: "c_int \<Rightarrow> Flags \<Rightarrow> Flags" where
  "flag_or_Flags l r = Flags_set_all (Flags_set (Flags 0) l) r"

definition flag_sep :: string where
  "flag_sep = '' | ''"

text \<open>One \<^verbatim>\<open>if\<close> of the output operators: the text so far and the separator for the next flag.\<close>

definition put_flag :: "(c_int \<Rightarrow> string) \<Rightarrow> Flags \<Rightarrow> c_int \<Rightarrow> string \<times> string \<Rightarrow> string \<times> string" where
  "put_flag show_flag fs f out =
     (if Flags_is_set fs f then (fst out @ snd out @ show_flag f, flag_sep) else out)"

subsection \<open>Resource identifiers (general.hpp)\<close>

text \<open>The class \<^verbatim>\<open>ResourceID\<close> holds one \<open>cuddl_resource_id\<close>.\<close>

definition ResourceID_zero :: cuddl_resource_id where
  "ResourceID_zero = \<lparr>id_group = replicate CUDDLCI_MAX_STR_LEN NUL, id_device = replicate CUDDLCI_MAX_STR_LEN NUL,
     id_resource = replicate CUDDLCI_MAX_STR_LEN NUL, id_instance = 0\<rparr>"

definition ResourceID_set_group :: "string \<Rightarrow> cuddl_resource_id \<Rightarrow> cuddl_resource_id" where
  "ResourceID_set_group s rid = rid\<lparr>id_group := strncpy (id_group rid) s (CUDDLCI_MAX_STR_LEN - 1)\<rparr>"

definition ResourceID_set_device :: "string \<Rightarrow> cuddl_resource_id \<Rightarrow> cuddl_resource_id" where
  "ResourceID_set_device s rid = rid\<lparr>id_device := strncpy (id_device rid) s (CUDDLCI_MAX_STR_LEN - 1)\<rparr>"

definition ResourceID_set_resource :: "string \<Rightarrow> cuddl_resource_id \<Rightarrow> cuddl_resource_id" where
  "ResourceID_set_resource s rid = rid\<lparr>id_resource := strncpy (id_resource rid) s (CUDDLCI_MAX_STR_LEN - 1)\<rparr>"

definition ResourceID_set_instance :: "c_int \<Rightarrow> cuddl_resource_id \<Rightarrow> cuddl_resource_id" where
  "ResourceID_set_instance i rid = rid\<lparr>id_instance := i\<rparr>"

definition ResourceID_of_names :: "string \<Rightarrow> string \<Rightarrow> string \<Rightarrow> c_int \<Rightarrow> cuddl_resource_id" where
  "ResourceID_of_names g d r i =
     ResourceID_set_instance i (ResourceID_set_resource r (ResourceID_set_device d (ResourceID_set_group g ResourceID_zero)))"

definition star_if_empty :: "string \<Rightarrow> string" where
  "star_if_empty s = (if s = [] then ''*'' else s)"

definition ResourceID_full_name :: "cuddl_resource_id \<Rightarrow> string option" where
  "ResourceID_full_name rid = do {
     g \<leftarrow> array_text (id_group rid);
     d \<leftarrow> array_text (id_device rid);
     r \<leftarrow> array_text (id_resource rid);
     let full = star_if_empty g @ ''/'' @ star_if_empty d @ ''/'' @ star_if_empty r @ ''/'';
     Some (if id_instance rid \<noteq> 0 then full @ dec_int (id_instance rid) else full @ ''*'')
   }"

text \<open>The text that the stream operator writes.\<close>

definition show_ResourceID :: "cuddl_resource_id \<Rightarrow> string option" where
  "show_ResourceID rid = ResourceID_full_name rid"

text \<open>\<^verbatim>\<open>std::string::find\<close> and \<^verbatim>\<open>substr\<close>, with \<open>None\<close> for \<^verbatim>\<open>npos\<close>.\<close>

definition str_find :: "string \<Rightarrow> char \<Rightarrow> nat \<Rightarrow> nat option" where
  "str_find s c pos = find (\<lambda>i. s ! i = c) [pos..<length s]"

definition substr :: "string \<Rightarrow> nat \<Rightarrow> nat option \<Rightarrow> string" where
  "substr s pos n = (case n of None \<Rightarrow> drop pos s | Some n \<Rightarrow> take n (drop pos s))"

text \<open>
  \<^verbatim>\<open>std::stoi\<close> in base ten: white space, a sign, the longest run of digits; what follows is
  ignored. It throws (\<open>None\<close>) when there is no digit or the number is not an \<^verbatim>\<open>int\<close>.
\<close>

definition is_space :: "char \<Rightarrow> bool" where
  "is_space c \<longleftrightarrow> c \<in> {CHR 0x20, CHR 0x09, CHR 0x0A, CHR 0x0B, CHR 0x0C, CHR 0x0D}"

definition digit_val :: "char \<Rightarrow> int" where
  "digit_val c = of_char c - 48"

definition is_digit :: "char \<Rightarrow> bool" where
  "is_digit c \<longleftrightarrow> 0 \<le> digit_val c \<and> digit_val c < 10"

definition digits_val :: "string \<Rightarrow> int" where
  "digits_val ds = foldl (\<lambda>v c. 10 * v + digit_val c) 0 ds"

definition split_sign :: "string \<Rightarrow> bool \<times> string" where
  "split_sign s = (case s of c # t \<Rightarrow> if c = CHR ''-'' then (True, t) else if c = CHR ''+'' then (False, t) else (False, s)
     | [] \<Rightarrow> (False, []))"

definition stoi :: "string \<Rightarrow> c_int option" where
  "stoi s = (let (neg, t) = split_sign (dropWhile is_space s);
                 ds = takeWhile is_digit t;
                 v = (if neg then - digits_val ds else digits_val ds)
             in if ds = [] \<or> v < - (2 ^ 31) \<or> v \<ge> 2 ^ 31 then None else Some v)"

definition parse_instance :: "string \<Rightarrow> cuddl_resource_id \<Rightarrow> cuddl_resource_id" where
  "parse_instance instance_str rid =
     (if length instance_str > 0
      then ResourceID_set_instance (case stoi (cstr instance_str) of Some v \<Rightarrow> v | None \<Rightarrow> - 1) rid
      else rid)"

definition ResourceID_of_full_name :: "string \<Rightarrow> cuddl_resource_id" where
  "ResourceID_of_full_name name =
     (let rid = ResourceID_zero in
      case str_find name (CHR ''/'') 0 of
        None \<Rightarrow> ResourceID_set_device (cstr name) rid
      | Some i1 \<Rightarrow>
          let rid = ResourceID_set_group (cstr (substr name 0 (Some i1))) rid in
          (case str_find name (CHR ''/'') (i1 + 1) of
             None \<Rightarrow> ResourceID_set_device (cstr (substr name (i1 + 1) None)) rid
           | Some i2 \<Rightarrow>
               let rid = ResourceID_set_device (cstr (substr name (i1 + 1) (Some (i2 - i1 - 1)))) rid;
                   i1 = i2
               in (case str_find name (CHR ''/'') (i1 + 1) of
                     None \<Rightarrow> ResourceID_set_resource (cstr (substr name (i1 + 1) None)) rid
                   | Some i2 \<Rightarrow>
                       let rid = ResourceID_set_resource (cstr (substr name (i1 + 1) (Some (i2 - i1 - 1)))) rid
                       in parse_instance (substr name (i2 + 1) None) rid)))"

definition throw_resource_id_err :: "c_int \<Rightarrow> string \<Rightarrow> cuddl_resource_id \<Rightarrow> system_error option" where
  "throw_resource_id_err code msg rid = do {
     full \<leftarrow> ResourceID_full_name rid;
     Some (throw_err code (msg @ '' for cuddl resource '' @ [CHR 0x27] @ full @ [CHR 0x27]))
   }"

subsection \<open>Versions (version.hpp)\<close>

datatype Version = Version (version_code: c_int)

definition Version_of :: "c_int \<Rightarrow> c_int \<Rightarrow> c_int \<Rightarrow> Version" where
  "Version_of major minor revision = Version (CUDDLCI_VERSION major minor revision)"

definition Version_major :: "Version \<Rightarrow> c_int" where
  "Version_major v = CUDDLCI_MAJOR_VERSION_FROM_CODE (version_code v)"

definition Version_minor :: "Version \<Rightarrow> c_int" where
  "Version_minor v = CUDDLCI_MINOR_VERSION_FROM_CODE (version_code v)"

definition Version_revision :: "Version \<Rightarrow> c_int" where
  "Version_revision v = CUDDLCI_REVISION_LEVEL_FROM_CODE (version_code v)"

definition show_Version :: "Version \<Rightarrow> string" where
  "show_Version v = dec_int (Version_major v) @ ''.'' @ dec_int (Version_minor v) @ ''.'' @ dec_int (Version_revision v)"

definition Version_eq :: "Version \<Rightarrow> Version \<Rightarrow> bool" where
  "Version_eq l r \<longleftrightarrow> version_code l = version_code r"

definition Version_neq :: "Version \<Rightarrow> Version \<Rightarrow> bool" where
  "Version_neq l r \<longleftrightarrow> version_code l \<noteq> version_code r"

definition Version_less :: "Version \<Rightarrow> Version \<Rightarrow> bool" where
  "Version_less l r \<longleftrightarrow> version_code l < version_code r"

definition Version_greater :: "Version \<Rightarrow> Version \<Rightarrow> bool" where
  "Version_greater l r \<longleftrightarrow> version_code l > version_code r"

definition Version_less_eq :: "Version \<Rightarrow> Version \<Rightarrow> bool" where
  "Version_less_eq l r \<longleftrightarrow> version_code l \<le> version_code r"

definition Version_greater_eq :: "Version \<Rightarrow> Version \<Rightarrow> bool" where
  "Version_greater_eq l r \<longleftrightarrow> version_code l \<ge> version_code r"

text \<open>The comparison operators make a linear order; \<open>=\<close> is equality of the codes.\<close>

instantiation Version :: linorder
begin

definition less_Version :: "Version \<Rightarrow> Version \<Rightarrow> bool" where
  "less_Version = Version_less"

definition less_eq_Version :: "Version \<Rightarrow> Version \<Rightarrow> bool" where
  "less_eq_Version = Version_less_eq"

instance
  by standard
    (auto simp: less_Version_def less_eq_Version_def Version_less_def Version_less_eq_def Version.expand)

end

definition this_version :: Version where
  "this_version = Version_of CUDDLCI_VERSION_MAJOR CUDDLCI_VERSION_MINOR CUDDLCI_REVISION_LEVEL"

definition get_kernel_version :: "'s posix \<Rightarrow> 's \<Rightarrow> (Version or_throws \<times> 's) option" where
  "get_kernel_version os s = do {
     (ret, s) \<leftarrow> cuddl_get_kernel_version_code os s;
     Some (if ret < 0 then Inl (throw_err ret ''get_kernel_version'') else Inr (Version ret), s)
   }"

text \<open>The local array of \<open>MAX_STR_LEN\<close> bytes starts as whatever the stack holds.\<close>

definition MAX_STR_LEN :: size_t where
  "MAX_STR_LEN = of_nat CUDDLCI_MAX_STR_LEN"

definition get_kernel_commit_id :: "'s posix \<Rightarrow> 's \<Rightarrow> (string or_throws \<times> 's) option" where
  "get_kernel_commit_id os s = do {
     (ret, buf, s) \<leftarrow> cuddl_get_kernel_commit_id os (stack_text os s) MAX_STR_LEN s;
     if ret < 0 then Some (Inl (throw_err ret ''get_kernel_commit_id''), s)
     else do { text \<leftarrow> array_text buf; Some (Inr text, s) }
   }"

definition get_userspace_commit_id :: "ucfg \<Rightarrow> 's posix \<Rightarrow> 's \<Rightarrow> (string or_throws \<times> 's) option" where
  "get_userspace_commit_id cfg os s = do {
     let (ret, buf) = cuddl_get_userspace_commit_id cfg (stack_text os s) MAX_STR_LEN;
     if ret < 0 then Some (Inl (throw_err ret ''get_userspace_commit_id''), s)
     else do { text \<leftarrow> array_text buf; Some (Inr text, s) }
   }"

definition get_kernel_variant :: "'s posix \<Rightarrow> 's \<Rightarrow> (string or_throws \<times> 's) option" where
  "get_kernel_variant os s = do {
     (ret, buf, s) \<leftarrow> cuddl_get_kernel_variant os (stack_text os s) MAX_STR_LEN s;
     if ret < 0 then Some (Inl (throw_err ret ''get_kernel_variant''), s)
     else do { text \<leftarrow> array_text buf; Some (Inr text, s) }
   }"

subsection \<open>Facts about numbers in text\<close>

lemma digit_val_char: "d < 10 \<Longrightarrow> digit_val (digit_char d) = int d"
proof -
  assume "d < 10"
  then have "d \<in> {0, 1, 2, 3, 4, 5, 6, 7, 8, 9}" by auto
  then show ?thesis by (auto simp: digit_val_def digit_char_def)
qed

lemma digits_val_snoc: "digits_val (ds @ [c]) = 10 * digits_val ds + digit_val c"
  by (simp add: digits_val_def)

lemma digits_val_dec_nat: "digits_val (dec_nat n) = int n"
proof (induction n rule: dec_nat.induct)
  case (1 n)
  show ?case
  proof (cases "n < 10")
    case True
    then show ?thesis by (simp add: dec_nat.simps [of n] digits_val_def digit_val_char)
  next
    case False
    have "10 * (n div 10) + n mod 10 = n" by simp
    then have "10 * int (n div 10) + int (n mod 10) = int n" by (metis of_nat_add of_nat_mult of_nat_numeral)
    then show ?thesis
      using "1.IH" [OF False] False by (simp add: dec_nat.simps [of n] digits_val_snoc digit_val_char)
  qed
qed

lemma is_digit_char: "d < 10 \<Longrightarrow> is_digit (digit_char d)"
  by (simp add: is_digit_def digit_val_char)

lemma dec_nat_digits: "c \<in> set (dec_nat n) \<Longrightarrow> is_digit c"
  using dec_nat_chars is_digit_char by blast

lemma digit_not_special:
  assumes "is_digit c"
  shows "\<not> is_space c" "c \<noteq> CHR ''-''" "c \<noteq> CHR ''+''" "c \<noteq> CHR ''/''"
  using assms by (auto simp: is_digit_def digit_val_def is_space_def)

lemma takeWhile_dec_nat: "takeWhile is_digit (dec_nat n) = dec_nat n"
  by (simp add: takeWhile_eq_all_conv dec_nat_digits)

lemma dec_nat_head:
  obtains c t where "dec_nat n = c # t" "is_digit c"
proof (cases "dec_nat n")
  case (Cons c t)
  with that dec_nat_digits [of c n] show ?thesis by simp
qed simp

text \<open>What \<^verbatim>\<open>std::to_string\<close> writes, \<^verbatim>\<open>std::stoi\<close> reads back.\<close>

lemma stoi_dec_int:
  assumes "- (2 ^ 31) \<le> i" "i < 2 ^ 31"
  shows "stoi (dec_int i) = Some i"
proof (cases "i < 0")
  case True
  have "dropWhile is_space (dec_int i) = CHR ''-'' # dec_nat (nat (- i))"
    using True by (simp add: dec_int_def is_space_def)
  with True assms show ?thesis
    by (simp add: stoi_def split_sign_def takeWhile_dec_nat digits_val_dec_nat)
next
  case False
  obtain c t where d: "dec_nat (nat i) = c # t" "is_digit c" by (rule dec_nat_head)
  from digit_not_special [OF d(2)] have "dropWhile is_space (dec_int i) = dec_nat (nat i)"
    "split_sign (dec_nat (nat i)) = (False, dec_nat (nat i))"
    using False d(1) by (simp_all add: dec_int_def split_sign_def)
  with False assms show ?thesis
    by (simp add: stoi_def takeWhile_dec_nat digits_val_dec_nat)
qed

lemma dec_int_no_slash: "CHR ''/'' \<notin> set (dec_int i)"
  using digit_not_special(4) dec_nat_digits by (auto simp: dec_int_def)

lemma dec_int_nonempty [simp]: "dec_int i \<noteq> []"
  by (simp add: dec_int_def)

end
