(* ===== verification/Cpp_Objects.thy ===== *)
theory Cpp_Objects
  imports Cpp_Values
begin

section \<open>C++: objects that own resources, and queries (memregion.hpp, eventsrc.hpp, manager.hpp)\<close>

text \<open>
  The classes \<^verbatim>\<open>MemRegion\<close>, \<^verbatim>\<open>EventSrc\<close> and \<^verbatim>\<open>EventSrcSet\<close>, and the functions of
  \<^verbatim>\<open>manager.hpp\<close>. A method that changes its object returns the new one; a constructor that
  throws has no object, and then no destructor runs. The methods that read and write device
  registers are in \<open>Io_Memory\<close>.
\<close>

subsection \<open>Flags and descriptions of memory regions\<close>

definition show_MemRegionFlag :: "c_int \<Rightarrow> string" where
  "show_MemRegionFlag f = (if f = CUDDL_MEMF_SHARED then ''SHARED'' else ''INVALID_FLAG'')"

definition show_MemRegionFlags :: "Flags \<Rightarrow> string" where
  "show_MemRegionFlags fs = fst (put_flag show_MemRegionFlag fs CUDDL_MEMF_SHARED ([], []))"

definition show_MemRegionClaimFlag :: "c_int \<Rightarrow> string" where
  "show_MemRegionClaimFlag f = (if f = CUDDL_MEM_CLAIMF_HOSTILE then ''HOSTILE'' else ''INVALID_FLAG'')"

definition show_MemRegionClaimFlags :: "Flags \<Rightarrow> string" where
  "show_MemRegionClaimFlags fs = fst (put_flag show_MemRegionClaimFlag fs CUDDL_MEM_CLAIMF_HOSTILE ([], []))"

definition show_MemRegionInfo :: "cuddl_memregion_info \<Rightarrow> string" where
  "show_MemRegionInfo info = ''len: '' @ dec_nat (unat (mi_len info)) @ '', '' @
     ''flags: '' @ show_MemRegionFlags (Flags (mi_flags info))"

subsection \<open>Memory regions\<close>

record MemRegion =
  region_mem :: cuddl_memregion
  region_mapped :: bool

definition MemRegion_zero :: cuddl_memregion where
  "MemRegion_zero = \<lparr>um_region_addr = 0, um_region_len = 0, um_region_flags = 0, um_priv_pa_addr = 0,
     um_priv_pa_len = 0, um_priv_fd = 0, um_priv_token = \<lparr>device_index = 0, resource_index = 0\<rparr>\<rparr>"

definition MemRegion_default :: MemRegion where
  "MemRegion_default = \<lparr>region_mem = MemRegion_zero, region_mapped = False\<rparr>"

definition MemRegion_of :: "cuddl_memregion \<Rightarrow> bool \<Rightarrow> MemRegion" where
  "MemRegion_of mem mapped = \<lparr>region_mem = mem, region_mapped = mapped\<rparr>"

definition MemRegion_claim_and_map ::
  "ucfg \<Rightarrow> 's posix \<Rightarrow> MemRegion \<Rightarrow> cuddl_resource_id \<Rightarrow> Flags \<Rightarrow> 's \<Rightarrow> (unit or_throws \<times> MemRegion \<times> 's) option" where
  "MemRegion_claim_and_map cfg os this rid claim_flags s = do {
     (ret, mem, s) \<leftarrow> cuddl_memregion_claim_and_map cfg os (region_mem this) (Some (id_group rid)) (Some (id_device rid))
       (Some (id_resource rid)) (id_instance rid) (as_int claim_flags) 0 s;
     let this = this\<lparr>region_mem := mem\<rparr>;
     if ret < 0 then do {
       e \<leftarrow> throw_resource_id_err ret ''claim_and_map'' rid;
       Some (Inl e, this, s)
     }
     else Some (Inr (), this\<lparr>region_mapped := True\<rparr>, s)
   }"

definition MemRegion_claim_and_map_names ::
  "ucfg \<Rightarrow> 's posix \<Rightarrow> MemRegion \<Rightarrow> string \<Rightarrow> string \<Rightarrow> string \<Rightarrow> c_int \<Rightarrow> Flags \<Rightarrow> 's \<Rightarrow> (unit or_throws \<times> MemRegion \<times> 's) option" where
  "MemRegion_claim_and_map_names cfg os this g d r i claim_flags s =
     (let rid = ResourceID_of_names g d r i in MemRegion_claim_and_map cfg os this rid claim_flags s)"

definition MemRegion_claim_and_map_full_name ::
  "ucfg \<Rightarrow> 's posix \<Rightarrow> MemRegion \<Rightarrow> string \<Rightarrow> Flags \<Rightarrow> 's \<Rightarrow> (unit or_throws \<times> MemRegion \<times> 's) option" where
  "MemRegion_claim_and_map_full_name cfg os this full_name claim_flags s =
     MemRegion_claim_and_map cfg os this (ResourceID_of_full_name full_name) claim_flags s"

definition MemRegion_construct ::
  "ucfg \<Rightarrow> 's posix \<Rightarrow> cuddl_resource_id \<Rightarrow> Flags \<Rightarrow> 's \<Rightarrow> (MemRegion or_throws \<times> 's) option" where
  "MemRegion_construct cfg os rid claim_flags s = do {
     (r, this, s) \<leftarrow> MemRegion_claim_and_map cfg os MemRegion_default rid claim_flags s;
     Some (case r of Inl e \<Rightarrow> Inl e | Inr _ \<Rightarrow> Inr this, s)
   }"

definition MemRegion_construct_names ::
  "ucfg \<Rightarrow> 's posix \<Rightarrow> string \<Rightarrow> string \<Rightarrow> string \<Rightarrow> c_int \<Rightarrow> Flags \<Rightarrow> 's \<Rightarrow> (MemRegion or_throws \<times> 's) option" where
  "MemRegion_construct_names cfg os g d r i claim_flags s =
     MemRegion_construct cfg os (ResourceID_of_names g d r i) claim_flags s"

definition MemRegion_construct_full_name ::
  "ucfg \<Rightarrow> 's posix \<Rightarrow> string \<Rightarrow> Flags \<Rightarrow> 's \<Rightarrow> (MemRegion or_throws \<times> 's) option" where
  "MemRegion_construct_full_name cfg os full_name claim_flags s =
     MemRegion_construct cfg os (ResourceID_of_full_name full_name) claim_flags s"

definition MemRegion_unmap_and_release :: "ucfg \<Rightarrow> 's posix \<Rightarrow> MemRegion \<Rightarrow> 's \<Rightarrow> (MemRegion \<times> 's) option" where
  "MemRegion_unmap_and_release cfg os this s =
     (if region_mapped this then do {
        (_, s) \<leftarrow> cuddl_memregion_unmap_and_release cfg os (region_mem this) s;
        Some (this\<lparr>region_mapped := False\<rparr>, s)
      } else Some (this, s))"

definition MemRegion_destroy :: "ucfg \<Rightarrow> 's posix \<Rightarrow> MemRegion \<Rightarrow> 's \<Rightarrow> 's option" where
  "MemRegion_destroy cfg os this s = map_option snd (MemRegion_unmap_and_release cfg os this s)"

definition MemRegion_get_resource_id :: "'s posix \<Rightarrow> MemRegion \<Rightarrow> 's \<Rightarrow> (cuddl_resource_id or_throws \<times> 's) option" where
  "MemRegion_get_resource_id os this s = do {
     (ret, rid, s) \<leftarrow> cuddl_memregion_get_resource_id os (region_mem this) (stack_id os s) s;
     Some (if ret < 0 then Inl (throw_err ret ''get_resource_id'') else Inr rid, s)
   }"

definition MemRegion_flags :: "MemRegion \<Rightarrow> Flags" where
  "MemRegion_flags this = Flags (um_region_flags (region_mem this))"

subsection \<open>Flags of event sources\<close>

definition show_EventSrcFlag :: "c_int \<Rightarrow> string" where
  "show_EventSrcFlag f =
     (if f = CUDDL_EVENTSRCF_SHARED then ''SHARED''
      else if f = CUDDL_EVENTSRCF_WAITABLE then ''WAITABLE''
      else if f = CUDDL_EVENTSRCF_HAS_DISABLE then ''HAS_DISABLE''
      else if f = CUDDL_EVENTSRCF_HAS_ENABLE then ''HAS_ENABLE''
      else if f = CUDDL_EVENTSRCF_HAS_IS_ENABLED then ''HAS_IS_ENABLED''
      else ''INVALID_FLAG'')"

definition show_EventSrcFlags :: "Flags \<Rightarrow> string" where
  "show_EventSrcFlags fs =
     (let out = ([], []);
          out = put_flag show_EventSrcFlag fs CUDDL_EVENTSRCF_SHARED out;
          out = put_flag show_EventSrcFlag fs CUDDL_EVENTSRCF_WAITABLE out;
          out = put_flag show_EventSrcFlag fs CUDDL_EVENTSRCF_HAS_DISABLE out;
          out = put_flag show_EventSrcFlag fs CUDDL_EVENTSRCF_HAS_ENABLE out;
          out = put_flag show_EventSrcFlag fs CUDDL_EVENTSRCF_HAS_IS_ENABLED out
      in fst out)"

definition show_EventSrcClaimFlag :: "c_int \<Rightarrow> string" where
  "show_EventSrcClaimFlag f = (if f = CUDDL_EVENTSRC_CLAIMF_HOSTILE then ''HOSTILE'' else ''INVALID_FLAG'')"

definition show_EventSrcClaimFlags :: "Flags \<Rightarrow> string" where
  "show_EventSrcClaimFlags fs = fst (put_flag show_EventSrcClaimFlag fs CUDDL_EVENTSRC_CLAIMF_HOSTILE ([], []))"

definition show_EventSrcInfo :: "cuddl_eventsrc_info \<Rightarrow> string" where
  "show_EventSrcInfo info = ''flags: '' @ show_EventSrcFlags (Flags (ei_flags info))"

subsection \<open>Event sources\<close>

record EventSrc =
  event_src :: cuddl_eventsrc
  event_opened :: bool

definition EventSrc_zero :: cuddl_eventsrc where
  "EventSrc_zero = \<lparr>ue_flags = 0, ue_priv_fd = 0, ue_priv_token = \<lparr>device_index = 0, resource_index = 0\<rparr>\<rparr>"

definition EventSrc_default :: EventSrc where
  "EventSrc_default = \<lparr>event_src = EventSrc_zero, event_opened = False\<rparr>"

definition EventSrc_of :: "cuddl_eventsrc \<Rightarrow> bool \<Rightarrow> EventSrc" where
  "EventSrc_of eventsrc opened = \<lparr>event_src = eventsrc, event_opened = opened\<rparr>"

definition EventSrc_flags :: "EventSrc \<Rightarrow> Flags" where
  "EventSrc_flags this = Flags (ue_flags (event_src this))"

definition show_EventSrc :: "EventSrc \<Rightarrow> string" where
  "show_EventSrc this = ''flags: '' @ show_EventSrcFlags (EventSrc_flags this)"

definition EventSrc_claim_and_open ::
  "ucfg \<Rightarrow> 's posix \<Rightarrow> EventSrc \<Rightarrow> cuddl_resource_id \<Rightarrow> Flags \<Rightarrow> 's \<Rightarrow> (unit or_throws \<times> EventSrc \<times> 's) option" where
  "EventSrc_claim_and_open cfg os this rid claim_flags s = do {
     (ret, ev, s) \<leftarrow> cuddl_eventsrc_claim_and_open cfg os (event_src this) (Some (id_group rid)) (Some (id_device rid))
       (Some (id_resource rid)) (id_instance rid) (as_int claim_flags) 0 s;
     let this = this\<lparr>event_src := ev\<rparr>;
     if ret < 0 then do {
       e \<leftarrow> throw_resource_id_err ret ''claim_and_open'' rid;
       Some (Inl e, this, s)
     }
     else Some (Inr (), this\<lparr>event_opened := True\<rparr>, s)
   }"

definition EventSrc_claim_and_open_names ::
  "ucfg \<Rightarrow> 's posix \<Rightarrow> EventSrc \<Rightarrow> string \<Rightarrow> string \<Rightarrow> string \<Rightarrow> c_int \<Rightarrow> Flags \<Rightarrow> 's \<Rightarrow> (unit or_throws \<times> EventSrc \<times> 's) option" where
  "EventSrc_claim_and_open_names cfg os this g d r i claim_flags s =
     (let rid = ResourceID_of_names g d r i in EventSrc_claim_and_open cfg os this rid claim_flags s)"

definition EventSrc_claim_and_open_full_name ::
  "ucfg \<Rightarrow> 's posix \<Rightarrow> EventSrc \<Rightarrow> string \<Rightarrow> Flags \<Rightarrow> 's \<Rightarrow> (unit or_throws \<times> EventSrc \<times> 's) option" where
  "EventSrc_claim_and_open_full_name cfg os this full_name claim_flags s =
     EventSrc_claim_and_open cfg os this (ResourceID_of_full_name full_name) claim_flags s"

definition EventSrc_construct ::
  "ucfg \<Rightarrow> 's posix \<Rightarrow> cuddl_resource_id \<Rightarrow> Flags \<Rightarrow> 's \<Rightarrow> (EventSrc or_throws \<times> 's) option" where
  "EventSrc_construct cfg os rid claim_flags s = do {
     (r, this, s) \<leftarrow> EventSrc_claim_and_open cfg os EventSrc_default rid claim_flags s;
     Some (case r of Inl e \<Rightarrow> Inl e | Inr _ \<Rightarrow> Inr this, s)
   }"

definition EventSrc_construct_names ::
  "ucfg \<Rightarrow> 's posix \<Rightarrow> string \<Rightarrow> string \<Rightarrow> string \<Rightarrow> c_int \<Rightarrow> Flags \<Rightarrow> 's \<Rightarrow> (EventSrc or_throws \<times> 's) option" where
  "EventSrc_construct_names cfg os g d r i claim_flags s =
     EventSrc_construct cfg os (ResourceID_of_names g d r i) claim_flags s"

definition EventSrc_construct_full_name ::
  "ucfg \<Rightarrow> 's posix \<Rightarrow> string \<Rightarrow> Flags \<Rightarrow> 's \<Rightarrow> (EventSrc or_throws \<times> 's) option" where
  "EventSrc_construct_full_name cfg os full_name claim_flags s =
     EventSrc_construct cfg os (ResourceID_of_full_name full_name) claim_flags s"

definition EventSrc_close_and_release :: "ucfg \<Rightarrow> 's posix \<Rightarrow> EventSrc \<Rightarrow> 's \<Rightarrow> (EventSrc \<times> 's) option" where
  "EventSrc_close_and_release cfg os this s =
     (if event_opened this then do {
        (_, s) \<leftarrow> cuddl_eventsrc_close_and_release cfg os (event_src this) s;
        Some (this\<lparr>event_opened := False\<rparr>, s)
      } else Some (this, s))"

definition EventSrc_destroy :: "ucfg \<Rightarrow> 's posix \<Rightarrow> EventSrc \<Rightarrow> 's \<Rightarrow> 's option" where
  "EventSrc_destroy cfg os this s = map_option snd (EventSrc_close_and_release cfg os this s)"

definition EventSrc_wait :: "'s posix \<Rightarrow> EventSrc \<Rightarrow> 's \<Rightarrow> (c_int \<times> 's) option" where
  "EventSrc_wait os this s = cuddl_eventsrc_wait os (event_src this) s"

definition EventSrc_try_wait :: "'s posix \<Rightarrow> EventSrc \<Rightarrow> 's \<Rightarrow> (c_int \<times> 's) option" where
  "EventSrc_try_wait os this s = cuddl_eventsrc_try_wait os (event_src this) s"

definition EventSrc_timed_wait :: "'s posix \<Rightarrow> EventSrc \<Rightarrow> cuddl_timespec \<Rightarrow> 's \<Rightarrow> (c_int \<times> 's) option" where
  "EventSrc_timed_wait os this timeout s = cuddl_eventsrc_timed_wait os (event_src this) timeout s"

text \<open>\<^verbatim>\<open>duration_cast\<close> to seconds rounds towards zero; the rest is the nanoseconds.\<close>

definition timespec_of_ns :: "int \<Rightarrow> cuddl_timespec" where
  "timespec_of_ns timeout =
     (let s = timeout sdiv 1000000000; ns = timeout - s * 1000000000 in \<lparr>tv_sec = s, tv_nsec = ns\<rparr>)"

definition EventSrc_timed_wait_ns :: "'s posix \<Rightarrow> EventSrc \<Rightarrow> int \<Rightarrow> 's \<Rightarrow> (c_int \<times> 's) option" where
  "EventSrc_timed_wait_ns os this timeout s = cuddl_eventsrc_timed_wait os (event_src this) (timespec_of_ns timeout) s"

definition EventSrc_enable :: "'s posix \<Rightarrow> EventSrc \<Rightarrow> 's \<Rightarrow> (c_int \<times> 's) option" where
  "EventSrc_enable os this s = cuddl_eventsrc_enable os (event_src this) s"

definition EventSrc_disable :: "'s posix \<Rightarrow> EventSrc \<Rightarrow> 's \<Rightarrow> (c_int \<times> 's) option" where
  "EventSrc_disable os this s = cuddl_eventsrc_disable os (event_src this) s"

definition EventSrc_is_enabled :: "'s posix \<Rightarrow> EventSrc \<Rightarrow> 's \<Rightarrow> (c_int or_throws \<times> 's) option" where
  "EventSrc_is_enabled os this s = do {
     (ret, s) \<leftarrow> cuddl_eventsrc_is_enabled os (event_src this) s;
     Some (if ret < 0 then Inl (throw_err ret ''is_enabled'') else Inr ret, s)
   }"

definition EventSrc_get_resource_id :: "'s posix \<Rightarrow> EventSrc \<Rightarrow> 's \<Rightarrow> (cuddl_resource_id or_throws \<times> 's) option" where
  "EventSrc_get_resource_id os this s = do {
     (ret, rid, s) \<leftarrow> cuddl_eventsrc_get_resource_id os (event_src this) (stack_id os s) s;
     Some (if ret < 0 then Inl (throw_err ret ''get_resource_id'') else Inr rid, s)
   }"

subsection \<open>Sets of event sources\<close>

text \<open>
  The class holds one \<open>cuddl_eventsrcset\<close>; the constructor zeroes what was in its memory. The
  default null pointer for the set of active sources stays a null pointer when the address
  of its first member is taken.
\<close>

definition EventSrcSet_construct :: "cuddl_eventsrcset \<Rightarrow> cuddl_eventsrcset" where
  "EventSrcSet_construct memory = cuddl_eventsrcset_zero memory"

definition EventSrcSet_add :: "cuddl_eventsrcset \<Rightarrow> EventSrc \<Rightarrow> cuddl_eventsrcset option" where
  "EventSrcSet_add this ev = cuddl_eventsrcset_add this (event_src ev)"

definition EventSrcSet_remove :: "cuddl_eventsrcset \<Rightarrow> EventSrc \<Rightarrow> cuddl_eventsrcset option" where
  "EventSrcSet_remove this ev = cuddl_eventsrcset_remove this (event_src ev)"

definition EventSrcSet_contains :: "cuddl_eventsrcset \<Rightarrow> EventSrc \<Rightarrow> bool option" where
  "EventSrcSet_contains this ev = cuddl_eventsrcset_contains this (event_src ev)"

definition EventSrcSet_timed_wait ::
  "'s posix \<Rightarrow> cuddl_eventsrcset \<Rightarrow> cuddl_timespec \<Rightarrow> cuddl_eventsrcset option \<Rightarrow> 's
     \<Rightarrow> (c_int \<times> cuddl_eventsrcset option \<times> 's) option" where
  "EventSrcSet_timed_wait os this timeout active_set s = cuddl_eventsrcset_timed_wait os this timeout active_set s"

definition EventSrcSet_timed_wait_ns ::
  "'s posix \<Rightarrow> cuddl_eventsrcset \<Rightarrow> int \<Rightarrow> cuddl_eventsrcset option \<Rightarrow> 's
     \<Rightarrow> (c_int \<times> cuddl_eventsrcset option \<times> 's) option" where
  "EventSrcSet_timed_wait_ns os this timeout active_set s =
     cuddl_eventsrcset_timed_wait os this (timespec_of_ns timeout) active_set s"

end
