(* ===== verification/Cpp_Queries.thy ===== *)
theory Cpp_Queries
  imports Cpp_Objects
begin

section \<open>C++: questions to the manager (manager.hpp)\<close>

text \<open>
  The functions of \<^verbatim>\<open>manager.hpp\<close>: each asks one question of the C library and throws when
  the answer is negative. The exception of a question about a resource names it, so its
  text exists only when the fields of the identifier are terminated.
\<close>

text \<open>The ends of these functions: return the value, or throw.\<close>

definition value_or_throw :: "c_int \<Rightarrow> string \<Rightarrow> 'a \<Rightarrow> 'a or_throws" where
  "value_or_throw ret func x = (if ret < 0 then Inl (throw_err ret func) else Inr x)"

definition value_or_throw_id :: "c_int \<Rightarrow> string \<Rightarrow> cuddl_resource_id \<Rightarrow> 'a option \<Rightarrow> 'a or_throws option" where
  "value_or_throw_id ret func rid x =
     (if ret < 0 then map_option Inl (throw_resource_id_err ret func rid) else map_option Inr x)"

definition get_max_managed_devices :: "'s posix \<Rightarrow> 's \<Rightarrow> (c_int or_throws \<times> 's) option" where
  "get_max_managed_devices os s = do {
     (ret, s) \<leftarrow> cuddl_get_max_managed_devices os s;
     Some (value_or_throw ret ''get_max_managed_devices'' ret, s)
   }"

definition get_max_dev_mem_regions :: "'s posix \<Rightarrow> 's \<Rightarrow> (c_int or_throws \<times> 's) option" where
  "get_max_dev_mem_regions os s = do {
     (ret, s) \<leftarrow> cuddl_get_max_dev_mem_regions os s;
     Some (value_or_throw ret ''get_max_dev_mem_regions'' ret, s)
   }"

definition get_max_dev_events :: "'s posix \<Rightarrow> 's \<Rightarrow> (c_int or_throws \<times> 's) option" where
  "get_max_dev_events os s = do {
     (ret, s) \<leftarrow> cuddl_get_max_dev_events os s;
     Some (value_or_throw ret ''get_max_dev_events'' ret, s)
   }"

definition get_memregion_id_for_slot ::
  "'s posix \<Rightarrow> c_int \<Rightarrow> c_int \<Rightarrow> 's \<Rightarrow> (cuddl_resource_id or_throws \<times> 's) option" where
  "get_memregion_id_for_slot os device_slot mem_slot s = do {
     (ret, rid, s) \<leftarrow> cuddl_get_memregion_id_for_slot os (stack_id os s) device_slot mem_slot s;
     Some (value_or_throw ret (''get_memregion_id_for_slot'' @ '' for cuddl device_slot:'' @ dec_int device_slot @
       '', mem_slot:'' @ dec_int mem_slot) rid, s)
   }"

definition get_eventsrc_id_for_slot ::
  "'s posix \<Rightarrow> c_int \<Rightarrow> c_int \<Rightarrow> 's \<Rightarrow> (cuddl_resource_id or_throws \<times> 's) option" where
  "get_eventsrc_id_for_slot os device_slot event_slot s = do {
     (ret, rid, s) \<leftarrow> cuddl_get_eventsrc_id_for_slot os (stack_id os s) device_slot event_slot s;
     Some (value_or_throw ret (''get_eventsrc_id_for_slot'' @ '' for cuddl device_slot:'' @ dec_int device_slot @
       '', event_slot:'' @ dec_int event_slot) rid, s)
   }"

definition get_memregion_info_for_id ::
  "'s posix \<Rightarrow> cuddl_resource_id \<Rightarrow> 's \<Rightarrow> (cuddl_memregion_info or_throws \<times> 's) option" where
  "get_memregion_info_for_id os rid s = do {
     (ret, info, s) \<leftarrow> cuddl_get_memregion_info_for_id os (stack_meminfo os s) rid s;
     r \<leftarrow> value_or_throw_id ret ''get_memregion_info_for_id'' rid (Some info);
     Some (r, s)
   }"

definition get_eventsrc_info_for_id ::
  "'s posix \<Rightarrow> cuddl_resource_id \<Rightarrow> 's \<Rightarrow> (cuddl_eventsrc_info or_throws \<times> 's) option" where
  "get_eventsrc_info_for_id os rid s = do {
     (ret, info, s) \<leftarrow> cuddl_get_eventsrc_info_for_id os (stack_eventinfo os s) rid s;
     r \<leftarrow> value_or_throw_id ret ''get_eventsrc_info_for_id'' rid (Some info);
     Some (r, s)
   }"

definition get_memregion_ref_count_for_id :: "'s posix \<Rightarrow> cuddl_resource_id \<Rightarrow> 's \<Rightarrow> (c_int or_throws \<times> 's) option" where
  "get_memregion_ref_count_for_id os rid s = do {
     (ret, s) \<leftarrow> cuddl_get_memregion_ref_count_for_id os rid s;
     r \<leftarrow> value_or_throw_id ret ''get_memregion_ref_count_for_id'' rid (Some ret);
     Some (r, s)
   }"

definition get_eventsrc_ref_count_for_id :: "'s posix \<Rightarrow> cuddl_resource_id \<Rightarrow> 's \<Rightarrow> (c_int or_throws \<times> 's) option" where
  "get_eventsrc_ref_count_for_id os rid s = do {
     (ret, s) \<leftarrow> cuddl_get_eventsrc_ref_count_for_id os rid s;
     r \<leftarrow> value_or_throw_id ret ''get_eventsrc_ref_count_for_id'' rid (Some ret);
     Some (r, s)
   }"

definition decrement_memregion_ref_count_for_id :: "'s posix \<Rightarrow> cuddl_resource_id \<Rightarrow> 's \<Rightarrow> (c_int or_throws \<times> 's) option" where
  "decrement_memregion_ref_count_for_id os rid s = do {
     (ret, s) \<leftarrow> cuddl_decrement_memregion_ref_count_for_id os rid s;
     r \<leftarrow> value_or_throw_id ret ''decrement_memregion_ref_count_for_id'' rid (Some ret);
     Some (r, s)
   }"

definition decrement_eventsrc_ref_count_for_id :: "'s posix \<Rightarrow> cuddl_resource_id \<Rightarrow> 's \<Rightarrow> (c_int or_throws \<times> 's) option" where
  "decrement_eventsrc_ref_count_for_id os rid s = do {
     (ret, s) \<leftarrow> cuddl_decrement_eventsrc_ref_count_for_id os rid s;
     r \<leftarrow> value_or_throw_id ret ''decrement_eventsrc_ref_count_for_id'' rid (Some ret);
     Some (r, s)
   }"

definition get_driver_info_for_memregion_id :: "'s posix \<Rightarrow> cuddl_resource_id \<Rightarrow> 's \<Rightarrow> (string or_throws \<times> 's) option" where
  "get_driver_info_for_memregion_id os rid s = do {
     (ret, buf, s) \<leftarrow> cuddl_get_driver_info_for_memregion_id os (stack_text os s) MAX_STR_LEN rid s;
     r \<leftarrow> value_or_throw_id ret ''get_driver_info_for_memregion_id'' rid (array_text buf);
     Some (r, s)
   }"

definition get_driver_info_for_eventsrc_id :: "'s posix \<Rightarrow> cuddl_resource_id \<Rightarrow> 's \<Rightarrow> (string or_throws \<times> 's) option" where
  "get_driver_info_for_eventsrc_id os rid s = do {
     (ret, buf, s) \<leftarrow> cuddl_get_driver_info_for_eventsrc_id os (stack_text os s) MAX_STR_LEN rid s;
     r \<leftarrow> value_or_throw_id ret ''get_driver_info_for_eventsrc_id'' rid (array_text buf);
     Some (r, s)
   }"

definition get_hw_info_for_memregion_id :: "'s posix \<Rightarrow> cuddl_resource_id \<Rightarrow> 's \<Rightarrow> (string or_throws \<times> 's) option" where
  "get_hw_info_for_memregion_id os rid s = do {
     (ret, buf, s) \<leftarrow> cuddl_get_hw_info_for_memregion_id os (stack_text os s) MAX_STR_LEN rid s;
     r \<leftarrow> value_or_throw_id ret ''get_hw_info_for_memregion_id'' rid (array_text buf);
     Some (r, s)
   }"

definition get_hw_info_for_eventsrc_id :: "'s posix \<Rightarrow> cuddl_resource_id \<Rightarrow> 's \<Rightarrow> (string or_throws \<times> 's) option" where
  "get_hw_info_for_eventsrc_id os rid s = do {
     (ret, buf, s) \<leftarrow> cuddl_get_hw_info_for_eventsrc_id os (stack_text os s) MAX_STR_LEN rid s;
     r \<leftarrow> value_or_throw_id ret ''get_hw_info_for_eventsrc_id'' rid (array_text buf);
     Some (r, s)
   }"

end
