(* ===== verification/Cpp_Text.thy ===== *)
theory Cpp_Text
  imports Cpp_Queries User_Properties
begin

section \<open>Properties of the C++ value classes\<close>

text \<open>
  Full names of resources, printed and parsed; the order on versions; durations; the text of
  flags.
\<close>

subsection \<open>Splitting a full name\<close>

lemma str_find_in: "c \<notin> set g \<Longrightarrow> str_find (p @ g @ c # t) c (length p) = Some (length p + length g)"
  unfolding str_find_def by (rule find_upt_eqI) (auto simp: nth_append in_set_conv_nth)

lemma str_find_none: "c \<notin> set g \<Longrightarrow> str_find (p @ g) c (length p) = None"
  unfolding str_find_def by (auto simp: find_None_iff nth_append in_set_conv_nth)

lemma substr_in: "substr (p @ g @ t) (length p) (Some (length g)) = g" "substr (p @ g) (length p) None = g"
  by (simp_all add: substr_def)

text \<open>The four shapes of a full name, by the number of slashes.\<close>

lemma parse_1: "CHR ''/'' \<notin> set d \<Longrightarrow> ResourceID_of_full_name d = ResourceID_set_device (cstr d) ResourceID_zero"
  using str_find_none [of "CHR ''/''" d "[]"] by (simp add: ResourceID_of_full_name_def)

lemma parse_2:
  assumes "CHR ''/'' \<notin> set g" "CHR ''/'' \<notin> set d"
  shows "ResourceID_of_full_name (g @ ''/'' @ d) =
    ResourceID_set_device (cstr d) (ResourceID_set_group (cstr g) ResourceID_zero)"
  using str_find_in [OF assms(1), of "[]" d] str_find_none [OF assms(2), of "g @ ''/''"]
    substr_in(1) [of "[]" g "''/'' @ d"] substr_in(2) [of "g @ ''/''" d]
  by (simp add: ResourceID_of_full_name_def Let_def)

lemma parse_3:
  assumes "CHR ''/'' \<notin> set g" "CHR ''/'' \<notin> set d" "CHR ''/'' \<notin> set r"
  shows "ResourceID_of_full_name (g @ ''/'' @ d @ ''/'' @ r) =
    ResourceID_set_resource (cstr r) (ResourceID_set_device (cstr d) (ResourceID_set_group (cstr g) ResourceID_zero))"
  using str_find_in [OF assms(1), of "[]" "d @ ''/'' @ r"] str_find_in [OF assms(2), of "g @ ''/''" r]
    str_find_none [OF assms(3), of "g @ ''/'' @ d @ ''/''"]
    substr_in(1) [of "[]" g "''/'' @ d @ ''/'' @ r"] substr_in(1) [of "g @ ''/''" d "''/'' @ r"]
    substr_in(2) [of "g @ ''/'' @ d @ ''/''" r]
  by (simp add: ResourceID_of_full_name_def Let_def)

lemma parse_4:
  assumes "CHR ''/'' \<notin> set g" "CHR ''/'' \<notin> set d" "CHR ''/'' \<notin> set r"
  shows "ResourceID_of_full_name (g @ ''/'' @ d @ ''/'' @ r @ ''/'' @ i) = parse_instance i
    (ResourceID_set_resource (cstr r) (ResourceID_set_device (cstr d) (ResourceID_set_group (cstr g) ResourceID_zero)))"
  using str_find_in [OF assms(1), of "[]" "d @ ''/'' @ r @ ''/'' @ i"] str_find_in [OF assms(2), of "g @ ''/''" "r @ ''/'' @ i"]
    str_find_in [OF assms(3), of "g @ ''/'' @ d @ ''/''" i]
    substr_in(1) [of "[]" g "''/'' @ d @ ''/'' @ r @ ''/'' @ i"] substr_in(1) [of "g @ ''/''" d "''/'' @ r @ ''/'' @ i"]
    substr_in(1) [of "g @ ''/'' @ d @ ''/''" r "''/'' @ i"] substr_in(2) [of "g @ ''/'' @ d @ ''/'' @ r @ ''/''" i]
  by (simp add: ResourceID_of_full_name_def Let_def add.assoc)

subsection \<open>Printing and parsing\<close>

lemma parse_set_empty [simp]:
  "ResourceID_set_group [] ResourceID_zero = ResourceID_zero" "ResourceID_set_device [] ResourceID_zero = ResourceID_zero"
  by (simp_all add: ResourceID_set_group_def ResourceID_set_device_def ResourceID_zero_def strncpy_def
      CUDDLCI_MAX_STR_LEN_def numeral_eq_Suc)

lemma strncpy_cstr [simp]: "strncpy dst (cstr s) n = strncpy dst s n"
  by (simp add: strncpy_def cstr_take)

lemma set_cstr [simp]:
  "ResourceID_set_group (cstr g) rid = ResourceID_set_group g rid"
  "ResourceID_set_device (cstr g) rid = ResourceID_set_device g rid"
  "ResourceID_set_resource (cstr g) rid = ResourceID_set_resource g rid"
  by (simp_all add: ResourceID_set_group_def ResourceID_set_device_def ResourceID_set_resource_def)

text \<open>A name copied into a zeroed field: the first 255 characters, and always terminated.\<close>

definition field_of :: "string \<Rightarrow> string" where
  "field_of s = strncpy (replicate CUDDLCI_MAX_STR_LEN NUL) s (CUDDLCI_MAX_STR_LEN - 1)"

lemma drop_zeros: "drop (CUDDLCI_MAX_STR_LEN - 1) (replicate CUDDLCI_MAX_STR_LEN NUL) = [NUL]"
  by (simp add: CUDDLCI_MAX_STR_LEN_def)

lemma array_text_field: "array_text (field_of s) = Some (take 255 (cstr s))"
proof -
  have "field_of s = cstr (take 255 s) @ replicate (255 - length (cstr (take 255 s))) NUL @ [NUL]"
    unfolding field_of_def strncpy_def Let_def drop_zeros by (simp add: CUDDLCI_MAX_STR_LEN_def)
  then have f: "field_of s = cstr (take 255 s) @ NUL # replicate (255 - length (cstr (take 255 s))) NUL"
    by (metis replicate_append_same)
  then show ?thesis
    unfolding array_text_def by (simp add: cstr_append cstr_take set_take_cstr)
qed

lemma field_of_take: "field_of (take 255 (cstr s)) = field_of s"
  by (simp add: field_of_def strncpy_def CUDDLCI_MAX_STR_LEN_def cstr_take)

lemma of_names_fields:
  "ResourceID_of_names g d r i = \<lparr>id_group = field_of g, id_device = field_of d, id_resource = field_of r, id_instance = i\<rparr>"
  by (simp add: ResourceID_of_names_def ResourceID_set_group_def ResourceID_set_device_def ResourceID_set_resource_def
      ResourceID_set_instance_def ResourceID_zero_def field_of_def)

lemma set_all_fields:
  "ResourceID_set_resource r (ResourceID_set_device d (ResourceID_set_group g ResourceID_zero)) = ResourceID_of_names g d r 0"
  "ResourceID_set_device d (ResourceID_set_group g ResourceID_zero) = ResourceID_of_names g d [] 0"
  "ResourceID_set_device d ResourceID_zero = ResourceID_of_names [] d [] 0"
  unfolding of_names_fields
  by (simp_all add: ResourceID_set_group_def ResourceID_set_device_def ResourceID_set_resource_def
      ResourceID_zero_def field_of_def) (simp_all add: strncpy_def CUDDLCI_MAX_STR_LEN_def numeral_eq_Suc)

lemma of_names_cstr:
  "ResourceID_of_names (cstr g) d r i = ResourceID_of_names g d r i" "ResourceID_of_names g (cstr d) r i = ResourceID_of_names g d r i"
  "ResourceID_of_names g d (cstr r) i = ResourceID_of_names g d r i"
  by (simp_all add: of_names_fields field_of_def)

lemma parse_names:
  "CHR ''/'' \<notin> set d \<Longrightarrow> ResourceID_of_full_name d = ResourceID_of_names [] d [] 0"
  "CHR ''/'' \<notin> set g \<Longrightarrow> CHR ''/'' \<notin> set d \<Longrightarrow> ResourceID_of_full_name (g @ ''/'' @ d) = ResourceID_of_names g d [] 0"
  "CHR ''/'' \<notin> set g \<Longrightarrow> CHR ''/'' \<notin> set d \<Longrightarrow> CHR ''/'' \<notin> set r \<Longrightarrow>
     ResourceID_of_full_name (g @ ''/'' @ d @ ''/'' @ r) = ResourceID_of_names g d r 0"
  "CHR ''/'' \<notin> set g \<Longrightarrow> CHR ''/'' \<notin> set d \<Longrightarrow> CHR ''/'' \<notin> set r \<Longrightarrow>
     ResourceID_of_full_name (g @ ''/'' @ d @ ''/'' @ r @ ''/'' @ i) = parse_instance i (ResourceID_of_names g d r 0)"
  by (simp_all only: parse_1 set_all_fields(3) set_cstr not_False_eq_True)
    (simp_all only: parse_2 set_all_fields(2) set_cstr not_False_eq_True,
     simp_all only: parse_3 parse_4 set_all_fields(1) set_cstr of_names_cstr not_False_eq_True)

lemma full_name_of_names:
  "ResourceID_full_name (ResourceID_of_names g d r i) =
     Some (star_if_empty (take 255 (cstr g)) @ ''/'' @ star_if_empty (take 255 (cstr d)) @ ''/'' @
       star_if_empty (take 255 (cstr r)) @ ''/'' @ (if i \<noteq> 0 then dec_int i else ''*''))"
  by (simp add: ResourceID_full_name_def of_names_fields array_text_field)

lemma no_slash_take: "CHR ''/'' \<notin> set (cstr g) \<Longrightarrow> CHR ''/'' \<notin> set (take n (cstr g))"
  by (meson in_set_takeD)

lemma no_slash_star: "CHR ''/'' \<notin> set g \<Longrightarrow> CHR ''/'' \<notin> set (star_if_empty g)"
  by (simp add: star_if_empty_def)

lemma parse_instance_dec:
  assumes "- (2 ^ 31) \<le> i" "i < 2 ^ 31"
  shows "parse_instance (dec_int i) rid = rid\<lparr>id_instance := i\<rparr>"
  using stoi_dec_int [OF assms] dec_int_chars(2) [of i]
  by (simp add: parse_instance_def cstr_id ResourceID_set_instance_def)

lemma of_names_take: "ResourceID_of_names (take 255 (cstr g)) (take 255 (cstr d)) (take 255 (cstr r)) i = ResourceID_of_names g d r i"
  by (simp add: of_names_fields field_of_take)

text \<open>C34: the full name of a resource identifier reads back as the same identifier, whenever every
  part of the name is given: group, device and resource are not empty, hold no slash, and
  the instance is a number other than zero. Names that are too long for their fields are
  cut once, when the identifier is made.\<close>

theorem full_name_roundtrip:
  assumes "cstr g \<noteq> []" "cstr d \<noteq> []" "cstr r \<noteq> []"
    and "CHR ''/'' \<notin> set (cstr g)" "CHR ''/'' \<notin> set (cstr d)" "CHR ''/'' \<notin> set (cstr r)"
    and "i \<noteq> 0" "- (2 ^ 31) \<le> i" "i < 2 ^ 31"
  shows "map_option ResourceID_of_full_name (ResourceID_full_name (ResourceID_of_names g d r i)) =
    Some (ResourceID_of_names g d r i)"
proof -
  have n: "ResourceID_full_name (ResourceID_of_names g d r i) =
      Some (take 255 (cstr g) @ ''/'' @ take 255 (cstr d) @ ''/'' @ take 255 (cstr r) @ ''/'' @ dec_int i)"
    using assms(1-3,7) unfolding full_name_of_names by (simp add: star_if_empty_def)
  have "ResourceID_of_full_name (take 255 (cstr g) @ ''/'' @ take 255 (cstr d) @ ''/'' @ take 255 (cstr r) @ ''/'' @ dec_int i) =
      (ResourceID_of_names (take 255 (cstr g)) (take 255 (cstr d)) (take 255 (cstr r)) 0)\<lparr>id_instance := i\<rparr>"
    using assms(4-6,8,9) by (simp only: parse_names(4) no_slash_take parse_instance_dec not_False_eq_True)
  then show ?thesis unfolding n by (simp add: of_names_take) (simp add: of_names_fields)
qed

theorem full_name_roundtrip_witness:
  "map_option ResourceID_of_full_name (ResourceID_full_name (ResourceID_of_names ''mfg'' ''card'' ''regs'' (- 3))) =
     Some (ResourceID_of_names ''mfg'' ''card'' ''regs'' (- 3))"
  by (rule full_name_roundtrip) simp_all

text \<open>C35: a full name selects what its parts select. One part names a device, two a group and a
  device, three also the resource, and a fourth the instance; a part that is left out, or
  left empty, is a wildcard in the search of the kernel, and an instance that is not a
  number becomes \<open>-1\<close>. Parts of at most 254 characters reach the kernel as they are.\<close>

theorem full_name_selects:
  assumes "CHR ''/'' \<notin> set g" "CHR ''/'' \<notin> set d" "CHR ''/'' \<notin> set r"
    and "length g < 255" "length d < 255" "length r < 255"
    and "id_group stack \<noteq> []" "id_device stack \<noteq> []" "id_resource stack \<noteq> []"
  shows "\<forall>(name, want) \<in> {(d, \<lparr>id_group = [], id_device = d, id_resource = [], id_instance = 0\<rparr>),
       (g @ ''/'' @ d, \<lparr>id_group = g, id_device = d, id_resource = [], id_instance = 0\<rparr>),
       (g @ ''/'' @ d @ ''/'' @ r, \<lparr>id_group = g, id_device = d, id_resource = r, id_instance = 0\<rparr>),
       (g @ ''/'' @ d @ ''/'' @ r @ ''/'' @ t, \<lparr>id_group = g, id_device = d, id_resource = r,
          id_instance = (if t = [] then 0 else case stoi (cstr t) of Some v \<Rightarrow> v | None \<Rightarrow> - 1)\<rparr>)}.
     let rid = ResourceID_of_full_name name;
         sent = populate_id_from_args stack (Some (id_group rid)) (Some (id_device rid)) (Some (id_resource rid)) (id_instance rid)
     in lookup_memregion st sent = lookup_memregion st want \<and> lookup_eventsrc st sent = lookup_eventsrc st want"
proof -
  have sent: "names_agree (populate_id_from_args stack (Some (id_group rid)) (Some (id_device rid)) (Some (id_resource rid)) (id_instance rid))
      \<lparr>id_group = g, id_device = d, id_resource = r, id_instance = i\<rparr>"
    if rid: "rid = ResourceID_of_names g d r i" and l: "length g < 255" "length d < 255" "length r < 255" for rid g d r i
  proof -
    have c: "cstr (field_of s) = cstr s" "length (cstr s) < 255" if "length s < 255" for s
      using that length_cstr_le [of s] by (simp_all add: field_of_def cstr_strncpy CUDDLCI_MAX_STR_LEN_def)
    have p: "cstr (populate_name f (Some (field_of s))) = cstr s" if "length s < 255" "f \<noteq> []" for f s
      using c [OF that(1)] that(2) by (subst cstr_populate_name) (simp_all add: asked_def CUDDLCI_MAX_STR_LEN_def)
    show ?thesis using p l assms(7-9) by (simp add: rid names_agree_def populate_id_from_args_def of_names_fields)
  qed
  have names: "ResourceID_of_full_name d = ResourceID_of_names [] d [] 0"
    "ResourceID_of_full_name (g @ ''/'' @ d) = ResourceID_of_names g d [] 0"
    "ResourceID_of_full_name (g @ ''/'' @ d @ ''/'' @ r) = ResourceID_of_names g d r 0"
    "ResourceID_of_full_name (g @ ''/'' @ d @ ''/'' @ r @ ''/'' @ t) =
       ResourceID_of_names g d r (if t = [] then 0 else case stoi (cstr t) of Some v \<Rightarrow> v | None \<Rightarrow> - 1)"
  proof -
    have "parse_instance t (ResourceID_of_names g d r 0) =
        ResourceID_of_names g d r (if t = [] then 0 else case stoi (cstr t) of Some v \<Rightarrow> v | None \<Rightarrow> - 1)"
      by (simp add: parse_instance_def of_names_fields ResourceID_set_instance_def)
    then show "ResourceID_of_full_name (g @ ''/'' @ d @ ''/'' @ r @ ''/'' @ t) =
       ResourceID_of_names g d r (if t = [] then 0 else case stoi (cstr t) of Some v \<Rightarrow> v | None \<Rightarrow> - 1)"
      using parse_names(4) [OF assms(1-3), of t] by simp
  qed (use assms(1-3) in \<open>simp_all only: parse_names not_False_eq_True\<close>)
  have look: "lookup_memregion st (populate_id_from_args stack (Some (id_group rid)) (Some (id_device rid)) (Some (id_resource rid)) (id_instance rid)) =
      lookup_memregion st \<lparr>id_group = g, id_device = d, id_resource = r, id_instance = i\<rparr> \<and>
    lookup_eventsrc st (populate_id_from_args stack (Some (id_group rid)) (Some (id_device rid)) (Some (id_resource rid)) (id_instance rid)) =
      lookup_eventsrc st \<lparr>id_group = g, id_device = d, id_resource = r, id_instance = i\<rparr>"
    if "rid = ResourceID_of_names g d r i" "length g < 255" "length d < 255" "length r < 255" for rid g d r i
    using lookup_names [OF sent [OF that]] by blast
  show ?thesis
    using look [OF names(1)] look [OF names(2)] look [OF names(3)] look [OF names(4)] assms(4-6) by (simp add: Let_def)
qed

theorem full_name_selects_witness:
  "let rid = ResourceID_of_full_name ''mfg/card/regs/1''; sent = populate_id_from_args sample_stack_id
       (Some (id_group rid)) (Some (id_device rid)) (Some (id_resource rid)) (id_instance rid)
     in \<exists>m. lookup_memregion sample_state sent = Some (0, 0, m)"
proof -
  have i: "(if ''1'' = [] then 0 else case stoi (cstr ''1'') of Some v \<Rightarrow> v | None \<Rightarrow> - 1) = 1"
    by (simp add: stoi_def split_sign_def is_space_def is_digit_def digit_val_def digits_val_def)
  have e: "id_group sample_stack_id \<noteq> []" "id_device sample_stack_id \<noteq> []" "id_resource sample_stack_id \<noteq> []"
    by (simp_all add: sample_stack_id_def)
  from full_name_selects [of "''mfg''" "''card''" "''regs''" sample_stack_id "''1''" sample_state, OF _ _ _ _ _ _ e] sample_lookup
  show ?thesis unfolding i by (auto simp: Let_def sample_id_def)
qed

text \<open>A full name that was printed with a wildcard does not read back: the asterisk of the
  instance becomes \<open>-1\<close> and an asterisk in the place of a name is taken as the name
  itself. So an identifier without an instance, printed and parsed, selects no region and
  no event source of the kernel as long as no device has the instance \<open>-1\<close>.\<close>

theorem printed_wildcard_selects_nothing:
  assumes "CHR ''/'' \<notin> set (cstr g)" "CHR ''/'' \<notin> set (cstr d)" "CHR ''/'' \<notin> set (cstr r)"
    and "\<And>i dev. i < CUDDLK_MAX_MANAGED_DEVICES \<Longrightarrow> managed_device st i = Some dev \<Longrightarrow> d_instance dev \<noteq> - 1"
  shows "\<exists>name rid. ResourceID_full_name (ResourceID_of_names g d r 0) = Some name \<and> ResourceID_of_full_name name = rid \<and>
    id_instance rid = - 1 \<and> lookup_memregion st rid = None \<and> lookup_eventsrc st rid = None"
proof -
  define star where "star s = star_if_empty (take 255 (cstr s))" for s
  have n: "CHR ''/'' \<notin> set (star g)" "CHR ''/'' \<notin> set (star d)" "CHR ''/'' \<notin> set (star r)"
    using assms(1-3) by (simp_all only: star_def no_slash_star no_slash_take not_False_eq_True)
  have name: "ResourceID_full_name (ResourceID_of_names g d r 0) =
      Some (star g @ ''/'' @ star d @ ''/'' @ star r @ ''/'' @ ''*'')"
    by (simp add: full_name_of_names star_def)
  let ?rid = "ResourceID_of_full_name (star g @ ''/'' @ star d @ ''/'' @ star r @ ''/'' @ ''*'')"
  have "?rid = parse_instance ''*'' (ResourceID_of_names (star g) (star d) (star r) 0)"
    by (rule parse_names(4) [OF n])
  then have i: "id_instance ?rid = - 1"
    by (simp add: parse_instance_def ResourceID_set_instance_def stoi_def split_sign_def is_space_def is_digit_def digit_val_def)
  have "matching_slot st (Some (id_group ?rid)) (Some (id_device ?rid)) (Some (id_resource ?rid)) (- 1) t 0 = None" for t
    using assms(4) unfolding matching_slot_def find_None_iff
    by (auto simp: slot_matches_def device_matches_def split: option.split)
  with name i show ?thesis by (auto simp: lookup_memregion_def lookup_eventsrc_def)
qed

lemma sample_instances: "i < CUDDLK_MAX_MANAGED_DEVICES \<Longrightarrow> managed_device sample_state i = Some dev \<Longrightarrow> d_instance dev \<noteq> - 1"
proof -
  assume "i < CUDDLK_MAX_MANAGED_DEVICES" and m: "managed_device sample_state i = Some dev"
  then have "i = 0"
    by (auto simp: managed_device_def sample_state_facts(4) nth_list_update split: if_splits)
  moreover obtain d where "managed_device sample_state 0 = Some d" "d_instance d = 1" by (rule sample_contents)
  ultimately show ?thesis using m by simp
qed

theorem printed_wildcard_selects_nothing_witness:
  "\<exists>name rid. ResourceID_full_name (ResourceID_of_names [] ''card'' [] 0) = Some name \<and> ResourceID_of_full_name name = rid \<and>
    id_instance rid = - 1 \<and> lookup_memregion sample_state rid = None \<and> lookup_eventsrc sample_state rid = None"
  by (rule printed_wildcard_selects_nothing [OF _ _ _ sample_instances]) simp_all

subsection \<open>Versions\<close>

lemma version_parts:
  assumes "0 \<le> minor" "minor < 256" "0 \<le> revision" "revision < 256"
  shows "Version_major (Version_of major minor revision) = major" "Version_minor (Version_of major minor revision) = minor"
    "Version_revision (Version_of major minor revision) = revision"
proof -
  have m: "(0xffff :: int) = mask 16" "(0xff :: int) = mask 8" by (simp_all add: mask_eq_exp_minus_1)
  have c: "CUDDLCI_VERSION major minor revision = 65536 * major + (256 * minor + revision)"
    using CUDDLCI_VERSION_sum [OF assms] by simp
  have "(65536 * major + (256 * minor + revision)) div 65536 = major"
    "(65536 * major + (256 * minor + revision)) mod 65536 div 256 = minor"
    "(65536 * major + (256 * minor + revision)) mod 256 = revision"
  proof -
    have r: "(65536 * major + (256 * minor + revision)) mod 65536 = 256 * minor + revision"
      using assms by (simp add: mod_pos_pos_trivial)
    show "(65536 * major + (256 * minor + revision)) div 65536 = major"
      using assms by (simp add: div_pos_pos_trivial)
    show "(65536 * major + (256 * minor + revision)) mod 65536 div 256 = minor" unfolding r using assms by simp
    have "65536 * major + (256 * minor + revision) = revision + 256 * (256 * major + minor)" by simp
    then show "(65536 * major + (256 * minor + revision)) mod 256 = revision"
      using assms by (simp only: mod_mult_self2) simp
  qed
  then show "Version_major (Version_of major minor revision) = major" "Version_minor (Version_of major minor revision) = minor"
    "Version_revision (Version_of major minor revision) = revision"
    by (simp_all add: Version_major_def Version_minor_def Version_revision_def Version_of_def c
        CUDDLCI_MAJOR_VERSION_FROM_CODE_def CUDDLCI_MINOR_VERSION_FROM_CODE_def CUDDLCI_REVISION_LEVEL_FROM_CODE_def
        m take_bit_eq_mask [symmetric] take_bit_eq_mod drop_bit_eq_div)
qed

lemma version_code_parts:
  "CUDDLCI_VERSION (CUDDLCI_MAJOR_VERSION_FROM_CODE c) (CUDDLCI_MINOR_VERSION_FROM_CODE c) (CUDDLCI_REVISION_LEVEL_FROM_CODE c) = c"
proof (rule bit_eqI)
  fix n
  have m: "(0xffff :: int) = mask 16" "(0xff :: int) = mask 8" by (simp_all add: mask_eq_exp_minus_1)
  show "bit (CUDDLCI_VERSION (CUDDLCI_MAJOR_VERSION_FROM_CODE c) (CUDDLCI_MINOR_VERSION_FROM_CODE c)
      (CUDDLCI_REVISION_LEVEL_FROM_CODE c)) n = bit c n"
    unfolding CUDDLCI_VERSION_def CUDDLCI_MAJOR_VERSION_FROM_CODE_def CUDDLCI_MINOR_VERSION_FROM_CODE_def
      CUDDLCI_REVISION_LEVEL_FROM_CODE_def m
    by (cases "n < 8"; cases "n < 16") (simp_all add: bit_simps not_less)
qed

lemma Version_operators:
  "Version_eq v w \<longleftrightarrow> v = w" "Version_neq v w \<longleftrightarrow> v \<noteq> w"
  "Version_greater v w \<longleftrightarrow> w < v" "Version_greater_eq v w \<longleftrightarrow> w \<le> v"
  by (auto simp: Version_eq_def Version_neq_def Version_greater_def Version_greater_eq_def less_Version_def
      less_eq_Version_def Version_less_def Version_less_eq_def Version.expand)

text \<open>Versions compare like their parts. With a minor number and a revision of one byte each the
  three getters return what the version was made of, and the comparison of codes is the
  lexicographic order of major, minor and revision. The six comparison operators are the
  equality and the two directions of that order.\<close>

theorem version_order_lexicographic:
  assumes "0 \<le> minor" "minor < 256" "0 \<le> revision" "revision < 256"
    and "0 \<le> minor'" "minor' < 256" "0 \<le> revision'" "revision' < 256"
  shows "(Version_of major minor revision < Version_of major' minor' revision' \<longleftrightarrow>
      major < major' \<or> major = major' \<and> (minor < minor' \<or> minor = minor' \<and> revision < revision')) \<and>
    Version_major (Version_of major minor revision) = major \<and> Version_minor (Version_of major minor revision) = minor \<and>
    Version_revision (Version_of major minor revision) = revision \<and>
    Version_of (Version_major v) (Version_minor v) (Version_revision v) = v \<and>
    (Version_eq v w \<longleftrightarrow> v = w) \<and> (Version_neq v w \<longleftrightarrow> v \<noteq> w) \<and>
    (Version_greater v w \<longleftrightarrow> w < v) \<and> (Version_greater_eq v w \<longleftrightarrow> w \<le> v)"
proof (intro conjI)
  show "Version_of major minor revision < Version_of major' minor' revision' \<longleftrightarrow>
      major < major' \<or> major = major' \<and> (minor < minor' \<or> minor = minor' \<and> revision < revision')"
    using assms by (auto simp: less_Version_def Version_less_def Version_of_def CUDDLCI_VERSION_sum)
  show "Version_of (Version_major v) (Version_minor v) (Version_revision v) = v"
    by (cases v) (simp add: Version_of_def Version_major_def Version_minor_def Version_revision_def version_code_parts)
qed (use version_parts assms in \<open>simp_all add: Version_operators\<close>)

theorem version_order_lexicographic_witness:
  "Version_of 1 2 9 < Version_of 1 10 0 \<and> \<not> Version_of 2 0 0 < Version_of 1 255 255"
  using version_order_lexicographic [of 2 9 10 0 1 1] version_order_lexicographic [of 0 0 255 255 2 1] by simp


subsection \<open>Durations\<close>

lemma sdiv_split:
  fixes t n :: int
  assumes "0 < n"
  shows "t sdiv n * n + (t - t sdiv n * n) = t" "\<bar>t - t sdiv n * n\<bar> < n"
    "0 \<le> t \<Longrightarrow> 0 \<le> t sdiv n \<and> 0 \<le> t - t sdiv n * n" "t \<le> 0 \<Longrightarrow> t sdiv n \<le> 0 \<and> t - t sdiv n * n \<le> 0"
proof -
  have r: "0 \<le> a - a div n * n" "a - a div n * n < n" "0 \<le> a \<Longrightarrow> 0 \<le> a div n" for a
    using assms by (simp_all add: minus_div_mult_eq_mod pos_imp_zdiv_nonneg_iff)
  have d: "t sdiv n = (if 0 \<le> t then t div n else - ((- t) div n))"
    using assms by (simp add: signed_divide_int_def sgn_if)
  show "t sdiv n * n + (t - t sdiv n * n) = t" by simp
  show "\<bar>t - t sdiv n * n\<bar> < n" using r [of t] r [of "- t"] by (simp add: d)
  show "0 \<le> t \<Longrightarrow> 0 \<le> t sdiv n \<and> 0 \<le> t - t sdiv n * n" using r [of t] by (simp add: d)
  show "t \<le> 0 \<Longrightarrow> t sdiv n \<le> 0 \<and> t - t sdiv n * n \<le> 0" using r [of "- t"] by (auto simp: d)
qed

text \<open>A timeout in nanoseconds is split into seconds and a rest below one second of the same
  sign, and what reaches \<^verbatim>\<open>select\<close> is the timeout rounded towards zero to microseconds:
  a timeout below one microsecond polls.\<close>

theorem timeout_reaches_select:
  "let ts = timespec_of_ns t; tv = timeval_of ts in
   tv_sec ts * 1000000000 + tv_nsec ts = t \<and> \<bar>tv_nsec ts\<bar> < 1000000000 \<and>
   tval_sec tv * 1000000 + tval_usec tv = t sdiv 1000 \<and> \<bar>tval_usec tv\<bar> < 1000000 \<and>
   (0 \<le> t \<longrightarrow> 0 \<le> tval_sec tv \<and> 0 \<le> tval_usec tv) \<and>
   EventSrc_timed_wait_ns os this t s = EventSrc_timed_wait os this ts s"
proof -
  let ?s = "t sdiv 1000000000"
  let ?n = "t - ?s * 1000000000"
  note a = sdiv_split [of 1000000000 t, simplified] and b = sdiv_split [of 1000 ?n, simplified] and c = sdiv_split [of 1000 t, simplified]
  have "?s * 1000000 + ?n sdiv 1000 = t sdiv 1000"
  proof (cases "0 \<le> t")
    case True
    with a(2,3) b(2,3) c(2,3) show ?thesis by linarith
  next
    case False
    then have "t \<le> 0" by simp
    with a(2,4) b(2,4) c(2,4) show ?thesis by linarith
  qed
  moreover have "\<bar>?n sdiv 1000\<bar> < 1000000" using a(2) b(2,3,4) by linarith
  ultimately show ?thesis
    using a b by (simp add: timespec_of_ns_def timeval_of_def Let_def EventSrc_timed_wait_ns_def EventSrc_timed_wait_def)
qed

subsection \<open>Flags\<close>

text \<open>The set of bits that an object of class \<^verbatim>\<open>Flags\<close> stands for.\<close>

definition flag_bits :: "Flags \<Rightarrow> nat set" where
  "flag_bits fs = {k. bit (as_int fs) k}"

lemma flag_bits_inj: "flag_bits fs = flag_bits gs \<longleftrightarrow> fs = gs"
  by (auto simp: flag_bits_def set_eq_iff Flags.expand bit_eq_iff)

text \<open>The operations on flags are those of a set of bits: setting inserts, clearing removes, the
  operators unite, and a flag is set when its bit is in the set; the number itself is
  determined by the set.\<close>

theorem flags_are_sets:
  "(Flags_is_set fs (2 ^ k) \<longleftrightarrow> k \<in> flag_bits fs) \<and>
   flag_bits (Flags_set fs (2 ^ k)) = insert k (flag_bits fs) \<and>
   flag_bits (Flags_clear fs (2 ^ k)) = flag_bits fs - {k} \<and>
   flag_bits (Flags_set_all fs gs) = flag_bits fs \<union> flag_bits gs \<and>
   flag_bits (Flags_clear_all fs gs) = flag_bits fs - flag_bits gs \<and>
   flag_bits (Flags_or_assign_flag fs (2 ^ k)) = insert k (flag_bits fs) \<and>
   flag_bits (Flags_or_assign fs gs) = flag_bits fs \<union> flag_bits gs \<and>
   flag_bits (Flags_or fs gs) = flag_bits fs \<union> flag_bits gs \<and>
   flag_bits (Flags_or_flag fs (2 ^ k)) = insert k (flag_bits fs) \<and>
   flag_bits (flag_or_Flags (2 ^ k) fs) = insert k (flag_bits fs) \<and>
   flag_bits (flag_or_flag (2 ^ j) (2 ^ k)) = {j, k} \<and>
   (flag_bits fs = flag_bits gs \<longleftrightarrow> fs = gs)"
proof (intro conjI)
  show "Flags_is_set fs (2 ^ k) \<longleftrightarrow> k \<in> flag_bits fs"
    by (simp add: Flags_is_set_def flag_bits_def and_exp_eq_0_iff_not_bit)
  show "flag_bits fs = flag_bits gs \<longleftrightarrow> fs = gs" by (rule flag_bits_inj)
qed (auto simp: flag_bits_def Flags_set_def Flags_clear_def Flags_set_all_def Flags_clear_all_def Flags_or_def
    Flags_or_assign_flag_def Flags_or_assign_def
    Flags_or_flag_def flag_or_Flags_def flag_or_flag_def bit_simps)

lemma printed_flags_distinct: "distinct (map (\<lambda>n. show_EventSrcFlags (Flags (int n))) [0..<32])"
  by code_simp

text \<open>What the output operator writes for the flags of an event source identifies them.\<close>

lemma printed_flags_identify:
  assumes "0 \<le> a" "a < 32" "0 \<le> b" "b < 32" "show_EventSrcFlags (Flags a) = show_EventSrcFlags (Flags b)"
  shows "a = b"
proof -
  have "inj_on (\<lambda>n. show_EventSrcFlags (Flags (int n))) (set [0..<32])"
    using printed_flags_distinct by (simp add: distinct_map)
  then have "nat a = nat b" by (rule inj_onD) (use assms in auto)
  with assms(1,3) show ?thesis by simp
qed

subsection \<open>Commits\<close>

lemma unat_MAX_STR_LEN: "unat MAX_STR_LEN = 256"
  by (simp add: MAX_STR_LEN_def CUDDLCI_MAX_STR_LEN_def)

lemma array_text_cstr: "length (cstr buf) < length buf \<Longrightarrow> array_text buf = Some (cstr buf)"
proof -
  assume l: "length (cstr buf) < length buf"
  have "NUL \<in> set buf"
  proof (rule ccontr)
    assume "NUL \<notin> set buf"
    then have "cstr buf = buf" by (rule cstr_id)
    with l show False by simp
  qed
  then show ?thesis by (simp add: array_text_def)
qed

lemma strncat_terminated: "NUL \<in> set (strncat dst src n)"
  by (simp add: strncat_def Let_def)

lemma userspace_commit_terminated:
  assumes "0 < unat len" "length buf = unat len"
  shows "NUL \<in> set (snd (cuddl_get_userspace_commit_id ucfg buf len))"
proof -
  have "0 < len" "NUL \<in> set (buf[0 := NUL])"
    using assms by (simp_all add: word_less_nat_alt set_update_memI)
  then show ?thesis
    by (auto simp: cuddl_get_userspace_commit_id_def Let_def intro: strncat_terminated)
qed

lemma userspace_commit:
  assumes "length (stack_text os s) = 256"
  shows "get_userspace_commit_id cfg os s = Some (Inr (commit_text (u_commit_hash cfg) (u_repo_is_dirty cfg) 256), s)"
proof -
  have "fst (cuddl_get_userspace_commit_id cfg buf len) = 0" for buf len
    by (simp add: cuddl_get_userspace_commit_id_def Let_def)
  moreover have "array_text (snd (cuddl_get_userspace_commit_id cfg (stack_text os s) MAX_STR_LEN)) =
      Some (commit_text (u_commit_hash cfg) (u_repo_is_dirty cfg) 256)"
    using userspace_commit_terminated [of MAX_STR_LEN "stack_text os s" cfg] commit_id_content [of MAX_STR_LEN "stack_text os s" cfg] assms
    by (simp add: array_text_def unat_MAX_STR_LEN)
  ultimately show ?thesis
    by (simp add: get_userspace_commit_id_def case_prod_unfold)
qed

text \<open>The two commits that the C++ interface returns. When the library and the kernel module were
  built from the same tree, \<^verbatim>\<open>get_kernel_commit_id\<close> and \<^verbatim>\<open>get_userspace_commit_id\<close> return the
  same string, the text of the commit cut to 255 characters: neither reads behind the array
  of 256 bytes into which the C functions write, whatever was in it before.\<close>

theorem cpp_commits_agree:
  assumes "u_commit_hash ucfg = commit_hash cfg" "u_repo_is_dirty ucfg = repo_is_dirty cfg"
    and "length (garbage_text s) = 256" "\<not> k_locked (kern s)" "lowest_fd (files s) < FD_SETSIZE"
    and "ce_open (ahead s 0) = None" "served s 1" "ce_close (ahead s 2) = None"
  shows "get_userspace_commit_id ucfg (linux_posix cfg) s = Some (Inr (commit_text (commit_hash cfg) (repo_is_dirty cfg) 256), s) \<and>
    (\<exists>s'. get_kernel_commit_id (linux_posix cfg) s = Some (Inr (commit_text (commit_hash cfg) (repo_is_dirty cfg) 256), s') \<and>
       kern s' = kern s \<and> files s' = files s)"
proof
  show "get_userspace_commit_id ucfg (linux_posix cfg) s = Some (Inr (commit_text (commit_hash cfg) (repo_is_dirty cfg) 256), s)"
    using userspace_commit [of "linux_posix cfg" s ucfg] assms(1-3) by simp
next
  define commit where "commit = snd (cuddlk_get_commit_id cfg (garbage_text s) (of_nat CUDDLCI_MAX_STR_LEN))"
  let ?req = "Commit_Id_Data \<lparr>ci_version_code = CUDDL_VERSION_CODE, ci_id_str = garbage_text s\<rparr>"
  let ?out = "Commit_Id_Data \<lparr>ci_version_code = CUDDL_VERSION_CODE, ci_id_str = commit\<rparr>"
  let ?env = "request_env s 1 ?req" and ?cmd = CUDDLCI_GET_KERNEL_COMMIT_ID_IOCTL
  have "commit_id_case cfg ?env (set_mutex True (kern s)) = Some (0, Some ?out, set_mutex True (kern s))"
    using assms(7) by (simp add: commit_id_case_def with_user_data_def request_env_def copied_in_def served_def
        copy_result_def all_succeed_def commit_def)
  moreover have "\<forall>n < 10. kz_ok ?env n" using assms(7) by (simp add: request_env_def copied_in_def served_def all_succeed_def)
  ultimately have "cuddlk_manager_ioctl cfg ?env ?cmd (kern s) = Some (0, Some ?out, set_mutex False (set_mutex True (kern s)))"
    using assms(4) by (intro ioctl_runs_command) (simp_all add: manager_command_def)
  moreover have "set_mutex False (set_mutex True (kern s)) = kern s" using assms(4) by (simp add: set_mutex_def)
  ultimately have "cuddlk_manager_ioctl cfg ?env ?cmd (kern s) = Some (0, Some ?out, kern s)" by simp
  from linux_data_call [OF assms(6,5) this] assms(8)
  have call: "manager_data_call (linux_posix cfg) ?cmd ?req s = Some (0, Some ?out, advance 3 s)"
    by (simp add: close_error_def)
  have t: "cstr commit = commit_text (commit_hash cfg) (repo_is_dirty cfg) 256"
  proof -
    have "commit = snd (cuddl_get_userspace_commit_id ucfg (garbage_text s) MAX_STR_LEN)"
      unfolding commit_def MAX_STR_LEN_def cuddl_get_userspace_commit_id_def cuddlk_get_commit_id_def assms(1,2) ..
    then show ?thesis using commit_id_content [of MAX_STR_LEN "garbage_text s" ucfg] assms(1-3) by (simp add: unat_MAX_STR_LEN)
  qed
  then have l: "length (cstr commit) < 256" by (simp add: commit_text_def)
  have "array_text (strncpy (garbage_text s) commit 256) = Some (cstr commit)"
  proof -
    have "strncpy (garbage_text s) commit 256 = cstr commit @ NUL # replicate (255 - length (cstr commit)) NUL"
    proof -
      from l have "256 - length (cstr commit) = Suc (255 - length (cstr commit))" by simp
      then show ?thesis using assms(3) l by (simp add: strncpy_def Let_def cstr_take)
    qed
    then show ?thesis by (simp add: array_text_def cstr_append)
  qed
  with call t show "\<exists>s'. get_kernel_commit_id (linux_posix cfg) s = Some (Inr (commit_text (commit_hash cfg) (repo_is_dirty cfg) 256), s') \<and>
       kern s' = kern s \<and> files s' = files s"
    by (simp add: get_kernel_commit_id_def cuddl_get_kernel_commit_id_def copy_text_def unat_MAX_STR_LEN CUDDLCI_MAX_STR_LEN_def)
qed

theorem cpp_commits_agree_witness:
  "get_userspace_commit_id \<lparr>xeno = False, u_commit_hash = ''0123abc'', u_repo_is_dirty = False\<rparr> (linux_posix sample_cfg)
      (sample_linux (\<lambda>_. good_call) sample_state) = Some (Inr ''0123abc'', sample_linux (\<lambda>_. good_call) sample_state) \<and>
   (\<exists>s'. get_kernel_commit_id (linux_posix sample_cfg) (sample_linux (\<lambda>_. good_call) sample_state) = Some (Inr ''0123abc'', s'))"
proof -
  let ?s = "sample_linux (\<lambda>_. good_call) sample_state" and ?u = "\<lparr>xeno = False, u_commit_hash = ''0123abc'', u_repo_is_dirty = False\<rparr>"
  have h: "u_commit_hash ?u = commit_hash sample_cfg" "u_repo_is_dirty ?u = repo_is_dirty sample_cfg"
    "length (garbage_text ?s) = 256" "\<not> k_locked (kern ?s)" "lowest_fd (files ?s) < FD_SETSIZE"
    "ce_open (ahead ?s 0) = None" "served ?s 1" "ce_close (ahead ?s 2) = None"
    using sample_served [of "\<lambda>_. good_call" 1] sample_state_facts(3)
    by (simp_all add: sample_cfg_def) (simp add: sample_linux_def sample_garbage_def CUDDLCI_MAX_STR_LEN_def)
  from cpp_commits_agree [OF h] show ?thesis by (auto simp: commit_text_def sample_cfg_def)
qed

end
