(* ===== verification/Cpp_Lifetime.thy ===== *)
theory Cpp_Lifetime
  imports Cpp_Text
begin

section \<open>Properties of the C++ objects that own resources\<close>

text \<open>
  A constructor either throws, and then nothing is held, or makes an object that holds one
  descriptor and one claim, which its destructor gives back. The contract that this needs of
  the system is \<open>small_files\<close> and one more promise: a request for a claim never has a
  positive result. The kernel modules keep it.
\<close>

subsection \<open>Requests for claims have no positive result\<close>

definition is_claim :: "ioctl_cmd \<Rightarrow> bool" where
  "is_claim cmd \<longleftrightarrow> cmd \<in> {CUDDLCI_MEMREGION_CLAIM_UIO_IOCTL, CUDDLCI_MEMREGION_CLAIM_UDD_IOCTL,
     CUDDLCI_EVENTSRC_CLAIM_UIO_IOCTL, CUDDLCI_EVENTSRC_CLAIM_UDD_IOCTL}"

lemma is_claim_cmds [simp]: "is_claim (CUDDLCI_MEMREGION_CLAIM_IOCTL cfg)" "is_claim (CUDDLCI_EVENTSRC_CLAIM_IOCTL cfg)"
  by (simp_all add: is_claim_def user_cmd_defs)

definition no_success :: "ioctl_result \<Rightarrow> bool" where
  "no_success res \<longleftrightarrow> (\<forall>ret out st. res = Some (ret, out, st) \<longrightarrow> ret \<le> 0)"

lemma no_success_simps [simp]: "no_success None" "no_success (Some (ret, out, st)) \<longleftrightarrow> ret \<le> 0"
  by (simp_all add: no_success_def)

lemma no_success_bind: "(\<And>x. r = Some x \<Longrightarrow> no_success (f x)) \<Longrightarrow> no_success (Option.bind r f)"
  by (cases r) simp_all

lemma no_success_claim_found:
  "no_success (memregion_claim_found cfg env rt True md st i j p d)"
  "no_success (eventsrc_claim_found env rt True ed st i j p d)"
  by (auto simp: no_success_def memregion_claim_found_def eventsrc_claim_found_def memregion_claim_def eventsrc_claim_def
      bind_eq_Some_conv Let_def split: if_splits)

lemma no_success_claim_case:
  "no_success (memregion_claim_case cfg env rt True st)" "no_success (eventsrc_claim_case env rt True st)"
  unfolding memregion_claim_case_def eventsrc_claim_case_def with_user_data_def with_memregion_def with_eventsrc_def
  by (auto intro!: no_success_bind simp: no_success_claim_found split: option.split)

lemma claim_never_positive:
  assumes "is_claim cmd" "cuddlk_manager_ioctl cfg env cmd st = Some (ret, out, st')"
  shows "ret \<le> 0"
proof -
  have "no_success (manager_command cfg env cmd st)" for st
    using assms(1) by (auto simp: is_claim_def manager_command_def no_success_claim_case)
  then have "no_success (cuddlk_manager_ioctl cfg env cmd st)"
    unfolding cuddlk_manager_ioctl_def
    by (auto intro!: no_success_bind simp: no_success_def bind_eq_Some_conv split: sum.split)
  with assms(2) show ?thesis by simp
qed

subsection \<open>The contract\<close>

locale claiming_files = small_files +
  assumes claim_result: "fine s \<Longrightarrow> is_claim cmd \<Longrightarrow> sys_ioctl os fd cmd p s = Some (ret, errno, p', s') \<Longrightarrow>
    ret \<le> 0 \<and> 0 \<le> errno"
begin

lemma claim_call_result:
  assumes "fine s" "is_claim cmd" "manager_data_call os cmd p s = Some (ret, out, s')"
  shows "ret \<le> 0"
proof -
  from open_file [OF assms(1), of "''/dev/cuddl''"] obtain fd e s1 where
    o: "sys_open os ''/dev/cuddl'' s = Some (fd, e, s1)"
    "fd = - 1 \<and> 0 < e \<and> leaves open_fds fine (open_fds s) s1 \<or>
     0 \<le> fd \<and> fd \<notin> open_fds s \<and> leaves open_fds fine (insert fd (open_fds s)) s1" by blast
  show ?thesis
  proof (cases "fd = - 1")
    case True
    with o assms(3) show ?thesis by (auto simp: manager_data_call_def)
  next
    case False
    with o(2) have fd: "fine s1" "open_fds s1 = insert fd (open_fds s)" by (auto simp: leaves_def)
    then obtain r e2 p' s2 where i: "sys_ioctl os fd cmd p s1 = Some (r, e2, p', s2)"
      "fine s2" "open_fds s2 = insert fd (open_fds s)"
      using ioctl_file [of s1 fd cmd p] by (auto simp: leaves_def)
    then obtain r3 e3 s3 where c: "sys_close os fd s2 = Some (r3, e3, s3)" "r3 = 0 \<or> r3 = - 1 \<and> 0 < e3"
      using close_file [of s2 fd] by auto
    from claim_result [OF fd(1) assms(2) i(1)] show ?thesis
      using o(1) False i(1) c assms(3) by (auto simp: manager_data_call_def Let_def split: if_splits)
  qed
qed

lemma claim_value:
  assumes "fine s" "cuddl_memregion_claim cfg os mi g d r i copts s = Some (ret, mi', s')"
  shows "ret \<le> 0"
proof -
  define req where "req = Mem_Claim_Data \<lparr>mc_version_code = CUDDL_VERSION_CODE,
    mc_id = populate_id_from_args (stack_id os s) g d r i, mc_info = stack_meminfo os s, mc_pid = sys_getpid os s, mc_options = copts\<rparr>"
  from data_call_total [OF assms(1), of "CUDDLCI_MEMREGION_CLAIM_IOCTL cfg" req] obtain r1 out s1 where
    call: "manager_data_call os (CUDDLCI_MEMREGION_CLAIM_IOCTL cfg) req s = Some (r1, out, s1)" by blast
  have "r1 \<le> 0" by (rule claim_call_result [OF assms(1) _ call]) simp
  moreover from assms(2) call have "ret = r1"
    by (simp add: cuddl_memregion_claim_def req_def [symmetric] split: option.splits ioctl_payload.splits)
  ultimately show ?thesis by simp
qed

lemma event_claim_value:
  assumes "fine s" "cuddl_eventsrc_claim cfg os ei g d r i copts s = Some (ret, ei', s')"
  shows "ret \<le> 0"
proof -
  define req where "req = Event_Claim_Data \<lparr>ec_version_code = CUDDL_VERSION_CODE,
    ec_id = populate_id_from_args (stack_id os s) g d r i, ec_info = stack_eventinfo os s, ec_pid = sys_getpid os s, ec_options = copts\<rparr>"
  from data_call_total [OF assms(1), of "CUDDLCI_EVENTSRC_CLAIM_IOCTL cfg" req] obtain r1 out s1 where
    call: "manager_data_call os (CUDDLCI_EVENTSRC_CLAIM_IOCTL cfg) req s = Some (r1, out, s1)" by blast
  have "r1 \<le> 0" by (rule claim_call_result [OF assms(1) _ call]) simp
  moreover from assms(2) call have "ret = r1"
    by (simp add: cuddl_eventsrc_claim_def req_def [symmetric] split: option.splits ioctl_payload.splits)
  ultimately show ?thesis by simp
qed

lemma claim_and_map_result:
  assumes "fine s" "cuddl_memregion_claim_and_map cfg os mem g d r i copts mopts s = Some (ret, mem', s')"
  shows "ret \<le> 0"
proof -
  from claim_total [OF assms(1), of cfg "stack_meminfo os s" g d r i copts] obtain ret1 mi s1 where
    c: "cuddl_memregion_claim cfg os (stack_meminfo os s) g d r i copts s = Some (ret1, mi, s1)" "fine s1"
    by (auto simp: leaves_def)
  from claim_value [OF assms(1) c(1)] have "ret1 \<le> 0" .
  moreover obtain ret2 m2 s2 where "cuddl_memregion_map os mem mi mopts s1 = Some (ret2, m2, s2)" "ret2 \<le> 0"
    by (rule map_total [OF c(2), of mem mi mopts]) (auto split: if_splits)
  ultimately show ?thesis
    using assms(2) c(1) by (auto simp: cuddl_memregion_claim_and_map_def bind_eq_Some_conv split: if_splits)
qed

lemma claim_and_open_result:
  assumes "fine s" "cuddl_eventsrc_claim_and_open cfg os ev g d r i copts oopts s = Some (ret, ev', s')"
  shows "ret \<le> 0"
proof -
  from event_claim_total [OF assms(1), of cfg "stack_eventinfo os s" g d r i copts] obtain ret1 ei s1 where
    c: "cuddl_eventsrc_claim cfg os (stack_eventinfo os s) g d r i copts s = Some (ret1, ei, s1)" "fine s1"
    by (auto simp: leaves_def)
  from event_claim_value [OF assms(1) c(1)] have "ret1 \<le> 0" .
  moreover obtain ret2 ev2 s2 where "cuddl_eventsrc_open os ev ei oopts s1 = Some (ret2, ev2, s2)" "ret2 \<le> 0"
    by (rule event_open_total [OF c(2), of ev ei oopts]) (auto split: if_splits)
  ultimately show ?thesis
    using assms(2) c(1) by (auto simp: cuddl_eventsrc_claim_and_open_def bind_eq_Some_conv split: if_splits)
qed

text \<open>An object that is made holds one new descriptor; an exception leaves none behind.\<close>

lemma region_construct_total:
  assumes "fine s" "ResourceID_full_name rid \<noteq> None"
  obtains r s' where "MemRegion_construct cfg os rid fl s = Some (r, s')"
    "case r of Inl _ \<Rightarrow> leaves open_fds fine (open_fds s) s'
     | Inr this \<Rightarrow> region_mapped this \<and> um_priv_fd (region_mem this) \<notin> open_fds s \<and>
         leaves open_fds fine (insert (um_priv_fd (region_mem this)) (open_fds s)) s'"
proof -
  from assms(2) obtain full where full: "ResourceID_full_name rid = Some full" by blast
  obtain ret mem s' where m:
    "cuddl_memregion_claim_and_map cfg os (region_mem MemRegion_default) (Some (id_group rid)) (Some (id_device rid))
       (Some (id_resource rid)) (id_instance rid) (as_int fl) 0 s = Some (ret, mem, s')"
    "if ret = 0 then um_priv_fd mem \<notin> open_fds s \<and> leaves open_fds fine (insert (um_priv_fd mem) (open_fds s)) s'
     else mem = region_mem MemRegion_default \<and> leaves open_fds fine (open_fds s) s'"
    by (rule claim_and_map_total [OF assms(1)])
  from claim_and_map_result [OF assms(1) m(1)] have "ret \<noteq> 0 \<longleftrightarrow> ret < 0" by auto
  with m that [of _ s'] full show ?thesis
    by (cases "ret < 0") (auto simp: MemRegion_construct_def MemRegion_claim_and_map_def throw_resource_id_err_def Let_def)
qed

lemma event_construct_total:
  assumes "fine s" "ResourceID_full_name rid \<noteq> None"
  obtains r s' where "EventSrc_construct cfg os rid fl s = Some (r, s')"
    "case r of Inl _ \<Rightarrow> leaves open_fds fine (open_fds s) s'
     | Inr this \<Rightarrow> event_opened this \<and> ue_priv_fd (event_src this) \<notin> open_fds s \<and>
         leaves open_fds fine (insert (ue_priv_fd (event_src this)) (open_fds s)) s'"
proof -
  from assms(2) obtain full where full: "ResourceID_full_name rid = Some full" by blast
  obtain ret ev s' where m:
    "cuddl_eventsrc_claim_and_open cfg os (event_src EventSrc_default) (Some (id_group rid)) (Some (id_device rid))
       (Some (id_resource rid)) (id_instance rid) (as_int fl) 0 s = Some (ret, ev, s')"
    "if ret = 0 then ue_priv_fd ev \<notin> open_fds s \<and> leaves open_fds fine (insert (ue_priv_fd ev) (open_fds s)) s'
     else ev = event_src EventSrc_default \<and> leaves open_fds fine (open_fds s) s'"
    by (rule claim_and_open_total [OF assms(1)])
  from claim_and_open_result [OF assms(1) m(1)] have "ret \<noteq> 0 \<longleftrightarrow> ret < 0" by auto
  with m that [of _ s'] full show ?thesis
    by (cases "ret < 0") (auto simp: EventSrc_construct_def EventSrc_claim_and_open_def throw_resource_id_err_def Let_def)
qed

lemma region_destroy_total:
  assumes "fine s" "region_mapped this" "um_priv_fd (region_mem this) \<in> open_fds s"
  shows "\<exists>s'. MemRegion_destroy cfg os this s = Some s' \<and> leaves open_fds fine (open_fds s - {um_priv_fd (region_mem this)}) s'"
  using unmap_and_release_total [OF assms(1,3), of cfg] assms(2)
  by (auto simp: MemRegion_destroy_def MemRegion_unmap_and_release_def)

lemma event_destroy_total:
  assumes "fine s" "event_opened this" "ue_priv_fd (event_src this) \<in> open_fds s"
  shows "\<exists>s'. EventSrc_destroy cfg os this s = Some s' \<and> leaves open_fds fine (open_fds s - {ue_priv_fd (event_src this)}) s'"
  using close_and_release_total [OF assms(1,3), of cfg] assms(2)
  by (auto simp: EventSrc_destroy_def EventSrc_close_and_release_def)

end

subsection \<open>Scopes\<close>

text \<open>
  A block of a C++ program with local objects: they are made in order, the body runs, and the
  destructors run in the opposite order, also when a constructor further down or the body
  throws. The result is the exception that leaves the block, if any.
\<close>

datatype local_object = Region cuddl_resource_id Flags | Event cuddl_resource_id Flags

fun object_id :: "local_object \<Rightarrow> cuddl_resource_id" where
  "object_id (Region rid _) = rid"
| "object_id (Event rid _) = rid"

fun in_scope ::
  "ucfg \<Rightarrow> 's posix \<Rightarrow> local_object list \<Rightarrow> ('s \<Rightarrow> (system_error option \<times> 's) option) \<Rightarrow> 's
     \<Rightarrow> (system_error option \<times> 's) option" where
  "in_scope cfg os [] body s = body s"
| "in_scope cfg os (Region rid fl # rest) body s = do {
     (r, s) \<leftarrow> MemRegion_construct cfg os rid fl s;
     case r of
       Inl e \<Rightarrow> Some (Some e, s)
     | Inr this \<Rightarrow> do {
         (e, s) \<leftarrow> in_scope cfg os rest body s;
         s \<leftarrow> MemRegion_destroy cfg os this s;
         Some (e, s)
       }
   }"
| "in_scope cfg os (Event rid fl # rest) body s = do {
     (r, s) \<leftarrow> EventSrc_construct cfg os rid fl s;
     case r of
       Inl e \<Rightarrow> Some (Some e, s)
     | Inr this \<Rightarrow> do {
         (e, s) \<leftarrow> in_scope cfg os rest body s;
         s \<leftarrow> EventSrc_destroy cfg os this s;
         Some (e, s)
       }
   }"

context claiming_files
begin

lemma scope_total:
  assumes "fine s" "\<forall>x \<in> set objects. ResourceID_full_name (object_id x) \<noteq> None"
    and "\<And>s. fine s \<Longrightarrow> \<exists>e s'. body s = Some (e, s') \<and> leaves open_fds fine (open_fds s) s'"
  shows "\<exists>e s'. in_scope cfg os objects body s = Some (e, s') \<and> leaves open_fds fine (open_fds s) s'"
  using assms(1,2)
proof (induction objects arbitrary: s)
  case Nil
  then show ?case using assms(3) by simp
next
  case (Cons x objects)
  have rest: "\<forall>x \<in> set objects. ResourceID_full_name (object_id x) \<noteq> None" using Cons.prems(2) by simp
  show ?case
  proof (cases x)
    case (Region rid fl)
    then have "ResourceID_full_name rid \<noteq> None" using Cons.prems(2) by auto
    from region_construct_total [OF Cons.prems(1) this, of cfg fl] obtain r s1 where
      c: "MemRegion_construct cfg os rid fl s = Some (r, s1)"
      "case r of Inl _ \<Rightarrow> leaves open_fds fine (open_fds s) s1
       | Inr this \<Rightarrow> region_mapped this \<and> um_priv_fd (region_mem this) \<notin> open_fds s \<and>
           leaves open_fds fine (insert (um_priv_fd (region_mem this)) (open_fds s)) s1" by blast
    show ?thesis
    proof (cases r)
      case (Inl e)
      with c Region show ?thesis by simp
    next
      case (Inr this)
      with c(2) have t: "region_mapped this" "um_priv_fd (region_mem this) \<notin> open_fds s" "fine s1"
        "open_fds s1 = insert (um_priv_fd (region_mem this)) (open_fds s)" by (simp_all add: leaves_def)
      from Cons.IH [OF t(3) rest] obtain e s2 where b: "in_scope cfg os objects body s1 = Some (e, s2)" "fine s2"
        "open_fds s2 = open_fds s1" by (auto simp: leaves_def)
      from region_destroy_total [OF b(2) t(1), of cfg] t b(3) obtain s3 where
        "MemRegion_destroy cfg os this s2 = Some s3" "leaves open_fds fine (open_fds s) s3" by auto
      with c(1) Inr b(1) Region show ?thesis by simp
    qed
  next
    case (Event rid fl)
    then have "ResourceID_full_name rid \<noteq> None" using Cons.prems(2) by auto
    from event_construct_total [OF Cons.prems(1) this, of cfg fl] obtain r s1 where
      c: "EventSrc_construct cfg os rid fl s = Some (r, s1)"
      "case r of Inl _ \<Rightarrow> leaves open_fds fine (open_fds s) s1
       | Inr this \<Rightarrow> event_opened this \<and> ue_priv_fd (event_src this) \<notin> open_fds s \<and>
           leaves open_fds fine (insert (ue_priv_fd (event_src this)) (open_fds s)) s1" by blast
    show ?thesis
    proof (cases r)
      case (Inl e)
      with c Event show ?thesis by simp
    next
      case (Inr this)
      with c(2) have t: "event_opened this" "ue_priv_fd (event_src this) \<notin> open_fds s" "fine s1"
        "open_fds s1 = insert (ue_priv_fd (event_src this)) (open_fds s)" by (simp_all add: leaves_def)
      from Cons.IH [OF t(3) rest] obtain e s2 where b: "in_scope cfg os objects body s1 = Some (e, s2)" "fine s2"
        "open_fds s2 = open_fds s1" by (auto simp: leaves_def)
      from event_destroy_total [OF b(2) t(1), of cfg] t b(3) obtain s3 where
        "EventSrc_destroy cfg os this s2 = Some s3" "leaves open_fds fine (open_fds s) s3" by auto
      with c(1) Inr b(1) Event show ?thesis by simp
    qed
  qed
qed

end

end
