(* ===== verification/Cpp_Properties.thy ===== *)
theory Cpp_Properties
  imports Cpp_Lifetime
begin

section \<open>C++ objects over the kernel\<close>

text \<open>
  The contract of \<open>claiming_files\<close> interpreted on the composed system, and what the life of an
  object means for the holders in the kernel.
\<close>

lemma linux_claim_result:
  assumes "is_claim cmd" "linux_ioctl cfg fd cmd p s = Some (ret, errno, p', s')"
  shows "ret \<le> 0 \<and> 0 \<le> errno"
proof (cases "map_of (files s) fd")
  case None
  with assms(2) show ?thesis by (auto simp: linux_ioctl_def EBADF_def)
next
  case (Some f)
  have r: "fst (syscall_result n) \<le> 0 \<and> 0 \<le> snd (syscall_result n)" if "n \<le> 0" for n
    using that by (simp add: syscall_result_def)
  show ?thesis
  proof (cases f)
    case Manager_File
    with Some assms(2) obtain n out k where
      "cuddlk_manager_ioctl cfg (copied_in (ce_copy_in (now s)) (refs_room (kern s)) (ce_kernel (now s)) p) cmd (kern s) = Some (n, out, k)"
      "ret = fst (syscall_result n)" "errno = snd (syscall_result n)"
      by (auto simp: linux_ioctl_def bind_eq_Some_conv Let_def case_prod_unfold)
    with r claim_never_positive [OF assms(1)] show ?thesis by blast
  next
    case (Janitor_File j)
    define n where "n = fst (cuddlk_janitor_ioctl (janitor_copied (ce_copy_in (now s)) p) (ce_kzalloc (now s)) cmd j)"
    from Some Janitor_File assms(2) have "ret = fst (syscall_result n)" "errno = snd (syscall_result n)"
      by (auto simp: linux_ioctl_def Let_def case_prod_unfold n_def)
    moreover have "n \<le> 0" using assms(1) by (auto simp: n_def is_claim_def cuddlk_janitor_ioctl_def)
    ultimately show ?thesis using r by blast
  next
    case (Device_File path)
    with Some assms(2) show ?thesis by (auto simp: linux_ioctl_def ENOTTY_def)
  qed
qed

interpretation cx: claiming_files "linux_posix cfg" open_fds "linux_fine cfg" for cfg
  by unfold_locales (simp add: linux_posix_def linux_claim_result)

text \<open>C21: no block of a C++ program loses a descriptor. Whatever objects of class
  \<^verbatim>\<open>MemRegion\<close> and \<^verbatim>\<open>EventSrc\<close> it declares, on every state of the system and with whatever
  failures, the block ends, normally or with an exception, every object that was made is
  destroyed, and the open descriptors are those it began with, provided that its body keeps
  them.\<close>

theorem scope_keeps_descriptors:
  assumes "linux_fine cfg s" "\<forall>x \<in> set objects. ResourceID_full_name (object_id x) \<noteq> None"
    and "\<And>s. linux_fine cfg s \<Longrightarrow> \<exists>e s'. body s = Some (e, s') \<and> linux_fine cfg s' \<and> open_fds s' = open_fds s"
  shows "\<exists>e s'. in_scope ucfg (linux_posix cfg) objects body s = Some (e, s') \<and> linux_fine cfg s' \<and> open_fds s' = open_fds s"
  using cx.scope_total [OF assms(1,2), of body ucfg] assms(3) by (simp add: leaves_def)

lemma of_names_full_name [simp]: "\<exists>full. ResourceID_full_name (ResourceID_of_names g d r i) = Some full"
  by (simp add: full_name_of_names)

definition sample_objects :: "local_object list" where
  "sample_objects = [Region (ResourceID_of_names ''mfg'' ''card'' ''regs'' 1) (Flags 0),
     Event (ResourceID_of_names ''mfg'' ''card'' ''irq'' 1) (Flags 0),
     Region (ResourceID_of_names ''mfg'' ''card'' ''regs'' 1) (Flags 0)]"

theorem scope_keeps_descriptors_witness:
  "\<exists>e s'. in_scope \<lparr>xeno = False, u_commit_hash = [], u_repo_is_dirty = False\<rparr> (linux_posix sample_cfg) sample_objects
      (\<lambda>s. Some (None, s)) (sample_linux (\<lambda>_. good_call) sample_state) = Some (e, s') \<and> open_fds s' = {}"
proof -
  have "linux_fine sample_cfg (sample_linux (\<lambda>_. good_call) sample_state)" by (rule sample_linux_fine) simp
  moreover have "\<forall>x \<in> set sample_objects. ResourceID_full_name (object_id x) \<noteq> None" by (simp add: sample_objects_def)
  ultimately show ?thesis
    using scope_keeps_descriptors [of sample_cfg "sample_linux (\<lambda>_. good_call) sample_state" sample_objects
        "\<lambda>s. Some (None, s)" "\<lparr>xeno = False, u_commit_hash = [], u_repo_is_dirty = False\<rparr>"] by auto
qed

subsection \<open>Making and destroying a region object\<close>

lemma linux_map_ok:
  assumes "ce_open (ahead s 0) = None" "lowest_fd (files s) < FD_SETSIZE" "ce_mmap (ahead s 1) = Inr addr" "addr \<noteq> - 1"
  shows "\<exists>mem'. cuddl_memregion_map (linux_posix cfg) mem mi mopts s =
      Some (0, mem', advance 2 (s\<lparr>files := (lowest_fd (files s), file_for (cstr (mi_device_name mi))) # files s\<rparr>)) \<and>
    um_priv_fd mem' = lowest_fd (files s) \<and> um_priv_token mem' = mi_token mi"
proof -
  let ?fd = "lowest_fd (files s)"
  let ?s1 = "advance 1 (s\<lparr>files := (?fd, file_for (cstr (mi_device_name mi))) # files s\<rparr>)"
  have o: "linux_open (cstr (mi_device_name mi)) s = Some (?fd, 0, ?s1)"
    using assms(1,2) by (simp add: linux_open_def Let_def tick_advance)
  have m: "linux_mmap len fd offset ?s1 = Some (addr, 0, advance 1 ?s1)" for len fd offset
    using assms(3) by (simp add: call_defs tick_advance)
  show ?thesis
    using o m assms(4) lowest_fd_free(1) [of "files s"] by (simp add: cuddl_memregion_map_def numeral_2_eq_2)
qed

lemma linux_close_fresh:
  assumes "files s = (fd, file_for path) # fs" "fd \<notin> set (map fst fs)"
  shows "\<exists>ret e. linux_close fd s = Some (ret, e, advance 1 (s\<lparr>files := fs\<rparr>))"
proof -
  have "(case file_for path of Janitor_File j \<Rightarrow> do { (_, _, k) \<leftarrow> cuddlk_janitor_release j k; Some k } | _ \<Rightarrow> Some k) = Some k" for k
    by (simp add: file_for_def cuddlk_janitor_open_def new_file_def cuddlk_janitor_release_def)
  with assms show ?thesis
    by (cases "close_result s") (simp add: linux_close_def filter_fresh tick_advance)
qed

lemma construct_fails:
  assumes "cuddl_memregion_claim ucfg os (stack_meminfo os s) (Some (id_group rid)) (Some (id_device rid)) (Some (id_resource rid))
      (id_instance rid) (as_int fl) s = Some (ret, mi, s')" "ret < 0" "ResourceID_full_name rid = Some full"
  shows "MemRegion_construct ucfg os rid fl s =
    Some (Inl (throw_err ret (''claim_and_map for cuddl resource '' @ [CHR 0x27] @ full @ [CHR 0x27])), s')"
  using assms by (simp add: MemRegion_construct_def MemRegion_claim_and_map_def cuddl_memregion_claim_and_map_def
      throw_resource_id_err_def Let_def)

lemma ahead_4: "ahead s 4 = later s 3"
  by (auto simp: ahead_def split: nat.split)

lemma construct_succeeds:
  assumes "cuddl_memregion_claim ucfg (linux_posix cfg) (garbage_meminfo s) (Some (id_group rid)) (Some (id_device rid))
      (Some (id_resource rid)) (id_instance rid) (as_int fl) s = Some (0, mi, s1)"
    and "ce_open (ahead s1 0) = None" "lowest_fd (files s1) < FD_SETSIZE" "ce_mmap (ahead s1 1) = Inr addr" "addr \<noteq> - 1"
  shows "\<exists>this path. MemRegion_construct ucfg (linux_posix cfg) rid fl s =
      Some (Inr this, advance 2 (s1\<lparr>files := (um_priv_fd (region_mem this), file_for path) # files s1\<rparr>)) \<and>
    region_mapped this \<and> um_priv_token (region_mem this) = mi_token mi \<and>
    um_priv_fd (region_mem this) = lowest_fd (files s1)"
proof -
  from linux_map_ok [OF assms(2-5), of cfg "region_mem MemRegion_default" mi 0] obtain mem' where
    m: "cuddl_memregion_map (linux_posix cfg) (region_mem MemRegion_default) mi 0 s1 =
      Some (0, mem', advance 2 (s1\<lparr>files := (lowest_fd (files s1), file_for (cstr (mi_device_name mi))) # files s1\<rparr>))"
    "um_priv_fd mem' = lowest_fd (files s1)" "um_priv_token mem' = mi_token mi" by blast
  with assms(1) show ?thesis
    by (intro exI [of _ "\<lparr>region_mem = mem', region_mapped = True\<rparr>"] exI [of _ "cstr (mi_device_name mi)"])
      (simp add: MemRegion_construct_def MemRegion_claim_and_map_def cuddl_memregion_claim_and_map_def MemRegion_default_def)
qed

text \<open>C19: making a \<^verbatim>\<open>MemRegion\<close> implements the specification on holders, with exceptions for its
  errors. When the claim's calls, the open and the map succeed, the constructor throws
  \<open>ENXIO\<close> if the kernel knows no such region; otherwise the specification of claims decides
  on the holders of the region found. On success the object is mapped, has the token of
  that region and one new descriptor, and the process is a holder; on refusal the exception
  carries the error and the full name that was asked for, and neither holders nor
  descriptors change.\<close>

theorem region_constructor_refines:
  assumes "kernel_fine cfg (kern s)" "refs_exact (kern s)" "lowest_fd (files s) < FD_SETSIZE"
    and "ce_open (ahead s 0) = None" "served s 1" "ce_close (ahead s 2) = None"
    and "ce_open (ahead s 3) = None" "ce_mmap (ahead s 4) = Inr addr" "addr \<noteq> - 1"
    and "ResourceID_full_name rid = Some full"
  shows "\<exists>r s'. MemRegion_construct ucfg (linux_posix cfg) rid fl s = Some (r, s') \<and> refs_exact (kern s') \<and>
    (case lookup_memregion (kern s) (populate_id_from_args (garbage_id s) (Some (id_group rid)) (Some (id_device rid))
            (Some (id_resource rid)) (id_instance rid)) of
       None \<Rightarrow> r = Inl (throw_err (- ENXIO) (''claim_and_map for cuddl resource '' @ [CHR 0x27] @ full @ [CHR 0x27])) \<and>
         mem_holders (kern s') = mem_holders (kern s) \<and> files s' = files s
     | Some (a, b, m) \<Rightarrow>
         let (ret, hs) = spec_claim (has_flag (mr_flags m) CUDDLK_MEMF_SHARED) (has_flag (as_int fl) CUDDL_MEM_CLAIMF_HOSTILE)
               (my_pid s) (mem_holders (kern s) (int a) (int b))
         in mem_holders (kern s') = set_holders (int a) (int b) hs (mem_holders (kern s)) \<and>
           (if ret = 0 then \<exists>this path. r = Inr this \<and> region_mapped this \<and>
              um_priv_token (region_mem this) = \<lparr>device_index = int a, resource_index = int b\<rparr> \<and>
              files s' = (um_priv_fd (region_mem this), file_for path) # files s
            else r = Inl (throw_err ret (''claim_and_map for cuddl resource '' @ [CHR 0x27] @ full @ [CHR 0x27])) \<and>
              files s' = files s))"
proof -
  let ?g = "Some (id_group rid)" and ?d = "Some (id_device rid)" and ?r = "Some (id_resource rid)" and ?i = "id_instance rid"
  obtain ret md' k where c:
    "cuddl_memregion_claim ucfg (linux_posix cfg) (garbage_meminfo s) ?g ?d ?r ?i (as_int fl) s =
       Some (if ret \<noteq> 0 then (ret, garbage_meminfo s, advance 3 (s\<lparr>kern := k\<rparr>))
         else (close_error (ahead s 2), mc_info md', advance 3 (s\<lparr>kern := k\<rparr>)))"
    and m: "mem_claim_meets (kern s) (mem_claim_request s ?g ?d ?r ?i (as_int fl)) ret
       (if ret = 0 then Some (Mem_Claim_Data md') else None) k"
    and k: "refs_exact k" "kernel_fine cfg k" "event_holders k = event_holders (kern s)"
    by (rule library_claim [OF assms(1-5)])
  have req: "mc_id (mem_claim_request s ?g ?d ?r ?i (as_int fl)) = populate_id_from_args (garbage_id s) ?g ?d ?r ?i"
    "mc_options (mem_claim_request s ?g ?d ?r ?i (as_int fl)) = as_int fl"
    "mc_pid (mem_claim_request s ?g ?d ?r ?i (as_int fl)) = my_pid s"
    by (simp_all add: mem_claim_request_def)
  let ?s3 = "advance 3 (s\<lparr>kern := k\<rparr>)"
  show ?thesis
  proof (cases "ret = 0")
    case False
    from m have neg: "ret < 0" using False
      by (elim mem_claim_meets_cases) (auto simp: spec_claim_def split: if_splits)
    have run: "MemRegion_construct ucfg (linux_posix cfg) rid fl s =
        Some (Inl (throw_err ret (''claim_and_map for cuddl resource '' @ [CHR 0x27] @ full @ [CHR 0x27])), ?s3)"
      using c False neg assms(10) by (intro construct_fails) simp_all
    from m show ?thesis
      by (rule mem_claim_meets_cases) (use run k(1) False req in \<open>auto simp: claim_keeps_holders [OF m False]\<close>)
  next
    case True
    have run: "cuddl_memregion_claim ucfg (linux_posix cfg) (garbage_meminfo s) ?g ?d ?r ?i (as_int fl) s = Some (0, mc_info md', ?s3)"
      using c True assms(6) by (simp add: close_error_def)
    obtain this path where t: "MemRegion_construct ucfg (linux_posix cfg) rid fl s =
        Some (Inr this, advance 2 (?s3\<lparr>files := (um_priv_fd (region_mem this), file_for path) # files s\<rparr>))"
      "region_mapped this" "um_priv_token (region_mem this) = mi_token (mc_info md')"
      using construct_succeeds [OF run _ _ _ assms(9)] assms(3,7,8) ahead_4 [of s] by auto
    from m show ?thesis
    proof (rule mem_claim_meets_cases)
      fix i j mr
      assume lk: "lookup_memregion (kern s) (mc_id (mem_claim_request s ?g ?d ?r ?i (as_int fl))) = Some (i, j, mr)"
        and sp: "spec_claim (has_flag (mr_flags mr) CUDDLK_MEMF_SHARED)
           (has_flag (mc_options (mem_claim_request s ?g ?d ?r ?i (as_int fl))) CUDDL_MEM_CLAIMF_HOSTILE)
           (mc_pid (mem_claim_request s ?g ?d ?r ?i (as_int fl))) (mem_holders (kern s) (int i) (int j)) =
             (ret, mem_holders k (int i) (int j))"
        and h: "mem_holders k = set_holders (int i) (int j) (mem_holders k (int i) (int j)) (mem_holders (kern s))"
        and tok: "ret = 0 \<Longrightarrow> \<exists>md''. (if ret = 0 then Some (Mem_Claim_Data md') else None) = Some (Mem_Claim_Data md'') \<and>
           mi_token (mc_info md'') = \<lparr>device_index = int i, resource_index = int j\<rparr>"
      from t lk sp h tok True k(1) show ?thesis
        by (intro exI [of _ "Inr this"]
            exI [of _ "advance 2 (?s3\<lparr>files := (um_priv_fd (region_mem this), file_for path) # files s\<rparr>)"])
          (simp add: req, blast)
    qed (use True in simp)
  qed
qed

text \<open>The sample region, asked for by its full name; no calls fail.\<close>

definition sample_rid :: cuddl_resource_id where
  "sample_rid = ResourceID_of_names ''mfg'' ''card'' ''regs'' 1"

lemma sample_rid_name: "ResourceID_full_name sample_rid = Some ''mfg/card/regs/1''"
  by (simp add: sample_rid_def full_name_of_names star_if_empty_def dec_int_def dec_nat.simps digit_char_def)

lemma sample_rid_lookup:
  "\<exists>m. lookup_memregion sample_state (populate_id_from_args sample_stack_id (Some (id_group sample_rid))
     (Some (id_device sample_rid)) (Some (id_resource sample_rid)) (id_instance sample_rid)) = Some (0, 0, m) \<and> mr_flags m = 0"
proof -
  have c: "cstr (field_of s) = cstr s" "length (cstr s) < 255" if "length s < 255" for s
    using that length_cstr_le [of s] by (simp_all add: field_of_def cstr_strncpy CUDDLCI_MAX_STR_LEN_def)
  have "cstr (populate_name sample_garbage (Some (field_of s))) = cstr s" if "length s < 255" for s
    using c [OF that] by (subst cstr_populate_name) (simp_all add: asked_def CUDDLCI_MAX_STR_LEN_def)
  then have "names_agree (populate_id_from_args sample_stack_id (Some (id_group sample_rid))
     (Some (id_device sample_rid)) (Some (id_resource sample_rid)) (id_instance sample_rid)) sample_id"
    by (simp add: names_agree_def populate_id_from_args_def sample_id_def sample_rid_def of_names_fields sample_stack_id_def)
  from lookup_names(1) [OF this] sample_lookup show ?thesis by simp
qed

lemma good_call_mmap [simp]: "ce_mmap good_call = Inr 4096"
  by (simp add: good_call_def)

theorem region_constructor_refines_witness:
  "\<exists>this s'. MemRegion_construct \<lparr>xeno = False, u_commit_hash = [], u_repo_is_dirty = False\<rparr> (linux_posix sample_cfg)
      sample_rid (Flags 0) (sample_linux (\<lambda>_. good_call) sample_state) = Some (Inr this, s') \<and>
    mem_holders (kern s') 0 0 = [42] \<and> region_mapped this"
proof -
  let ?s = "sample_linux (\<lambda>_. good_call) sample_state"
  from sample_rid_lookup obtain m where lk: "lookup_memregion sample_state (populate_id_from_args sample_stack_id
     (Some (id_group sample_rid)) (Some (id_device sample_rid)) (Some (id_resource sample_rid)) (id_instance sample_rid)) =
     Some (0, 0, m)" "mr_flags m = 0" by blast
  have h: "kernel_fine sample_cfg (kern ?s)" "refs_exact (kern ?s)" "lowest_fd (files ?s) < FD_SETSIZE"
    "ce_open (ahead ?s 0) = None" "served ?s 1" "ce_close (ahead ?s 2) = None"
    "ce_open (ahead ?s 3) = None" "ce_mmap (ahead ?s 4) = Inr 4096" "(4096 :: ulong) \<noteq> - 1"
    using sample_kernel_fine sample_state_exact sample_served [of "\<lambda>_. good_call" 1] by simp_all
  from region_constructor_refines [OF h sample_rid_name, of "\<lparr>xeno = False, u_commit_hash = [], u_repo_is_dirty = False\<rparr>" "Flags 0"]
  show ?thesis using lk by (auto simp: spec_claim_def sample_no_holders set_holders_def)
qed

text \<open>C20: the life of a \<^verbatim>\<open>MemRegion\<close> object is a claim. When the claim is granted, the process
  holds the region as long as the object lives; the destructor gives back exactly this claim,
  whatever \<^verbatim>\<open>munmap\<close> and \<^verbatim>\<open>close\<close> report: afterwards every resource has the holders it had
  before the object was made, the counts of the kernel are exact and the files of the process
  are the same.\<close>

theorem object_lifetime_is_claim:
  assumes "kernel_fine cfg (kern s)" "refs_exact (kern s)" "lowest_fd (files s) < FD_SETSIZE"
    and "ce_open (ahead s 0) = None" "served s 1" "ce_close (ahead s 2) = None"
    and "ce_open (ahead s 3) = None" "ce_mmap (ahead s 4) = Inr addr" "addr \<noteq> - 1"
    and "ce_open (ahead s 7) = None" "ce_copy_in (ahead s 8)" "\<forall>n < 10. kz_ok (ce_kernel (ahead s 8)) n"
    and "lookup_memregion (kern s) (populate_id_from_args (garbage_id s) (Some (id_group rid)) (Some (id_device rid))
            (Some (id_resource rid)) (id_instance rid)) = Some (a, b, m)"
    and "mem_holders (kern s) (int a) (int b) = [] \<or> has_flag (mr_flags m) CUDDLK_MEMF_SHARED \<or>
      has_flag (as_int fl) CUDDL_MEM_CLAIMF_HOSTILE"
  shows "\<exists>this s1 s2. MemRegion_construct ucfg (linux_posix cfg) rid fl s = Some (Inr this, s1) \<and>
    mem_holders (kern s1) (int a) (int b) = my_pid s # mem_holders (kern s) (int a) (int b) \<and>
    MemRegion_destroy ucfg (linux_posix cfg) this s1 = Some s2 \<and>
    mem_holders (kern s2) = mem_holders (kern s) \<and> event_holders (kern s2) = event_holders (kern s) \<and>
    refs_exact (kern s2) \<and> files s2 = files s"
proof -
  let ?g = "Some (id_group rid)" and ?d = "Some (id_device rid)" and ?r = "Some (id_resource rid)" and ?i = "id_instance rid"
  obtain ret md' k where c:
    "cuddl_memregion_claim ucfg (linux_posix cfg) (garbage_meminfo s) ?g ?d ?r ?i (as_int fl) s =
       Some (if ret \<noteq> 0 then (ret, garbage_meminfo s, advance 3 (s\<lparr>kern := k\<rparr>))
         else (close_error (ahead s 2), mc_info md', advance 3 (s\<lparr>kern := k\<rparr>)))"
    and m: "mem_claim_meets (kern s) (mem_claim_request s ?g ?d ?r ?i (as_int fl)) ret
       (if ret = 0 then Some (Mem_Claim_Data md') else None) k"
    and k: "refs_exact k" "kernel_fine cfg k" "event_holders k = event_holders (kern s)"
    by (rule library_claim [OF assms(1-5)])
  let ?s3 = "advance 3 (s\<lparr>kern := k\<rparr>)"
  from m assms(13,14) have ret: "ret = 0"
    by (elim mem_claim_meets_cases) (auto simp: mem_claim_request_def spec_claim_def)
  with m assms(13,14) have tok: "mi_token (mc_info md') = \<lparr>device_index = int a, resource_index = int b\<rparr>"
    and h: "mem_holders k = set_holders (int a) (int b) (my_pid s # mem_holders (kern s) (int a) (int b)) (mem_holders (kern s))"
    by (elim mem_claim_meets_cases; force simp: mem_claim_request_def spec_claim_def)+
  have run: "cuddl_memregion_claim ucfg (linux_posix cfg) (garbage_meminfo s) ?g ?d ?r ?i (as_int fl) s = Some (0, mc_info md', ?s3)"
    using c ret assms(6) by (simp add: close_error_def)
  obtain this path where t: "MemRegion_construct ucfg (linux_posix cfg) rid fl s =
      Some (Inr this, advance 2 (?s3\<lparr>files := (um_priv_fd (region_mem this), file_for path) # files s\<rparr>))"
    "region_mapped this" "um_priv_token (region_mem this) = mi_token (mc_info md')"
    "um_priv_fd (region_mem this) = lowest_fd (files s)"
    using construct_succeeds [OF run _ _ _ assms(9)] assms(3,7,8) ahead_4 [of s] by auto
  let ?fd = "um_priv_fd (region_mem this)"
  let ?s5 = "advance 5 (s\<lparr>kern := k, files := (?fd, file_for path) # files s\<rparr>)" and ?s7 = "advance 7 (s\<lparr>kern := k\<rparr>)"
  have s5: "advance 2 (?s3\<lparr>files := (?fd, file_for path) # files s\<rparr>) = ?s5"
    by (simp add: advance_update)
  obtain r1 e1 where u: "linux_munmap (um_priv_pa_addr (region_mem this)) (um_priv_pa_len (region_mem this)) ?s5 = Some (r1, e1, advance 1 ?s5)"
    by (cases "ce_munmap (now ?s5)") (simp_all add: call_defs tick_advance)
  have "files (advance 1 ?s5) = (?fd, file_for path) # files s" "?fd \<notin> set (map fst (files s))"
    using t(4) lowest_fd_free(2) [of "files s"] by simp_all
  from linux_close_fresh [OF this] obtain r2 e2 where
    "linux_close ?fd (advance 1 ?s5) = Some (r2, e2, advance 1 ((advance 1 ?s5)\<lparr>files := files s\<rparr>))" by blast
  moreover have "advance 1 ((advance 1 ?s5)\<lparr>files := files s\<rparr>) = ?s7"
    by (simp add: advance_def)
  ultimately have cl: "linux_close ?fd (advance 1 ?s5) = Some (r2, e2, ?s7)" by simp
  have a7: "ahead ?s7 0 = ahead s 7" "ahead ?s7 1 = ahead s 8" by (simp_all del: ahead_simps(2) One_nat_def)
  have held: "my_pid ?s7 \<in> set (mem_holders (kern ?s7) (int a) (int b))" by (simp add: h set_holders_def)
  have env: "kernel_fine cfg (kern ?s7)" "refs_exact (kern ?s7)" "lowest_fd (files ?s7) < FD_SETSIZE"
    "ce_open (ahead ?s7 0) = None" "ce_copy_in (ahead ?s7 1)" "\<forall>n < 10. kz_ok (ce_kernel (ahead ?s7 1)) n"
    unfolding a7 using assms(3,10-12) k by simp_all
  obtain k2 where r: "cuddli_memregion_release_by_token ucfg (linux_posix cfg) \<lparr>device_index = int a, resource_index = int b\<rparr> ?s7 =
       Some (close_error (ahead ?s7 2), advance 3 (?s7\<lparr>kern := k2\<rparr>))"
    "mem_holders k2 = set_holders (int a) (int b) (remove1 (my_pid ?s7) (mem_holders (kern ?s7) (int a) (int b))) (mem_holders (kern ?s7))"
    "refs_exact k2" "event_holders k2 = event_holders (kern ?s7)"
    by (rule library_release [OF env held])
  have h2: "mem_holders k2 = mem_holders (kern s)"
    unfolding r(2) by (auto simp: h set_holders_def fun_eq_iff)
  have "cuddl_memregion_unmap_and_release ucfg (linux_posix cfg) (region_mem this) ?s5 =
      Some (if (if r2 = - 1 \<and> (if r1 = - 1 then - e1 else 0) = 0 then - e2 else if r1 = - 1 then - e1 else 0) \<noteq> 0
        then (if r2 = - 1 \<and> (if r1 = - 1 then - e1 else 0) = 0 then - e2 else if r1 = - 1 then - e1 else 0)
        else close_error (ahead ?s7 2), advance 3 (?s7\<lparr>kern := k2\<rparr>))"
    using u cl r(1) t(3) tok by (simp add: cuddl_memregion_unmap_and_release_def cuddl_memregion_unmap_def Let_def)
  then have "MemRegion_destroy ucfg (linux_posix cfg) this ?s5 = Some (advance 3 (?s7\<lparr>kern := k2\<rparr>))"
    using t(2) by (simp add: MemRegion_destroy_def MemRegion_unmap_and_release_def)
  with t(1) h h2 r(3,4) k(3) show ?thesis
    by (intro exI [of _ this] exI [of _ ?s5] exI [of _ "advance 3 (?s7\<lparr>kern := k2\<rparr>)"]) (simp add: s5 set_holders_def)
qed

theorem object_lifetime_is_claim_witness:
  "\<exists>this s1 s2. MemRegion_construct \<lparr>xeno = False, u_commit_hash = [], u_repo_is_dirty = False\<rparr> (linux_posix sample_cfg)
      sample_rid (Flags 0) (sample_linux (\<lambda>_. good_call) sample_state) = Some (Inr this, s1) \<and>
    mem_holders (kern s1) 0 0 = [42] \<and>
    MemRegion_destroy \<lparr>xeno = False, u_commit_hash = [], u_repo_is_dirty = False\<rparr> (linux_posix sample_cfg) this s1 = Some s2 \<and>
    mem_holders (kern s2) 0 0 = [] \<and> files s2 = []"
proof -
  let ?s = "sample_linux (\<lambda>_. good_call) sample_state"
  from sample_rid_lookup obtain m where lk: "lookup_memregion (kern ?s) (populate_id_from_args (garbage_id ?s)
     (Some (id_group sample_rid)) (Some (id_device sample_rid)) (Some (id_resource sample_rid)) (id_instance sample_rid)) =
     Some (0, 0, m)" "mr_flags m = 0" by auto
  have h: "kernel_fine sample_cfg (kern ?s)" "refs_exact (kern ?s)" "lowest_fd (files ?s) < FD_SETSIZE"
    "ce_open (ahead ?s 0) = None" "served ?s 1" "ce_close (ahead ?s 2) = None"
    "ce_open (ahead ?s 3) = None" "ce_mmap (ahead ?s 4) = Inr 4096" "(4096 :: ulong) \<noteq> - 1"
    "ce_open (ahead ?s 7) = None" "ce_copy_in (ahead ?s 8)" "\<forall>n < 10. kz_ok (ce_kernel (ahead ?s 8)) n"
    using sample_kernel_fine sample_state_exact sample_served [of "\<lambda>_. good_call" 1] by (simp_all add: quiet_env_def)
  have "mem_holders (kern ?s) (int 0) (int 0) = []" by (simp add: sample_no_holders)
  with object_lifetime_is_claim [OF h lk(1), of "Flags 0" "\<lparr>xeno = False, u_commit_hash = [], u_repo_is_dirty = False\<rparr>"]
  obtain this s1 s2 where "MemRegion_construct \<lparr>xeno = False, u_commit_hash = [], u_repo_is_dirty = False\<rparr>
      (linux_posix sample_cfg) sample_rid (Flags 0) ?s = Some (Inr this, s1)" "mem_holders (kern s1) 0 0 = [42]"
    "MemRegion_destroy \<lparr>xeno = False, u_commit_hash = [], u_repo_is_dirty = False\<rparr> (linux_posix sample_cfg) this s1 = Some s2"
    "mem_holders (kern s2) = mem_holders (kern ?s)" "files s2 = []" by auto
  then show ?thesis by (auto simp: sample_no_holders)
qed

subsection \<open>Claiming with an object that already holds a region\<close>

text \<open>
  \<^verbatim>\<open>claim_and_map\<close> does not look at what the object holds. Called on a mapped object it makes a
  second claim and overwrites the first: the destructor closes the new descriptor only, and
  the first one stays open with no object that knows it.
\<close>

theorem second_claim_loses_first:
  assumes "linux_fine cfg s" "um_priv_fd (region_mem this) \<in> open_fds s"
    and "MemRegion_claim_and_map ucfg (linux_posix cfg) this rid fl s = Some (Inr (), this', s1)"
  shows "\<exists>s2. MemRegion_destroy ucfg (linux_posix cfg) this' s1 = Some s2 \<and>
    um_priv_fd (region_mem this) \<in> open_fds s2 \<and> um_priv_fd (region_mem this) \<noteq> um_priv_fd (region_mem this')"
proof -
  obtain ret mem' s' where m:
    "cuddl_memregion_claim_and_map ucfg (linux_posix cfg) (region_mem this) (Some (id_group rid)) (Some (id_device rid))
       (Some (id_resource rid)) (id_instance rid) (as_int fl) 0 s = Some (ret, mem', s')"
    "if ret = 0 then um_priv_fd mem' \<notin> open_fds s \<and> leaves open_fds (linux_fine cfg) (insert (um_priv_fd mem') (open_fds s)) s'
     else mem' = region_mem this \<and> leaves open_fds (linux_fine cfg) (open_fds s) s'"
    by (rule lx.claim_and_map_total [OF assms(1)])
  from cx.claim_and_map_result [OF assms(1) m(1)] have "ret \<le> 0" .
  moreover from m(1) assms(3) have "\<not> ret < 0"
    by (auto simp: MemRegion_claim_and_map_def bind_eq_Some_conv)
  ultimately have "ret = 0" by simp
  with m assms(3) have t: "this' = this\<lparr>region_mem := mem', region_mapped := True\<rparr>" "s1 = s'"
    "um_priv_fd mem' \<notin> open_fds s" "linux_fine cfg s'" "open_fds s' = insert (um_priv_fd mem') (open_fds s)"
    by (simp_all add: MemRegion_claim_and_map_def leaves_def)
  with cx.region_destroy_total [of cfg s' this' ucfg] obtain s2 where
    "MemRegion_destroy ucfg (linux_posix cfg) this' s' = Some s2" "open_fds s2 = open_fds s' - {um_priv_fd mem'}"
    by (auto simp: leaves_def)
  with t assms(2) show ?thesis by auto
qed

end
