(* ===== verification/Io_Memory.thy ===== *)
theory Io_Memory
  imports Cpp_Objects
begin

section \<open>I/O memory: the accessors (iomem.h, iomem.hpp, memregion.h, memregion.hpp)\<close>

text \<open>
  The functions that read and write device registers. What an access does is up to the bus
  and the device behind it, so a bus over a state \<open>'s\<close> is a parameter of every accessor: one
  access moves a number of bytes between the processor and an address, in one piece, and may
  change the state; it is undefined (\<open>None\<close>) where nothing is mapped. The accessor converts
  between the value and its bytes in the byte order of the processor. C leaves an access
  through a pointer that is not aligned to its type undefined.

  The locale \<open>io_memory\<close> is the contract of a bus that behaves as plain memory; the client
  lemmas about reads and writes are proved in it. \<open>space_bus\<close> interprets it: a process whose
  addresses are mapped to the physical memory.
\<close>

subsection \<open>The bytes of a value\<close>

fun le_bytes :: "nat \<Rightarrow> nat \<Rightarrow> 8 word list" where
  "le_bytes 0 v = []"
| "le_bytes (Suc n) v = of_nat v # le_bytes n (v div 256)"

fun le_value :: "8 word list \<Rightarrow> nat" where
  "le_value [] = 0"
| "le_value (b # bs) = unat b + 256 * le_value bs"

lemma unat_byte: "unat (b :: 8 word) < 256"
proof -
  have "unat b < 2 ^ LENGTH(8)" by (rule unsigned_less)
  then show ?thesis by simp
qed

lemma length_le_bytes [simp]: "length (le_bytes n v) = n"
  by (induction n v rule: le_bytes.induct) simp_all

lemma le_value_le_bytes: "le_value (le_bytes n v) = v mod 256 ^ n"
proof (induction n v rule: le_bytes.induct)
  case (2 n v)
  have "v mod 256 ^ Suc n = 256 * (v div 256 mod 256 ^ n) + v mod 256"
    by (simp add: mod_mult2_eq)
  then show ?case using 2 by (simp add: unat_of_nat take_bit_nat_def)
qed simp

lemma le_bytes_le_value: "le_bytes (length bs) (le_value bs) = bs"
proof (induction bs)
  case (Cons b bs)
  have "of_nat (unat b + 256 * le_value bs) = b + (256 :: 8 word) * of_nat (le_value bs)" by simp
  also have "(256 :: 8 word) = 0" by simp
  finally have "of_nat (unat b + 256 * le_value bs) = b" by simp
  with unat_byte [of b] Cons show ?case by simp
qed simp

lemma le_value_bound: "le_value bs < 256 ^ length bs"
proof (induction bs)
  case (Cons b bs)
  with unat_byte [of b] show ?case by simp
qed simp

subsection \<open>Volatile accesses\<close>

record 's io_bus =
  bus_big_endian :: bool
  bus_load :: "nat \<Rightarrow> ulong \<Rightarrow> 's \<Rightarrow> (8 word list \<times> 's) option"
  bus_store :: "8 word list \<Rightarrow> ulong \<Rightarrow> 's \<Rightarrow> 's option"

definition host_bytes :: "'s io_bus \<Rightarrow> nat \<Rightarrow> nat \<Rightarrow> 8 word list" where
  "host_bytes M n v = (if bus_big_endian M then rev (le_bytes n v) else le_bytes n v)"

definition host_value :: "'s io_bus \<Rightarrow> 8 word list \<Rightarrow> nat" where
  "host_value M bs = le_value (if bus_big_endian M then rev bs else bs)"

lemma length_host_bytes [simp]: "length (host_bytes M n v) = n"
  by (simp add: host_bytes_def)

lemma host_value_host_bytes: "v < 256 ^ n \<Longrightarrow> host_value M (host_bytes M n v) = v"
  by (simp add: host_value_def host_bytes_def le_value_le_bytes)

lemma host_value_bound: "host_value M bs < 256 ^ length bs"
  using le_value_bound [of bs] le_value_bound [of "rev bs"] by (simp add: host_value_def)

definition aligned :: "nat \<Rightarrow> ulong \<Rightarrow> bool" where
  "aligned n addr \<longleftrightarrow> unat addr mod n = 0"

definition volatile_load :: "'s io_bus \<Rightarrow> nat \<Rightarrow> ulong \<Rightarrow> 's \<Rightarrow> (nat \<times> 's) option" where
  "volatile_load M n addr s =
     (if aligned n addr then do { (bs, s) \<leftarrow> bus_load M n addr s; Some (host_value M bs, s) } else None)"

definition volatile_store :: "'s io_bus \<Rightarrow> nat \<Rightarrow> nat \<Rightarrow> ulong \<Rightarrow> 's \<Rightarrow> 's option" where
  "volatile_store M n v addr s = (if aligned n addr then bus_store M (host_bytes M n v) addr s else None)"

lemma aligned_1 [simp]: "aligned (Suc 0) addr"
  by (simp add: aligned_def)

lemma aligned_add:
  assumes "aligned n a" "aligned n b" "n dvd 2 ^ 64"
  shows "aligned n (a + b)"
proof -
  have "n dvd unat a" "n dvd unat b" using assms(1,2) by (simp_all add: aligned_def mod_eq_0_iff_dvd)
  then have "n dvd (unat a + unat b) mod 2 ^ 64" using assms(3) by (simp add: dvd_mod)
  then show ?thesis by (simp add: aligned_def unat_word_ariths mod_eq_0_iff_dvd)
qed

subsection \<open>User space (cuddl/iomem.h, cuddl/iomem.hpp)\<close>

definition cuddl_ioread8 :: "'s io_bus \<Rightarrow> ulong \<Rightarrow> 's \<Rightarrow> (8 word \<times> 's) option" where
  "cuddl_ioread8 M addr s = do { (v, s) \<leftarrow> volatile_load M 1 addr s; Some (of_nat v, s) }"

definition cuddl_ioread16 :: "'s io_bus \<Rightarrow> ulong \<Rightarrow> 's \<Rightarrow> (16 word \<times> 's) option" where
  "cuddl_ioread16 M addr s = do { (v, s) \<leftarrow> volatile_load M 2 addr s; Some (of_nat v, s) }"

definition cuddl_ioread32 :: "'s io_bus \<Rightarrow> ulong \<Rightarrow> 's \<Rightarrow> (32 word \<times> 's) option" where
  "cuddl_ioread32 M addr s = do { (v, s) \<leftarrow> volatile_load M 4 addr s; Some (of_nat v, s) }"

definition cuddl_iowrite8 :: "'s io_bus \<Rightarrow> 8 word \<Rightarrow> ulong \<Rightarrow> 's \<Rightarrow> 's option" where
  "cuddl_iowrite8 M value addr s = volatile_store M 1 (unat value) addr s"

definition cuddl_iowrite16 :: "'s io_bus \<Rightarrow> 16 word \<Rightarrow> ulong \<Rightarrow> 's \<Rightarrow> 's option" where
  "cuddl_iowrite16 M value addr s = volatile_store M 2 (unat value) addr s"

definition cuddl_iowrite32 :: "'s io_bus \<Rightarrow> 32 word \<Rightarrow> ulong \<Rightarrow> 's \<Rightarrow> 's option" where
  "cuddl_iowrite32 M value addr s = volatile_store M 4 (unat value) addr s"

lemmas ioread_defs = cuddl_ioread8_def cuddl_ioread16_def cuddl_ioread32_def
lemmas iowrite_defs = cuddl_iowrite8_def cuddl_iowrite16_def cuddl_iowrite32_def

text \<open>The C++ names are aliases.\<close>

definition ioread8 :: "'s io_bus \<Rightarrow> ulong \<Rightarrow> 's \<Rightarrow> (8 word \<times> 's) option" where
  "ioread8 = cuddl_ioread8"

definition ioread16 :: "'s io_bus \<Rightarrow> ulong \<Rightarrow> 's \<Rightarrow> (16 word \<times> 's) option" where
  "ioread16 = cuddl_ioread16"

definition ioread32 :: "'s io_bus \<Rightarrow> ulong \<Rightarrow> 's \<Rightarrow> (32 word \<times> 's) option" where
  "ioread32 = cuddl_ioread32"

definition iowrite8 :: "'s io_bus \<Rightarrow> 8 word \<Rightarrow> ulong \<Rightarrow> 's \<Rightarrow> 's option" where
  "iowrite8 = cuddl_iowrite8"

definition iowrite16 :: "'s io_bus \<Rightarrow> 16 word \<Rightarrow> ulong \<Rightarrow> 's \<Rightarrow> 's option" where
  "iowrite16 = cuddl_iowrite16"

definition iowrite32 :: "'s io_bus \<Rightarrow> 32 word \<Rightarrow> ulong \<Rightarrow> 's \<Rightarrow> 's option" where
  "iowrite32 = cuddl_iowrite32"

subsection \<open>Kernel space (cuddlk/iomem.h)\<close>

text \<open>
  The kernel's accessors: on Linux they are the kernel's own \<^verbatim>\<open>ioread8\<close> and so on, which
  are parameters; elsewhere they are volatile accesses as in user space.
\<close>

record 's kernel_io =
  kio_linux :: bool
  kio_bus :: "'s io_bus"
  kio_ioread :: "nat \<Rightarrow> ulong \<Rightarrow> 's \<Rightarrow> (nat \<times> 's) option"
  kio_iowrite :: "nat \<Rightarrow> nat \<Rightarrow> ulong \<Rightarrow> 's \<Rightarrow> 's option"

definition kernel_load :: "'s kernel_io \<Rightarrow> nat \<Rightarrow> ulong \<Rightarrow> 's \<Rightarrow> (nat \<times> 's) option" where
  "kernel_load K n addr s = (if kio_linux K then kio_ioread K n addr s else volatile_load (kio_bus K) n addr s)"

definition kernel_store :: "'s kernel_io \<Rightarrow> nat \<Rightarrow> nat \<Rightarrow> ulong \<Rightarrow> 's \<Rightarrow> 's option" where
  "kernel_store K n v addr s = (if kio_linux K then kio_iowrite K n v addr s else volatile_store (kio_bus K) n v addr s)"

definition cuddlk_ioread8 :: "'s kernel_io \<Rightarrow> ulong \<Rightarrow> 's \<Rightarrow> (8 word \<times> 's) option" where
  "cuddlk_ioread8 K addr s = do { (v, s) \<leftarrow> kernel_load K 1 addr s; Some (of_nat v, s) }"

definition cuddlk_ioread16 :: "'s kernel_io \<Rightarrow> ulong \<Rightarrow> 's \<Rightarrow> (16 word \<times> 's) option" where
  "cuddlk_ioread16 K addr s = do { (v, s) \<leftarrow> kernel_load K 2 addr s; Some (of_nat v, s) }"

definition cuddlk_ioread32 :: "'s kernel_io \<Rightarrow> ulong \<Rightarrow> 's \<Rightarrow> (32 word \<times> 's) option" where
  "cuddlk_ioread32 K addr s = do { (v, s) \<leftarrow> kernel_load K 4 addr s; Some (of_nat v, s) }"

definition cuddlk_iowrite8 :: "'s kernel_io \<Rightarrow> 8 word \<Rightarrow> ulong \<Rightarrow> 's \<Rightarrow> 's option" where
  "cuddlk_iowrite8 K value addr s = kernel_store K 1 (unat value) addr s"

definition cuddlk_iowrite16 :: "'s kernel_io \<Rightarrow> 16 word \<Rightarrow> ulong \<Rightarrow> 's \<Rightarrow> 's option" where
  "cuddlk_iowrite16 K value addr s = kernel_store K 2 (unat value) addr s"

definition cuddlk_iowrite32 :: "'s kernel_io \<Rightarrow> 32 word \<Rightarrow> ulong \<Rightarrow> 's \<Rightarrow> 's option" where
  "cuddlk_iowrite32 K value addr s = kernel_store K 4 (unat value) addr s"

subsection \<open>Memory regions (cuddl/memregion.h)\<close>

text \<open>The offset is added to the pointer as it is; nothing compares it with the length.\<close>

definition cuddl_memregion_ioread8 :: "'s io_bus \<Rightarrow> cuddl_memregion \<Rightarrow> size_t \<Rightarrow> 's \<Rightarrow> (8 word \<times> 's) option" where
  "cuddl_memregion_ioread8 M memregion offset s = cuddl_ioread8 M (um_region_addr memregion + offset) s"

definition cuddl_memregion_ioread16 :: "'s io_bus \<Rightarrow> cuddl_memregion \<Rightarrow> size_t \<Rightarrow> 's \<Rightarrow> (16 word \<times> 's) option" where
  "cuddl_memregion_ioread16 M memregion offset s = cuddl_ioread16 M (um_region_addr memregion + offset) s"

definition cuddl_memregion_ioread32 :: "'s io_bus \<Rightarrow> cuddl_memregion \<Rightarrow> size_t \<Rightarrow> 's \<Rightarrow> (32 word \<times> 's) option" where
  "cuddl_memregion_ioread32 M memregion offset s = cuddl_ioread32 M (um_region_addr memregion + offset) s"

definition cuddl_memregion_iowrite8 :: "'s io_bus \<Rightarrow> cuddl_memregion \<Rightarrow> 8 word \<Rightarrow> size_t \<Rightarrow> 's \<Rightarrow> 's option" where
  "cuddl_memregion_iowrite8 M memregion value offset s = cuddl_iowrite8 M value (um_region_addr memregion + offset) s"

definition cuddl_memregion_iowrite16 :: "'s io_bus \<Rightarrow> cuddl_memregion \<Rightarrow> 16 word \<Rightarrow> size_t \<Rightarrow> 's \<Rightarrow> 's option" where
  "cuddl_memregion_iowrite16 M memregion value offset s = cuddl_iowrite16 M value (um_region_addr memregion + offset) s"

definition cuddl_memregion_iowrite32 :: "'s io_bus \<Rightarrow> cuddl_memregion \<Rightarrow> 32 word \<Rightarrow> size_t \<Rightarrow> 's \<Rightarrow> 's option" where
  "cuddl_memregion_iowrite32 M memregion value offset s = cuddl_iowrite32 M value (um_region_addr memregion + offset) s"

lemmas memregion_io_defs = cuddl_memregion_ioread8_def cuddl_memregion_ioread16_def
  cuddl_memregion_ioread32_def cuddl_memregion_iowrite8_def cuddl_memregion_iowrite16_def
  cuddl_memregion_iowrite32_def

text \<open>The methods of the C++ class.\<close>

definition MemRegion_ioread8 :: "'s io_bus \<Rightarrow> MemRegion \<Rightarrow> size_t \<Rightarrow> 's \<Rightarrow> (8 word \<times> 's) option" where
  "MemRegion_ioread8 M this offset s = cuddl_memregion_ioread8 M (region_mem this) offset s"

definition MemRegion_ioread16 :: "'s io_bus \<Rightarrow> MemRegion \<Rightarrow> size_t \<Rightarrow> 's \<Rightarrow> (16 word \<times> 's) option" where
  "MemRegion_ioread16 M this offset s = cuddl_memregion_ioread16 M (region_mem this) offset s"

definition MemRegion_ioread32 :: "'s io_bus \<Rightarrow> MemRegion \<Rightarrow> size_t \<Rightarrow> 's \<Rightarrow> (32 word \<times> 's) option" where
  "MemRegion_ioread32 M this offset s = cuddl_memregion_ioread32 M (region_mem this) offset s"

definition MemRegion_iowrite8 :: "'s io_bus \<Rightarrow> MemRegion \<Rightarrow> 8 word \<Rightarrow> size_t \<Rightarrow> 's \<Rightarrow> 's option" where
  "MemRegion_iowrite8 M this value offset s = cuddl_memregion_iowrite8 M (region_mem this) value offset s"

definition MemRegion_iowrite16 :: "'s io_bus \<Rightarrow> MemRegion \<Rightarrow> 16 word \<Rightarrow> size_t \<Rightarrow> 's \<Rightarrow> 's option" where
  "MemRegion_iowrite16 M this value offset s = cuddl_memregion_iowrite16 M (region_mem this) value offset s"

definition MemRegion_iowrite32 :: "'s io_bus \<Rightarrow> MemRegion \<Rightarrow> 32 word \<Rightarrow> size_t \<Rightarrow> 's \<Rightarrow> 's option" where
  "MemRegion_iowrite32 M this value offset s = cuddl_memregion_iowrite32 M (region_mem this) value offset s"

lemmas MemRegion_io_defs = MemRegion_ioread8_def MemRegion_ioread16_def MemRegion_ioread32_def
  MemRegion_iowrite8_def MemRegion_iowrite16_def MemRegion_iowrite32_def

subsection \<open>The contract of a plain memory\<close>

text \<open>
  \<open>backed s a n pa\<close>: the \<open>n\<close> addresses from \<open>a\<close> reach the cells \<open>pa, \<dots>\<close> of the memory, of
  which \<open>peek s pa n\<close> are the bytes. Two ranges of cells are \<open>apart\<close> when no cell is in both.
\<close>

definition apart :: "ulong \<Rightarrow> nat \<Rightarrow> ulong \<Rightarrow> nat \<Rightarrow> bool" where
  "apart pa n pb k \<longleftrightarrow> (\<forall>i < n. \<forall>j < k. pa + of_nat i \<noteq> pb + of_nat j)"

locale io_memory =
  fixes M :: "'s io_bus"
    and backed :: "'s \<Rightarrow> ulong \<Rightarrow> nat \<Rightarrow> ulong \<Rightarrow> bool"
    and peek :: "'s \<Rightarrow> ulong \<Rightarrow> nat \<Rightarrow> 8 word list"
  assumes load: "backed s a n pa \<Longrightarrow> bus_load M n a s = Some (peek s pa n, s)"
    and length_peek: "length (peek s pa n) = n"
    and store: "backed s a (length bs) pa \<Longrightarrow> length bs \<le> 8 \<Longrightarrow> \<exists>s'. bus_store M bs a s = Some s' \<and>
      peek s' pa (length bs) = bs \<and> backed s' = backed s \<and>
      (\<forall>pb k. apart pa (length bs) pb k \<longrightarrow> peek s' pb k = peek s pb k)"
begin

lemma load_value:
  "backed s a n pa \<Longrightarrow> aligned n a \<Longrightarrow> volatile_load M n a s = Some (host_value M (peek s pa n), s)"
  by (simp add: volatile_load_def load)

lemma store_value:
  assumes "backed s a n pa" "aligned n a" "n \<le> 8" "v < 256 ^ n"
  obtains s' where "volatile_store M n v a s = Some s'" "host_value M (peek s' pa n) = v" "backed s' = backed s"
    "\<And>pb k. apart pa n pb k \<Longrightarrow> peek s' pb k = peek s pb k"
proof -
  obtain s' where "bus_store M (host_bytes M n v) a s = Some s'" "peek s' pa n = host_bytes M n v"
    "backed s' = backed s" "\<forall>pb k. apart pa n pb k \<longrightarrow> peek s' pb k = peek s pb k"
    using store [of s a "host_bytes M n v" pa] assms by auto
  with that [of s'] assms show thesis by (simp add: volatile_store_def host_value_host_bytes)
qed

end

subsection \<open>A process and the physical memory\<close>

text \<open>
  \<open>io_pages\<close> is the address space of a process: where an address of the process lies in the
  physical memory, if it is mapped.
\<close>

record io_space =
  io_pages :: "ulong \<Rightarrow> ulong option"
  io_phys :: "ulong \<Rightarrow> 8 word"

fun load_bytes :: "nat \<Rightarrow> ulong \<Rightarrow> io_space \<Rightarrow> 8 word list option" where
  "load_bytes 0 a s = Some []"
| "load_bytes (Suc n) a s = do { pa \<leftarrow> io_pages s a; bs \<leftarrow> load_bytes n (a + 1) s; Some (io_phys s pa # bs) }"

fun store_bytes :: "8 word list \<Rightarrow> ulong \<Rightarrow> io_space \<Rightarrow> io_space option" where
  "store_bytes [] a s = Some s"
| "store_bytes (b # bs) a s = do {
     pa \<leftarrow> io_pages s a;
     store_bytes bs (a + 1) (s\<lparr>io_phys := (io_phys s)(pa := b)\<rparr>)
   }"

definition space_bus :: "bool \<Rightarrow> io_space io_bus" where
  "space_bus big = \<lparr>bus_big_endian = big, bus_load = (\<lambda>n a s. map_option (\<lambda>bs. (bs, s)) (load_bytes n a s)),
     bus_store = store_bytes\<rparr>"

definition space_backed :: "io_space \<Rightarrow> ulong \<Rightarrow> nat \<Rightarrow> ulong \<Rightarrow> bool" where
  "space_backed s a n pa \<longleftrightarrow> (\<forall>k < n. io_pages s (a + of_nat k) = Some (pa + of_nat k))"

definition phys_bytes :: "io_space \<Rightarrow> ulong \<Rightarrow> nat \<Rightarrow> 8 word list" where
  "phys_bytes s pa n = map (\<lambda>k. io_phys s (pa + of_nat k)) [0..<n]"

lemma length_phys_bytes [simp]: "length (phys_bytes s pa n) = n"
  by (simp add: phys_bytes_def)

lemma space_backed_phys [simp]: "space_backed (s\<lparr>io_phys := h\<rparr>) = space_backed s"
  by (simp add: space_backed_def fun_eq_iff)

lemma space_backed_Suc:
  "space_backed s a (Suc n) pa \<longleftrightarrow> io_pages s a = Some pa \<and> space_backed s (a + 1) n (pa + 1)"
  unfolding space_backed_def All_less_Suc2 by (simp add: algebra_simps)

lemma phys_bytes_Suc: "phys_bytes s pa (Suc n) = io_phys s pa # phys_bytes s (pa + 1) n"
  by (simp add: phys_bytes_def upt_conv_Cons map_Suc_upt [symmetric] algebra_simps del: upt_Suc)

lemma load_bytes_backed: "space_backed s a n pa \<Longrightarrow> load_bytes n a s = Some (phys_bytes s pa n)"
proof (induction n arbitrary: a pa)
  case 0
  then show ?case by (simp add: phys_bytes_def)
next
  case (Suc n)
  from Suc.prems Suc.IH [of "a + 1" "pa + 1"] show ?case by (simp add: space_backed_Suc phys_bytes_Suc)
qed

text \<open>The physical memory after a write: cell \<open>pa + k\<close> holds byte \<open>k\<close>, every other cell is as before.\<close>

definition poke :: "ulong \<Rightarrow> 8 word list \<Rightarrow> (ulong \<Rightarrow> 8 word) \<Rightarrow> ulong \<Rightarrow> 8 word" where
  "poke pa bs h = (\<lambda>x. if unat (x - pa) < length bs then bs ! unat (x - pa) else h x)"

lemma poke_Nil [simp]: "poke pa [] h = h"
  by (simp add: poke_def)

lemma poke_Cons:
  assumes "Suc (length bs) < 2 ^ 64"
  shows "poke (pa + 1) bs (h(pa := b)) = poke pa (b # bs) h"
proof
  fix x
  show "poke (pa + 1) bs (h(pa := b)) x = poke pa (b # bs) h x"
  proof (cases "x = pa")
    case True
    have "unat (- 1 :: ulong) = 2 ^ 64 - 1" by (simp add: unsigned_minus_1_eq_mask mask_eq_exp_minus_1)
    with True assms show ?thesis by (simp add: poke_def)
  next
    case False
    moreover have eq: "x - pa = 1 + (x - (pa + 1))" by simp
    ultimately have "1 + (x - (pa + 1)) \<noteq> 0" by (metis eq_iff_diff_eq_0)
    from unatSuc [OF this] have "unat (x - pa) = Suc (unat (x - (pa + 1)))" unfolding eq .
    with False show ?thesis by (simp add: poke_def)
  qed
qed

lemma store_bytes_backed:
  "space_backed s a (length bs) pa \<Longrightarrow> length bs \<le> 8 \<Longrightarrow>
     store_bytes bs a s = Some (s\<lparr>io_phys := poke pa bs (io_phys s)\<rparr>)"
proof (induction bs arbitrary: a pa s)
  case (Cons b bs)
  obtain h where h: "h = (io_phys s)(pa := b)" by blast
  from Cons.prems have t: "io_pages s a = Some pa" "space_backed (s\<lparr>io_phys := h\<rparr>) (a + 1) (length bs) (pa + 1)"
      "length bs \<le> 8" by (simp_all add: space_backed_Suc)
  have "poke (pa + 1) bs h = poke pa (b # bs) (io_phys s)"
    unfolding h using t(3) by (intro poke_Cons) simp
  moreover have "store_bytes (b # bs) a s = store_bytes bs (a + 1) (s\<lparr>io_phys := h\<rparr>)"
    using t(1) by (simp add: h)
  moreover from Cons.IH [OF t(2,3)]
  have "store_bytes bs (a + 1) (s\<lparr>io_phys := h\<rparr>) = Some (s\<lparr>io_phys := poke (pa + 1) bs h\<rparr>)" by simp
  ultimately show ?case by (simp only:)
qed simp

lemma phys_bytes_poke:
  assumes "length bs \<le> 8"
  shows "phys_bytes (s\<lparr>io_phys := poke pa bs (io_phys s)\<rparr>) pa (length bs) = bs"
proof (rule nth_equalityI)
  fix i assume "i < length (phys_bytes (s\<lparr>io_phys := poke pa bs (io_phys s)\<rparr>) pa (length bs))"
  then have i: "i < length bs" by (simp add: phys_bytes_def)
  with assms have "unat (of_nat i :: ulong) = i" by (simp add: unat_of_nat take_bit_nat_eq_self)
  with i show "phys_bytes (s\<lparr>io_phys := poke pa bs (io_phys s)\<rparr>) pa (length bs) ! i = bs ! i"
    by (simp add: phys_bytes_def poke_def)
qed (simp add: phys_bytes_def)

lemma phys_bytes_poke_apart:
  assumes "apart pa (length bs) pb k"
  shows "phys_bytes (s\<lparr>io_phys := poke pa bs (io_phys s)\<rparr>) pb k = phys_bytes s pb k"
proof -
  have "poke pa bs (io_phys s) (pb + of_nat j) = io_phys s (pb + of_nat j)" if "j < k" for j
  proof (cases "unat (pb + of_nat j - pa) < length bs")
    case True
    with assms that have "pa + of_nat (unat (pb + of_nat j - pa)) \<noteq> pb + of_nat j" unfolding apart_def by blast
    moreover have "pa + of_nat (unat (pb + of_nat j - pa)) = pb + of_nat j" by simp
    ultimately show ?thesis ..
  qed (simp add: poke_def)
  then show ?thesis by (simp add: phys_bytes_def)
qed

interpretation space: io_memory "space_bus big" space_backed phys_bytes
  by unfold_locales
    (auto simp: space_bus_def load_bytes_backed store_bytes_backed phys_bytes_poke
      phys_bytes_poke_apart)

end
