(* ===== verification/Managed_Devices.thy ===== *)
theory Managed_Devices
  imports Ioctl_Semantics
begin

section \<open>What holds of every managed device\<close>

text \<open>
  A property of the devices in the manager's table: what managing one more device, and a
  request of a process, have to show to keep it. The theories on the geometry of regions and on
  interrupts use this for what registration sets up.
\<close>

definition all_managed :: "(cuddlk_device \<Rightarrow> bool) \<Rightarrow> kstate \<Rightarrow> bool" where
  "all_managed P st \<longleftrightarrow> (\<forall>i < CUDDLK_MAX_MANAGED_DEVICES. \<forall>d. managed_device st i = Some d \<longrightarrow> P d)"

lemma all_managedD: "all_managed P st \<Longrightarrow> i < CUDDLK_MAX_MANAGED_DEVICES \<Longrightarrow> managed_device st i = Some d \<Longrightarrow> P d"
  by (simp add: all_managed_def)

lemma all_managed_empty: "all_managed P (empty_kstate h)"
  by (simp add: all_managed_def managed_device_def)

text \<open>Requests change reference counts only.\<close>

lemma all_managed_shape:
  assumes "all_managed P st" "k_shape st' = k_shape st"
    and P: "\<And>i d d'. i < CUDDLK_MAX_MANAGED_DEVICES \<Longrightarrow> managed_device st i = Some d \<Longrightarrow> managed_device st' i = Some d' \<Longrightarrow>
      erase_counts d' = erase_counts d \<Longrightarrow> P d \<Longrightarrow> P d'"
  shows "all_managed P st'"
  unfolding all_managed_def
proof (intro allI impI)
  fix i d' assume i: "i < CUDDLK_MAX_MANAGED_DEVICES" and d': "managed_device st' i = Some d'"
  from managed_shape [OF assms(2), of i] d' obtain d where d: "managed_device st i = Some d"
    "erase_counts d' = erase_counts d" by (cases "managed_device st i") simp_all
  from P [OF i d(1) d' d(2) all_managedD [OF assms(1) i d(1)]] show "P d'" .
qed

lemma all_managed_ioctl:
  assumes "manager_inv cfg st" "refs_few st" "all_named cfg st" "\<not> k_locked st" "all_managed P st"
    and "cuddlk_manager_ioctl cfg env cmd st = Some (ret, out, st')"
    and "\<And>i d d'. i < CUDDLK_MAX_MANAGED_DEVICES \<Longrightarrow> manager_inv cfg st' \<Longrightarrow>
      managed_device st i = Some d \<Longrightarrow> managed_device st' i = Some d' \<Longrightarrow>
      erase_counts d' = erase_counts d \<Longrightarrow> P d \<Longrightarrow> P d'"
  shows "all_managed P st'"
proof -
  from manager_ioctl_keeps [OF assms(1-4), of env cmd] assms(6)
  have "manager_inv cfg st'" "k_shape st' = k_shape st" by (metis option.inject prod.inject)+
  with all_managed_shape [OF assms(5) this(2)] assms(7) show ?thesis by blast
qed

subsection \<open>What registration leaves of a device\<close>

text \<open>
  A device that was registered is what \<open>register_setup\<close> made of it, with the UIO device and, with
  UDD, the signal and the UDD device that were created.
\<close>

definition set_up_as :: "kcfg \<Rightarrow> reg_env \<Rightarrow> dptr \<Rightarrow> cuddlk_device \<Rightarrow> cuddlk_device \<Rightarrow> bool" where
  "set_up_as cfg env p d d' \<longleftrightarrow> (\<exists>md u d1. register_setup cfg md p (d\<lparr>d_unique_name := Live u\<rparr>) = Some d1 \<and>
     d_mem d' = d_mem d1 \<and> map ev_intr (d_events d') = map ev_intr (d_events d1) \<and>
     d_uio d' = (d_uio d1)\<lparr>uio_dev := Live \<lparr>uiod_minor = uio_register_minor env, uiod_owner = d_owner_ptr d1\<rparr>\<rparr>)"

lemma register_set_up:
  assumes "cuddlk_device_register cfg env p st = Some (0, st')" "k_heap st p = Some d" "arrays_ok d"
  obtains d' where "st' = set_dev p d' st" "set_up_as cfg env p d d'"
proof -
  from assms(1,2) obtain g n where gn: "d_group d = Some g" "d_name d = Some n" "kasprintf_ok env"
    by (auto simp: cuddlk_device_register_def bind_eq_Some_conv split: option.splits if_splits)
  let ?d0 = "d\<lparr>d_unique_name := Live (unique_name_of g n (d_instance d))\<rparr>"
  have a0: "arrays_ok ?d0" using assms(3) by (simp add: arrays_ok_def)
  obtain d1 where d1: "register_setup cfg (cuddlk_manager_device st) p ?d0 = Some d1"
    using register_setup_effect [OF a0, of cfg "cuddlk_manager_device st" p] by metis
  let ?d2 = "d1\<lparr>d_uio := (d_uio d1)\<lparr>uio_dev :=
     Live \<lparr>uiod_minor = uio_register_minor env, uiod_owner = d_owner_ptr d1\<rparr>\<rparr>\<rparr>"
  have up: "set_up_as cfg env p d d'"
    if "d_mem d' = d_mem d1" "map ev_intr (d_events d') = map ev_intr (d_events d1)" "d_uio d' = d_uio ?d2" for d'
    using that d1 unfolding set_up_as_def by auto
  have ok: "uio_register_ret env = 0"
    using assms(1,2) gn d1 by (auto simp: cuddlk_device_register_def bind_eq_Some_conv split: if_splits)
  show thesis
  proof (cases "use_udd cfg")
    case False
    with assms(1,2) gn d1 ok have "st' = set_dev p ?d2 st" by (simp add: cuddlk_device_register_def)
    with that [of ?d2] up [of ?d2] show thesis by simp
  next
    case True
    with assms(1,2) gn d1 ok obtain d3 where d3: "rtdm_nrtsig_init ?d2 = Some d3"
      "st' = set_dev p (d3\<lparr>d_udd := (d_udd d3)\<lparr>udd_registered := True\<rparr>\<rparr>) st"
      by (auto simp: cuddlk_device_register_def bind_eq_Some_conv split: if_splits)
    from d3(1) have "d_mem d3 = d_mem d1" "d_uio d3 = d_uio ?d2" "map ev_intr (d_events d3) = map ev_intr (d_events d1)"
      by (auto simp: rtdm_nrtsig_init_def bind_eq_Some_conv map_arr_set_same)
    with up [of "d3\<lparr>d_udd := (d_udd d3)\<lparr>udd_registered := True\<rparr>\<rparr>"] that d3(2) show thesis by simp
  qed
qed

lemma manage_set_up:
  assumes "cuddlk_device_manage cfg env p st = Some (0, st')" "k_heap st p = Some d" "arrays_ok d"
  obtains d' n where "k_heap st' = (k_heap st)(p \<mapsto> d')" "set_up_as cfg env p (d\<lparr>d_instance := n\<rparr>) d'"
proof -
  from assms(1,2) obtain st1 st2 st3 ret1 where s: "cuddlk_manager_lock st = Some st1"
    "manage_instance p d st1 = Some (ret1, st2)" "\<not> ret1 < 0"
    "cuddlk_device_register cfg env p st2 = Some (0, st3)"
    "\<exists>st4. cuddlk_manager_add_device st3 p = Some (0, st4) \<and> cuddlk_manager_unlock st4 = Some st'"
    by (auto simp: cuddlk_device_manage_def bind_eq_Some_conv cuddlk_manager_lock_def split: if_splits)
  from s(1) have h1: "k_heap st1 = k_heap st" by (auto simp: cuddlk_manager_lock_def split: if_splits)
  obtain n where h2: "k_heap st2 = (k_heap st)(p \<mapsto> d\<lparr>d_instance := n\<rparr>)"
  proof (cases "d_instance d = 0")
    case True
    with that s(2,3) h1 show ?thesis by (auto simp: manage_instance_def bind_eq_Some_conv split: if_splits)
  next
    case False
    have "(k_heap st)(p \<mapsto> d\<lparr>d_instance := d_instance d\<rparr>) = k_heap st" using assms(2) by (simp add: fun_upd_idem)
    with that [of "d_instance d"] False s(2) h1 show ?thesis by (simp add: manage_instance_def)
  qed
  then have d2: "k_heap st2 p = Some (d\<lparr>d_instance := n\<rparr>)" by simp
  have "arrays_ok (d\<lparr>d_instance := n\<rparr>)" using assms(3) by (simp add: arrays_ok_def)
  from register_set_up [OF s(4) d2 this] obtain d' where d': "st3 = set_dev p d' st2"
    "set_up_as cfg env p (d\<lparr>d_instance := n\<rparr>) d'" .
  from s(5) have "k_heap st' = k_heap st3"
    by (auto simp: cuddlk_manager_add_device_def cuddlk_manager_unlock_def bind_eq_Some_conv split: if_splits option.splits)
  with that d' h2 show thesis by simp
qed

text \<open>Managing a device: one slot gets the device that was set up, every other slot keeps its own.\<close>

lemma manage_slots:
  assumes "manager_inv cfg st" "\<not> k_locked st" "not_managed p st" "k_heap st p = Some d" "fresh_device d"
  obtains ret st' where "cuddlk_device_manage cfg env p st = Some (ret, st')"
    "ret \<noteq> 0 \<Longrightarrow> \<forall>j < CUDDLK_MAX_MANAGED_DEVICES. managed_device st' j = managed_device st j"
    "ret = 0 \<Longrightarrow> \<exists>i d' n. i < CUDDLK_MAX_MANAGED_DEVICES \<and> managed_device st' i = Some d' \<and>
       set_up_as cfg env p (d\<lparr>d_instance := n\<rparr>) d' \<and>
       (\<forall>j < CUDDLK_MAX_MANAGED_DEVICES. j \<noteq> i \<longrightarrow> managed_device st' j = managed_device st j)"
proof -
  note ok = manager_invD(1) [OF assms(1)]
  from assms(5) have a: "arrays_ok d" by (simp add: fresh_device_def)
  obtain ret st' d' where m: "cuddlk_device_manage cfg env p st = Some (ret, st')"
    "but_for p st' st" "k_heap st' p = Some d'" "ret \<noteq> 0 \<Longrightarrow> k_table st' = k_table st"
    "ret = 0 \<Longrightarrow> \<exists>i < CUDDLK_MAX_MANAGED_DEVICES. k_table st' = (k_table st)[i := Some p]"
    using manage_outcome [OF manager_inv_table_ok [OF assms(1)] assms(2-4) a, of cfg env] assms(5)
    by (metis fresh_device_def)
  have kept: "managed_device st' j = managed_device st j"
    if "j < CUDDLK_MAX_MANAGED_DEVICES" "k_table st' ! j = k_table st ! j" for j
  proof -
    have "k_table st ! j \<in> set (k_table st)" using that(1) ok by (simp add: table_len_def)
    then have "k_table st ! j \<noteq> Some p" using assms(3) by (auto simp: not_managed_def)
    with that(2) m(2) show ?thesis by (cases "k_table st ! j") (auto simp: managed_device_def but_for_def)
  qed
  show thesis
  proof (rule that [OF m(1)])
    show "\<forall>j < CUDDLK_MAX_MANAGED_DEVICES. managed_device st' j = managed_device st j" if "ret \<noteq> 0"
      using kept m(4) [OF that] by simp
  next
    assume "ret = 0"
    with m(5) obtain i where i: "i < CUDDLK_MAX_MANAGED_DEVICES" "k_table st' = (k_table st)[i := Some p]" by auto
    obtain d2 n where d2: "k_heap st' = (k_heap st)(p \<mapsto> d2)" "set_up_as cfg env p (d\<lparr>d_instance := n\<rparr>) d2"
      by (rule manage_set_up [OF m(1) [unfolded \<open>ret = 0\<close>] assms(4) a])
    have "managed_device st' i = Some d2" using i ok d2(1) by (simp add: managed_device_def table_len_def)
    moreover have "\<forall>j < CUDDLK_MAX_MANAGED_DEVICES. j \<noteq> i \<longrightarrow> managed_device st' j = managed_device st j"
      using kept i(2) by simp
    ultimately show "\<exists>i d' n. i < CUDDLK_MAX_MANAGED_DEVICES \<and> managed_device st' i = Some d' \<and>
       set_up_as cfg env p (d\<lparr>d_instance := n\<rparr>) d' \<and>
       (\<forall>j < CUDDLK_MAX_MANAGED_DEVICES. j \<noteq> i \<longrightarrow> managed_device st' j = managed_device st j)" using i(1) d2(2) by blast
  qed
qed

lemma manage_keeps_all:
  assumes "manager_inv cfg st" "\<not> k_locked st" "not_managed p st" "k_heap st p = Some d" "fresh_device d"
    and "all_managed P st" "\<And>n d'. set_up_as cfg env p (d\<lparr>d_instance := n\<rparr>) d' \<Longrightarrow> P d'"
  shows "\<exists>ret st'. cuddlk_device_manage cfg env p st = Some (ret, st') \<and> all_managed P st' \<and>
    (ret = 0 \<longrightarrow> (\<exists>i d' n. i < CUDDLK_MAX_MANAGED_DEVICES \<and> managed_device st' i = Some d' \<and>
       set_up_as cfg env p (d\<lparr>d_instance := n\<rparr>) d'))"
proof -
  obtain ret st' where m: "cuddlk_device_manage cfg env p st = Some (ret, st')"
    "ret \<noteq> 0 \<Longrightarrow> \<forall>j < CUDDLK_MAX_MANAGED_DEVICES. managed_device st' j = managed_device st j"
    "ret = 0 \<Longrightarrow> \<exists>i d' n. i < CUDDLK_MAX_MANAGED_DEVICES \<and> managed_device st' i = Some d' \<and>
       set_up_as cfg env p (d\<lparr>d_instance := n\<rparr>) d' \<and>
       (\<forall>j < CUDDLK_MAX_MANAGED_DEVICES. j \<noteq> i \<longrightarrow> managed_device st' j = managed_device st j)"
    using manage_slots [OF assms(1-5), where env = env] by blast
  show ?thesis
  proof (cases "ret = 0")
    case False
    with m(1,2) assms(6) show ?thesis by (simp add: all_managed_def)
  next
    case True
    with m(3) obtain i d' n where i: "i < CUDDLK_MAX_MANAGED_DEVICES" "managed_device st' i = Some d'"
      "set_up_as cfg env p (d\<lparr>d_instance := n\<rparr>) d'"
      "\<And>j. j < CUDDLK_MAX_MANAGED_DEVICES \<Longrightarrow> j \<noteq> i \<Longrightarrow> managed_device st' j = managed_device st j" by blast
    have "all_managed P st'"
      unfolding all_managed_def
    proof (intro allI impI)
      fix j e assume "j < CUDDLK_MAX_MANAGED_DEVICES" "managed_device st' j = Some e"
      with i assms(6,7) show "P e" by (cases "j = i") (auto simp: all_managed_def)
    qed
    with m(1) i show ?thesis by blast
  qed
qed

end
