(* ===== verification/Region_Geometry.thy ===== *)
theory Region_Geometry
  imports Managed_Devices
begin

section \<open>The extent of memory regions, from the driver to UIO (cuddlk\_linux.c)\<close>

text \<open>
  What registration makes of the lengths, addresses and offsets that a driver gives for its
  memory regions, and that the maps which UIO gets describe the same memory as the regions
  that the manager hands out.
\<close>

subsection \<open>A region and the pages that are mapped for it\<close>

text \<open>The bytes of the region, from its start offset, lie in the pages that are mapped.\<close>

definition region_fits :: "cuddlk_memregion \<Rightarrow> bool" where
  "region_fits m \<longleftrightarrow> unat (mr_start_offset m) + unat (mr_len m) \<le> unat (mr_pa_len m)"

lemma region_setup_lens:
  "mr_len (region_setup cfg p m) = (if mr_len m = 0 then mr_pa_len m else mr_len m)"
  "mr_pa_len (region_setup cfg p m) =
     (if mr_pa_len m = 0 then page_size_aligned cfg (mr_len m + mr_start_offset m) else mr_pa_len m)"
  by (simp_all add: region_setup_def Let_def)

lemma unat_plus_small: "unat a + unat b < 2 ^ 64 \<Longrightarrow> unat (a + b :: ulong) = unat a + unat b"
  by (simp add: unat_word_ariths)

text \<open>C37: which regions fit into their pages after registration. When the driver leaves the page
  length to the code, the region always fits (for sizes below \<open>2\<^sup>3\<^sup>1 - 1\<close> pages); when it gives both
  lengths, the region fits exactly if the lengths it gave are consistent; but when it gives only
  the page length, the length becomes the page length and the region fits only if it starts at
  the beginning of the first page: with any other start offset its end lies outside.\<close>

theorem region_setup_fits:
  assumes "0 < unat (page_size cfg)" "unat (page_size cfg) \<le> 2 ^ 32"
    and "unat (mr_start_offset m) + unat (mr_len m) < unat (page_size cfg) * (2 ^ 31 - 1)"
  shows "region_fits (region_setup cfg p m) \<longleftrightarrow>
    (if mr_pa_len m = 0 then True
     else if mr_len m = 0 then mr_start_offset m = 0
     else unat (mr_start_offset m) + unat (mr_len m) \<le> unat (mr_pa_len m))"
proof (cases "mr_pa_len m = 0")
  case True
  let ?n = "mr_len m + mr_start_offset m"
  have "unat (page_size cfg) * (2 ^ 31 - 1) \<le> 2 ^ 32 * (2 ^ 31 - 1)" using assms(2) by (rule mult_le_mono1)
  with assms(3) have n: "unat ?n = unat (mr_start_offset m) + unat (mr_len m)"
    by (simp add: unat_plus_small)
  have "unat ?n div unat (page_size cfg) < 2 ^ 31 - 1"
    using assms(1,3) unfolding n by (simp add: div_less_iff_less_mult mult.commute)
  from page_size_aligned_bounds [OF assms(1,2) this] n True show ?thesis
    by (cases "mr_len m = 0") (simp_all add: region_fits_def region_setup_lens)
next
  case False
  then show ?thesis by (simp add: region_fits_def region_setup_lens unat_eq_zero)
qed

theorem region_setup_fits_witness:
  "region_fits (region_setup sample_cfg 1 (zero_memregion\<lparr>mr_pa_addr := 65536, mr_start_offset := 16, mr_len := 100\<rparr>)) \<and>
   \<not> region_fits (region_setup sample_cfg 1 (zero_memregion\<lparr>mr_pa_addr := 65536, mr_start_offset := 16, mr_pa_len := 4096\<rparr>))"
  using region_setup_fits [of sample_cfg "zero_memregion\<lparr>mr_pa_addr := 65536, mr_start_offset := 16, mr_len := 100\<rparr>" 1]
    region_setup_fits [of sample_cfg "zero_memregion\<lparr>mr_pa_addr := 65536, mr_start_offset := 16, mr_pa_len := 4096\<rparr>" 1]
  by (simp add: sample_cfg_def zero_memregion_def)

subsection \<open>What UIO is told\<close>

text \<open>UIO has the address, the length of the pages and the start offset of a region.\<close>

definition describes :: "uio_mem \<Rightarrow> cuddlk_memregion \<Rightarrow> bool" where
  "describes u m \<longleftrightarrow> um_addr u = mr_pa_addr m \<and> um_size u = mr_pa_len m \<and> um_offs u = mr_start_offset m"

lemma describes_uio_mem_of [simp]: "describes (uio_mem_of m) m"
  by (simp add: describes_def uio_mem_of_def)

text \<open>Every region that UIO has a map for is described to it as the region is.\<close>

definition maps_agree :: "kcfg \<Rightarrow> cuddlk_device \<Rightarrow> bool" where
  "maps_agree cfg d \<longleftrightarrow> (\<forall>j < CUDDLK_MAX_DEV_MEM_REGIONS. j < max_uio_maps cfg \<longrightarrow>
     j < length (uio_maps (d_uio d)) \<and> describes (uio_maps (d_uio d) ! j) (d_mem d ! j))"

definition geometry_ok :: "kcfg \<Rightarrow> kstate \<Rightarrow> bool" where
  "geometry_ok cfg = all_managed (maps_agree cfg)"

lemma set_up_geometry:
  assumes "set_up_as cfg env p d d'" "arrays_ok d" "max_uio_maps cfg \<le> length (uio_maps (d_uio d))"
  shows "maps_agree cfg d'" "d_mem d' = map (region_setup cfg p) (d_mem d)" "uio_minor d' = Some (uio_register_minor env)"
proof -
  from assms(1) obtain md u d1 where d1: "register_setup cfg md p (d\<lparr>d_unique_name := Live u\<rparr>) = Some d1"
    "d_mem d' = d_mem d1"
    "d_uio d' = (d_uio d1)\<lparr>uio_dev := Live \<lparr>uiod_minor = uio_register_minor env, uiod_owner = d_owner_ptr d1\<rparr>\<rparr>"
    unfolding set_up_as_def by blast
  let ?d0 = "d\<lparr>d_unique_name := Live u\<rparr>"
  have a0: "arrays_ok ?d0" using assms(2) by (simp add: arrays_ok_def)
  obtain d2 where d2: "register_setup cfg md p ?d0 = Some d2"
    "d_mem d2 = map (region_setup cfg p) (d_mem ?d0)"
    "\<And>j. j < length (uio_maps (d_uio ?d0)) \<Longrightarrow> j < CUDDLK_MAX_DEV_MEM_REGIONS \<Longrightarrow>
       j < max_uio_maps cfg \<Longrightarrow> uio_maps (d_uio d2) ! j = uio_mem_of (d_mem d2 ! j)"
    "length (uio_maps (d_uio d2)) = length (uio_maps (d_uio ?d0))"
    using register_setup_effect [OF a0, of cfg md p] by metis
  with d1 have eq: "d2 = d1" by simp
  from d1(2,3) d2(3,4) assms(3) show "maps_agree cfg d'" by (simp add: eq maps_agree_def)
  from d1 d2 show "d_mem d' = map (region_setup cfg p) (d_mem d)" "uio_minor d' = Some (uio_register_minor env)"
    by (simp_all add: eq uio_minor_def)
qed

subsection \<open>The maps of UIO stay in agreement\<close>

lemma geometryD: "geometry_ok cfg st \<Longrightarrow> i < CUDDLK_MAX_MANAGED_DEVICES \<Longrightarrow> managed_device st i = Some d \<Longrightarrow> maps_agree cfg d"
  unfolding geometry_ok_def by (rule all_managedD)

lemma maps_agree_erase:
  assumes "arrays_ok d"
  shows "maps_agree cfg (erase_counts d) = maps_agree cfg d"
proof -
  have "describes u (d_mem (erase_counts d) ! j) = describes u (d_mem d ! j)" if "j < CUDDLK_MAX_DEV_MEM_REGIONS" for j u
    using that assms by (simp add: erase_counts_def arrays_ok_def describes_def)
  then show ?thesis by (auto simp: maps_agree_def)
qed

lemma geometry_ioctl:
  assumes "manager_inv cfg st" "refs_few st" "all_named cfg st" "\<not> k_locked st" "geometry_ok cfg st"
    and "cuddlk_manager_ioctl cfg env cmd st = Some (ret, out, st')"
  shows "geometry_ok cfg st'"
  unfolding geometry_ok_def
proof (rule all_managed_ioctl [OF assms(1-4) assms(5) [unfolded geometry_ok_def] assms(6)])
  fix i d d' assume i: "i < CUDDLK_MAX_MANAGED_DEVICES" "manager_inv cfg st'" "managed_device st i = Some d"
    "managed_device st' i = Some d'" "erase_counts d' = erase_counts d" "maps_agree cfg d"
  from maps_agree_erase [OF managed_arrays [OF i(2,4,1)], of cfg]
    maps_agree_erase [OF managed_arrays [OF assms(1) i(3,1)], of cfg] i(5,6)
  show "maps_agree cfg d'" by simp
qed

lemma manage_keeps_maps:
  assumes "manager_inv cfg st" "\<not> k_locked st" "not_managed p st" "k_heap st p = Some d" "fresh_device d"
    and "max_uio_maps cfg \<le> length (uio_maps (d_uio d))" "geometry_ok cfg st"
  shows "\<exists>ret st'. cuddlk_device_manage cfg env p st = Some (ret, st') \<and> geometry_ok cfg st' \<and>
    (ret = 0 \<longrightarrow> (\<exists>i d'. i < CUDDLK_MAX_MANAGED_DEVICES \<and> managed_device st' i = Some d' \<and>
       d_mem d' = map (region_setup cfg p) (d_mem d) \<and> maps_agree cfg d' \<and>
       uio_minor d' = Some (uio_register_minor env)))"
proof -
  have up: "maps_agree cfg d'" "d_mem d' = map (region_setup cfg p) (d_mem d)" "uio_minor d' = Some (uio_register_minor env)"
    if "set_up_as cfg env p (d\<lparr>d_instance := n\<rparr>) d'" for n d'
    using set_up_geometry [OF that] assms(5,6) by (simp_all add: fresh_device_def arrays_ok_def)
  obtain ret st' where m: "cuddlk_device_manage cfg env p st = Some (ret, st')" "all_managed (maps_agree cfg) st'"
    "ret = 0 \<longrightarrow> (\<exists>i d' n. i < CUDDLK_MAX_MANAGED_DEVICES \<and> managed_device st' i = Some d' \<and>
       set_up_as cfg env p (d\<lparr>d_instance := n\<rparr>) d')"
    using manage_keeps_all [OF assms(1-5) assms(7) [unfolded geometry_ok_def], where env = env] up(1) by blast
  with up show ?thesis unfolding geometry_ok_def by blast
qed

lemma geometry_empty: "geometry_ok cfg (empty_kstate h)"
  by (simp add: geometry_ok_def all_managed_empty)

text \<open>The sample device: one region of 100 bytes, for which one page is mapped.\<close>

lemma sample_region_setup:
  "length (d_mem sample_device) = 5"
  "mr_len (region_setup sample_cfg p (d_mem sample_device ! 0)) = 100"
  "mr_pa_len (region_setup sample_cfg p (d_mem sample_device ! 0)) = 4096"
  "mr_pa_addr (d_mem sample_device ! 0) = 0x10000" "mr_start_offset (d_mem sample_device ! 0) = 0"
  by (simp_all add: region_setup_lens sample_device_def zero_memregion_def page_size_aligned_def sample_cfg_def
      int_of_size_def c_int_wrap_def zero_device_def CUDDLK_MAX_DEV_MEM_REGIONS_def uint_div)

lemma sample_maps: "max_uio_maps sample_cfg \<le> length (uio_maps (d_uio sample_device))"
  by (simp add: sample_cfg_def sample_device_def zero_device_def zero_uio_def)

lemma sample_slots: "managed_device sample_state i = Some d \<Longrightarrow> i < CUDDLK_MAX_MANAGED_DEVICES \<Longrightarrow> i = 0"
  by (auto simp: managed_device_def sample_state_facts(4) nth_list_update split: if_splits)

lemma sample_geometry:
  obtains d where "geometry_ok sample_cfg sample_state" "managed_device sample_state 0 = Some d"
    "d_mem d = map (region_setup sample_cfg 1) (d_mem sample_device)" "uio_minor d = Some 3"
proof -
  from manage_keeps_maps [OF manager_inv_empty [of _ sample_heap] _ _ _ fresh_sample sample_maps geometry_empty,
      where p = 1 and env = sample_env] sample_state_facts(1)
  obtain i d where i: "i < CUDDLK_MAX_MANAGED_DEVICES" and d: "geometry_ok sample_cfg sample_state"
    "managed_device sample_state i = Some d" "d_mem d = map (region_setup sample_cfg 1) (d_mem sample_device)"
    "uio_minor d = Some 3" by (auto simp: sample_env_def)
  from sample_slots [OF d(2) i] d that show thesis by simp
qed

text \<open>C36: what the manager hands out is what UIO maps. When a driver manages a device, every region of
  the device is set up by \<open>region_setup\<close> in its place, the map of UIO for it has the same
  address, size and offset, and the device is at the minor number that UIO gave it; devices that
  agreed with their maps before still do, whether the call succeeds or not.\<close>

theorem manage_keeps_geometry:
  assumes "manager_inv cfg st" "\<not> k_locked st" "not_managed p st" "k_heap st p = Some d" "fresh_device d"
    and "max_uio_maps cfg \<le> length (uio_maps (d_uio d))" "geometry_ok cfg st"
  shows "\<exists>ret st'. cuddlk_device_manage cfg env p st = Some (ret, st') \<and> geometry_ok cfg st' \<and>
    (ret = 0 \<longrightarrow> (\<exists>i d'. i < CUDDLK_MAX_MANAGED_DEVICES \<and> managed_device st' i = Some d' \<and>
       d_mem d' = map (region_setup cfg p) (d_mem d) \<and> maps_agree cfg d' \<and>
       uio_minor d' = Some (uio_register_minor env)))"
  by (rule manage_keeps_maps [OF assms])

theorem manage_keeps_geometry_witness:
  "geometry_ok sample_cfg sample_state \<and>
   (\<exists>i d'. managed_device sample_state i = Some d' \<and> mr_pa_len (d_mem d' ! 0) = 4096 \<and> uio_minor d' = Some 3)"
proof -
  from manage_keeps_geometry [OF manager_inv_empty [of _ sample_heap] _ _ _ fresh_sample sample_maps geometry_empty,
      where p = 1 and env = sample_env] sample_state_facts(1)
  obtain i d where "geometry_ok sample_cfg sample_state" "managed_device sample_state i = Some d"
    "d_mem d = map (region_setup sample_cfg 1) (d_mem sample_device)" "uio_minor d = Some 3"
    by (auto simp: sample_env_def)
  with sample_region_setup show ?thesis by (intro conjI exI [of _ i] exI [of _ d]) simp_all
qed

end
