(* ===== verification/Address_Space.thy ===== *)
theory Address_Space
  imports Io_Memory Region_Geometry Linux_Properties
begin

section \<open>The address space of a process (mapped memory regions)\<close>

text \<open>
  The composed system of \<open>Linux_System\<close> with the address space of the process beside it.
  A device file of UIO offers memory \<open>j\<close> of its device at the offset of \<open>j\<close> pages:
  \<^verbatim>\<open>mmap\<close> makes its pages visible to the process where the system chooses, if the
  memory starts on a page and is as long as what is asked for, and \<^verbatim>\<open>munmap\<close> takes a
  range away. This is the documented behaviour of Linux and of its UIO core; the memory mapper
  of Xenomai UDD is not modelled. The locale \<open>device_memory\<close> states what the library relies on.
\<close>

subsection \<open>Device files of UIO\<close>

definition uio_path :: "c_int \<Rightarrow> string" where
  "uio_path minor = ''/dev/uio'' @ dec_int minor"

definition minor_at :: "kstate \<Rightarrow> nat \<Rightarrow> c_int option" where
  "minor_at k i = Option.bind (managed_device k i) uio_minor"

definition uio_slot :: "kstate \<Rightarrow> string \<Rightarrow> nat option" where
  "uio_slot k path = find (\<lambda>i. map_option uio_path (minor_at k i) = Some path) [0..<CUDDLK_MAX_MANAGED_DEVICES]"

definition uio_device :: "kstate \<Rightarrow> string \<Rightarrow> cuddlk_device option" where
  "uio_device k path = Option.bind (uio_slot k path) (managed_device k)"

definition uio_memory :: "kcfg \<Rightarrow> kstate \<Rightarrow> string \<Rightarrow> size_t \<Rightarrow> (ulong \<times> size_t) option" where
  "uio_memory cfg k path off = do {
     d \<leftarrow> uio_device k path;
     let j = unat (off div page_size cfg);
     if off mod page_size cfg = 0 \<and> j < length (uio_maps (d_uio d))
     then Some (um_addr (uio_maps (d_uio d) ! j), um_size (uio_maps (d_uio d) ! j)) else None
   }"

text \<open>UIO gives every registered device a minor number of its own, below \<open>2\<^sup>2\<^sup>0\<close>.\<close>

definition uio_numbers :: "kstate \<Rightarrow> bool" where
  "uio_numbers k \<longleftrightarrow> (\<forall>i < CUDDLK_MAX_MANAGED_DEVICES. \<forall>n. minor_at k i = Some n \<longrightarrow> 0 \<le> n \<and> n < 2 ^ 20 \<and>
     (\<forall>j < CUDDLK_MAX_MANAGED_DEVICES. minor_at k j = Some n \<longrightarrow> j = i))"

lemma uio_numbersD:
  assumes "uio_numbers k" "i < CUDDLK_MAX_MANAGED_DEVICES" "minor_at k i = Some n"
  shows "0 \<le> n" "n < 2 ^ 20" "j < CUDDLK_MAX_MANAGED_DEVICES \<Longrightarrow> minor_at k j = Some n \<Longrightarrow> j = i"
  using assms unfolding uio_numbers_def by blast+

lemma uio_path_inj: "uio_path m = uio_path n \<Longrightarrow> m = n"
  by (simp add: uio_path_def dec_int_inj)

lemma uio_slot_unique:
  assumes "uio_numbers k" "i < CUDDLK_MAX_MANAGED_DEVICES" "minor_at k i = Some n"
  shows "uio_slot k (uio_path n) = Some i"
  unfolding uio_slot_def
proof (rule find_upt_eqI [where q = "\<lambda>i. map_option uio_path (minor_at k i) = Some (uio_path n)"])
  fix j assume "j < i"
  with uio_numbersD(3) [OF assms, of j] assms(2) show "\<not> map_option uio_path (minor_at k j) = Some (uio_path n)"
    by (auto dest: uio_path_inj)
qed (use assms in simp_all)

lemma uio_device_unique:
  assumes "uio_numbers k" "i < CUDDLK_MAX_MANAGED_DEVICES" "minor_at k i = Some n"
  shows "uio_device k (uio_path n) = managed_device k i"
  by (simp add: uio_device_def uio_slot_unique [OF assms])

lemma minor_at_shape:
  assumes "k_shape k' = k_shape k"
  shows "minor_at k' = minor_at k"
proof
  fix i
  have eq: "Option.bind x uio_minor = Option.bind (map_option erase_counts x) uio_minor" for x
    by (cases x) (simp_all add: uio_minor_def)
  have "minor_at k' i = Option.bind (map_option erase_counts (managed_device k' i)) uio_minor"
    unfolding minor_at_def by (rule eq)
  also have "\<dots> = Option.bind (map_option erase_counts (managed_device k i)) uio_minor"
    by (simp only: managed_shape [OF assms])
  also have "\<dots> = minor_at k i" unfolding minor_at_def by (rule eq [symmetric])
  finally show "minor_at k' i = minor_at k i" .
qed

lemma uio_numbers_shape:
  assumes "k_shape k' = k_shape k"
  shows "uio_numbers k' = uio_numbers k"
  by (simp add: uio_numbers_def minor_at_shape [OF assms])

lemma uio_slot_shape:
  assumes "k_shape k' = k_shape k"
  shows "uio_slot k' = uio_slot k"
  by (simp add: uio_slot_def minor_at_shape [OF assms] fun_eq_iff)

subsection \<open>The system calls\<close>

definition map_range :: "ulong \<Rightarrow> nat \<Rightarrow> ulong \<Rightarrow> (ulong \<Rightarrow> ulong option) \<Rightarrow> ulong \<Rightarrow> ulong option" where
  "map_range addr n pa pages = (\<lambda>a. if unat (a - addr) < n then Some (pa + (a - addr)) else pages a)"

definition unmap_range :: "ulong \<Rightarrow> nat \<Rightarrow> (ulong \<Rightarrow> ulong option) \<Rightarrow> ulong \<Rightarrow> ulong option" where
  "unmap_range addr n pages = (\<lambda>a. if unat (a - addr) < n then None else pages a)"

definition io_mmap :: "kcfg \<Rightarrow> size_t \<Rightarrow> c_int \<Rightarrow> size_t \<Rightarrow> linux \<times> io_space
    \<Rightarrow> (ulong \<times> c_int \<times> (linux \<times> io_space)) option" where
  "io_mmap cfg len fd off = (\<lambda>(l, a). do {
     (addr, errno, l') \<leftarrow> linux_mmap len fd off l;
     if addr = - 1 then Some (addr, errno, (l', a))
     else case map_of (files l) fd of
       Some (Device_File path) \<Rightarrow>
         (case uio_memory cfg (kern l) path off of
            None \<Rightarrow> Some (- 1, ENODEV, (l', a))
          | Some (pa, room) \<Rightarrow>
              if pa mod page_size cfg = 0 \<and> 0 < len \<and> len \<le> room
              then Some (addr, errno, (l', a\<lparr>io_pages := map_range addr (unat len) pa (io_pages a)\<rparr>))
              else Some (- 1, EINVAL, (l', a)))
     | _ \<Rightarrow> Some (- 1, ENODEV, (l', a))
   })"

definition io_munmap :: "ulong \<Rightarrow> size_t \<Rightarrow> linux \<times> io_space \<Rightarrow> (c_int \<times> c_int \<times> (linux \<times> io_space)) option" where
  "io_munmap addr len = (\<lambda>(l, a). do {
     (ret, errno, l) \<leftarrow> linux_munmap addr len l;
     Some (ret, errno, (l, if ret = - 1 then a else a\<lparr>io_pages := unmap_range addr (unat len) (io_pages a)\<rparr>))
   })"

text \<open>The other calls leave the address space alone.\<close>

definition io_posix :: "kcfg \<Rightarrow> (linux \<times> io_space) posix" where
  "io_posix cfg = \<lparr>
     sys_open = (\<lambda>path (l, a). do { (fd, errno, l) \<leftarrow> linux_open path l; Some (fd, errno, (l, a)) }),
     sys_close = (\<lambda>fd (l, a). do { (ret, errno, l) \<leftarrow> linux_close fd l; Some (ret, errno, (l, a)) }),
     sys_ioctl = (\<lambda>fd cmd p (l, a). do { (ret, errno, p, l) \<leftarrow> linux_ioctl cfg fd cmd p l; Some (ret, errno, p, (l, a)) }),
     sys_mmap = io_mmap cfg, sys_munmap = io_munmap,
     sys_read = (\<lambda>fd buf (l, a). do { (ret, errno, v, l) \<leftarrow> linux_read fd buf l; Some (ret, errno, v, (l, a)) }),
     sys_write = (\<lambda>fd v (l, a). do { (ret, errno, l) \<leftarrow> linux_write fd v l; Some (ret, errno, (l, a)) }),
     sys_select = (\<lambda>n fds tv (l, a). do { (ret, errno, ready, l) \<leftarrow> linux_select n fds tv l; Some (ret, errno, ready, (l, a)) }),
     sys_getpid = my_pid \<circ> fst, stack_id = garbage_id \<circ> fst, stack_meminfo = garbage_meminfo \<circ> fst,
     stack_eventinfo = garbage_eventinfo \<circ> fst, stack_options = garbage_options \<circ> fst, stack_text = garbage_text \<circ> fst\<rparr>"

lemma io_posix_simps [simp]:
  "sys_open (io_posix cfg) path (l, a) = do { (fd, errno, l) \<leftarrow> linux_open path l; Some (fd, errno, (l, a)) }"
  "sys_close (io_posix cfg) fd (l, a) = do { (ret, errno, l) \<leftarrow> linux_close fd l; Some (ret, errno, (l, a)) }"
  "sys_ioctl (io_posix cfg) fd cmd p (l, a) =
     do { (ret, errno, p, l) \<leftarrow> linux_ioctl cfg fd cmd p l; Some (ret, errno, p, (l, a)) }"
  "sys_mmap (io_posix cfg) = io_mmap cfg" "sys_munmap (io_posix cfg) = io_munmap"
  "sys_read (io_posix cfg) fd buf (l, a) = do { (ret, errno, v, l) \<leftarrow> linux_read fd buf l; Some (ret, errno, v, (l, a)) }"
  "sys_write (io_posix cfg) fd v (l, a) = do { (ret, errno, l) \<leftarrow> linux_write fd v l; Some (ret, errno, (l, a)) }"
  "sys_select (io_posix cfg) n fds tv (l, a) =
     do { (ret, errno, ready, l) \<leftarrow> linux_select n fds tv l; Some (ret, errno, ready, (l, a)) }"
  "sys_getpid (io_posix cfg) (l, a) = my_pid l" "stack_id (io_posix cfg) (l, a) = garbage_id l"
  "stack_meminfo (io_posix cfg) (l, a) = garbage_meminfo l"
  by (simp_all add: io_posix_def)

subsection \<open>What the library relies on\<close>

locale device_memory = posix_files os open_fds fine
  for os :: "'s posix" and open_fds and fine +
  fixes pages :: "'s \<Rightarrow> ulong \<Rightarrow> ulong option"
    and offered :: "'s \<Rightarrow> string \<Rightarrow> size_t \<Rightarrow> (ulong \<times> size_t) option"
  assumes maps: "fine s \<Longrightarrow> sys_open os path s = Some (fd, e, s1) \<Longrightarrow> 0 \<le> fd \<Longrightarrow>
      sys_mmap os len fd off s1 = Some (addr, e', s2) \<Longrightarrow> addr \<noteq> - 1 \<Longrightarrow>
      \<exists>pa room. offered s path off = Some (pa, room) \<and> 0 < len \<and> len \<le> room \<and>
        pages s2 = map_range addr (unat len) pa (pages s)"
    and unmaps: "sys_munmap os addr len s = Some (ret, e, s') \<Longrightarrow> ret \<noteq> - 1 \<Longrightarrow>
      pages s' = unmap_range addr (unat len) (pages s)"
    and close_keeps_pages: "sys_close os fd s = Some (ret, e, s') \<Longrightarrow> pages s' = pages s"
begin

lemma map_window:
  assumes "fine s" "cuddl_memregion_map os memregion info options s = Some (0, memregion', s')"
  obtains pa room where "offered s (cstr (mi_device_name info)) (mi_pa_mmap_offset info) = Some (pa, room)"
    "0 < mi_pa_len info" "mi_pa_len info \<le> room"
    "pages s' = map_range (um_priv_pa_addr memregion') (unat (mi_pa_len info)) pa (pages s)"
    "um_region_addr memregion' = um_priv_pa_addr memregion' + mi_start_offset info"
    "um_region_len memregion' = mi_len info" "um_priv_pa_len memregion' = mi_pa_len info"
proof -
  obtain fd e s1 where o: "sys_open os (cstr (mi_device_name info)) s = Some (fd, e, s1)"
    "fd = - 1 \<and> 0 < e \<and> leaves open_fds fine (open_fds s) s1 \<or>
     0 \<le> fd \<and> fd \<notin> open_fds s \<and> leaves open_fds fine (insert fd (open_fds s)) s1"
    using open_file [OF assms(1)] by blast
  with assms(2) have "fd \<noteq> - 1" by (auto simp: cuddl_memregion_map_def)
  with o(2) have fd: "0 \<le> fd" "fine s1" "fd \<in> open_fds s1" by (auto simp: leaves_def)
  obtain addr e' s2 where m: "sys_mmap os (mi_pa_len info) fd (mi_pa_mmap_offset info) s1 = Some (addr, e', s2)"
    "addr = - 1 \<longrightarrow> 0 < e'" using mmap_file [OF fd(2,3)] by blast
  with assms(2) o(1) fd(1) have a: "addr \<noteq> - 1"
    by (auto simp: cuddl_memregion_map_def bind_eq_Some_conv split: if_splits)
  from assms(2) o(1) fd(1) m(1) a have r: "s' = s2" "um_priv_pa_addr memregion' = addr"
    "um_region_addr memregion' = addr + mi_start_offset info"
    "um_region_len memregion' = mi_len info" "um_priv_pa_len memregion' = mi_pa_len info"
    by (auto simp: cuddl_memregion_map_def)
  from maps [OF assms(1) o(1) fd(1) m(1) a] that r show thesis by auto
qed


end

subsection \<open>The system keeps the promises\<close>

definition io_fine :: "kcfg \<Rightarrow> linux \<times> io_space \<Rightarrow> bool" where
  "io_fine cfg s \<longleftrightarrow> linux_fine cfg (fst s)"

definition io_fds :: "linux \<times> io_space \<Rightarrow> c_int set" where
  "io_fds s = open_fds (fst s)"

lemma io_leaves: "leaves io_fds (io_fine cfg) fds (l, a) = leaves open_fds (linux_fine cfg) fds l"
  by (simp add: leaves_def io_fds_def io_fine_def)

lemma io_mmap_law:
  assumes "linux_fine cfg l" "fd \<in> open_fds l"
  shows "\<exists>addr errno s'. io_mmap cfg len fd off (l, a) = Some (addr, errno, s') \<and>
    (addr = - 1 \<longrightarrow> 0 < errno) \<and> leaves io_fds (io_fine cfg) (open_fds l) s'"
proof -
  obtain addr e l' where m: "linux_mmap len fd off l = Some (addr, e, l')" "addr = - 1 \<longrightarrow> 0 < e"
    "leaves open_fds (linux_fine cfg) (open_fds l) l'"
    using lx.mmap_file [OF assms, of len off] by auto
  show ?thesis
  proof (cases "addr = - 1")
    case True
    with m show ?thesis by (simp add: io_mmap_def io_leaves)
  next
    case False
    with m show ?thesis
      by (auto simp: io_mmap_def io_leaves split: option.split open_file.split)
  qed
qed

interpretation ix: posix_files "io_posix cfg" io_fds "io_fine cfg" for cfg
proof
  fix s path
  assume s: "io_fine cfg s"
  obtain l a where la: "s = (l, a)" by fastforce
  from lx.open_file [of cfg l path] s la
  show "\<exists>fd errno s'. sys_open (io_posix cfg) path s = Some (fd, errno, s') \<and>
      (fd = - 1 \<and> 0 < errno \<and> leaves io_fds (io_fine cfg) (io_fds s) s' \<or>
       0 \<le> fd \<and> fd \<notin> io_fds s \<and> leaves io_fds (io_fine cfg) (insert fd (io_fds s)) s')"
    by (fastforce simp: io_fine_def io_fds_def [of "(_, _)"] io_leaves)
next
  fix s fd
  assume s: "io_fine cfg s" "fd \<in> io_fds s"
  obtain l a where la: "s = (l, a)" by fastforce
  from lx.close_file [of cfg l fd] s la
  show "\<exists>ret errno s'. sys_close (io_posix cfg) fd s = Some (ret, errno, s') \<and>
      (ret = 0 \<or> ret = - 1 \<and> 0 < errno) \<and> leaves io_fds (io_fine cfg) (io_fds s - {fd}) s'"
    by (fastforce simp: io_fine_def io_fds_def [of "(_, _)"] io_leaves)
next
  fix s fd cmd p
  assume s: "io_fine cfg s" "fd \<in> io_fds s"
  obtain l a where la: "s = (l, a)" by fastforce
  from lx.ioctl_file [of cfg l fd cmd p] s la
  show "\<exists>ret errno p' s'. sys_ioctl (io_posix cfg) fd cmd p s = Some (ret, errno, p', s') \<and>
      payload_kind p' = payload_kind p \<and> leaves io_fds (io_fine cfg) (io_fds s) s'"
    by (fastforce simp: io_fine_def io_fds_def [of "(_, _)"] io_leaves)
next
  fix s fd len offset
  assume s: "io_fine cfg s" "fd \<in> io_fds s"
  obtain l a where la: "s = (l, a)" by fastforce
  from io_mmap_law [of cfg l fd len offset a] s la
  show "\<exists>addr errno s'. sys_mmap (io_posix cfg) len fd offset s = Some (addr, errno, s') \<and>
      (addr = - 1 \<longrightarrow> 0 < errno) \<and> leaves io_fds (io_fine cfg) (io_fds s) s'"
    by (simp add: io_fine_def io_fds_def [of "(_, _)"])
next
  fix s addr len
  assume s: "io_fine cfg s"
  obtain l a where la: "s = (l, a)" by fastforce
  from lx.munmap_file [of cfg l addr len] s la
  show "\<exists>ret errno s'. sys_munmap (io_posix cfg) addr len s = Some (ret, errno, s') \<and>
      leaves io_fds (io_fine cfg) (io_fds s) s'"
    by (fastforce simp: io_munmap_def io_fine_def io_fds_def [of "(_, _)"] io_leaves)
next
  fix s fd buf
  assume s: "io_fine cfg s"
  obtain l a where la: "s = (l, a)" by fastforce
  from lx.read_file [of cfg l fd buf] s la
  show "\<exists>ret errno v s'. sys_read (io_posix cfg) fd buf s = Some (ret, errno, v, s') \<and>
      leaves io_fds (io_fine cfg) (io_fds s) s'"
    by (fastforce simp: io_fine_def io_fds_def [of "(_, _)"] io_leaves)
next
  fix s fd v
  assume s: "io_fine cfg s"
  obtain l a where la: "s = (l, a)" by fastforce
  from lx.write_file [of cfg l fd v] s la
  show "\<exists>ret errno s'. sys_write (io_posix cfg) fd v s = Some (ret, errno, s') \<and>
      leaves io_fds (io_fine cfg) (io_fds s) s'"
    by (fastforce simp: io_fine_def io_fds_def [of "(_, _)"] io_leaves)
next
  fix s n fds tv
  assume s: "io_fine cfg s"
  obtain l a where la: "s = (l, a)" by fastforce
  from lx.select_files [of cfg l n fds tv] s la
  show "\<exists>ret errno ready s'. sys_select (io_posix cfg) n fds tv s = Some (ret, errno, ready, s') \<and>
      ready \<subseteq> fds \<and> leaves io_fds (io_fine cfg) (io_fds s) s'"
    by (fastforce simp: io_fine_def io_fds_def [of "(_, _)"] io_leaves)
qed

interpretation ixm: device_memory "io_posix cfg" io_fds "io_fine cfg" "io_pages \<circ> snd"
  "\<lambda>s. uio_memory cfg (kern (fst s))" for cfg
proof
  fix s path fd e s1 len off addr e' s2
  assume o: "sys_open (io_posix cfg) path s = Some (fd, e, s1)" "0 \<le> fd"
    and m: "sys_mmap (io_posix cfg) len fd off s1 = Some (addr, e', s2)" "addr \<noteq> - 1"
  obtain l a where la: "s = (l, a)" by fastforce
  from o la obtain l1 where l1: "linux_open path l = Some (fd, e, l1)" "s1 = (l1, a)"
    by (auto simp: bind_eq_Some_conv)
  from l1(1) o(2) have f: "kern l1 = kern l" "map_of (files l1) fd = Some (file_for path)"
    by (auto simp: linux_open_def Let_def split: option.splits if_splits)
  from m l1(2) f have "\<exists>p pa room. file_for path = Device_File p \<and> uio_memory cfg (kern l) p off = Some (pa, room) \<and>
      0 < len \<and> len \<le> room \<and> io_pages (snd s2) = map_range addr (unat len) pa (io_pages a)"
    by (auto simp: io_mmap_def bind_eq_Some_conv split: open_file.splits option.splits if_splits)
  then show "\<exists>pa room. uio_memory cfg (kern (fst s)) path off = Some (pa, room) \<and> 0 < len \<and> len \<le> room \<and>
      (io_pages \<circ> snd) s2 = map_range addr (unat len) pa ((io_pages \<circ> snd) s)"
    by (auto simp: la file_for_def split: if_splits)
next
  fix addr len s ret e s'
  assume "sys_munmap (io_posix cfg) addr len s = Some (ret, e, s')" "ret \<noteq> - 1"
  then show "(io_pages \<circ> snd) s' = unmap_range addr (unat len) ((io_pages \<circ> snd) s)"
    by (cases s) (auto simp: io_munmap_def bind_eq_Some_conv)
next
  fix fd s ret e s'
  assume "sys_close (io_posix cfg) fd s = Some (ret, e, s')"
  then show "(io_pages \<circ> snd) s' = (io_pages \<circ> snd) s"
    by (cases s) (auto simp: bind_eq_Some_conv)
qed

subsection \<open>What a claim tells about the region\<close>

lemma io_data_call:
  "manager_data_call (io_posix cfg) cmd p (l, a) =
     do { (ret, out, l) \<leftarrow> manager_data_call (linux_posix cfg) cmd p l; Some (ret, out, (l, a)) }"
  by (auto simp: manager_data_call_def Let_def split: Option.bind_split)

lemma io_claim:
  "cuddl_memregion_claim ucfg (io_posix cfg) info g d r i opts (l, a) =
     do { (ret, info, l) \<leftarrow> cuddl_memregion_claim ucfg (linux_posix cfg) info g d r i opts l; Some (ret, info, (l, a)) }"
  by (auto simp: cuddl_memregion_claim_def io_data_call Let_def split: Option.bind_split option.split ioctl_payload.split)

lemma claim_found_info:
  assumes "memregion_claim_found cfg env rt True md st slot mslot p d = Some (0, out, st')"
  shows "\<exists>info. fill_memregion_info cfg rt slot mslot d (mc_info md) = Some info \<and> out = Some (Mem_Claim_Data (md\<lparr>mc_info := info\<rparr>))"
  using assms by (auto simp: memregion_claim_found_def bind_eq_Some_conv Let_def split: if_splits)

lemma claim_ioctl_info:
  assumes inv: "manager_inv cfg st" "\<not> k_locked st" "\<forall>n < 10. kz_ok env n"
    and md: "cfu_mem_claim env = Some md" "version_code_is_compat (mc_version_code md)"
    and io: "cuddlk_manager_ioctl cfg env CUDDLCI_MEMREGION_CLAIM_UIO_IOCTL st = Some (0, out, st')"
    and lk: "lookup_memregion st (mc_id md) = Some (i, j, m)"
  obtains p d info where "device_at st (int i) = Some p" "k_heap st p = Some d" "m = d_mem d ! j"
    "registered cfg p d" "j < CUDDLK_MAX_DEV_MEM_REGIONS"
    "fill_memregion_info cfg False (int i) (int j) d (mc_info md) = Some info"
    "out = Some (Mem_Claim_Data (md\<lparr>mc_info := info\<rparr>))"
proof -
  let ?s = "set_mutex True st"
  have s: "manager_inv cfg ?s" using inv(1) by simp
  from io inv(2,3) obtain st1 where c: "memregion_claim_case cfg env False True ?s = Some (0, out, st1)"
    by (auto simp: cuddlk_manager_ioctl_def manager_command_def bind_eq_Some_conv split: sum.splits)
  from s show thesis
  proof (cases rule: with_memregion_cases [of cfg ?s "mc_id md"])
    case none
    with lk show ?thesis by simp
  next
    case (some i' j' p d)
    from some(1) lk have ij: "i' = i" "j' = j" "m = d_mem d ! j" by simp_all
    from c md some(2) have "memregion_claim_found cfg env False True md ?s (int i') (int j') p d = Some (0, out, st1)"
      by (simp add: memregion_claim_case_def)
    from claim_found_info [OF this] that [of p d] some(3-6) ij show ?thesis by auto
  qed
qed

end
