(* ===== verification/Io_Properties.thy ===== *)
theory Io_Properties
  imports Address_Space
begin

section \<open>Device memory through the library\<close>

text \<open>
  From a driver's description of a memory region to the registers that an application reads:
  the claim tells the library where the region lies, the map makes its pages visible, and the
  accessors reach the bytes of the device and no others.
\<close>

subsection \<open>Claiming on the system with an address space\<close>

lemma claim_granted_info:
  assumes fine: "kernel_fine cfg (kern s)" "refs_exact (kern s)" "lowest_fd (files s) < FD_SETSIZE"
    and env: "ce_open (ahead s 0) = None" "served s 1" "ce_close (ahead s 2) = None" "\<not> xeno ucfg"
    and lk: "lookup_memregion (kern s) (populate_id_from_args (garbage_id s) g d r n) = Some (i, j, m)"
    and granted: "fst (spec_claim (has_flag (mr_flags m) CUDDLK_MEMF_SHARED) (has_flag opts CUDDL_MEM_CLAIMF_HOSTILE)
       (my_pid s) (mem_holders (kern s) (int i) (int j))) = 0"
  obtains k p dv info where
    "cuddl_memregion_claim ucfg (linux_posix cfg) meminfo g d r n opts s = Some (0, info, advance 3 (s\<lparr>kern := k\<rparr>))"
    "device_at (kern s) (int i) = Some p" "k_heap (kern s) p = Some dv" "m = d_mem dv ! j" "registered cfg p dv"
    "j < CUDDLK_MAX_DEV_MEM_REGIONS"
    "fill_memregion_info cfg False (int i) (int j) dv (garbage_meminfo s) = Some info"
    "kernel_fine cfg k" "k_shape k = k_shape (kern s)"
proof -
  let ?req = "mem_claim_request s g d r n opts" and ?cmd = "CUDDLCI_MEMREGION_CLAIM_UIO_IOCTL"
  let ?env = "request_env s 1 (Mem_Claim_Data ?req)"
  note kf = kernel_fineD [OF fine(1)] and served = request_env_served [OF env(2)]
  have v: "version_code_is_compat (mc_version_code ?req)" by (simp add: mem_claim_request_def)
  from mem_claim_ioctl [OF kf(1,2) fine(2) kf(4) served v, of ?cmd]
  obtain ret out k where io: "cuddlk_manager_ioctl cfg ?env ?cmd (kern s) = Some (ret, out, k)"
    "mem_claim_meets (kern s) ?req ret out k" by blast
  from io(2) lk granted have ret: "ret = 0"
    by (auto simp: mem_claim_meets_def mem_claim_request_def split: prod.splits)
  have kz: "\<forall>n < 10. kz_ok ?env n" using served(1) by (simp add: all_succeed_def)
  have lk': "lookup_memregion (kern s) (mc_id ?req) = Some (i, j, m)" using lk by (simp add: mem_claim_request_def)
  obtain p dv info where c: "device_at (kern s) (int i) = Some p" "k_heap (kern s) p = Some dv" "m = d_mem dv ! j"
    "registered cfg p dv" "j < CUDDLK_MAX_DEV_MEM_REGIONS"
    "fill_memregion_info cfg False (int i) (int j) dv (mc_info ?req) = Some info"
    "out = Some (Mem_Claim_Data (?req\<lparr>mc_info := info\<rparr>))"
    by (rule claim_ioctl_info [OF kf(1,4) kz served(2) v io(1) [unfolded ret] lk'])
  have cmd: "CUDDLCI_MEMREGION_CLAIM_IOCTL ucfg = ?cmd" using env(4) by (simp add: user_cmd_defs)
  have e: "close_error (ahead s 2) = 0" using env(3) by (simp add: close_error_def)
  have run: "cuddl_memregion_claim ucfg (linux_posix cfg) meminfo g d r n opts s = Some (0, info, advance 3 (s\<lparr>kern := k\<rparr>))"
    using linux_data_call [OF env(1) fine(3) io(1)] c(7) ret e cmd
    by (simp add: cuddl_memregion_claim_def mem_claim_request_def Let_def)
  have "k_shape k = k_shape (kern s)"
    using manager_ioctl_keeps [OF kf(1,2,3,4), of ?env ?cmd] io(1) by (metis option.inject prod.inject)
  with that [OF run c(1-5)] c(6) request_kernel_fine [OF fine(1) io(1)] show thesis
    by (simp add: mem_claim_request_def)
qed

text \<open>The memory that UIO offers is the region the manager described.\<close>

lemma uio_memory_region:
  assumes inv: "manager_inv cfg k" "geometry_ok cfg k" "uio_numbers k"
    and d: "managed_device k i = Some d" "i < CUDDLK_MAX_MANAGED_DEVICES" "uio_minor d = Some n"
    and j: "j < CUDDLK_MAX_DEV_MEM_REGIONS" "j < max_uio_maps cfg"
    and ps: "0 < unat (page_size cfg)" "unat (page_size cfg) * CUDDLK_MAX_DEV_MEM_REGIONS < 2 ^ 64"
  shows "uio_memory cfg k (uio_path n) (word_of_int (int j) * page_size cfg) =
    Some (mr_pa_addr (d_mem d ! j), mr_pa_len (d_mem d ! j))"
proof -
  let ?off = "of_nat j * page_size cfg"
  have dev: "uio_device k (uio_path n) = Some d"
    using uio_device_unique [OF inv(3) d(2)] d(1,3) by (simp add: minor_at_def)
  have "unat (page_size cfg) * j \<le> unat (page_size cfg) * CUDDLK_MAX_DEV_MEM_REGIONS"
    by (rule mult_le_mono2) (use j(1) in simp)
  then have jp: "unat (page_size cfg) * j < 2 ^ 64" using ps(2) by (rule le_less_trans)
  moreover have "j < 2 ^ 64"
    using j(1) by (simp add: CUDDLK_MAX_DEV_MEM_REGIONS_def)
  ultimately have u: "unat ?off = j * unat (page_size cfg)"
    by (simp add: unat_word_ariths unat_of_nat take_bit_nat_eq_self mult.commute)
  have "unat (?off div page_size cfg) = j" "unat (?off mod page_size cfg) = 0"
    using ps(1) by (simp_all add: unat_div unat_mod u)
  then have "unat (?off div page_size cfg) = j" "?off mod page_size cfg = 0" by (simp_all add: unat_eq_zero)
  with dev geometryD [OF inv(2) d(2,1)] j show ?thesis
    by (simp add: uio_memory_def maps_agree_def describes_def Let_def)
qed

lemma length_dec_nat: "n < 10 ^ k \<Longrightarrow> 0 < k \<Longrightarrow> length (dec_nat n) \<le> k"
proof (induction n arbitrary: k rule: dec_nat.induct)
  case (1 n)
  show ?case
  proof (cases "n < 10")
    case True
    with 1(3) show ?thesis by (subst dec_nat.simps) simp
  next
    case False
    obtain j where k: "k = Suc j" using 1(3) by (cases k) simp_all
    with False 1(2) have j: "0 < j" by (cases j) simp_all
    from k 1(2) have "n div 10 < 10 ^ j" by (simp add: div_less_iff_less_mult mult.commute)
    from 1(1) [OF False this j] False k show ?thesis by (subst dec_nat.simps) simp
  qed
qed

lemma uio_path_text:
  assumes "0 \<le> n" "n < 2 ^ 20"
  shows "length (uio_path n) < CUDDLCI_MAX_STR_LEN - 1" "NUL \<notin> set (uio_path n)"
proof -
  have "nat n < 10 ^ 7" using assms by (simp add: nat_less_iff)
  from length_dec_nat [OF this] assms(1) show "length (uio_path n) < CUDDLCI_MAX_STR_LEN - 1"
    by (simp add: uio_path_def dec_int_def CUDDLCI_MAX_STR_LEN_def)
  show "NUL \<notin> set (uio_path n)" by (simp add: uio_path_def dec_int_chars(2))
qed

lemma fill_info_fields:
  assumes "fill_memregion_info cfg False i (int j) d info = Some info'" "uio_minor d = Some n" "0 \<le> n" "n < 2 ^ 20"
  shows "mi_pa_len info' = mr_pa_len (d_mem d ! j)" "mi_start_offset info' = mr_start_offset (d_mem d ! j)"
    "mi_len info' = mr_len (d_mem d ! j)" "mi_pa_mmap_offset info' = word_of_int (int j) * page_size cfg"
    "cstr (mi_device_name info') = uio_path n"
proof -
  have "cstr (snprintf (mi_device_name info) CUDDLCI_MAX_STR_LEN (uio_path n)) = uio_path n"
    using uio_path_text [OF assms(3,4)] by (subst cstr_snprintf) (simp_all add: CUDDLCI_MAX_STR_LEN_def)
  moreover have "memregion_device_name False d (int j) = Some (uio_path n)"
    using assms(2) by (simp add: memregion_device_name_def uio_path_def)
  ultimately show "mi_pa_len info' = mr_pa_len (d_mem d ! j)" "mi_start_offset info' = mr_start_offset (d_mem d ! j)"
    "mi_len info' = mr_len (d_mem d ! j)" "mi_pa_mmap_offset info' = word_of_int (int j) * page_size cfg"
    "cstr (mi_device_name info') = uio_path n"
    using assms(1) by (auto simp: fill_memregion_info_def bind_eq_Some_conv dest: arr_get_SomeD)
qed

subsection \<open>Mapping\<close>

lemma io_map_succeeds:
  assumes env: "ce_open (ahead l 0) = None" "lowest_fd (files l) < FD_SETSIZE" "ce_mmap (ahead l 1) = Inr addr" "addr \<noteq> - 1"
    and dev: "cstr (mi_device_name info) = uio_path n"
    and mem: "uio_memory cfg (kern l) (uio_path n) (mi_pa_mmap_offset info) = Some (pa, mi_pa_len info)"
    and pages: "pa mod page_size cfg = 0" "mi_pa_len info \<noteq> 0"
  shows "\<exists>memregion' l' P. cuddl_memregion_map (io_posix cfg) memregion info options (l, a) =
    Some (0, memregion', (l', a\<lparr>io_pages := P\<rparr>))"
proof -
  let ?fd = "lowest_fd (files l)"
  let ?l = "advance 1 (l\<lparr>files := (?fd, Device_File (uio_path n)) # files l\<rparr>)"
  have o: "linux_open (uio_path n) l = Some (?fd, 0, ?l)"
    using env(1,2) by (simp add: linux_open_def Let_def tick_advance file_for_def uio_path_def)
  have "linux_mmap (mi_pa_len info) ?fd (mi_pa_mmap_offset info) ?l = Some (addr, 0, tick ?l)"
    using env(3) by (simp add: linux_mmap_def)
  then obtain P where "io_mmap cfg (mi_pa_len info) ?fd (mi_pa_mmap_offset info) (?l, a) =
      Some (addr, 0, (tick ?l, a\<lparr>io_pages := P\<rparr>))"
    using env(4) mem pages by (simp add: io_mmap_def word_gt_0)
  with o dev env(4) lowest_fd_free(1) [of "files l"] show ?thesis
    by (auto simp: cuddl_memregion_map_def intro: exI [of _ P])
qed

lemma map_range_backed:
  assumes "io_pages a = map_range addr (unat (len :: size_t)) pa P" "unat start + unat off + n \<le> unat len"
  shows "space_backed a (addr + start + off) n (pa + start + off)"
  unfolding space_backed_def
proof (intro allI impI)
  fix k assume "k < n"
  with assms(2) have sum: "unat start + unat off + k < unat len" by simp
  also have "\<dots> < 2 ^ LENGTH(64)" by (rule unsigned_less)
  finally have lt: "unat start + unat off + k < 2 ^ 64" by simp
  then have "unat (of_nat k :: ulong) = k" by (simp add: unat_of_nat take_bit_nat_eq_self)
  with lt have "unat (start + off + of_nat k) = unat start + unat off + k" by (simp add: unat_plus_small)
  moreover have "addr + start + off + of_nat k - addr = start + off + of_nat k" by simp
  ultimately show "io_pages a (addr + start + off + of_nat k) = Some (pa + start + off + of_nat k)"
    using sum assms(1) by (simp add: map_range_def add.assoc)
qed

lemma uio_memory_shape:
  assumes "k_shape k' = k_shape k"
  shows "uio_memory cfg k' path off = uio_memory cfg k path off"
proof -
  have eq: "map_option d_uio (managed_device k' i) = map_option d_uio (managed_device k i)" for i
    using managed_shape [OF assms, of i]
    by (cases "managed_device k' i"; cases "managed_device k i") (auto dest: erase_counts_uio)
  then have "map_option d_uio (uio_device k' path) = map_option d_uio (uio_device k path)"
    unfolding uio_device_def uio_slot_shape [OF assms] by (cases "uio_slot k path") simp_all
  then show ?thesis
    by (cases "uio_device k' path"; cases "uio_device k path") (simp_all add: uio_memory_def Let_def)
qed

lemma linux_fine_ahead:
  "linux_fine cfg s \<longleftrightarrow> kernel_fine cfg (kern s) \<and> files_fine (files s) \<and> (\<forall>n. errors_positive (ahead s n))"
  unfolding linux_fine_def ahead_def by (auto split: nat.split)

text \<open>Every byte of the region, at its offset, lies in the physical memory from \<open>pa\<close> on.\<close>

definition region_backed :: "io_space \<Rightarrow> cuddl_memregion \<Rightarrow> ulong \<Rightarrow> bool" where
  "region_backed s mr pa \<longleftrightarrow> (\<forall>off w. unat off + w \<le> unat (um_region_len mr) \<longrightarrow>
     space_backed s (um_region_addr mr + off) w (pa + off))"

lemma region_backedD:
  "region_backed s mr pa \<Longrightarrow> unat off + w \<le> unat (um_region_len mr) \<Longrightarrow>
     space_backed s (um_region_addr mr + off) w (pa + off)"
  by (simp add: region_backed_def)

lemma region_backed_phys [simp]: "region_backed (s\<lparr>io_phys := h\<rparr>) mr pa = region_backed s mr pa"
  by (simp add: region_backed_def)

text \<open>C8: from the driver's description to the application's pointer. On the composed system, when
  the claim is granted and nothing fails, \<^verbatim>\<open>claim_and_map\<close> gives an accessor with the
  length that registration set; every range of the region within its pages reaches the bytes of
  the device's memory from the physical address and the start offset on, so a region that fits
  into its pages is reachable as a whole; what lies behind the last page is not made visible;
  and no byte of the device is changed.\<close>

theorem mapped_region_is_device_memory:
  assumes "linux_fine cfg l" "refs_exact (kern l)" "lowest_fd (files l) < FD_SETSIZE" "\<not> xeno ucfg"
    and "geometry_ok cfg (kern l)" "uio_numbers (kern l)"
    and "ce_open (ahead l 0) = None" "served l 1" "ce_close (ahead l 2) = None"
    and "ce_open (ahead l 3) = None" "ce_mmap (ahead l 4) = Inr addr"
    and "lookup_memregion (kern l) (populate_id_from_args (garbage_id l) g d r n) = Some (i, j, m)"
    and "fst (spec_claim (has_flag (mr_flags m) CUDDLK_MEMF_SHARED) (has_flag copts CUDDL_MEM_CLAIMF_HOSTILE)
       (my_pid l) (mem_holders (kern l) (int i) (int j))) = 0"
    and "j < max_uio_maps cfg" "0 < unat (page_size cfg)" "unat (page_size cfg) * CUDDLK_MAX_DEV_MEM_REGIONS < 2 ^ 64"
    and "mr_pa_addr m mod page_size cfg = 0" "mr_pa_len m \<noteq> 0"
  shows "\<exists>mr l' a'. cuddl_memregion_claim_and_map ucfg (io_posix cfg) memregion g d r n copts mopts (l, a) =
      Some (0, mr, (l', a')) \<and> um_region_len mr = mr_len m \<and> io_phys a' = io_phys a \<and>
    (\<forall>off w. unat (mr_start_offset m) + unat off + w \<le> unat (mr_pa_len m) \<longrightarrow>
       space_backed a' (um_region_addr mr + off) w (mr_pa_addr m + mr_start_offset m + off)) \<and>
    (region_fits m \<longrightarrow> region_backed a' mr (mr_pa_addr m + mr_start_offset m)) \<and>
    (\<forall>off. unat (mr_pa_len m) \<le> unat (mr_start_offset m + off) \<longrightarrow>
       io_pages a' (um_region_addr mr + off) = io_pages a (um_region_addr mr + off))"
proof -
  have kf: "kernel_fine cfg (kern l)" using assms(1) by (simp add: linux_fine_def)
  obtain k p dv info where c: "cuddl_memregion_claim ucfg (linux_posix cfg) (garbage_meminfo l) g d r n copts l =
      Some (0, info, advance 3 (l\<lparr>kern := k\<rparr>))"
    "device_at (kern l) (int i) = Some p" "k_heap (kern l) p = Some dv" "m = d_mem dv ! j" "registered cfg p dv"
    "j < CUDDLK_MAX_DEV_MEM_REGIONS"
    "fill_memregion_info cfg False (int i) (int j) dv (garbage_meminfo l) = Some info"
    "kernel_fine cfg k" "k_shape k = k_shape (kern l)"
    by (rule claim_granted_info [OF kf assms(2,3,7-9,4,12,13)])
  let ?l3 = "advance 3 (l\<lparr>kern := k\<rparr>)"
  have i: "i < CUDDLK_MAX_MANAGED_DEVICES" "managed_device (kern l) i = Some dv"
    using device_at_iff [OF manager_invD(1) [OF kernel_fineD(1) [OF kf]], of "int i" p] c(2,3)
    by (simp_all add: managed_device_def)
  from c(5) obtain nn where nn: "uio_minor dv = Some nn" by (auto simp: registered_def uio_minor_def)
  with i uio_numbersD [OF assms(6) i(1), of nn] have minor: "0 \<le> nn" "nn < 2 ^ 20" by (simp_all add: minor_at_def)
  note info = fill_info_fields [OF c(7) nn minor, folded c(4)]
  have mem: "uio_memory cfg (kern ?l3) (uio_path nn) (mi_pa_mmap_offset info) = Some (mr_pa_addr m, mr_pa_len m)"
    using uio_memory_region [OF kernel_fineD(1) [OF kf] assms(5,6) i(2,1) nn c(6) assms(14-16)]
    by (simp add: uio_memory_shape [OF c(9)] info(4) c(4))
  have errs: "errors_positive (ahead l t)" for t using assms(1) by (simp add: linux_fine_ahead)
  have l3: "ahead ?l3 t = ahead l (3 + t)" for t by (simp only: ahead_advance ahead_simps)
  have "linux_fine cfg ?l3"
    unfolding linux_fine_ahead l3 using errs c(8) assms(1) by (simp add: linux_fine_def)
  with errs [of 4] assms(11) have env: "ahead ?l3 0 = ahead l 3" "ahead ?l3 1 = ahead l 4" "addr \<noteq> - 1" "linux_fine cfg ?l3"
    unfolding l3 by (auto simp: errors_positive_def)
  obtain mr l' P where mp: "cuddl_memregion_map (io_posix cfg) memregion info mopts (?l3, a) =
      Some (0, mr, (l', a\<lparr>io_pages := P\<rparr>))"
    using io_map_succeeds [of ?l3 addr info nn cfg "mr_pa_addr m" memregion mopts a] env assms(3,10,11,17,18) info(1,5) mem
    by auto
  have fine: "io_fine cfg (?l3, a)" using env(4) by (simp add: io_fine_def)
  from ixm.map_window [OF fine mp] mem info obtain
    w: "io_pages (a\<lparr>io_pages := P\<rparr>) = map_range (um_priv_pa_addr mr) (unat (mr_pa_len m)) (mr_pa_addr m) (io_pages a)"
      "um_region_addr mr = um_priv_pa_addr mr + mr_start_offset m" "um_region_len mr = mr_len m" by auto
  have run: "cuddl_memregion_claim_and_map ucfg (io_posix cfg) memregion g d r n copts mopts (l, a) =
      Some (0, mr, (l', a\<lparr>io_pages := P\<rparr>))"
    using mp by (simp add: cuddl_memregion_claim_and_map_def io_claim c(1))
  have outside: "io_pages (a\<lparr>io_pages := P\<rparr>) (um_region_addr mr + off) = io_pages a (um_region_addr mr + off)"
    if "unat (mr_pa_len m) \<le> unat (mr_start_offset m + off)" for off
    using that unfolding w(1,2) by (simp add: map_range_def add.assoc)
  note inside = map_range_backed [OF w(1), of "mr_start_offset m", folded w(2)]
  have whole: "region_backed (a\<lparr>io_pages := P\<rparr>) mr (mr_pa_addr m + mr_start_offset m)" if "region_fits m"
    unfolding region_backed_def
  proof (intro allI impI)
    fix off :: size_t and t assume "unat off + t \<le> unat (um_region_len mr)"
    with that show "space_backed (a\<lparr>io_pages := P\<rparr>) (um_region_addr mr + off) t (mr_pa_addr m + mr_start_offset m + off)"
      by (intro inside) (simp add: region_fits_def w(3))
  qed
  show ?thesis
    using run w(3) inside whole outside by (intro exI [of _ mr] exI [of _ l'] exI [of _ "a\<lparr>io_pages := P\<rparr>"]) auto
qed

lemma sample_numbers: "uio_numbers sample_state"
proof -
  obtain d where d: "managed_device sample_state 0 = Some d" "uio_minor d = Some 3" by (rule sample_geometry)
  have only: "i = 0 \<and> n = 3" if "i < CUDDLK_MAX_MANAGED_DEVICES" "minor_at sample_state i = Some n" for i n
  proof -
    from that(2) obtain e where e: "managed_device sample_state i = Some e" "uio_minor e = Some n"
      by (auto simp: minor_at_def bind_eq_Some_conv)
    with sample_slots [OF e(1) that(1)] d show ?thesis by simp
  qed
  show ?thesis
    unfolding uio_numbers_def
  proof (intro allI impI conjI)
    fix i n assume i: "i < CUDDLK_MAX_MANAGED_DEVICES" "minor_at sample_state i = Some n"
    from only [OF i] show "0 \<le> n" "n < 2 ^ 20" by simp_all
    fix j assume "j < CUDDLK_MAX_MANAGED_DEVICES" "minor_at sample_state j = Some n"
    from only [OF i] only [OF this] show "j = i" by simp
  qed
qed

lemma sample_claimed_region:
  obtains m where "lookup_memregion sample_state
     (populate_id_from_args sample_stack_id (Some ''mfg'') (Some ''card'') (Some ''regs'') 1) = Some (0, 0, m)"
    "mr_flags m = 0" "mr_len m = 100" "mr_pa_len m = 4096" "mr_pa_addr m = 0x10000" "mr_start_offset m = 0"
proof -
  from sample_populate obtain m where m: "lookup_memregion sample_state
     (populate_id_from_args sample_stack_id (Some ''mfg'') (Some ''card'') (Some ''regs'') 1) = Some (0, 0, m)"
    "mr_flags m = 0" by blast
  obtain d where d: "managed_device sample_state 0 = Some d" "d_mem d = map (region_setup sample_cfg 1) (d_mem sample_device)"
    by (rule sample_geometry)
  from m(1) d(1) have "m = d_mem d ! 0" by (auto simp: lookup_memregion_def bind_eq_Some_conv)
  with d(2) sample_region_setup m that show thesis by simp
qed

theorem mapped_region_is_device_memory_witness:
  "\<exists>mr l' a'. cuddl_memregion_claim_and_map \<lparr>xeno = False, u_commit_hash = [], u_repo_is_dirty = False\<rparr>
      (io_posix sample_cfg) sample_region (Some ''mfg'') (Some ''card'') (Some ''regs'') 1 0 0
      (sample_linux (\<lambda>_. good_call) sample_state, \<lparr>io_pages = (\<lambda>_. None), io_phys = (\<lambda>_. 0)\<rparr>) = Some (0, mr, (l', a')) \<and>
    um_region_len mr = 100 \<and> region_backed a' mr 0x10000 \<and> space_backed a' (um_region_addr mr + 96) 4 0x10060 \<and>
    io_pages a' (um_region_addr mr + 4096) = None"
proof -
  let ?l = "sample_linux (\<lambda>_. good_call) sample_state" and ?ucfg = "\<lparr>xeno = False, u_commit_hash = [], u_repo_is_dirty = False\<rparr>"
  obtain m where m: "lookup_memregion (kern ?l)
     (populate_id_from_args (garbage_id ?l) (Some ''mfg'') (Some ''card'') (Some ''regs'') 1) = Some (0, 0, m)"
    "mr_flags m = 0" "mr_len m = 100" "mr_pa_len m = 4096" "mr_pa_addr m = 0x10000" "mr_start_offset m = 0"
    unfolding sample_linux_simps by (rule sample_claimed_region)
  have fine: "linux_fine sample_cfg ?l" by (rule sample_linux_fine) (simp add: errors_positive_def good_call_def)
  have geo: "geometry_ok sample_cfg (kern ?l)" "uio_numbers (kern ?l)"
    unfolding sample_linux_simps by (rule sample_geometry, assumption) (rule sample_numbers)
  have h: "refs_exact (kern ?l)" "lowest_fd (files ?l) < FD_SETSIZE" "\<not> xeno ?ucfg"
    using sample_state_exact by simp_all
  have env: "ce_open (ahead ?l 0) = None" "served ?l 1" "ce_close (ahead ?l 2) = None" "ce_open (ahead ?l 3) = None"
    "ce_mmap (ahead ?l 4) = Inr 4096"
    using sample_served [of "\<lambda>_. good_call" 1] by (simp_all add: good_call_def)
  have free: "fst (spec_claim (has_flag (mr_flags m) CUDDLK_MEMF_SHARED) (has_flag 0 CUDDL_MEM_CLAIMF_HOSTILE)
       (my_pid ?l) (mem_holders (kern ?l) (int 0) (int 0))) = 0"
    by (simp add: sample_no_holders spec_claim_def)
  have cfg: "0 < max_uio_maps sample_cfg" "0 < unat (page_size sample_cfg)"
    "unat (page_size sample_cfg) * CUDDLK_MAX_DEV_MEM_REGIONS < 2 ^ 64" "mr_pa_addr m mod page_size sample_cfg = 0" "mr_pa_len m \<noteq> 0"
    using m(4,5) by (simp_all add: sample_cfg_def CUDDLK_MAX_DEV_MEM_REGIONS_def)
  from mapped_region_is_device_memory [OF fine h(1,2,3) geo env m(1) free cfg, of sample_region 0
      "\<lparr>io_pages = (\<lambda>_. None), io_phys = (\<lambda>_. 0)\<rparr>"] m(3-6)
  obtain mr l' a' where "cuddl_memregion_claim_and_map ?ucfg
      (io_posix sample_cfg) sample_region (Some ''mfg'') (Some ''card'') (Some ''regs'') 1 0 0
      (?l, \<lparr>io_pages = (\<lambda>_. None), io_phys = (\<lambda>_. 0)\<rparr>) = Some (0, mr, (l', a'))" "um_region_len mr = 100" "region_backed a' mr 0x10000"
    "\<forall>off w. unat off + w \<le> 4096 \<longrightarrow> space_backed a' (um_region_addr mr + off) w (0x10000 + off)"
    "\<forall>off. 4096 \<le> unat off \<longrightarrow> io_pages a' (um_region_addr mr + off) = None" by (auto simp: region_fits_def)
  moreover from this(4) [rule_format, of 96 4] have "space_backed a' (um_region_addr mr + 96) 4 0x10060" by simp
  ultimately show ?thesis by (intro exI [of _ mr] exI [of _ l'] exI [of _ a']) simp
qed

subsection \<open>Reading and writing\<close>

lemma offsets_apart:
  assumes "unat off + n \<le> unat (len :: size_t)" "unat off2 + w \<le> unat len"
    and "unat off2 + w \<le> unat off \<or> unat off + n \<le> unat off2"
  shows "apart (pa + off) n (pa + off2) w"
  unfolding apart_def
proof (intro allI impI notI)
  fix i j assume ij: "i < n" "j < w" and eq: "pa + off + of_nat i = pa + off2 + of_nat j"
  have "unat len < 2 ^ LENGTH(64)" by (rule unsigned_less)
  with ij assms(1,2) have small: "unat off + i < 2 ^ 64" "unat off2 + j < 2 ^ 64" by simp_all
  then have "unat (of_nat i :: ulong) = i" "unat (of_nat j :: ulong) = j"
    by (simp_all add: unat_of_nat take_bit_nat_eq_self)
  with small have "unat (off + of_nat i) = unat off + i" "unat (off2 + of_nat j) = unat off2 + j"
    by (simp_all add: unat_plus_small)
  moreover from eq have "off + of_nat i = off2 + of_nat j" by (simp add: add.assoc)
  ultimately have "unat off + i = unat off2 + j" by metis
  with ij assms(3) show False by linarith
qed

text \<open>A write by one process, as every process that has mapped the same memory sees it.\<close>

lemma region_store_visible:
  fixes sA sB :: io_space
  assumes reg: "region_backed sA mrA pa" "region_backed sB mrB pa" "io_phys sB = io_phys sA"
    and len: "unat off + n \<le> unat (um_region_len mrA)" "unat off + n \<le> unat (um_region_len mrB)"
    and al: "aligned n (um_region_addr mrA + off)" "aligned n (um_region_addr mrB + off)"
    and v: "v < 256 ^ n" "n \<le> 8"
  obtains sA' where "volatile_store (space_bus big) n v (um_region_addr mrA + off) sA = Some sA'" "io_pages sA' = io_pages sA"
    "volatile_load (space_bus big) n (um_region_addr mrB + off) (sB\<lparr>io_phys := io_phys sA'\<rparr>) = Some (v, sB\<lparr>io_phys := io_phys sA'\<rparr>)"
    "\<And>off2. unat off2 < unat (um_region_len mrB) \<Longrightarrow> unat off2 < unat off \<or> unat off + n \<le> unat off2 \<Longrightarrow>
       \<exists>b. volatile_load (space_bus big) 1 (um_region_addr mrB + off2) (sB\<lparr>io_phys := io_phys sA'\<rparr>) =
          Some (b, sB\<lparr>io_phys := io_phys sA'\<rparr>) \<and>
         volatile_load (space_bus big) 1 (um_region_addr mrB + off2) sB = Some (b, sB)"
proof -
  let ?bs = "host_bytes (space_bus big) n v"
  obtain h where h: "h = poke (pa + off) ?bs (io_phys sA)" by blast
  let ?sA = "sA\<lparr>io_phys := h\<rparr>" and ?sB = "sB\<lparr>io_phys := h\<rparr>"
  have st: "volatile_store (space_bus big) n v (um_region_addr mrA + off) sA = Some ?sA"
    using store_bytes_backed [of sA "um_region_addr mrA + off" ?bs "pa + off"] region_backedD [OF reg(1) len(1)] al(1) v(2)
    by (simp add: volatile_store_def space_bus_def h)
  have sB: "?sB = sB\<lparr>io_phys := poke (pa + off) ?bs (io_phys sB)\<rparr>" by (simp add: h reg(3))
  have bytes: "phys_bytes ?sB (pa + off) n = ?bs"
    unfolding sB using phys_bytes_poke [of ?bs "pa + off" sB] v(2) by simp
  have ld: "volatile_load (space_bus big) n (um_region_addr mrB + off) ?sB = Some (v, ?sB)"
    using space.load_value [OF region_backedD [OF region_backed_phys [THEN iffD2, OF reg(2)] len(2)] al(2)] v(1)
    by (simp add: bytes host_value_host_bytes)
  have other: "\<exists>b. volatile_load (space_bus big) 1 (um_region_addr mrB + off2) ?sB = Some (b, ?sB) \<and>
      volatile_load (space_bus big) 1 (um_region_addr mrB + off2) sB = Some (b, sB)"
    if o: "unat off2 < unat (um_region_len mrB)" "unat off2 < unat off \<or> unat off + n \<le> unat off2" for off2
  proof -
    have "apart (pa + off) n (pa + off2) 1" using offsets_apart [OF len(2), of off2 1] o by auto
    then have eq: "phys_bytes ?sB (pa + off2) 1 = phys_bytes sB (pa + off2) 1"
      unfolding sB using phys_bytes_poke_apart [of "pa + off" ?bs "pa + off2" 1 sB] by simp
    have b: "space_backed sB (um_region_addr mrB + off2) 1 (pa + off2)"
      using region_backedD [OF reg(2), of off2 1] o(1) by simp
    then have b': "space_backed ?sB (um_region_addr mrB + off2) 1 (pa + off2)" by simp
    from space.load_value [OF b] space.load_value [OF b'] show ?thesis unfolding eq by simp
  qed
  have p: "io_phys ?sA = h" "io_pages ?sA = io_pages sA" by simp_all
  from that [OF st p(2), unfolded p(1), OF ld other] show thesis .
qed

text \<open>C12: processes that map the same memory see each other's writes. A 32-bit value that one writes
  at an offset of the region is what the other reads at that offset, whatever addresses the two
  have mapped the region to and whatever the byte order; every byte of the region outside the
  four reads as before, and the writer's address space stays as it was.\<close>

theorem shared_region_communicates:
  assumes "region_backed sA mrA pa" "region_backed sB mrB pa" "io_phys sB = io_phys sA"
    and "unat off + 4 \<le> unat (um_region_len mrA)" "unat off + 4 \<le> unat (um_region_len mrB)"
    and "aligned 4 (um_region_addr mrA + off)" "aligned 4 (um_region_addr mrB + off)"
  shows "\<exists>sA' sB'. cuddl_memregion_iowrite32 (space_bus big) mrA v off sA = Some sA' \<and> io_pages sA' = io_pages sA \<and>
    sB' = sB\<lparr>io_phys := io_phys sA'\<rparr> \<and>
    cuddl_memregion_ioread32 (space_bus big) mrB off sB' = Some (v, sB') \<and>
    (\<forall>off2. unat off2 < unat (um_region_len mrB) \<and> (unat off2 < unat off \<or> unat off + 4 \<le> unat off2) \<longrightarrow>
       (\<exists>b. cuddl_memregion_ioread8 (space_bus big) mrB off2 sB' = Some (b, sB') \<and>
            cuddl_memregion_ioread8 (space_bus big) mrB off2 sB = Some (b, sB)))"
proof -
  have v: "unat v < 256 ^ 4"
  proof -
    have "unat v < 2 ^ LENGTH(32)" by (rule unsigned_less)
    then show ?thesis by simp
  qed
  obtain sA' where "volatile_store (space_bus big) 4 (unat v) (um_region_addr mrA + off) sA = Some sA'"
    "io_pages sA' = io_pages sA"
    "volatile_load (space_bus big) 4 (um_region_addr mrB + off) (sB\<lparr>io_phys := io_phys sA'\<rparr>) =
       Some (unat v, sB\<lparr>io_phys := io_phys sA'\<rparr>)"
    "\<And>off2. unat off2 < unat (um_region_len mrB) \<Longrightarrow> unat off2 < unat off \<or> unat off + 4 \<le> unat off2 \<Longrightarrow>
       \<exists>b. volatile_load (space_bus big) 1 (um_region_addr mrB + off2) (sB\<lparr>io_phys := io_phys sA'\<rparr>) =
          Some (b, sB\<lparr>io_phys := io_phys sA'\<rparr>) \<and>
         volatile_load (space_bus big) 1 (um_region_addr mrB + off2) sB = Some (b, sB)"
    by (rule region_store_visible [OF assms v, of big]) simp_all
  then show ?thesis
    by (intro exI [of _ sA'] exI [of _ "sB\<lparr>io_phys := io_phys sA'\<rparr>"])
      (fastforce simp: memregion_io_defs iowrite_defs ioread_defs)
qed

text \<open>The same for the narrower accesses.\<close>

lemma shared_region_16_8:
  assumes "region_backed sA mrA pa" "region_backed sB mrB pa" "io_phys sB = io_phys sA"
    and "unat off + 2 \<le> unat (um_region_len mrA)" "unat off + 2 \<le> unat (um_region_len mrB)"
    and "aligned 2 (um_region_addr mrA + off)" "aligned 2 (um_region_addr mrB + off)"
  shows "\<exists>sA'. cuddl_memregion_iowrite16 (space_bus big) mrA v off sA = Some sA' \<and>
      cuddl_memregion_ioread16 (space_bus big) mrB off (sB\<lparr>io_phys := io_phys sA'\<rparr>) = Some (v, sB\<lparr>io_phys := io_phys sA'\<rparr>)"
    "\<exists>sA'. cuddl_memregion_iowrite8 (space_bus big) mrA b off sA = Some sA' \<and>
      cuddl_memregion_ioread8 (space_bus big) mrB off (sB\<lparr>io_phys := io_phys sA'\<rparr>) = Some (b, sB\<lparr>io_phys := io_phys sA'\<rparr>)"
proof -
  have "unat v < 2 ^ LENGTH(16)" by (rule unsigned_less)
  then have v: "unat v < 256 ^ 2" by simp
  show "\<exists>sA'. cuddl_memregion_iowrite16 (space_bus big) mrA v off sA = Some sA' \<and>
      cuddl_memregion_ioread16 (space_bus big) mrB off (sB\<lparr>io_phys := io_phys sA'\<rparr>) = Some (v, sB\<lparr>io_phys := io_phys sA'\<rparr>)"
    by (rule region_store_visible [OF assms v, of big]) (auto simp: memregion_io_defs iowrite_defs ioread_defs)
  have l: "unat off + 1 \<le> unat (um_region_len mrA)" "unat off + 1 \<le> unat (um_region_len mrB)" using assms(4,5) by simp_all
  have al: "aligned 1 (um_region_addr mrA + off)" "aligned 1 (um_region_addr mrB + off)" by simp_all
  have b: "unat b < 256 ^ 1" using unat_byte [of b] by simp
  show "\<exists>sA'. cuddl_memregion_iowrite8 (space_bus big) mrA b off sA = Some sA' \<and>
      cuddl_memregion_ioread8 (space_bus big) mrB off (sB\<lparr>io_phys := io_phys sA'\<rparr>) = Some (b, sB\<lparr>io_phys := io_phys sA'\<rparr>)"
    by (rule region_store_visible [OF assms(1-3) l al b, of big]) (auto simp: memregion_io_defs iowrite_defs ioread_defs)
qed

definition sample_mapped :: "ulong \<Rightarrow> cuddl_memregion" where
  "sample_mapped addr = sample_region\<lparr>um_region_addr := addr + 16, um_region_len := 100,
     um_priv_pa_addr := addr, um_priv_pa_len := 4096\<rparr>"

definition sample_space :: "ulong \<Rightarrow> (ulong \<Rightarrow> 8 word) \<Rightarrow> io_space" where
  "sample_space addr h = \<lparr>io_pages = map_range addr 4096 0x10000 (\<lambda>_. None), io_phys = h\<rparr>"

lemma sample_backed: "region_backed (sample_space addr h) (sample_mapped addr) 0x10010"
  unfolding region_backed_def
proof (intro allI impI)
  fix off :: size_t and w assume "unat off + w \<le> unat (um_region_len (sample_mapped addr))"
  then have "unat (16 :: size_t) + unat off + w \<le> unat (4096 :: size_t)" by (simp add: sample_mapped_def)
  from map_range_backed [OF _ this, of "sample_space addr h" addr "0x10000" "\<lambda>_. None"]
  show "space_backed (sample_space addr h) (um_region_addr (sample_mapped addr) + off) w (0x10010 + off)"
    by (simp add: sample_space_def sample_mapped_def)
qed

lemma sample_lens [simp]: "um_region_len (sample_mapped addr) = 100" "um_region_addr (sample_mapped addr) = addr + 16"
  by (simp_all add: sample_mapped_def)

theorem shared_region_communicates_witness:
  "\<exists>sA' sB'. cuddl_memregion_iowrite32 (space_bus True) (sample_mapped 0x4000) 0xCAFE 8 (sample_space 0x4000 (\<lambda>_. 7)) = Some sA' \<and>
    cuddl_memregion_ioread32 (space_bus True) (sample_mapped 0x9000) 8 sB' = Some (0xCAFE, sB')"
proof -
  let ?A = "sample_space 0x4000 (\<lambda>_. 7)" and ?B = "sample_space 0x9000 (\<lambda>_. 7)"
  have "io_phys ?B = io_phys ?A" by (simp add: sample_space_def)
  from shared_region_communicates [OF sample_backed [of "0x4000" "\<lambda>_. 7"] sample_backed [of "0x9000" "\<lambda>_. 7"] this,
      of 8 True "0xCAFE"]
  show ?thesis by (auto simp: aligned_def)
qed

lemma region_load:
  "region_backed s mr pa \<Longrightarrow> unat off + n \<le> unat (um_region_len mr) \<Longrightarrow> aligned n (um_region_addr mr + off) \<Longrightarrow>
     volatile_load (space_bus big) n (um_region_addr mr + off) s =
       Some (host_value (space_bus big) (phys_bytes s (pa + off) n), s)"
  by (rule space.load_value [OF region_backedD])

lemma region_offset:
  assumes "unat (off :: size_t) + n \<le> unat (len :: size_t)" "k < n"
  shows "unat (off + of_nat k) = unat off + k"
proof -
  have "unat len < 2 ^ LENGTH(64)" by (rule unsigned_less)
  with assms have "unat off + k < 2 ^ 64" by simp
  then show ?thesis by (simp add: unat_word_ariths unat_of_nat take_bit_nat_eq_self)
qed

lemma aligned_half: "aligned 4 a \<Longrightarrow> aligned 2 a"
  unfolding aligned_def by presburger

lemma host_value_single: "host_value M [b] = unat b"
  by (simp add: host_value_def)

text \<open>C39: a register is the bytes it lies in. In a mapped region, the 32-bit value that the C++
  accessor reads at an aligned offset is made of the four bytes that it reads at the offsets
  from there on, in the byte order of the processor, and so are the two 16-bit halves; reading
  changes nothing.\<close>

theorem word_is_its_bytes:
  assumes "region_backed s (region_mem this) pa" "unat off + 4 \<le> unat (um_region_len (region_mem this))"
    and "aligned 4 (um_region_addr (region_mem this) + off)"
  shows "\<exists>b0 b1 b2 b3. (\<forall>k < 4. MemRegion_ioread8 (space_bus big) this (off + of_nat k) s = Some ([b0, b1, b2, b3] ! k, s)) \<and>
    MemRegion_ioread32 (space_bus big) this off s =
      Some (of_nat (host_value (space_bus big) [b0, b1, b2, b3]), s) \<and>
    MemRegion_ioread16 (space_bus big) this off s = Some (of_nat (host_value (space_bus big) [b0, b1]), s) \<and>
    MemRegion_ioread16 (space_bus big) this (off + 2) s = Some (of_nat (host_value (space_bus big) [b2, b3]), s)"
proof -
  let ?M = "space_bus big" and ?mr = "region_mem this" and ?c = "\<lambda>k. io_phys s (pa + off + of_nat k)"
  note len = assms(2)
  have byte: "MemRegion_ioread8 ?M this (off + of_nat k) s = Some (?c k, s)" if k: "k < 4" for k
  proof -
    have "unat (off + of_nat k) + 1 \<le> unat (um_region_len ?mr)" using region_offset [OF len k] len k by simp
    from region_load [OF assms(1) this, of big] show ?thesis
      by (simp add: MemRegion_io_defs memregion_io_defs ioread_defs phys_bytes_def host_value_single add.assoc)
  qed
  have bytes: "phys_bytes s (pa + off) 4 = [?c 0, ?c 1, ?c 2, ?c 3]"
    "phys_bytes s (pa + off) 2 = [?c 0, ?c 1]" "phys_bytes s (pa + (off + 2)) 2 = [?c 2, ?c 3]"
    by (simp_all add: phys_bytes_def upt_rec add.assoc)
  have a2: "aligned 2 (um_region_addr ?mr + off)" using assms(3) by (rule aligned_half)
  then have a4: "aligned 2 (um_region_addr ?mr + (off + 2))"
    using aligned_add [of 2 "um_region_addr ?mr + off" 2] by (simp add: aligned_def [of 2 2] add.assoc)
  have l2: "unat off + 2 \<le> unat (um_region_len ?mr)" "unat (off + 2) + 2 \<le> unat (um_region_len ?mr)"
    using len region_offset [OF len, of 2] by simp_all
  have "MemRegion_ioread32 ?M this off s = Some (of_nat (host_value ?M [?c 0, ?c 1, ?c 2, ?c 3]), s)"
    using region_load [OF assms(1) len assms(3), of big]
    by (simp add: MemRegion_io_defs memregion_io_defs ioread_defs bytes(1) del: of_nat_0 of_nat_1 of_nat_numeral)
  moreover have "MemRegion_ioread16 ?M this off s = Some (of_nat (host_value ?M [?c 0, ?c 1]), s)"
    using region_load [OF assms(1) l2(1) a2, of big]
    by (simp add: MemRegion_io_defs memregion_io_defs ioread_defs bytes(2) del: of_nat_0 of_nat_1 of_nat_numeral)
  moreover have "MemRegion_ioread16 ?M this (off + 2) s = Some (of_nat (host_value ?M [?c 2, ?c 3]), s)"
    using region_load [OF assms(1) l2(2) a4, of big]
    by (simp add: MemRegion_io_defs memregion_io_defs ioread_defs bytes(3) del: of_nat_0 of_nat_1 of_nat_numeral)
  moreover have "\<forall>k < 4. MemRegion_ioread8 ?M this (off + of_nat k) s = Some ([?c 0, ?c 1, ?c 2, ?c 3] ! k, s)"
  proof (intro allI impI)
    fix k :: nat assume "k < 4"
    moreover from this have "[?c 0, ?c 1, ?c 2, ?c 3] ! k = ?c k"
      by (auto simp: numeral_eq_Suc less_Suc_eq simp del: of_nat_0 of_nat_1 of_nat_numeral of_nat_Suc)
    ultimately show "MemRegion_ioread8 ?M this (off + of_nat k) s = Some ([?c 0, ?c 1, ?c 2, ?c 3] ! k, s)"
      by (simp only: byte)
  qed
  ultimately show ?thesis by blast
qed

theorem word_is_its_bytes_witness:
  "\<exists>b0 b1 b2 b3. MemRegion_ioread8 (space_bus True) (MemRegion_of (sample_mapped 0x4000) True) 8 (sample_space 0x4000 (\<lambda>_. 7)) =
      Some (b0, sample_space 0x4000 (\<lambda>_. 7)) \<and>
    MemRegion_ioread32 (space_bus True) (MemRegion_of (sample_mapped 0x4000) True) 8 (sample_space 0x4000 (\<lambda>_. 7)) =
      Some (of_nat (host_value (space_bus True) [b0, b1, b2, b3]), sample_space 0x4000 (\<lambda>_. 7))"
proof -
  let ?o = "MemRegion_of (sample_mapped 0x4000) True" and ?s = "sample_space 0x4000 (\<lambda>_. 7)"
  have r: "region_mem ?o = sample_mapped 0x4000" by (simp add: MemRegion_of_def)
  have "region_backed ?s (region_mem ?o) 0x10010" unfolding r by (rule sample_backed)
  from word_is_its_bytes [OF this, of 8 True] obtain b0 b1 b2 b3 where
    "\<forall>k < 4. MemRegion_ioread8 (space_bus True) ?o (8 + of_nat k) ?s = Some ([b0, b1, b2, b3] ! k, ?s)"
    "MemRegion_ioread32 (space_bus True) ?o 8 ?s = Some (of_nat (host_value (space_bus True) [b0, b1, b2, b3]), ?s)"
    by (auto simp: r aligned_def)
  with this(1) [rule_format, of 0] show ?thesis by (intro exI [of _ b0] exI [of _ b1] exI [of _ b2] exI [of _ b3]) simp
qed

subsection \<open>After the region is unmapped\<close>

lemma unmapped_access:
  assumes "io_pages a x = None" "0 < n"
  shows "volatile_load (space_bus big) n x a = None" "volatile_store (space_bus big) n v x a = None"
proof -
  from assms(2) obtain m where n: "n = Suc m" by (cases n) simp_all
  have "\<exists>b bs. host_bytes (space_bus big) n v = b # bs"
    using length_host_bytes [of "space_bus big" n v] unfolding n length_Suc_conv by blast
  with assms(1) n show "volatile_load (space_bus big) n x a = None" "volatile_store (space_bus big) n v x a = None"
    by (auto simp: volatile_load_def volatile_store_def space_bus_def)
qed

text \<open>C38: no access after the unmapping. When \<^verbatim>\<open>munmap\<close> succeeds, every accessor faults at
  every offset of the region, whether or not the descriptor can be closed.\<close>

theorem unmapped_region_faults:
  assumes "linux_fine cfg l" "um_priv_fd mr \<in> open_fds l" "ce_munmap (now l) = None"
    and "um_region_addr mr = um_priv_pa_addr mr + start"
    and "unat start + unat (um_region_len mr) \<le> unat (um_priv_pa_len mr)"
  shows "\<exists>ret l' a'. cuddl_memregion_unmap (io_posix cfg) mr (l, a) = Some (ret, (l', a')) \<and>
    (\<forall>off v b h. unat off < unat (um_region_len mr) \<longrightarrow>
       cuddl_memregion_ioread8 (space_bus big) mr off a' = None \<and>
       cuddl_memregion_ioread16 (space_bus big) mr off a' = None \<and>
       cuddl_memregion_ioread32 (space_bus big) mr off a' = None \<and>
       cuddl_memregion_iowrite8 (space_bus big) mr b off a' = None \<and>
       cuddl_memregion_iowrite16 (space_bus big) mr h off a' = None \<and>
       cuddl_memregion_iowrite32 (space_bus big) mr v off a' = None)"
proof -
  let ?a = "a\<lparr>io_pages := unmap_range (um_priv_pa_addr mr) (unat (um_priv_pa_len mr)) (io_pages a)\<rparr>"
  obtain a2 where a2: "a2 = ?a" by blast
  have m: "io_munmap (um_priv_pa_addr mr) (um_priv_pa_len mr) (l, a) = Some (0, 0, (tick l, a2))"
    using assms(3) by (simp add: io_munmap_def linux_munmap_def a2)
  have "um_priv_fd mr \<in> open_fds (tick l)" using assms(2) by simp
  with lx.close_file [OF fine_tick [OF assms(1)]] obtain ret e l' where
    "linux_close (um_priv_fd mr) (tick l) = Some (ret, e, l')" by fastforce
  with m obtain ret where run: "cuddl_memregion_unmap (io_posix cfg) mr (l, a) = Some (ret, (l', a2))"
    by (simp add: cuddl_memregion_unmap_def)
  have gone: "io_pages a2 (um_region_addr mr + off) = None" if "unat off < unat (um_region_len mr)" for off
  proof -
    have "unat (um_priv_pa_len mr) < 2 ^ LENGTH(64)" by (rule unsigned_less)
    with that assms(5) have "unat (start + off) = unat start + unat off" by (intro unat_plus_small) simp
    with that assms(5) show ?thesis by (simp add: a2 assms(4) unmap_range_def add.assoc)
  qed
  show ?thesis
    by (intro exI [of _ ret] exI [of _ l'] exI [of _ a2])
      (auto simp: run memregion_io_defs ioread_defs iowrite_defs unmapped_access gone)
qed

theorem unmapped_region_faults_witness:
  "\<exists>ret l' a'. cuddl_memregion_unmap (io_posix sample_cfg) ((sample_mapped 0x4000)\<lparr>um_priv_fd := 0\<rparr>)
      ((sample_linux (\<lambda>_. good_call) sample_state)\<lparr>files := [(0, Device_File ''/dev/uio3'')]\<rparr>, sample_space 0x4000 (\<lambda>_. 7)) =
      Some (ret, (l', a')) \<and>
    cuddl_memregion_ioread32 (space_bus False) ((sample_mapped 0x4000)\<lparr>um_priv_fd := 0\<rparr>) 96 a' = None"
proof -
  let ?l = "(sample_linux (\<lambda>_. good_call) sample_state)\<lparr>files := [(0, Device_File ''/dev/uio3'')]\<rparr>"
  let ?mr = "(sample_mapped 0x4000)\<lparr>um_priv_fd := 0\<rparr>"
  have "linux_fine sample_cfg (sample_linux (\<lambda>_. good_call) sample_state)"
    by (rule sample_linux_fine) (simp add: errors_positive_def good_call_def)
  then have "linux_fine sample_cfg ?l" by (simp add: linux_fine_def files_fine_def)
  moreover have "um_priv_fd ?mr \<in> open_fds ?l" by (simp add: open_fds_def)
  moreover have "ce_munmap (now ?l) = None" by (simp add: good_call_def)
  moreover have "um_region_addr ?mr = um_priv_pa_addr ?mr + 16" by (simp add: sample_mapped_def)
  moreover have "unat (16 :: size_t) + unat (um_region_len ?mr) \<le> unat (um_priv_pa_len ?mr)" by (simp add: sample_mapped_def)
  ultimately show ?thesis
    using unmapped_region_faults [of sample_cfg ?l ?mr 16 "sample_space 0x4000 (\<lambda>_. 7)" False] by force
qed

subsection \<open>The byte order of the two sides\<close>

lemma le_value_inj:
  assumes "le_value bs = le_value cs" "length bs = length cs"
  shows "bs = cs"
  using assms by (metis le_bytes_le_value)

text \<open>C40: driver and application on a big-endian processor. The documented \<^verbatim>\<open>ioread32\<close> of Linux
  takes the bytes of the bus in little-endian order on every processor, the library takes them
  in the order of the processor. So for the same register a driver and an application read the
  same value exactly if the processor is little-endian or the bytes read the same both ways.\<close>

theorem kernel_user_byte_order:
  assumes "kio_linux K"
    and "\<And>n a s. kio_ioread K n a s = map_option (\<lambda>(bs, s). (le_value bs, s)) (bus_load (kio_bus K) n a s)"
    and "bus_load (kio_bus K) 4 addr s = Some (bs, s')" "length bs = 4" "aligned 4 addr"
  shows "cuddlk_ioread32 K addr s = cuddl_ioread32 (kio_bus K) addr s \<longleftrightarrow> \<not> bus_big_endian (kio_bus K) \<or> rev bs = bs"
proof -
  have small: "le_value cs < 2 ^ 32" if "length cs = 4" for cs using le_value_bound [of cs] that by simp
  have inj: "(of_nat (le_value bs) :: 32 word) = of_nat (le_value (rev bs)) \<longleftrightarrow> rev bs = bs"
  proof
    assume eq: "(of_nat (le_value bs) :: 32 word) = of_nat (le_value (rev bs))"
    have "unat (of_nat (le_value cs) :: 32 word) = le_value cs" if "length cs = 4" for cs
      using small [OF that] by (simp add: unat_of_nat take_bit_nat_eq_self)
    with eq assms(4) have "le_value bs = le_value (rev bs)" by (metis length_rev)
    then show "rev bs = bs" using le_value_inj [of bs "rev bs"] by simp
  qed simp
  have "cuddlk_ioread32 K addr s = Some (of_nat (le_value bs), s')"
    using assms(1,3) by (simp add: cuddlk_ioread32_def kernel_load_def assms(2))
  moreover have "cuddl_ioread32 (kio_bus K) addr s =
      Some (of_nat (le_value (if bus_big_endian (kio_bus K) then rev bs else bs)), s')"
    using assms(3,5) by (simp add: cuddl_ioread32_def volatile_load_def host_value_def)
  ultimately show ?thesis using inj by auto
qed

theorem kernel_user_byte_order_witness:
  "cuddlk_ioread32 \<lparr>kio_linux = True,
       kio_bus = \<lparr>bus_big_endian = True, bus_load = (\<lambda>n a s. Some (take n [1, 2, 3, 4], s)), bus_store = (\<lambda>bs a s. Some s)\<rparr>,
       kio_ioread = (\<lambda>n a s. Some (le_value (take n [1, 2, 3, 4]), s)), kio_iowrite = (\<lambda>n v a s. Some s)\<rparr> 16 () \<noteq>
   cuddl_ioread32 \<lparr>bus_big_endian = True, bus_load = (\<lambda>n a s. Some (take n [1, 2, 3, 4], s)), bus_store = (\<lambda>bs a s. Some s)\<rparr> 16 ()"
proof -
  let ?M = "\<lparr>bus_big_endian = True, bus_load = (\<lambda>n a s. Some (take n [1, 2, 3, 4], s)), bus_store = (\<lambda>bs a s. Some s)\<rparr>"
  let ?K = "\<lparr>kio_linux = True, kio_bus = ?M,
       kio_ioread = (\<lambda>n a s. Some (le_value (take n [1, 2, 3, 4]), s)), kio_iowrite = (\<lambda>n v a s. Some s)\<rparr>"
  have "bus_load (kio_bus ?K) 4 16 () = Some ([1, 2, 3, 4], ())" "aligned 4 16" by (simp_all add: aligned_def)
  from kernel_user_byte_order [of ?K, OF _ _ this(1) _ this(2)] show ?thesis by simp
qed

end
