(* ===== verification/Event_Wiring.thy ===== *)
theory Event_Wiring
  imports Managed_Devices Event_Delivery
begin

section \<open>Interrupts as registration sets them up (cuddlk\_linux.c)\<close>

text \<open>
  Registration tells UIO which functions to call when the file of a device is opened and
  closed and when its interrupt is switched, and which interrupt to wait for. A device whose
  first event source has an interrupt, or signals its events itself, is \<open>wired\<close> when all of
  these are in place; managing a device and every request keep all managed devices wired.
\<close>

definition uses_irq :: "kcfg \<Rightarrow> cuddlk_interrupt \<Rightarrow> bool" where
  "uses_irq cfg intr \<longleftrightarrow> intr_irq intr > 0 \<or> intr_irq intr = irq_custom cfg"

definition wired :: "kcfg \<Rightarrow> cuddlk_device \<Rightarrow> bool" where
  "wired cfg d \<longleftrightarrow> (let intr = ev_intr (d_events d ! 0); uio = d_uio d in uses_irq cfg intr \<longrightarrow>
     uio_open uio = Some Cb_uio_eventsrc_or_mem_open \<and> uio_release uio = Some Cb_uio_eventsrc_or_mem_close \<and>
     uio_irqcontrol uio = Some Cb_uio_eventsrc_or_mem_irqcontrol \<and>
     (intr_irq intr = irq_custom cfg \<or> intr_handler intr \<noteq> None \<longrightarrow> uio_irq uio \<noteq> 0) \<and>
     (intr_irq intr > 0 \<and> intr_handler intr \<noteq> None \<and> \<not> use_udd cfg \<longrightarrow> uio_handler uio = Some Cb_uio_interrupt_handler))"

lemma wired_cong: "d_uio d' = d_uio d \<Longrightarrow> ev_intr (d_events d' ! 0) = ev_intr (d_events d ! 0) \<Longrightarrow> wired cfg d' = wired cfg d"
  by (simp add: wired_def)

lemma setup_irq_wires:
  assumes "uio_irq_custom cfg \<noteq> 0" "d_uio d = (uio_setup_irq cfg (ev_intr (d_events d ! 0)) u)\<lparr>uio_dev := v\<rparr>"
  shows "wired cfg d"
  using assms by (auto simp: wired_def uses_irq_def uio_setup_irq_def Let_def)

lemma set_up_wired:
  assumes "set_up_as cfg env p d d'" "uio_irq_custom cfg \<noteq> 0" "arrays_ok d"
  shows "wired cfg d'"
proof -
  from assms(1) obtain md u d1 where d1: "register_setup cfg md p (d\<lparr>d_unique_name := Live u\<rparr>) = Some d1"
    "map ev_intr (d_events d') = map ev_intr (d_events d1)"
    "d_uio d' = (d_uio d1)\<lparr>uio_dev := Live \<lparr>uiod_minor = uio_register_minor env, uiod_owner = d_owner_ptr d1\<rparr>\<rparr>"
    unfolding set_up_as_def by blast
  from d1(1) obtain d0 where d0: "setup_interrupt cfg md d0 = Some d1"
    by (auto simp: register_setup_def bind_eq_Some_conv)
  then obtain e where e: "arr_get (d_events d0) 0 = Some e" by (auto simp: setup_interrupt_def bind_eq_Some_conv)
  with d0 have d1': "d_events d1 = d_events d0" "d_uio d1 = uio_setup_irq cfg (ev_intr e) (d_uio d0)"
    by (auto simp: setup_interrupt_def)
  from e d1'(1) have nth: "0 < length (d_events d1)" "e = d_events d1 ! 0" by (auto dest: arr_get_SomeD)
  from d1(2) nth(1) have "ev_intr (d_events d' ! 0) = ev_intr e"
    by (metis length_map nth(2) nth_map)
  with d1(3) d1'(2) show ?thesis by (intro setup_irq_wires [OF assms(2)]) simp
qed

lemma wired_erase:
  assumes "arrays_ok d"
  shows "wired cfg (erase_counts d) = wired cfg d"
  using assms by (intro wired_cong) (simp_all add: erase_counts_def arrays_ok_def CUDDLK_MAX_DEV_EVENTS_def)

abbreviation all_wired :: "kcfg \<Rightarrow> kstate \<Rightarrow> bool" where
  "all_wired cfg \<equiv> all_managed (wired cfg)"

lemma wired_shape:
  assumes "manager_inv cfg st" "manager_inv cfg st'" "k_shape st' = k_shape st" "all_wired cfg st"
  shows "all_wired cfg st'"
proof (rule all_managed_shape [OF assms(4,3)])
  fix i d d' assume i: "i < CUDDLK_MAX_MANAGED_DEVICES" "managed_device st i = Some d"
    "managed_device st' i = Some d'" "erase_counts d' = erase_counts d" "wired cfg d"
  from wired_erase [OF managed_arrays [OF assms(2) i(3,1)], of cfg]
    wired_erase [OF managed_arrays [OF assms(1) i(2,1)], of cfg] i(4,5)
  show "wired cfg d'" by simp
qed

text \<open>When a driver manages a device, the device is wired and so are all others.\<close>

theorem manage_keeps_wired:
  assumes "manager_inv cfg st" "\<not> k_locked st" "not_managed p st" "k_heap st p = Some d" "fresh_device d"
    and "all_wired cfg st" "uio_irq_custom cfg \<noteq> 0"
  shows "\<exists>ret st'. cuddlk_device_manage cfg env p st = Some (ret, st') \<and> all_wired cfg st'"
proof -
  have "wired cfg d'" if "set_up_as cfg env p (d\<lparr>d_instance := n\<rparr>) d'" for n d'
    using set_up_wired [OF that assms(7)] assms(5) by (simp add: fresh_device_def arrays_ok_def)
  with manage_keeps_all [OF assms(1-6), where env = env] show ?thesis by blast
qed

lemma sample_wired: "all_wired sample_cfg sample_state"
  using manage_keeps_wired [OF manager_inv_empty [of _ sample_heap] _ _ _ fresh_sample all_managed_empty,
      where p = 1 and env = sample_env and cfg = sample_cfg] sample_state_facts(1)
  by (auto simp: sample_cfg_def)

end
