(* ===== verification/Event_Files.thy ===== *)
theory Event_Files
  imports Address_Space Event_Wiring
begin

section \<open>Files of event sources: UIO's counters and the library's waits\<close>

text \<open>
  The composed system of \<open>Linux_System\<close> with what the UIO core of Linux keeps for events, as
  its documentation describes it: every device has a counter of 32 bits that a notification
  increments, and every open file remembers the value that it read last. A file is ready when
  the two differ; \<^verbatim>\<open>read\<close> then returns the counter and remembers it, and otherwise sleeps until
  an event arrives or a signal ends the call. \<^verbatim>\<open>select\<close> sleeps for at most its timeout. Opening and
  closing a file, and writing to it, call the functions that registration installed. Without an
  interrupt at the device every operation on events is \<open>-EIO\<close>, which \<^verbatim>\<open>select\<close> reports as ready.
  Which events arrive during a sleep is in the environment of the call: the events of
  a \<^verbatim>\<open>read\<close> (at least one), or the files whose devices notify during a \<^verbatim>\<open>select\<close>.
\<close>

definition EIO :: c_int where "EIO = 5"

record uio_events =
  uev_count :: "dptr \<Rightarrow> 32 word"
  uev_seen :: "c_int \<Rightarrow> 32 word"
  uev_log :: "event_action list"

definition uio_pointer :: "kstate \<Rightarrow> string \<Rightarrow> dptr option" where
  "uio_pointer k path = do { i \<leftarrow> uio_slot k path; device_at k (int i) }"

definition file_device :: "kstate \<Rightarrow> open_file \<Rightarrow> dptr option" where
  "file_device k f = (case f of Device_File path \<Rightarrow> uio_pointer k path | _ \<Rightarrow> None)"

definition event_file :: "linux \<Rightarrow> c_int \<Rightarrow> dptr option" where
  "event_file l fd = Option.bind (map_of (files l) fd) (file_device (kern l))"

definition has_irq :: "kstate \<Rightarrow> dptr \<Rightarrow> bool" where
  "has_irq k p \<longleftrightarrow> (case k_heap k p of Some d \<Rightarrow> uio_irq (d_uio d) \<noteq> 0 | None \<Rightarrow> False)"

text \<open>The functions that UIO calls; both always return zero.\<close>

definition uio_file_opened :: "dptr \<Rightarrow> kstate \<Rightarrow> kstate option" where
  "uio_file_opened p k = do {
     d \<leftarrow> k_heap k p;
     case uio_open (d_uio d) of None \<Rightarrow> Some k
     | Some _ \<Rightarrow> do { (_, k) \<leftarrow> cuddlk_uio_eventsrc_or_mem_open p k; Some k }
   }"

definition uio_file_closed :: "dptr \<Rightarrow> kstate \<Rightarrow> kstate option" where
  "uio_file_closed p k = do {
     d \<leftarrow> k_heap k p;
     case uio_release (d_uio d) of None \<Rightarrow> Some k
     | Some _ \<Rightarrow> do { (_, k) \<leftarrow> cuddlk_uio_eventsrc_or_mem_close p k; Some k }
   }"

subsection \<open>System calls\<close>

definition event_open :: "string \<Rightarrow> linux \<times> uio_events \<Rightarrow> (c_int \<times> c_int \<times> (linux \<times> uio_events)) option" where
  "event_open path = (\<lambda>(l, x). do {
     (fd, errno, l') \<leftarrow> linux_open path l;
     if fd < 0 then Some (fd, errno, (l', x))
     else case uio_pointer (kern l) path of
       None \<Rightarrow> Some (fd, errno, (l', x))
     | Some p \<Rightarrow> do {
         k \<leftarrow> uio_file_opened p (kern l');
         Some (fd, errno, (l'\<lparr>kern := k\<rparr>, x\<lparr>uev_seen := (uev_seen x)(fd := uev_count x p)\<rparr>))
       }
   })"

definition event_close :: "c_int \<Rightarrow> linux \<times> uio_events \<Rightarrow> (c_int \<times> c_int \<times> (linux \<times> uio_events)) option" where
  "event_close fd = (\<lambda>(l, x). do {
     (ret, errno, l') \<leftarrow> linux_close fd l;
     case event_file l fd of
       None \<Rightarrow> Some (ret, errno, (l', x))
     | Some p \<Rightarrow> do {
         k \<leftarrow> uio_file_closed p (kern l');
         Some (ret, errno, (l'\<lparr>kern := k\<rparr>, x))
       }
   })"

definition event_read :: "c_int \<Rightarrow> 32 word \<Rightarrow> linux \<times> uio_events
    \<Rightarrow> (c_int \<times> c_int \<times> 32 word \<times> (linux \<times> uio_events)) option" where
  "event_read fd buf = (\<lambda>(l, x).
     case event_file l fd of
       None \<Rightarrow> do { (n, errno, v, l') \<leftarrow> linux_read fd buf l; Some (n, errno, v, (l', x)) }
     | Some p \<Rightarrow>
         if \<not> has_irq (kern l) p then Some (- 1, EIO, buf, (tick l, x))
         else if uev_count x p \<noteq> uev_seen x fd then
           Some (4, 0, uev_count x p, (tick l, x\<lparr>uev_seen := (uev_seen x)(fd := uev_count x p)\<rparr>))
         else case ce_read (now l) of
           Inl e \<Rightarrow> Some (- 1, e, buf, (tick l, x))
         | Inr (_, arrivals) \<Rightarrow>
             let c = uev_count x p + (if arrivals = 0 then 1 else arrivals)
             in Some (4, 0, c, (tick l, x\<lparr>uev_count := (uev_count x)(p := c), uev_seen := (uev_seen x)(fd := c)\<rparr>)))"

definition event_write :: "driver_fns \<Rightarrow> c_int \<Rightarrow> 32 word \<Rightarrow> linux \<times> uio_events
    \<Rightarrow> (c_int \<times> c_int \<times> (linux \<times> uio_events)) option" where
  "event_write drv fd v = (\<lambda>(l, x).
     case event_file l fd of
       None \<Rightarrow> do { (n, errno, l') \<leftarrow> linux_write fd v l; Some (n, errno, (l', x)) }
     | Some p \<Rightarrow> do {
         d \<leftarrow> k_heap (kern l) p;
         if uio_irq (d_uio d) = 0 then Some (- 1, EIO, (tick l, x))
         else case uio_irqcontrol (d_uio d) of
           None \<Rightarrow> Some (- 1, ENOSYS, (tick l, x))
         | Some _ \<Rightarrow> do {
             (ret, acts) \<leftarrow> cuddlk_uio_eventsrc_or_mem_irqcontrol drv p (c_int_wrap (uint v)) (kern l);
             let (n, errno) = syscall_result (if ret = 0 then 4 else ret);
             Some (n, errno, (tick l, x\<lparr>uev_log := uev_log x @ acts\<rparr>))
           }
       })"

definition ready_fds :: "linux \<Rightarrow> uio_events \<Rightarrow> fd_set \<Rightarrow> fd_set \<Rightarrow> fd_set" where
  "ready_fds l x others fds = {fd \<in> fds. case event_file l fd of
       None \<Rightarrow> fd \<in> others
     | Some p \<Rightarrow> \<not> has_irq (kern l) p \<or> uev_count x p \<noteq> uev_seen x fd}"

definition wake_up :: "linux \<Rightarrow> fd_set \<Rightarrow> uio_events \<Rightarrow> uio_events" where
  "wake_up l fds x = x\<lparr>uev_count := (\<lambda>p. if \<exists>fd \<in> fds. event_file l fd = Some p then uev_count x p + 1 else uev_count x p)\<rparr>"

definition event_select :: "c_int \<Rightarrow> fd_set \<Rightarrow> timeval \<Rightarrow> linux \<times> uio_events
    \<Rightarrow> (c_int \<times> c_int \<times> fd_set \<times> (linux \<times> uio_events)) option" where
  "event_select n fds tv = (\<lambda>(l, x).
     case ce_select (now l) of
       Inl e \<Rightarrow> Some (- 1, e, fds, (tick l, x))
     | Inr (_, arrivals) \<Rightarrow>
         let asked = {fd \<in> fds. fd < n};
             sleeps = (ready_fds l x arrivals asked = {} \<and> (tval_sec tv \<noteq> 0 \<or> tval_usec tv \<noteq> 0));
             x' = (if sleeps then wake_up l (asked \<inter> arrivals) x else x);
             ready = ready_fds l x' arrivals asked
         in Some (int (card ready), 0, ready, (tick l, x')))"

text \<open>The other calls leave events alone.\<close>

definition event_posix :: "kcfg \<Rightarrow> driver_fns \<Rightarrow> (linux \<times> uio_events) posix" where
  "event_posix cfg drv = \<lparr>
     sys_open = event_open, sys_close = event_close,
     sys_ioctl = (\<lambda>fd cmd p (l, x). do { (ret, errno, p, l) \<leftarrow> linux_ioctl cfg fd cmd p l; Some (ret, errno, p, (l, x)) }),
     sys_mmap = (\<lambda>len fd off (l, x). do { (addr, errno, l) \<leftarrow> linux_mmap len fd off l; Some (addr, errno, (l, x)) }),
     sys_munmap = (\<lambda>addr len (l, x). do { (ret, errno, l) \<leftarrow> linux_munmap addr len l; Some (ret, errno, (l, x)) }),
     sys_read = event_read, sys_write = event_write drv, sys_select = event_select,
     sys_getpid = my_pid \<circ> fst, stack_id = garbage_id \<circ> fst, stack_meminfo = garbage_meminfo \<circ> fst,
     stack_eventinfo = garbage_eventinfo \<circ> fst, stack_options = garbage_options \<circ> fst, stack_text = garbage_text \<circ> fst\<rparr>"

lemma event_posix_simps [simp]:
  "sys_open (event_posix cfg drv) = event_open" "sys_close (event_posix cfg drv) = event_close"
  "sys_ioctl (event_posix cfg drv) fd cmd p (l, x) =
     do { (ret, errno, p, l) \<leftarrow> linux_ioctl cfg fd cmd p l; Some (ret, errno, p, (l, x)) }"
  "sys_mmap (event_posix cfg drv) len fd off (l, x) =
     do { (addr, errno, l) \<leftarrow> linux_mmap len fd off l; Some (addr, errno, (l, x)) }"
  "sys_munmap (event_posix cfg drv) addr len (l, x) =
     do { (ret, errno, l) \<leftarrow> linux_munmap addr len l; Some (ret, errno, (l, x)) }"
  "sys_read (event_posix cfg drv) = event_read" "sys_write (event_posix cfg drv) = event_write drv"
  "sys_select (event_posix cfg drv) = event_select" "sys_getpid (event_posix cfg drv) (l, x) = my_pid l"
  "stack_id (event_posix cfg drv) (l, x) = garbage_id l" "stack_eventinfo (event_posix cfg drv) (l, x) = garbage_eventinfo l"
  by (simp_all add: event_posix_def)

subsection \<open>What the driver and the hardware do\<close>

fun deliver :: "event_action list \<Rightarrow> uio_events \<Rightarrow> uio_events" where
  "deliver [] x = x"
| "deliver (Uio_event_notify p # acts) x =
     deliver acts (x\<lparr>uev_count := (uev_count x)(p := uev_count x p + 1), uev_log := uev_log x @ [Uio_event_notify p]\<rparr>)"
| "deliver (act # acts) x = deliver acts (x\<lparr>uev_log := uev_log x @ [act]\<rparr>)"

definition driver_notifies :: "kcfg \<Rightarrow> dptr \<Rightarrow> linux \<times> uio_events \<Rightarrow> (linux \<times> uio_events) option" where
  "driver_notifies cfg p = (\<lambda>(l, x). do {
     e \<leftarrow> get_eventsrc (kern l) p 0;
     acts \<leftarrow> cuddlk_eventsrc_notify cfg p e;
     Some (l, deliver (delivered acts) x)
   })"

text \<open>
  The interrupt of a device: UIO calls the handler that registration gave it and notifies
  when it returns \<^verbatim>\<open>IRQ_HANDLED\<close>; with UDD the handler itself pends the signal for UIO.
\<close>

definition device_interrupts :: "kcfg \<Rightarrow> driver_fns \<Rightarrow> dptr \<Rightarrow> linux \<times> uio_events \<Rightarrow> (linux \<times> uio_events) option" where
  "device_interrupts cfg drv p = (\<lambda>(l, x).
     if use_udd cfg then do {
       (ret, acts) \<leftarrow> cuddlk_udd_interrupt_handler cfg drv p (kern l);
       Some (l, deliver (delivered acts @ (if ret = ret_intr_handled cfg then [Udd_notify_event p] else [])) x)
     } else do {
       (ret, acts) \<leftarrow> cuddlk_uio_interrupt_handler drv p (kern l);
       Some (l, deliver (acts @ (if ret = ret_intr_handled cfg then [Uio_event_notify p] else [])) x)
     })"

text \<open>A sequence of both.\<close>

datatype device_signal = Notify | Interrupt

fun device_signals :: "kcfg \<Rightarrow> driver_fns \<Rightarrow> dptr \<Rightarrow> device_signal list \<Rightarrow> linux \<times> uio_events
    \<Rightarrow> (linux \<times> uio_events) option" where
  "device_signals cfg drv p [] s = Some s"
| "device_signals cfg drv p (sig # sigs) s = do {
     s \<leftarrow> (case sig of Notify \<Rightarrow> driver_notifies cfg p s | Interrupt \<Rightarrow> device_interrupts cfg drv p s);
     device_signals cfg drv p sigs s
   }"

end
