(* ===== verification/Open_Counts.thy ===== *)
theory Open_Counts
  imports Event_Files
begin

section \<open>What opening and closing a file changes in the kernel\<close>

text \<open>
  The open and release functions of the module change one counter of one event source. Kernel
  states that differ in these counters only have the same invariant, and they have the same
  wiring: the same device files with the same callbacks and interrupts. So have states that
  differ in reference counts only, which is all that a request changes.
\<close>

subsection \<open>Kernel states that differ in open counts only\<close>

definition forget_opens :: "cuddlk_device \<Rightarrow> cuddlk_device" where
  "forget_opens d = d\<lparr>d_events := map (\<lambda>e. e\<lparr>ev_uio_open_count := 0\<rparr>) (d_events d)\<rparr>"

definition same_but_opens :: "kstate \<Rightarrow> kstate \<Rightarrow> bool" where
  "same_but_opens k' k \<longleftrightarrow> cuddlk_global_manager k' = cuddlk_global_manager k \<and>
     cuddlk_mem_refs k' = cuddlk_mem_refs k \<and> cuddlk_event_refs k' = cuddlk_event_refs k \<and>
     (\<forall>p. map_option forget_opens (k_heap k' p) = map_option forget_opens (k_heap k p))"

lemma same_but_opens_refl [simp]: "same_but_opens k k"
  by (simp add: same_but_opens_def)

lemma same_but_opens_put:
  "get_eventsrc k p 0 = Some e \<Longrightarrow> same_but_opens (put_eventsrc p 0 (e\<lparr>ev_uio_open_count := c\<rparr>) k) k"
  by (auto simp: get_eventsrc_def put_eventsrc_def same_but_opens_def bind_eq_Some_conv forget_opens_def map_arr_set_same)

lemma same_but_opens_heap:
  assumes "same_but_opens k' k" "k_heap k' p = Some d'"
  obtains d where "k_heap k p = Some d" "forget_opens d' = forget_opens d"
  using assms unfolding same_but_opens_def by (metis map_option_eq_Some)

lemma same_but_opens_sym: "same_but_opens k' k \<Longrightarrow> same_but_opens k k'"
  by (simp add: same_but_opens_def)

lemma forget_opens_same:
  assumes "forget_opens d' = forget_opens d"
  shows "d_uio d' = d_uio d" "d_mem d' = d_mem d" "registered cfg p d' = registered cfg p d"
    "resources_named cfg d' = resources_named cfg d" "map ev_ref_count (d_events d') = map ev_ref_count (d_events d)"
    "map ev_intr (d_events d') = map ev_intr (d_events d)"
proof -
  have r: "registered cfg p (forget_opens e) = registered cfg p e"
    "resources_named cfg (forget_opens e) = resources_named cfg e"
    "d_uio (forget_opens e) = d_uio e" "d_mem (forget_opens e) = d_mem e"
    "map ev_ref_count (d_events (forget_opens e)) = map ev_ref_count (d_events e)"
    "map ev_intr (d_events (forget_opens e)) = map ev_intr (d_events e)" for e
    by (simp_all add: registered_def resources_named_def forget_opens_def device_named_def comp_def)
  show "registered cfg p d' = registered cfg p d" using arg_cong [OF assms, of "registered cfg p"] by (simp only: r)
  show "resources_named cfg d' = resources_named cfg d" using arg_cong [OF assms, of "resources_named cfg"] by (simp only: r)
  show "d_uio d' = d_uio d" using arg_cong [OF assms, of d_uio] by (simp only: r)
  show "d_mem d' = d_mem d" using arg_cong [OF assms, of d_mem] by (simp only: r)
  show "map ev_ref_count (d_events d') = map ev_ref_count (d_events d)"
    using arg_cong [OF assms, of "\<lambda>d. map ev_ref_count (d_events d)"] by (simp only: r)
  show "map ev_intr (d_events d') = map ev_intr (d_events d)"
    using arg_cong [OF assms, of "\<lambda>d. map ev_intr (d_events d)"] by (simp only: r)
qed

lemma same_but_opens_at: "same_but_opens k' k \<Longrightarrow> device_at k' = device_at k"
  by (simp add: same_but_opens_def device_at_def fun_eq_iff)

lemma arr_get_map_cong:
  assumes "map f xs = map f ys"
  shows "map_option f (arr_get xs j) = map_option f (arr_get ys j)"
proof -
  have "map_option f (arr_get zs j) = arr_get (map f zs) j" for zs by (auto simp: arr_get_def)
  with assms show ?thesis by simp
qed

lemma same_but_opens_counts:
  assumes "same_but_opens k' k"
  shows "memregion_count k' = memregion_count k" "eventsrc_count k' = eventsrc_count k"
proof -
  have h: "k_heap k p = None" if "k_heap k' p = None" for p
    using assms that unfolding same_but_opens_def by (metis map_option_is_None)
  show "memregion_count k' = memregion_count k"
  proof (intro ext)
    fix p j
    show "memregion_count k' p j = memregion_count k p j"
    proof (cases "k_heap k' p")
      case None
      with h show ?thesis by (simp add: memregion_count_def get_memregion_def)
    next
      case (Some d')
      then obtain d where d: "k_heap k p = Some d" "forget_opens d' = forget_opens d" by (rule same_but_opens_heap [OF assms])
      from forget_opens_same(2) [OF d(2)] show ?thesis
        using Some d(1) by (simp add: memregion_count_def get_memregion_def)
    qed
  qed
  show "eventsrc_count k' = eventsrc_count k"
  proof (intro ext)
    fix p j
    show "eventsrc_count k' p j = eventsrc_count k p j"
    proof (cases "k_heap k' p")
      case None
      with h show ?thesis by (simp add: eventsrc_count_def get_eventsrc_def)
    next
      case (Some d')
      then obtain d where d: "k_heap k p = Some d" "forget_opens d' = forget_opens d" by (rule same_but_opens_heap [OF assms])
      from arr_get_map_cong [OF forget_opens_same(5) [OF d(2)], of j] show ?thesis
        using Some d(1) by (simp add: eventsrc_count_def get_eventsrc_def)
    qed
  qed
qed

lemma same_but_opens_fine:
  assumes "same_but_opens k' k" "kernel_fine cfg k"
  shows "kernel_fine cfg k'"
proof -
  note k = kernel_fineD [OF assms(2)]
  note at = same_but_opens_at [OF assms(1)] and counts = same_but_opens_counts [OF assms(1)]
  have g: "cuddlk_global_manager k' = cuddlk_global_manager k" "cuddlk_mem_refs k' = cuddlk_mem_refs k"
    "cuddlk_event_refs k' = cuddlk_event_refs k" using assms(1) by (simp_all add: same_but_opens_def)
  have old: "\<exists>d. k_heap k' p = Some d \<and> forget_opens d = forget_opens d0" if "k_heap k p = Some d0" for p d0
    using same_but_opens_heap [OF same_but_opens_sym [OF assms(1)] that] by metis
  have "devices_registered cfg k'"
    unfolding devices_registered_def at
    using devices_registeredD [OF manager_invD(3) [OF k(1)]] old forget_opens_same(3) by metis
  moreover have "refs_ok k'"
    using manager_invD(4) [OF k(1)] by (simp add: refs_ok_def counts_bounded_def refs_placed_def at counts g)
  moreover have "all_named cfg k'"
    unfolding all_named_def at
  proof (intro allI impI)
    fix i p d' assume a: "device_at k i = Some p" "k_heap k' p = Some d'"
    obtain d where "k_heap k p = Some d" "forget_opens d' = forget_opens d" by (rule same_but_opens_heap [OF assms(1) a(2)])
    with a(1) k(3) forget_opens_same(4) show "resources_named cfg d'" unfolding all_named_def by metis
  qed
  ultimately show ?thesis
    using k manager_invD(1,2) [OF k(1)] by (simp add: kernel_fine_def manager_inv_def table_len_def refs_few_def g)
qed

subsection \<open>Kernel states with the same wiring\<close>

definition same_wiring :: "kstate \<Rightarrow> kstate \<Rightarrow> bool" where
  "same_wiring k' k \<longleftrightarrow> k_table k' = k_table k \<and>
     (\<forall>p. map_option (\<lambda>d. (d_uio d, map ev_intr (d_events d))) (k_heap k' p) =
        map_option (\<lambda>d. (d_uio d, map ev_intr (d_events d))) (k_heap k p))"

lemma same_wiring_refl [simp]: "same_wiring k k"
  by (simp add: same_wiring_def)

lemma same_wiring_opens:
  assumes "same_but_opens k' k"
  shows "same_wiring k' k"
proof -
  have "map_option (\<lambda>d. (d_uio d, map ev_intr (d_events d))) (k_heap k' p) =
      map_option (\<lambda>d. (d_uio d, map ev_intr (d_events d))) (k_heap k p)" for p
  proof (cases "k_heap k' p")
    case None
    moreover from assms have "map_option forget_opens (k_heap k' p) = map_option forget_opens (k_heap k p)"
      unfolding same_but_opens_def by blast
    ultimately show ?thesis by simp
  next
    case (Some d')
    then obtain d where d: "k_heap k p = Some d" "forget_opens d' = forget_opens d" by (rule same_but_opens_heap [OF assms])
    from forget_opens_same(1,6) [OF d(2)] Some d(1) show ?thesis by simp
  qed
  with assms show ?thesis by (simp add: same_wiring_def same_but_opens_def)
qed

lemma same_wiring_shape:
  assumes "k_shape k' = k_shape k"
  shows "same_wiring k' k"
proof -
  let ?g = "\<lambda>d. (d_uio d, map ev_intr (d_events d))"
  have "?g (erase_counts d) = ?g d" for d by (simp add: erase_counts_def comp_def)
  then have g: "map_option ?g x = map_option ?g (map_option erase_counts x)" for x
    by (cases x) simp_all
  have "map_option ?g (k_heap k' p) = map_option ?g (k_heap k p)" for p
    unfolding g [of "k_heap k' p"] g [of "k_heap k p"] k_shape_heap [OF assms] ..
  with k_shape_table [OF assms] show ?thesis by (simp add: same_wiring_def)
qed

lemma same_wiring_device:
  assumes "same_wiring k' k" "managed_device k' i = Some d'"
  obtains d where "managed_device k i = Some d" "d_uio d' = d_uio d" "map ev_intr (d_events d') = map ev_intr (d_events d)"
proof -
  from assms(2) obtain p where p: "k_table k' ! i = Some p" "k_heap k' p = Some d'"
    by (auto simp: managed_device_def bind_eq_Some_conv)
  from assms(1) have "map_option (\<lambda>d. (d_uio d, map ev_intr (d_events d))) (k_heap k' p) =
      map_option (\<lambda>d. (d_uio d, map ev_intr (d_events d))) (k_heap k p)" by (simp add: same_wiring_def)
  with p(2) obtain d where "k_heap k p = Some d" "d_uio d' = d_uio d" "map ev_intr (d_events d') = map ev_intr (d_events d)"
    by (cases "k_heap k p") auto
  with that p(1) assms(1) show thesis by (simp add: managed_device_def same_wiring_def)
qed

lemma same_wiring_sym: "same_wiring k' k \<Longrightarrow> same_wiring k k'"
  by (simp add: same_wiring_def)

lemma map_nth0: "map f xs = map f ys \<Longrightarrow> f (xs ! 0) = f (ys ! 0)"
  by (cases xs; cases ys) auto

lemma same_wiring_wired:
  assumes "same_wiring k' k" "all_wired cfg k"
  shows "all_wired cfg k'"
  unfolding all_managed_def
proof (intro allI impI)
  fix i d' assume i: "i < CUDDLK_MAX_MANAGED_DEVICES" and d': "managed_device k' i = Some d'"
  obtain d where d: "managed_device k i = Some d" "d_uio d' = d_uio d" "map ev_intr (d_events d') = map ev_intr (d_events d)"
    by (rule same_wiring_device [OF assms(1) d'])
  from wired_cong [OF d(2) map_nth0 [OF d(3)]] all_managedD [OF assms(2) i d(1)] show "wired cfg d'" by simp
qed

lemma same_wiring_minor:
  assumes "same_wiring k' k"
  shows "minor_at k' = minor_at k"
proof
  fix i
  have "Option.bind (managed_device k' i) uio_minor = Option.bind (managed_device k i) uio_minor"
  proof (cases "managed_device k' i")
    case None
    have "managed_device k i = None"
    proof (rule ccontr)
      assume "managed_device k i \<noteq> None"
      then obtain d where "managed_device k i = Some d" by blast
      from same_wiring_device [OF same_wiring_sym [OF assms] this] None show False by simp
    qed
    with None show ?thesis by simp
  next
    case (Some d')
    from same_wiring_device [OF assms Some] obtain d where "managed_device k i = Some d" "d_uio d' = d_uio d" by metis
    with Some show ?thesis by (simp add: uio_minor_def)
  qed
  then show "minor_at k' i = minor_at k i" by (simp add: minor_at_def)
qed

lemma same_wiring_files:
  assumes "same_wiring k' k"
  shows "uio_pointer k' = uio_pointer k" "uio_numbers k' = uio_numbers k" "has_irq k' = has_irq k"
proof -
  have "device_at k' = device_at k" using assms by (simp add: same_wiring_def device_at_def fun_eq_iff)
  then show "uio_pointer k' = uio_pointer k" "uio_numbers k' = uio_numbers k"
    by (simp_all add: uio_pointer_def uio_slot_def uio_numbers_def same_wiring_minor [OF assms] fun_eq_iff)
  show "has_irq k' = has_irq k"
  proof
    fix p
    from assms have "map_option (\<lambda>d. (d_uio d, map ev_intr (d_events d))) (k_heap k' p) =
        map_option (\<lambda>d. (d_uio d, map ev_intr (d_events d))) (k_heap k p)" by (simp add: same_wiring_def)
    then show "has_irq k' p = has_irq k p"
      by (cases "k_heap k' p"; cases "k_heap k p") (simp_all add: has_irq_def)
  qed
qed

end
