(* ===== verification/Event_Counts.thy ===== *)
theory Event_Counts
  imports Open_Counts
begin

section \<open>The open count is the number of readers\<close>

text \<open>
  The count that decides whether an event is passed on to UIO's readers is kept by the open and
  release functions of the module. Over the composed system it is the number of files of the
  device that are open in the process plus those of all other processes. The invariant
  \<open>event_fine\<close> states this; the system keeps the promises of \<open>small_files\<close> with it, so every
  function of the library keeps it.
\<close>

subsection \<open>The invariant\<close>

definition counted_opens :: "kcfg \<Rightarrow> kstate \<Rightarrow> dptr \<Rightarrow> c_int option" where
  "counted_opens cfg k p = (case k_heap k p of None \<Rightarrow> None | Some d \<Rightarrow>
     if uses_irq cfg (ev_intr (d_events d ! 0)) then Some (ev_uio_open_count (d_events d ! 0)) else None)"

definition readers_counted :: "kcfg \<Rightarrow> (dptr \<Rightarrow> nat) \<Rightarrow> kstate \<Rightarrow> (c_int \<Rightarrow> dptr option) \<Rightarrow> bool" where
  "readers_counted cfg others k ef \<longleftrightarrow> (\<forall>i p n. device_at k i = Some p \<longrightarrow> counted_opens cfg k p = Some n \<longrightarrow>
     n = int (others p + card {fd. ef fd = Some p}))"

definition event_fine :: "kcfg \<Rightarrow> (dptr \<Rightarrow> nat) \<Rightarrow> linux \<times> uio_events \<Rightarrow> bool" where
  "event_fine cfg others s \<longleftrightarrow> linux_fine cfg (fst s) \<and> all_wired cfg (kern (fst s)) \<and> uio_numbers (kern (fst s)) \<and>
     (\<forall>p. others p \<le> 2 ^ 30) \<and> readers_counted cfg others (kern (fst s)) (event_file (fst s))"

definition event_fds :: "linux \<times> uio_events \<Rightarrow> c_int set" where
  "event_fds s = open_fds (fst s)"

lemma counted_opens_shape:
  assumes "k_shape k' = k_shape k"
  shows "counted_opens cfg k' = counted_opens cfg k"
proof
  fix p
  have e: "counted_opens cfg k p = (case map_option erase_counts (k_heap k p) of None \<Rightarrow> None | Some d \<Rightarrow>
     if uses_irq cfg (ev_intr (d_events d ! 0)) then Some (ev_uio_open_count (d_events d ! 0)) else None)" for k
  proof (cases "k_heap k p")
    case (Some d)
    then show ?thesis by (cases "d_events d") (simp_all add: counted_opens_def erase_counts_def)
  qed (simp add: counted_opens_def)
  show "counted_opens cfg k' p = counted_opens cfg k p"
    unfolding e [of k'] e [of k] k_shape_heap [OF assms] ..
qed

lemma readers_counted_shape:
  "k_shape k' = k_shape k \<Longrightarrow> readers_counted cfg others k' ef = readers_counted cfg others k ef"
  by (simp only: readers_counted_def counted_opens_shape [of k' k] k_shape_device_at [of k' k])

text \<open>One more or one fewer reader.\<close>

lemma file_count_put:
  assumes "k_heap k p = Some d" "get_eventsrc k p 0 = Some e"
  shows "counted_opens cfg (put_eventsrc p 0 (e\<lparr>ev_uio_open_count := f (ev_uio_open_count e)\<rparr>) k) =
    (counted_opens cfg k)(p := map_option f (counted_opens cfg k p))"
proof
  fix q
  let ?e = "e\<lparr>ev_uio_open_count := f (ev_uio_open_count e)\<rparr>" and ?C = "counted_opens cfg k"
  from assms have e: "0 < length (d_events d)" "d_events d ! 0 = e" by (auto simp: get_eventsrc_def dest: arr_get_SomeD)
  have "k_heap (put_eventsrc p 0 ?e k) q = (if q = p then Some (d\<lparr>d_events := (d_events d)[0 := ?e]\<rparr>) else k_heap k q)"
    using assms(1) by (simp add: put_eventsrc_def arr_set_def set_dev_def)
  with assms(1) e show "counted_opens cfg (put_eventsrc p 0 ?e k) q = (?C(p := map_option f (?C p))) q"
    by (simp add: counted_opens_def)
qed

lemma file_events:
  assumes "kernel_fine cfg k" "all_wired cfg k" "device_at k i = Some p"
  shows "\<exists>k'. uio_file_opened p k = Some k' \<and> same_but_opens k' k \<and>
      counted_opens cfg k' = (counted_opens cfg k)(p := map_option (\<lambda>n. c_int_wrap (n + 1)) (counted_opens cfg k p))"
    "\<exists>k'. uio_file_closed p k = Some k' \<and> same_but_opens k' k \<and>
      counted_opens cfg k' = (counted_opens cfg k)(p := map_option (\<lambda>n. c_int_wrap (n - 1)) (counted_opens cfg k p))"
proof -
  note inv = kernel_fineD(1) [OF assms(1)]
  from devices_registeredD [OF manager_invD(3) [OF inv] assms(3)] obtain d where
    d: "k_heap k p = Some d" "registered cfg p d" by blast
  obtain e where e: "get_eventsrc k p 0 = Some e" "e = d_events d ! 0" using registered_event0 [OF d] by metis
  from assms(3) device_at_iff [OF manager_invD(1) [OF inv]] d(1) have
    "nat i < CUDDLK_MAX_MANAGED_DEVICES" "managed_device k (nat i) = Some d" by (auto simp: managed_device_def)
  then have w: "wired cfg d" by (rule all_managedD [OF assms(2)])
  have none: "counted_opens cfg k = (counted_opens cfg k)(p := map_option f (counted_opens cfg k p))"
    if "uio_open (d_uio d) = None \<or> uio_release (d_uio d) = None" for f
  proof -
    from that w have "\<not> uses_irq cfg (ev_intr (d_events d ! 0))" by (auto simp: wired_def Let_def)
    with d(1) show ?thesis by (auto simp: counted_opens_def)
  qed
  note put = same_but_opens_put [OF e(1)] file_count_put [OF d(1) e(1), of cfg]
  show "\<exists>k'. uio_file_opened p k = Some k' \<and> same_but_opens k' k \<and>
      counted_opens cfg k' = (counted_opens cfg k)(p := map_option (\<lambda>n. c_int_wrap (n + 1)) (counted_opens cfg k p))"
    using d(1) e(1) none put(1) put(2) [of "\<lambda>n. c_int_wrap (n + 1)"]
    by (cases "uio_open (d_uio d)") (simp_all add: uio_file_opened_def cuddlk_uio_eventsrc_or_mem_open_def)
  show "\<exists>k'. uio_file_closed p k = Some k' \<and> same_but_opens k' k \<and>
      counted_opens cfg k' = (counted_opens cfg k)(p := map_option (\<lambda>n. c_int_wrap (n - 1)) (counted_opens cfg k p))"
    using d(1) e(1) none put(1) put(2) [of "\<lambda>n. c_int_wrap (n - 1)"]
    by (cases "uio_release (d_uio d)") (simp_all add: uio_file_closed_def cuddlk_uio_eventsrc_or_mem_close_def)
qed

subsection \<open>Which files belong to which device\<close>

lemma event_file_tick [simp]: "event_file (tick l) = event_file l"
  by (rule ext) (simp add: event_file_def)

lemma event_file_wiring:
  assumes "same_wiring (kern l') (kern l)" "files l' = files l"
  shows "event_file l' = event_file l"
proof -
  have dev: "file_device (kern l') = file_device (kern l)"
    by (rule ext) (simp add: file_device_def same_wiring_files [OF assms(1)] split: open_file.split)
  show ?thesis by (rule ext) (simp only: event_file_def dev assms(2))
qed

lemma event_file_open: "event_file l fd = Some p \<Longrightarrow> fd \<in> open_fds l"
  by (force simp: event_file_def open_fds_def bind_eq_Some_conv dest: map_of_SomeD)

lemma uio_pointer_at: "uio_pointer k path = Some p \<Longrightarrow> \<exists>i. device_at k i = Some p"
  by (auto simp: uio_pointer_def bind_eq_Some_conv)

lemma event_file_at: "event_file l fd = Some p \<Longrightarrow> \<exists>i. device_at (kern l) i = Some p"
proof -
  assume "event_file l fd = Some p"
  then obtain f where "file_device (kern l) f = Some p" by (auto simp: event_file_def bind_eq_Some_conv)
  then show ?thesis by (cases f) (auto simp: file_device_def dest: uio_pointer_at)
qed

lemma uio_pointer_device:
  assumes "uio_pointer k path = Some p"
  shows "file_for path = Device_File path"
proof -
  from assms obtain i where "uio_slot k path = Some i" by (auto simp: uio_pointer_def bind_eq_Some_conv)
  then obtain n where "uio_path n = path" by (auto simp: uio_slot_def find_Some_iff)
  then show ?thesis by (auto simp: uio_path_def file_for_def)
qed

lemma linux_open_files:
  assumes "linux_open path l = Some (fd, e, l')"
  shows "kern l' = kern l"
    "fd < 0 \<Longrightarrow> event_file l' = event_file l"
    "0 \<le> fd \<Longrightarrow> event_file l fd = None \<and> event_file l' = (event_file l)(fd := uio_pointer (kern l) path)"
proof -
  let ?fd = "lowest_fd (files l)"
  have free: "0 \<le> ?fd" "map_of (files l) ?fd = None"
    using lowest_fd_free [of "files l"] by (simp_all add: map_of_eq_None_iff)
  from assms free(1) have c: "fd = - 1 \<and> l' = tick l \<or> fd = ?fd \<and> l' = tick (l\<lparr>files := (?fd, file_for path) # files l\<rparr>)"
    by (auto simp: linux_open_def Let_def split: option.splits if_splits)
  then show "kern l' = kern l" by auto
  from c free(1) show "event_file l' = event_file l" if "fd < 0" using that by auto
  have dev: "file_device (kern l) (file_for path) = uio_pointer (kern l) path"
    using uio_pointer_device [of "kern l" path]
    by (cases "uio_pointer (kern l) path") (auto simp: file_device_def file_for_def)
  have "event_file (l\<lparr>files := (?fd, file_for path) # files l\<rparr>) = (event_file l)(?fd := uio_pointer (kern l) path)"
    by (rule ext) (simp add: event_file_def dev)
  with c free show "event_file l fd = None \<and> event_file l' = (event_file l)(fd := uio_pointer (kern l) path)" if "0 \<le> fd"
    using that by (auto simp: event_file_def)
qed

lemma linux_close_files:
  assumes "linux_close fd l = Some (ret, e, l')" "linux_fine cfg l" "fd \<in> open_fds l"
  shows "k_shape (kern l') = k_shape (kern l)" "event_file l' = (event_file l)(fd := None)"
proof -
  obtain f where f: "map_of (files l) fd = Some f" "(fd, f) \<in> set (files l)" using open_file_at [OF assms(3)] by blast
  from assms(1) f(1) obtain k where k: "(case f of Janitor_File j \<Rightarrow> do { (_, _, k) \<leftarrow> cuddlk_janitor_release j (kern l); Some k }
      | _ \<Rightarrow> Some (kern l)) = Some k" "l' = tick (l\<lparr>kern := k, files := filter (\<lambda>f. fst f \<noteq> fd) (files l)\<rparr>)"
    by (cases "close_result l") (auto simp: linux_close_def bind_eq_Some_conv)
  have shape: "k_shape k = k_shape (kern l)"
  proof (cases f)
    case (Janitor_File j)
    with k(1) kernel_janitor_release [OF fineD(1) [OF assms(2)], of j] file_ok_at [OF fineD(2) [OF assms(2)] f(2)]
    show ?thesis by auto
  qed (use k(1) in simp_all)
  with k(2) show "k_shape (kern l') = k_shape (kern l)" by simp
  have m: "map_of (filter (\<lambda>f. fst f \<noteq> fd) fs) = (map_of fs)(fd := None)" for fs :: "(c_int \<times> open_file) list"
    by (induction fs) (auto simp: fun_eq_iff)
  have "event_file (l\<lparr>kern := k, files := filter (\<lambda>f. fst f \<noteq> fd) (files l)\<rparr>) =
      event_file (l\<lparr>files := filter (\<lambda>f. fst f \<noteq> fd) (files l)\<rparr>)"
    by (rule event_file_wiring) (simp_all add: same_wiring_shape [OF shape])
  also have "\<dots> = (event_file l)(fd := None)" by (rule ext) (simp add: event_file_def m)
  finally show "event_file l' = (event_file l)(fd := None)" using k(2) by simp
qed

lemma linux_ioctl_files:
  assumes "linux_ioctl cfg fd cmd p l = Some (ret, e, p', l')" "linux_fine cfg l"
  shows "k_shape (kern l') = k_shape (kern l)" "event_file l' = event_file l"
proof -
  have "k_shape (kern l') = k_shape (kern l) \<and> event_file l' = event_file l"
  proof (cases "map_of (files l) fd")
    case None
    with assms(1) show ?thesis by (auto simp: linux_ioctl_def)
  next
    case (Some f)
    show ?thesis
    proof (cases f)
      case Manager_File
      from assms(1) Some Manager_File obtain r out k where k: "cuddlk_manager_ioctl cfg
          (copied_in (ce_copy_in (now l)) (refs_room (kern l)) (ce_kernel (now l)) p) cmd (kern l) = Some (r, out, k)"
        "l' = tick (l\<lparr>kern := k\<rparr>)" by (auto simp: linux_ioctl_def bind_eq_Some_conv Let_def case_prod_unfold)
      from kernel_ioctl [OF fineD(1) [OF assms(2)], of "ce_copy_in (now l)" "ce_kernel (now l)" p cmd] k(1)
      have "k_shape k = k_shape (kern l)" by auto
      then show ?thesis using k(2) event_file_wiring [of "l\<lparr>kern := k\<rparr>" l] by (simp add: same_wiring_shape)
    next
      case (Janitor_File j)
      from assms(1) Some Janitor_File obtain j' where l': "l' = tick (l\<lparr>files := AList.update fd (Janitor_File j') (files l)\<rparr>)"
        by (auto simp: linux_ioctl_def Let_def case_prod_unfold)
      have "event_file (l\<lparr>files := AList.update fd (Janitor_File j') (files l)\<rparr>) = event_file l"
        using Some Janitor_File by (intro ext) (simp add: event_file_def update_conv' file_device_def)
      with l' show ?thesis by simp
    next
      case (Device_File path)
      with assms(1) Some show ?thesis by (auto simp: linux_ioctl_def)
    qed
  qed
  then show "k_shape (kern l') = k_shape (kern l)" "event_file l' = event_file l" by simp_all
qed

subsection \<open>The system keeps the promises and the counts\<close>

lemma event_fineD:
  assumes "event_fine cfg others (l, x)"
  shows "linux_fine cfg l" "all_wired cfg (kern l)" "uio_numbers (kern l)" "others p \<le> 2 ^ 30"
    "readers_counted cfg others (kern l) (event_file l)"
  using assms by (simp_all add: event_fine_def)

lemma event_fine_same:
  assumes "event_fine cfg others (l, x)" "linux_fine cfg l'" "k_shape (kern l') = k_shape (kern l)" "event_file l' = event_file l"
  shows "event_fine cfg others (l', x')"
proof -
  note fine = event_fineD [OF assms(1)] and same = same_wiring_shape [OF assms(3)]
  have "uio_numbers (kern l')" using fine(3) same_wiring_files(2) [OF same] by simp
  moreover have "readers_counted cfg others (kern l') (event_file l')"
    unfolding assms(4) using fine(5) readers_counted_shape [OF assms(3)] by blast
  ultimately show ?thesis
    using assms(2) fine(4) same_wiring_wired [OF same fine(2)] by (simp add: event_fine_def)
qed

lemma event_leaves:
  assumes "event_fine cfg others (l, x)" "leaves open_fds (linux_fine cfg) (open_fds l) l'"
    and "k_shape (kern l') = k_shape (kern l)" "event_file l' = event_file l"
  shows "leaves event_fds (event_fine cfg others) (open_fds l) (l', x')"
  using event_fine_same [OF assms(1) _ assms(3,4)] assms(2) by (simp add: leaves_def event_fds_def)

lemma event_fine_tick: "event_fine cfg others (l, x) \<Longrightarrow> event_fine cfg others (tick l, x')"
  by (rule event_fine_same [of cfg others l x]) (simp_all add: fine_tick event_fineD)

lemma event_leaves_tick:
  assumes "event_fine cfg others (l, x)"
  shows "leaves event_fds (event_fine cfg others) (open_fds l) (tick l, x')"
  by (rule event_leaves [OF assms]) (simp_all add: leaves_def fine_tick [OF event_fineD(1) [OF assms]])

text \<open>A process has few files, so the counts do not wrap.\<close>

lemma few_readers:
  assumes "linux_fine cfg l"
  shows "finite {fd. event_file l fd = Some p}" "card {fd. event_file l fd = Some p} \<le> 1024"
proof -
  have sub: "{fd. event_file l fd = Some p} \<subseteq> {0..<1024}"
    using lx.fds_small [OF assms] event_file_open by (fastforce simp: FD_SETSIZE_def)
  then show "finite {fd. event_file l fd = Some p}" by (rule finite_subset) simp
  from card_mono [OF _ sub] show "card {fd. event_file l fd = Some p} \<le> 1024" by simp
qed

lemma recount:
  assumes "readers_counted cfg others k ef" "device_at k' = device_at k"
    and opens: "counted_opens cfg k' = (counted_opens cfg k)(p := map_option f (counted_opens cfg k p))"
    and ef: "\<And>q. q \<noteq> p \<Longrightarrow> {fd. ef' fd = Some q} = {fd. ef fd = Some q}"
    and step: "f (int (others p + card {fd. ef fd = Some p})) = int (others p + card {fd. ef' fd = Some p})"
  shows "readers_counted cfg others k' ef'"
  unfolding readers_counted_def
proof (intro allI impI)
  fix i q n assume a: "device_at k' i = Some q" "counted_opens cfg k' q = Some n"
  from a(1) assms(2) have at: "device_at k i = Some q" by simp
  note counted = assms(1) [unfolded readers_counted_def, rule_format, OF at]
  show "n = int (others q + card {fd. ef' fd = Some q})"
  proof (cases "q = p")
    case True
    with a(2) opens obtain m where "counted_opens cfg k p = Some m" "n = f m" by auto
    with counted step True show ?thesis by simp
  next
    case False
    with a(2) opens counted ef show ?thesis by simp
  qed
qed

lemma event_fine_recounted:
  assumes "linux_fine cfg l" "all_wired cfg (kern l)" "uio_numbers (kern l)" "\<And>p. others p \<le> 2 ^ 30"
    and "same_but_opens k (kern l)" "readers_counted cfg others k (event_file (l\<lparr>kern := k\<rparr>))"
  shows "event_fine cfg others (l\<lparr>kern := k\<rparr>, x)"
  using assms(1,4,6) same_but_opens_fine [OF assms(5) fineD(1) [OF assms(1)]] assms(3)
    same_wiring_wired [OF same_wiring_opens [OF assms(5)] assms(2)] same_wiring_files(2) [OF same_wiring_opens [OF assms(5)]]
  by (simp add: event_fine_def linux_fine_def)

lemma event_open_law:
  assumes "event_fine cfg others (l, x)"
  shows "\<exists>fd errno s'. event_open path (l, x) = Some (fd, errno, s') \<and>
    (fd = - 1 \<and> 0 < errno \<and> leaves event_fds (event_fine cfg others) (open_fds l) s' \<or>
     0 \<le> fd \<and> fd \<notin> open_fds l \<and> leaves event_fds (event_fine cfg others) (insert fd (open_fds l)) s')"
proof -
  note fine = event_fineD [OF assms]
  obtain fd e l' where o: "linux_open path l = Some (fd, e, l')"
    "fd = - 1 \<and> 0 < e \<and> leaves open_fds (linux_fine cfg) (open_fds l) l' \<or>
     0 \<le> fd \<and> fd \<notin> open_fds l \<and> leaves open_fds (linux_fine cfg) (insert fd (open_fds l)) l'"
    using linux_open_law [OF fine(1), of path] by blast
  note files = linux_open_files [OF o(1)]
  show ?thesis
  proof (cases "fd = - 1")
    case True
    then have f: "fd < 0" by simp
    with True o(2) event_leaves [OF assms _ _ files(2) [OF f]] files(1) have
      "leaves event_fds (event_fine cfg others) (open_fds l) (l', x)" by (auto simp: leaves_def)
    with o True show ?thesis by (auto simp: event_open_def leaves_def)
  next
    case False
    with o(2) have fd: "0 \<le> fd" "fd \<notin> open_fds l" "linux_fine cfg l'" "open_fds l' = insert fd (open_fds l)"
      by (auto simp: leaves_def)
    note ef = files(3) [OF fd(1)]
    show ?thesis
    proof (cases "uio_pointer (kern l) path")
      case None
      with ef have "event_file l' = event_file l" by (auto simp: fun_eq_iff)
      from event_fine_same [OF assms fd(3) _ this] files(1) have "event_fine cfg others (l', x)" by simp
      with o(1) fd None show ?thesis by (auto simp: event_open_def leaves_def event_fds_def)
    next
      case (Some p)
      from uio_pointer_at [OF Some] obtain i where i: "device_at (kern l) i = Some p" ..
      obtain k where k: "uio_file_opened p (kern l) = Some k" "same_but_opens k (kern l)"
        "counted_opens cfg k = (counted_opens cfg (kern l))(p := map_option (\<lambda>n. c_int_wrap (n + 1)) (counted_opens cfg (kern l) p))"
        using file_events(1) [OF fineD(1) [OF fine(1)] fine(2) i] by blast
      let ?l = "l'\<lparr>kern := k\<rparr>" and ?R = "\<lambda>q. {fd. event_file l fd = Some q}"
      have view: "event_file ?l = (event_file l)(fd := Some p)"
        using event_file_wiring [of ?l l'] same_wiring_opens [OF k(2)] files(1) ef Some by simp
      have new: "{g. event_file ?l g = Some p} = insert fd (?R p)" "fd \<notin> ?R p"
        using ef by (auto simp: view)
      have "c_int_wrap (int (others p + card (?R p)) + 1) = int (others p + card (?R p)) + 1"
        using few_readers(2) [OF fine(1), of p] fine(4) [of p] by (intro c_int_wrap_id) simp_all
      with new few_readers(1) [OF fine(1), of p] have step: "c_int_wrap (int (others p + card (?R p)) + 1) =
          int (others p + card {g. event_file ?l g = Some p})" by simp
      have "event_fine cfg others (?l, x')" for x'
      proof (rule event_fine_recounted [OF fd(3), unfolded files(1), OF fine(2,3,4) k(2)])
        show "readers_counted cfg others k (event_file ?l)"
          by (rule recount [OF fine(5) same_but_opens_at [OF k(2)] k(3) _ step]) (use ef in \<open>auto simp: view\<close>)
      qed
      moreover have "open_fds ?l = insert fd (open_fds l)" using fd(4) by (simp add: open_fds_def)
      ultimately show ?thesis
        using o(1) fd(1,2) Some k(1) by (simp add: event_open_def leaves_def event_fds_def files(1))
    qed
  qed
qed

lemma event_close_law:
  assumes "event_fine cfg others (l, x)" "fd \<in> open_fds l"
  shows "\<exists>ret errno s'. event_close fd (l, x) = Some (ret, errno, s') \<and>
    (ret = 0 \<or> ret = - 1 \<and> 0 < errno) \<and> leaves event_fds (event_fine cfg others) (open_fds l - {fd}) s'"
proof -
  note fine = event_fineD [OF assms(1)]
  obtain ret e l' where c: "linux_close fd l = Some (ret, e, l')" "ret = 0 \<or> ret = - 1 \<and> 0 < e"
    "linux_fine cfg l'" "open_fds l' = open_fds l - {fd}"
    using linux_close_law [OF fine(1) assms(2)] by (auto simp: leaves_def)
  note files = linux_close_files [OF c(1) fine(1) assms(2)]
  show ?thesis
  proof (cases "event_file l fd")
    case None
    then have "event_file l' = event_file l" using files(2) by (auto simp: fun_eq_iff)
    from event_fine_same [OF assms(1) c(3) files(1) this, of x] c None show ?thesis
      by (simp add: event_close_def leaves_def event_fds_def)
  next
    case (Some p)
    from event_file_at [OF Some] obtain i where i: "device_at (kern l) i = Some p" ..
    then have i': "device_at (kern l') i = Some p" using k_shape_device_at [OF files(1)] by simp
    have w': "all_wired cfg (kern l')" by (rule same_wiring_wired [OF same_wiring_shape [OF files(1)] fine(2)])
    obtain k where k: "uio_file_closed p (kern l') = Some k" "same_but_opens k (kern l')"
      "counted_opens cfg k = (counted_opens cfg (kern l'))(p := map_option (\<lambda>n. c_int_wrap (n - 1)) (counted_opens cfg (kern l') p))"
      using file_events(2) [OF fineD(1) [OF c(3)] w' i'] by blast
    let ?l = "l'\<lparr>kern := k\<rparr>" and ?R = "\<lambda>q. {fd. event_file l fd = Some q}"
    have view: "event_file ?l = (event_file l)(fd := None)"
      using event_file_wiring [of ?l l'] same_wiring_opens [OF k(2)] files(2) by simp
    have old: "?R p = insert fd {g. event_file ?l g = Some p}" "fd \<notin> {g. event_file ?l g = Some p}"
      using Some by (auto simp: view)
    have fin: "finite {g. event_file ?l g = Some p}" using few_readers(1) [OF fine(1), of p] old(1) by (metis finite_insert)
    have n: "card (?R p) = card {g. event_file ?l g = Some p} + 1" using fin old(2) unfolding old(1) by simp
    have "c_int_wrap (int (others p + card (?R p)) - 1) = int (others p + card (?R p)) - 1"
      using few_readers(2) [OF fine(1), of p] fine(4) [of p] by (intro c_int_wrap_id) simp_all
    with n have step: "c_int_wrap (int (others p + card (?R p)) - 1) = int (others p + card {g. event_file ?l g = Some p})" by simp
    have n': "uio_numbers (kern l')" using fine(3) same_wiring_files(2) [OF same_wiring_shape [OF files(1)]] by simp
    have counted: "readers_counted cfg others (kern l') (event_file l)" using fine(5) readers_counted_shape [OF files(1)] by blast
    have "event_fine cfg others (?l, x)"
    proof (rule event_fine_recounted [OF c(3) w' n' fine(4) k(2)])
      show "readers_counted cfg others k (event_file ?l)"
        by (rule recount [OF counted same_but_opens_at [OF k(2)] k(3) _ step]) (use Some in \<open>auto simp: view\<close>)
    qed
    moreover have "open_fds ?l = open_fds l - {fd}" using c(4) by (simp add: open_fds_def)
    ultimately show ?thesis using c(1,2) Some k(1) by (simp add: event_close_def leaves_def event_fds_def)
  qed
qed

lemma event_read_law:
  assumes "event_fine cfg others (l, x)"
  shows "\<exists>ret errno v s'. event_read fd buf (l, x) = Some (ret, errno, v, s') \<and>
    leaves event_fds (event_fine cfg others) (open_fds l) s'"
proof (cases "event_file l fd")
  case None
  have "\<exists>n e v. linux_read fd buf l = Some (n, e, v, tick l)"
    by (cases "ce_read (now l)") (auto simp: linux_read_def)
  with None event_leaves_tick [OF assms] show ?thesis by (auto simp: event_read_def)
next
  case (Some p)
  with event_leaves_tick [OF assms] show ?thesis
    by (cases "ce_read (now l)") (auto simp: event_read_def Let_def)
qed

lemma event_write_law:
  assumes "event_fine cfg others (l, x)"
  shows "\<exists>ret errno s'. event_write drv fd v (l, x) = Some (ret, errno, s') \<and>
    leaves event_fds (event_fine cfg others) (open_fds l) s'"
proof (cases "event_file l fd")
  case None
  have "\<exists>n e. linux_write fd v l = Some (n, e, tick l)"
    by (cases "ce_write (now l)") (auto simp: linux_write_def)
  with None event_leaves_tick [OF assms] show ?thesis by (auto simp: event_write_def)
next
  case (Some p)
  note fine = event_fineD [OF assms]
  from event_file_at [OF Some] devices_registeredD [OF manager_invD(3) [OF kernel_fineD(1) [OF fineD(1) [OF fine(1)]]]]
  obtain d where d: "k_heap (kern l) p = Some d" "registered cfg p d" by blast
  obtain e where "get_eventsrc (kern l) p 0 = Some e" using registered_event0 [OF d] by metis
  then obtain ret acts where
    "cuddlk_uio_eventsrc_or_mem_irqcontrol drv p (c_int_wrap (uint v)) (kern l) = Some (ret, acts)"
    by (cases "if c_int_wrap (uint v) \<noteq> 0 then call_if_set drv (intr_enable (ev_intr e))
        else call_if_set drv (intr_disable (ev_intr e))")
      (simp add: cuddlk_uio_eventsrc_or_mem_irqcontrol_def Let_def)
  with Some d(1) event_leaves_tick [OF assms] show ?thesis
    by (auto simp: event_write_def Let_def split: option.split prod.split)
qed

lemma event_select_law:
  assumes "event_fine cfg others (l, x)"
  shows "\<exists>ret errno ready s'. event_select n fds tv (l, x) = Some (ret, errno, ready, s') \<and>
    ready \<subseteq> fds \<and> leaves event_fds (event_fine cfg others) (open_fds l) s'"
proof (cases "ce_select (now l)")
  case (Inl e)
  with event_leaves_tick [OF assms] show ?thesis by (simp add: event_select_def)
next
  case (Inr a)
  have "ready_fds l x' A {fd \<in> fds. fd < n} \<subseteq> fds" for x' A by (auto simp: ready_fds_def)
  with Inr event_leaves_tick [OF assms] show ?thesis
    by (cases a) (simp add: event_select_def Let_def)
qed

interpretation evx: small_files "event_posix cfg drv" event_fds "event_fine cfg others" for cfg drv others
proof
  fix s path
  assume "event_fine cfg others s"
  then show "\<exists>fd errno s'. sys_open (event_posix cfg drv) path s = Some (fd, errno, s') \<and>
      (fd = - 1 \<and> 0 < errno \<and> leaves event_fds (event_fine cfg others) (event_fds s) s' \<or>
       0 \<le> fd \<and> fd \<notin> event_fds s \<and> leaves event_fds (event_fine cfg others) (insert fd (event_fds s)) s')"
    using event_open_law by (cases s) (simp add: event_fds_def)
next
  fix s fd
  assume "event_fine cfg others s" "fd \<in> event_fds s"
  then show "\<exists>ret errno s'. sys_close (event_posix cfg drv) fd s = Some (ret, errno, s') \<and>
      (ret = 0 \<or> ret = - 1 \<and> 0 < errno) \<and> leaves event_fds (event_fine cfg others) (event_fds s - {fd}) s'"
    using event_close_law by (cases s) (simp add: event_fds_def)
next
  fix s fd cmd p
  assume s: "event_fine cfg others s" "fd \<in> event_fds s"
  obtain l x where lx: "s = (l, x)" by fastforce
  with s have fine: "linux_fine cfg l" "fd \<in> open_fds l" by (simp_all add: event_fine_def event_fds_def)
  from linux_ioctl_law [OF fine, of cmd p] obtain ret e p' l' where i: "linux_ioctl cfg fd cmd p l = Some (ret, e, p', l')"
    "payload_kind p' = payload_kind p" "leaves open_fds (linux_fine cfg) (open_fds l) l'" by blast
  from event_leaves [OF s(1) [unfolded lx] i(3) linux_ioctl_files [OF i(1) fine(1)]] i(1,2)
  show "\<exists>ret errno p' s'. sys_ioctl (event_posix cfg drv) fd cmd p s = Some (ret, errno, p', s') \<and>
      payload_kind p' = payload_kind p \<and> leaves event_fds (event_fine cfg others) (event_fds s) s'"
    by (simp add: lx event_fds_def [of "(_, _)"])
next
  fix s fd len offset
  assume s: "event_fine cfg others s" "fd \<in> event_fds s"
  obtain l x where lx: "s = (l, x)" by fastforce
  from fineD(3) [OF event_fineD(1) [OF s(1) [unfolded lx]]] event_leaves_tick [OF s(1) [unfolded lx]]
  show "\<exists>addr errno s'. sys_mmap (event_posix cfg drv) len fd offset s = Some (addr, errno, s') \<and>
      (addr = - 1 \<longrightarrow> 0 < errno) \<and> leaves event_fds (event_fine cfg others) (event_fds s) s'"
    by (cases "ce_mmap (now l)") (auto simp: lx linux_mmap_def event_fds_def [of "(_, _)"] errors_positive_def)
next
  fix s addr len
  assume s: "event_fine cfg others s"
  obtain l x where lx: "s = (l, x)" by fastforce
  from event_leaves_tick [OF s [unfolded lx]]
  show "\<exists>ret errno s'. sys_munmap (event_posix cfg drv) addr len s = Some (ret, errno, s') \<and>
      leaves event_fds (event_fine cfg others) (event_fds s) s'"
    by (cases "ce_munmap (now l)") (auto simp: lx linux_munmap_def event_fds_def [of "(_, _)"])
next
  fix s fd buf
  assume "event_fine cfg others s"
  then show "\<exists>ret errno v s'. sys_read (event_posix cfg drv) fd buf s = Some (ret, errno, v, s') \<and>
      leaves event_fds (event_fine cfg others) (event_fds s) s'"
    using event_read_law by (cases s) (simp add: event_fds_def)
next
  fix s fd v
  assume "event_fine cfg others s"
  then show "\<exists>ret errno s'. sys_write (event_posix cfg drv) fd v s = Some (ret, errno, s') \<and>
      leaves event_fds (event_fine cfg others) (event_fds s) s'"
    using event_write_law by (cases s) (simp add: event_fds_def)
next
  fix s n fds tv
  assume "event_fine cfg others s"
  then show "\<exists>ret errno ready s'. sys_select (event_posix cfg drv) n fds tv s = Some (ret, errno, ready, s') \<and>
      ready \<subseteq> fds \<and> leaves event_fds (event_fine cfg others) (event_fds s) s'"
    using event_select_law by (cases s) (simp add: event_fds_def)
next
  fix s fd
  assume "event_fine cfg others s" "fd \<in> event_fds s"
  then show "0 \<le> fd \<and> fd < FD_SETSIZE"
    using lx.fds_small unfolding event_fine_def event_fds_def by blast
qed

end
