(* ===== verification/Event_Claims.thy ===== *)
theory Event_Claims
  imports Event_Counts Io_Properties
begin

section \<open>Claiming and opening an event source\<close>

text \<open>
  The library's claim and open on the system that counts events, from the request to the
  manager to the file of the device.
\<close>

subsection \<open>What a claim tells about the event source\<close>

lemma event_found_info:
  assumes "eventsrc_claim_found env rt True ed st slot eslot p d = Some (0, out, st')"
  shows "\<exists>info. fill_eventsrc_info rt slot eslot d (ec_info ed) = Some info \<and> out = Some (Event_Claim_Data (ed\<lparr>ec_info := info\<rparr>))"
  using assms by (auto simp: eventsrc_claim_found_def bind_eq_Some_conv Let_def split: if_splits)

lemma event_ioctl_info:
  assumes inv: "manager_inv cfg st" "\<not> k_locked st" "\<forall>n < 10. kz_ok env n"
    and ed: "cfu_event_claim env = Some ed" "version_code_is_compat (ec_version_code ed)"
    and io: "cuddlk_manager_ioctl cfg env CUDDLCI_EVENTSRC_CLAIM_UIO_IOCTL st = Some (0, out, st')"
    and lk: "lookup_eventsrc st (ec_id ed) = Some (i, j, e)"
  obtains p d info where "device_at st (int i) = Some p" "k_heap st p = Some d" "e = d_events d ! j"
    "registered cfg p d" "j < CUDDLK_MAX_DEV_EVENTS"
    "fill_eventsrc_info False (int i) (int j) d (ec_info ed) = Some info"
    "out = Some (Event_Claim_Data (ed\<lparr>ec_info := info\<rparr>))"
proof -
  let ?s = "set_mutex True st"
  have s: "manager_inv cfg ?s" using inv(1) by simp
  from io inv(2,3) obtain st1 where c: "eventsrc_claim_case env False True ?s = Some (0, out, st1)"
    by (auto simp: cuddlk_manager_ioctl_def manager_command_def bind_eq_Some_conv split: sum.splits)
  from s show thesis
  proof (cases rule: with_eventsrc_cases [of cfg ?s "ec_id ed"])
    case none
    with lk show ?thesis by simp
  next
    case (some i' j' p d)
    from some(1) lk have ij: "i' = i" "j' = j" "e = d_events d ! j" by simp_all
    from c ed some(2) have "eventsrc_claim_found env False True ed ?s (int i') (int j') p d = Some (0, out, st1)"
      by (simp add: eventsrc_claim_case_def)
    from event_found_info [OF this] that [of p d] some(3-6) ij show ?thesis by auto
  qed
qed

lemma fill_event_fields:
  assumes "fill_eventsrc_info False i j d info = Some info'" "uio_minor d = Some n" "0 \<le> n" "n < 2 ^ 20"
  shows "ei_token info' = \<lparr>device_index = i, resource_index = j\<rparr>" "cstr (ei_device_name info') = uio_path n"
proof -
  have "cstr (snprintf (ei_device_name info) CUDDLCI_MAX_STR_LEN (uio_path n)) = uio_path n"
    using uio_path_text [OF assms(3,4)] by (subst cstr_snprintf) (simp_all add: CUDDLCI_MAX_STR_LEN_def)
  moreover have "eventsrc_device_name False d = Some (uio_path n)"
    using assms(2) by (simp add: eventsrc_device_name_def uio_path_def)
  ultimately show "ei_token info' = \<lparr>device_index = i, resource_index = j\<rparr>" "cstr (ei_device_name info') = uio_path n"
    using assms(1) by (auto simp: fill_eventsrc_info_def bind_eq_Some_conv)
qed

subsection \<open>A call of the manager\<close>

lemma no_uio_manager: "uio_pointer k ''/dev/cuddl'' = None"
  using uio_pointer_device [of k "''/dev/cuddl''"] by (cases "uio_pointer k ''/dev/cuddl''") (simp_all add: file_for_def)

lemma event_data_call:
  assumes "ce_open (ahead l 0) = None" "lowest_fd (files l) < FD_SETSIZE"
    and "cuddlk_manager_ioctl cfg (request_env l 1 p) cmd (kern l) = Some (ret, out, k)"
  shows "manager_data_call (event_posix cfg drv) cmd p (l, x) =
    map_option (\<lambda>(ret, out, l'). (ret, out, (l', x))) (manager_data_call (linux_posix cfg) cmd p l)"
proof -
  let ?fd = "lowest_fd (files l)" and ?l1 = "tick (l\<lparr>files := (lowest_fd (files l), Manager_File) # files l\<rparr>)"
  have fd: "0 \<le> ?fd" "?fd \<noteq> - 1" using lowest_fd_free [of "files l"] by auto
  have o: "linux_open ''/dev/cuddl'' l = Some (?fd, 0, ?l1)"
    using assms(1,2) by (simp add: linux_open_def Let_def file_for_def)
  then have eo: "event_open ''/dev/cuddl'' (l, x) = Some (?fd, 0, (?l1, x))"
    using fd(1) by (simp add: event_open_def no_uio_manager)
  have "\<exists>r e p' l2. linux_ioctl cfg ?fd cmd p ?l1 = Some (r, e, p', l2) \<and> map_of (files l2) ?fd = Some Manager_File"
    using assms(3) by (simp add: linux_ioctl_def request_env_def tick_advance split: prod.split)
  then obtain r e p' l2 where i: "linux_ioctl cfg ?fd cmd p ?l1 = Some (r, e, p', l2)" "map_of (files l2) ?fd = Some Manager_File"
    by blast
  have c: "event_close ?fd (l2, x) = map_option (\<lambda>(ret, e, l'). (ret, e, (l', x))) (linux_close ?fd l2)"
    using i(2) by (cases "linux_close ?fd l2") (auto simp: event_close_def event_file_def file_device_def)
  show ?thesis
    using fd(2) by (cases "linux_close ?fd l2") (auto simp: manager_data_call_def eo o i(1) c Let_def)
qed

lemma event_request_served:
  assumes "served s n"
  shows "cfu_event_claim (request_env s n (Event_Claim_Data ed)) = Some ed"
  using assms by (simp add: served_def request_env_def copied_in_def)

lemma claim_granted_event:
  assumes fine: "kernel_fine cfg (kern l)" "refs_exact (kern l)" "lowest_fd (files l) < FD_SETSIZE"
    and env: "ce_open (ahead l 0) = None" "served l 1" "ce_close (ahead l 2) = None" "\<not> xeno ucfg"
    and lk: "lookup_eventsrc (kern l) (populate_id_from_args (garbage_id l) g d r n) = Some (i, j, e)"
    and granted: "fst (spec_claim (has_flag (ev_flags e) CUDDLK_EVENTSRCF_SHARED) (has_flag opts CUDDL_EVENTSRC_CLAIMF_HOSTILE)
       (my_pid l) (event_holders (kern l) (int i) (int j))) = 0"
  obtains k p dv info where
    "cuddl_eventsrc_claim ucfg (event_posix cfg drv) eventinfo g d r n opts (l, x) = Some (0, info, (advance 3 (l\<lparr>kern := k\<rparr>), x))"
    "device_at (kern l) (int i) = Some p" "k_heap (kern l) p = Some dv" "e = d_events dv ! j" "registered cfg p dv"
    "j < CUDDLK_MAX_DEV_EVENTS" "fill_eventsrc_info False (int i) (int j) dv (garbage_eventinfo l) = Some info"
    "kernel_fine cfg k" "k_shape k = k_shape (kern l)"
    "event_holders k = set_holders (int i) (int j) (my_pid l # event_holders (kern l) (int i) (int j)) (event_holders (kern l))"
proof -
  define req where "req = \<lparr>ec_version_code = CUDDL_VERSION_CODE, ec_id = populate_id_from_args (garbage_id l) g d r n,
    ec_info = garbage_eventinfo l, ec_pid = my_pid l, ec_options = opts\<rparr>"
  let ?cmd = "CUDDLCI_EVENTSRC_CLAIM_UIO_IOCTL" and ?env = "request_env l 1 (Event_Claim_Data req)"
  note kf = kernel_fineD [OF fine(1)] and all = request_env_served(1) [OF env(2)] and cfu = event_request_served [OF env(2)]
  have v: "version_code_is_compat (ec_version_code req)" by (simp add: req_def)
  from event_claim_ioctl [OF kf(1,2) fine(2) kf(4) all cfu v, of ?cmd]
  obtain ret out k where io: "cuddlk_manager_ioctl cfg ?env ?cmd (kern l) = Some (ret, out, k)"
    "event_claim_meets (kern l) req ret out k" by blast
  have lk': "lookup_eventsrc (kern l) (ec_id req) = Some (i, j, e)" using lk by (simp add: req_def)
  from granted obtain hs where "spec_claim (has_flag (ev_flags e) CUDDLK_EVENTSRCF_SHARED) (has_flag opts CUDDL_EVENTSRC_CLAIMF_HOSTILE)
      (my_pid l) (event_holders (kern l) (int i) (int j)) = (0, hs)" "hs = my_pid l # event_holders (kern l) (int i) (int j)"
    by (auto simp: spec_claim_def split: if_splits)
  with io(2) lk' have ret: "ret = 0" "event_holders k =
      set_holders (int i) (int j) (my_pid l # event_holders (kern l) (int i) (int j)) (event_holders (kern l))"
    by (auto simp: event_claim_meets_def req_def)
  have kz: "\<forall>n < 10. kz_ok ?env n" using all by (simp add: all_succeed_def)
  obtain p dv info where c: "device_at (kern l) (int i) = Some p" "k_heap (kern l) p = Some dv" "e = d_events dv ! j"
    "registered cfg p dv" "j < CUDDLK_MAX_DEV_EVENTS"
    "fill_eventsrc_info False (int i) (int j) dv (ec_info req) = Some info"
    "out = Some (Event_Claim_Data (req\<lparr>ec_info := info\<rparr>))"
    by (rule event_ioctl_info [OF kf(1,4) kz cfu v io(1) [unfolded ret(1)] lk'])
  have cmd: "CUDDLCI_EVENTSRC_CLAIM_IOCTL ucfg = ?cmd" using env(4) by (simp add: user_cmd_defs)
  have e: "close_error (ahead l 2) = 0" using env(3) by (simp add: close_error_def)
  have run: "cuddl_eventsrc_claim ucfg (event_posix cfg drv) eventinfo g d r n opts (l, x) = Some (0, info, (advance 3 (l\<lparr>kern := k\<rparr>), x))"
    using event_data_call [OF env(1) fine(3) io(1), of drv x] linux_data_call [OF env(1) fine(3) io(1)] c(7) ret(1) e cmd
    by (simp add: cuddl_eventsrc_claim_def req_def Let_def)
  have "k_shape k = k_shape (kern l)"
    using manager_ioctl_keeps [OF kf(1,2,3,4), of ?env ?cmd] io(1) by (metis option.inject prod.inject)
  with that [OF run c(1-5)] c(6) request_kernel_fine [OF fine(1) io(1)] ret(2) show thesis by (simp add: req_def)
qed

subsection \<open>Opening the file of a device\<close>

lemma same_wiring_intr:
  assumes "same_wiring k' k"
  shows "map_option ev_intr (get_eventsrc k' p j) = map_option ev_intr (get_eventsrc k p j)"
proof -
  from assms have h: "map_option (\<lambda>d. (d_uio d, map ev_intr (d_events d))) (k_heap k' p) =
      map_option (\<lambda>d. (d_uio d, map ev_intr (d_events d))) (k_heap k p)" by (simp add: same_wiring_def)
  show ?thesis
  proof (cases "k_heap k p")
    case None
    with h show ?thesis by (simp add: get_eventsrc_def)
  next
    case (Some d)
    with h obtain d' where "k_heap k' p = Some d'" "map ev_intr (d_events d') = map ev_intr (d_events d)" by auto
    with Some arr_get_map_cong [of ev_intr "d_events d'" "d_events d" j] show ?thesis by (simp add: get_eventsrc_def)
  qed
qed

lemma same_wiring_irqcontrol:
  assumes "same_wiring k' k" "k_heap k p = Some d"
  obtains d' where "k_heap k' p = Some d'" "d_uio d' = d_uio d"
proof -
  from assms(1) have "map_option (\<lambda>d. (d_uio d, map ev_intr (d_events d))) (k_heap k' p) =
      map_option (\<lambda>d. (d_uio d, map ev_intr (d_events d))) (k_heap k p)" by (simp add: same_wiring_def)
  with assms(2) that show thesis by auto
qed

text \<open>A poll of a file without a pending event changes nothing.\<close>

lemma poll_quiet:
  assumes "event_file l (ue_priv_fd ev) = Some p" "has_irq (kern l) p" "uev_seen x (ue_priv_fd ev) = uev_count x p"
    and "0 \<le> ue_priv_fd ev" "ue_priv_fd ev < FD_SETSIZE"
  shows "\<exists>ret. cuddl_eventsrc_try_wait (event_posix cfg drv) ev (l, x) = Some (ret, (tick l, x))"
proof -
  let ?fd = "ue_priv_fd ev"
  have one: "{g. g = ?fd \<and> g \<le> ?fd} = {?fd}" by auto
  have rdy: "ready_fds l x A {?fd} = {}" for A using assms(1-3) by (auto simp: ready_fds_def)
  have w: "c_int_wrap (?fd + 1) = ?fd + 1" using assms(4,5) by (intro c_int_wrap_id) (simp_all add: FD_SETSIZE_def)
  have zero: "timeval_of \<lparr>tv_sec = 0, tv_nsec = 0\<rparr> = \<lparr>tval_sec = 0, tval_usec = 0\<rparr>"
    by (simp add: timeval_of_def signed_divide_int_def)
  have "\<exists>r e fds. event_select (?fd + 1) {?fd} \<lparr>tval_sec = 0, tval_usec = 0\<rparr> (l, x) = Some (r, e, fds, (tick l, x)) \<and> (r = - 1 \<or> fds = {})"
    by (cases "ce_select (now l)") (auto simp: event_select_def one rdy Let_def)
  then show ?thesis
    using assms(4,5) w zero by (auto simp: cuddl_eventsrc_try_wait_def cuddl_eventsrc_timed_wait_def fd_defs Let_def)
qed

lemma event_open_connects:
  assumes fine: "event_fine cfg others (l, x)" "ce_open (now l) = None" "lowest_fd (files l) < FD_SETSIZE"
    and path: "uio_pointer (kern l) (cstr (ei_device_name info)) = Some p"
    and dev: "k_heap (kern l) p = Some d" "uio_irq (d_uio d) \<noteq> 0" "uio_irqcontrol (d_uio d) \<noteq> None" "get_eventsrc (kern l) p 0 = Some e"
  shows "\<exists>ev l' x'. cuddl_eventsrc_open (event_posix cfg drv) eventsrc info opts (l, x) = Some (0, ev, (l', x')) \<and>
    event_fine cfg others (l', x') \<and> event_file l' (ue_priv_fd ev) = Some p \<and> same_but_opens (kern l') (kern l) \<and>
    uev_count x' = uev_count x \<and> uev_seen x' (ue_priv_fd ev) = uev_count x p \<and>
    uev_log x' = uev_log x @ snd (call_if_set drv (intr_disable (ev_intr e))) \<and> now l' = ahead l 3"
proof -
  let ?fd = "lowest_fd (files l)" and ?path = "cstr (ei_device_name info)"
  let ?x1 = "x\<lparr>uev_seen := (uev_seen x)(lowest_fd (files l) := uev_count x p)\<rparr>"
  have fd: "0 \<le> ?fd" by (rule lowest_fd_free)
  obtain l0 where o: "linux_open ?path l = Some (?fd, 0, l0)" "later l0 1 = ahead l 3"
    using fine(2,3) by (simp add: linux_open_def Let_def tick_advance numeral_3_eq_3)
  note files = linux_open_files [OF o(1)]
  from uio_pointer_at [OF path] obtain i where i: "device_at (kern l) i = Some p" ..
  obtain k where k: "uio_file_opened p (kern l) = Some k" "same_but_opens k (kern l)"
    using file_events(1) [OF fineD(1) [OF event_fineD(1) [OF fine(1)]] event_fineD(2) [OF fine(1)] i] by blast
  let ?l1 = "l0\<lparr>kern := k\<rparr>"
  have run: "event_open ?path (l, x) = Some (?fd, 0, (?l1, ?x1))"
    using o(1) fd path k(1) by (simp add: event_open_def files(1))
  with event_open_law [OF fine(1), of ?path] fd have fine1: "event_fine cfg others (?l1, ?x1)" by (auto simp: leaves_def)
  note same = same_wiring_opens [OF k(2)]
  have ef: "event_file ?l1 ?fd = Some p"
    using event_file_wiring [of ?l1 l0] files(3) [OF fd] path same by (simp add: files(1))
  obtain d' where d': "k_heap k p = Some d'" "d_uio d' = d_uio d" by (rule same_wiring_irqcontrol [OF same dev(1)])
  from same_wiring_intr [OF same, of p 0] dev(4) obtain e' where e': "get_eventsrc k p 0 = Some e'" "ev_intr e' = ev_intr e"
    by auto
  let ?ev = "eventsrc\<lparr>ue_flags := ei_flags info, ue_priv_token := ei_token info, ue_priv_fd := ?fd\<rparr>"
  let ?x2 = "?x1\<lparr>uev_log := uev_log x @ snd (call_if_set drv (intr_disable (ev_intr e)))\<rparr>"
  have "\<exists>r n. event_write drv ?fd 0 (?l1, ?x1) = Some (r, n, (tick ?l1, ?x2))"
    using ef d' dev(2,3) e' by (cases "call_if_set drv (intr_disable (ev_intr e))")
      (auto simp: event_write_def cuddlk_uio_eventsrc_or_mem_irqcontrol_def Let_def c_int_wrap_def split: prod.split)
  then have disable: "\<exists>r. cuddl_eventsrc_disable (event_posix cfg drv) ?ev (?l1, ?x1) = Some (r, (tick ?l1, ?x2))"
    by (auto simp: cuddl_eventsrc_disable_def)
  have "has_irq k p" using d' dev(2) by (simp add: has_irq_def)
  then obtain r where poll: "cuddl_eventsrc_try_wait (event_posix cfg drv) ?ev (tick ?l1, ?x2) = Some (r, (tick (tick ?l1), ?x2))"
    using poll_quiet [of "tick ?l1" ?ev p ?x2 cfg drv] ef fine(3) fd by auto
  have "cuddl_eventsrc_open (event_posix cfg drv) eventsrc info opts (l, x) = Some (0, ?ev, (tick (tick ?l1), ?x2))"
    using run fd disable poll by (auto simp: cuddl_eventsrc_open_def Let_def)
  moreover have "event_fine cfg others (tick (tick ?l1), ?x2)" by (rule event_fine_tick [OF event_fine_tick [OF fine1]])
  moreover have "now (tick (tick ?l1)) = ahead l 3" using o(2) by (simp add: tick_def)
  ultimately show ?thesis
    using ef k(2) by (intro exI [of _ ?ev] exI [of _ "tick (tick ?l1)"] exI [of _ ?x2]) simp
qed

end
