(* ===== verification/Event_Properties.thy ===== *)
theory Event_Properties
  imports Event_Claims
begin

section \<open>Events from the hardware to the application\<close>

text \<open>
  A notification of the driver, or an interrupt that the driver's handler accepts, reaches every
  process that has the event source open: the next wait returns, with the count of all events
  of the device, and without an event it does not. Opening an event source through the library
  ends in a file of the device that the manager chose, with nothing pending.
\<close>

subsection \<open>Waiting, on every system that counts events\<close>

locale event_waits = small_files os open_fds fine
  for os :: "'s posix" and open_fds and fine +
  fixes counter :: "'s \<Rightarrow> c_int \<Rightarrow> (32 word \<times> 32 word) option"
  assumes read_counts: "fine s \<Longrightarrow> counter s fd = Some (c, seen) \<Longrightarrow> c \<noteq> seen \<Longrightarrow>
      \<exists>s'. sys_read os fd buf s = Some (4, 0, c, s') \<and> fine s' \<and> counter s' fd = Some (c, c)"
    and select_counts: "fine s \<Longrightarrow> counter s fd = Some (c, seen) \<Longrightarrow> fd < n \<Longrightarrow>
      sys_select os n {fd} tv s = Some (r, e, ready, s') \<Longrightarrow> r \<noteq> - 1 \<Longrightarrow>
      c \<noteq> seen \<or> tval_sec tv = 0 \<and> tval_usec tv = 0 \<Longrightarrow>
      ready = (if c = seen then {} else {fd}) \<and> fine s' \<and> counter s' fd = Some (c, seen)"
    and counted_open: "fine s \<Longrightarrow> counter s fd = Some q \<Longrightarrow> fd \<in> open_fds s"
begin

lemma wait_hears:
  assumes "fine s" "counter s (ue_priv_fd ev) = Some (c, seen)" "c \<noteq> seen"
  obtains s' where "cuddl_eventsrc_wait os ev s = Some (c_int_wrap (uint c), s')" "fine s'"
    "counter s' (ue_priv_fd ev) = Some (c, c)"
proof -
  from read_counts [OF assms] obtain s' where "sys_read os (ue_priv_fd ev) 0 s = Some (4, 0, c, s')" "fine s'"
    "counter s' (ue_priv_fd ev) = Some (c, c)" by blast
  with that show thesis by (simp add: cuddl_eventsrc_wait_def)
qed

lemma select_outcome:
  assumes "fine s" "counter s (ue_priv_fd ev) = Some (c, seen)"
    and sel: "\<forall>r e ready s'. sys_select os (ue_priv_fd ev + 1) {ue_priv_fd ev} (timeval_of timeout) s = Some (r, e, ready, s') \<longrightarrow> r \<noteq> - 1"
    and "c \<noteq> seen \<or> tv_sec timeout = 0 \<and> tv_nsec timeout = 0"
  obtains r e s1 where "0 \<le> ue_priv_fd ev" "ue_priv_fd ev < FD_SETSIZE" "fine s1" "r \<noteq> - 1"
    "sys_select os (ue_priv_fd ev + 1) {ue_priv_fd ev} (timeval_of timeout) s =
       Some (r, e, if c = seen then {} else {ue_priv_fd ev}, s1)"
    "counter s1 (ue_priv_fd ev) = Some (c, seen)"
proof -
  from fds_small [OF assms(1) counted_open [OF assms(1,2)]] have fd: "0 \<le> ue_priv_fd ev" "ue_priv_fd ev < FD_SETSIZE" by simp_all
  from select_files [OF assms(1)] obtain r e ready s1 where
    s1: "sys_select os (ue_priv_fd ev + 1) {ue_priv_fd ev} (timeval_of timeout) s = Some (r, e, ready, s1)" by blast
  with sel have r: "r \<noteq> - 1" by blast
  have "c \<noteq> seen \<or> tval_sec (timeval_of timeout) = 0 \<and> tval_usec (timeval_of timeout) = 0"
    using assms(4) by (auto simp: timeval_of_def signed_divide_int_def)
  from select_counts [OF assms(1,2) _ s1 r this] that fd s1 r show thesis by auto
qed

lemma timed_wait_hears:
  assumes "fine s" "counter s (ue_priv_fd ev) = Some (c, seen)"
    and "\<forall>r e ready s'. sys_select os (ue_priv_fd ev + 1) {ue_priv_fd ev} (timeval_of timeout) s = Some (r, e, ready, s') \<longrightarrow> r \<noteq> - 1"
    and "c \<noteq> seen \<or> tv_sec timeout = 0 \<and> tv_nsec timeout = 0"
  obtains s' where "cuddl_eventsrc_timed_wait os ev timeout s =
      Some (if c = seen then - ETIMEDOUT else c_int_wrap (uint c), s')" "fine s'" "counter s' (ue_priv_fd ev) = Some (c, c)"
proof -
  obtain r e s1 where sel: "0 \<le> ue_priv_fd ev" "ue_priv_fd ev < FD_SETSIZE" "fine s1" "r \<noteq> - 1"
    "sys_select os (ue_priv_fd ev + 1) {ue_priv_fd ev} (timeval_of timeout) s =
       Some (r, e, if c = seen then {} else {ue_priv_fd ev}, s1)"
    "counter s1 (ue_priv_fd ev) = Some (c, seen)" by (rule select_outcome [OF assms])
  have w: "c_int_wrap (ue_priv_fd ev + 1) = ue_priv_fd ev + 1"
    using sel(1,2) by (intro c_int_wrap_id) (simp_all add: FD_SETSIZE_def)
  show thesis
  proof (cases "c = seen")
    case True
    with sel w that show thesis by (simp add: cuddl_eventsrc_timed_wait_def fd_defs Let_def)
  next
    case False
    from read_counts [OF sel(3,6) False] obtain s' where "sys_read os (ue_priv_fd ev) 0 s1 = Some (4, 0, c, s')" "fine s'"
      "counter s' (ue_priv_fd ev) = Some (c, c)" by blast
    with False sel w that show thesis by (simp add: cuddl_eventsrc_timed_wait_def fd_defs Let_def)
  qed
qed

end

subsection \<open>UIO's counters as such a system\<close>

definition event_counter :: "linux \<times> uio_events \<Rightarrow> c_int \<Rightarrow> (32 word \<times> 32 word) option" where
  "event_counter = (\<lambda>(l, x) fd. do {
     p \<leftarrow> event_file l fd;
     if has_irq (kern l) p then Some (uev_count x p, uev_seen x fd) else None
   })"

lemma event_counter_file:
  "event_counter (l, x) fd = Some (c, k) \<longleftrightarrow> (\<exists>p. event_file l fd = Some p \<and> has_irq (kern l) p \<and>
     c = uev_count x p \<and> k = uev_seen x fd)"
  by (auto simp: event_counter_def bind_eq_Some_conv)

interpretation evw: event_waits "event_posix cfg drv" event_fds "event_fine cfg others" event_counter for cfg drv others
proof
  fix s fd c seen buf
  assume s: "event_fine cfg others s" "event_counter s fd = Some (c, seen)" "c \<noteq> seen"
  obtain l x where lx: "s = (l, x)" by fastforce
  with s(2) obtain p where p: "event_file l fd = Some p" "has_irq (kern l) p" "c = uev_count x p" "seen = uev_seen x fd"
    by (auto simp: event_counter_file)
  let ?s = "(tick l, x\<lparr>uev_seen := (uev_seen x)(fd := c)\<rparr>)"
  have "sys_read (event_posix cfg drv) fd buf s = Some (4, 0, c, ?s)" using s(3) p by (simp add: lx event_read_def)
  moreover have "event_counter ?s fd = Some (c, c)" using p by (simp add: event_counter_file)
  ultimately show "\<exists>s'. sys_read (event_posix cfg drv) fd buf s = Some (4, 0, c, s') \<and> event_fine cfg others s' \<and>
      event_counter s' fd = Some (c, c)"
    using event_fine_tick [OF s(1) [unfolded lx]] by blast
next
  fix s fd c seen n tv r e ready s'
  assume s: "event_fine cfg others s" "event_counter s fd = Some (c, seen)" "fd < n"
    and sel: "sys_select (event_posix cfg drv) n {fd} tv s = Some (r, e, ready, s')" "r \<noteq> - 1"
    and quiet: "c \<noteq> seen \<or> tval_sec tv = 0 \<and> tval_usec tv = 0"
  obtain l x where lx: "s = (l, x)" by fastforce
  with s(2) obtain p where p: "event_file l fd = Some p" "has_irq (kern l) p" "c = uev_count x p" "seen = uev_seen x fd"
    by (auto simp: event_counter_file)
  have one: "{g. g = fd \<and> g < n} = {fd}" using s(3) by auto
  have rdy: "ready_fds l x A {fd} = (if c = seen then {} else {fd})" for A
    using p by (auto simp: ready_fds_def)
  from sel quiet have out: "ready = (if c = seen then {} else {fd})" "s' = (tick l, x)"
    by (auto simp: lx event_select_def one rdy Let_def split: sum.splits if_splits)
  with event_fine_tick [OF s(1) [unfolded lx]] p
  show "ready = (if c = seen then {} else {fd}) \<and> event_fine cfg others s' \<and> event_counter s' fd = Some (c, seen)"
    by (simp add: event_counter_file)
next
  fix s fd q
  assume "event_fine cfg others s" "event_counter s fd = Some q"
  then show "fd \<in> event_fds s"
    by (cases s; cases q) (auto simp: event_counter_file event_fds_def dest: event_file_open)
qed

subsection \<open>What the hardware signals is counted\<close>

text \<open>How many of the signals are events: the driver's notifications, and the interrupts if its handler accepts them.\<close>

definition heard :: "kcfg \<Rightarrow> c_int \<Rightarrow> device_signal list \<Rightarrow> nat" where
  "heard cfg ret sigs = length (filter (\<lambda>sig. sig = Notify \<or> ret = ret_intr_handled cfg) sigs)"

text \<open>A process that has a file of a device open makes the device's count positive.\<close>

lemma reader_counted:
  assumes "event_fine cfg others (l, x)" "event_file l fd = Some p" "get_eventsrc (kern l) p 0 = Some e"
    and "uses_irq cfg (ev_intr e)"
  shows "0 < ev_uio_open_count e"
proof -
  note fine = event_fineD [OF assms(1)]
  from event_file_at [OF assms(2)] obtain i where i: "device_at (kern l) i = Some p" ..
  from assms(3) obtain d where "k_heap (kern l) p = Some d" "d_events d ! 0 = e"
    by (auto simp: get_eventsrc_def bind_eq_Some_conv dest: arr_get_SomeD)
  with assms(4) have "counted_opens cfg (kern l) p = Some (ev_uio_open_count e)" by (simp add: counted_opens_def)
  with fine(5) i have "ev_uio_open_count e = int (others p + card {g. event_file l g = Some p})"
    unfolding readers_counted_def by blast
  moreover have "card {g. event_file l g = Some p} \<noteq> 0"
    using few_readers(1) [OF fine(1), of p] assms(2) by (auto simp: card_eq_0_iff)
  ultimately show ?thesis by linarith
qed

lemma signal_counted:
  assumes "event_fine cfg others (l, x)" "event_file l fd = Some p" "get_eventsrc (kern l) p 0 = Some e"
    and "uses_irq cfg (ev_intr e)" "sig = Interrupt \<Longrightarrow> intr_handler (ev_intr e) = Some f"
  obtains x' where "device_signals cfg drv p [sig] (l, x) = Some (l, x')"
    "uev_count x' = (uev_count x)(p := uev_count x p + of_nat (heard cfg (drv f) [sig]))" "uev_seen x' = uev_seen x"
proof -
  note pos = reader_counted [OF assms(1-4)]
  from event_file_at [OF assms(2)] devices_registeredD [OF manager_invD(3) [OF kernel_fineD(1) [OF fineD(1) [OF event_fineD(1) [OF assms(1)]]]]]
  obtain d where d: "k_heap (kern l) p = Some d" "registered cfg p d" by blast
  from registered_event0 [OF d] assms(3) have ptr: "ev_uio_ptr e = Some p" "use_udd cfg \<Longrightarrow> ev_udd_ptr e = Some p" by auto
  show thesis
  proof (cases sig)
    case Notify
    with that assms(3) ptr pos show thesis
      by (cases "use_udd cfg") (simp_all add: driver_notifies_def cuddlk_eventsrc_notify_def heard_def)
  next
    case Interrupt
    with that assms(3,5) pos show thesis
      by (cases "use_udd cfg"; cases "drv f = ret_intr_handled cfg")
        (simp_all add: device_interrupts_def cuddlk_udd_interrupt_handler_def cuddlk_uio_interrupt_handler_def
          call_handler_def heard_def)
  qed
qed

lemma device_signals_Cons: "device_signals cfg drv p (sig # sigs) s = Option.bind (device_signals cfg drv p [sig] s) (device_signals cfg drv p sigs)"
  by (simp add: Option.bind_assoc)

lemma signals_counted:
  assumes "event_fine cfg others (l, x)" "event_file l fd = Some p" "get_eventsrc (kern l) p 0 = Some e"
    and "uses_irq cfg (ev_intr e)" "Interrupt \<in> set sigs \<Longrightarrow> intr_handler (ev_intr e) = Some f"
  shows "\<exists>x'. device_signals cfg drv p sigs (l, x) = Some (l, x') \<and>
    uev_count x' = (uev_count x)(p := uev_count x p + of_nat (heard cfg (drv f) sigs)) \<and> uev_seen x' = uev_seen x"
  using assms(1,5)
proof (induction sigs arbitrary: x)
  case Nil
  then show ?case by (simp add: heard_def)
next
  case (Cons sig sigs)
  have h: "sig = Interrupt \<Longrightarrow> intr_handler (ev_intr e) = Some f" using Cons.prems(2) by simp
  obtain x1 where x1: "device_signals cfg drv p [sig] (l, x) = Some (l, x1)"
    "uev_count x1 = (uev_count x)(p := uev_count x p + of_nat (heard cfg (drv f) [sig]))" "uev_seen x1 = uev_seen x"
    by (rule signal_counted [OF Cons.prems(1) assms(2-4) h, where drv = drv])
  have "event_fine cfg others (l, x1)" using Cons.prems(1) by (simp add: event_fine_def)
  moreover have "Interrupt \<in> set sigs \<Longrightarrow> intr_handler (ev_intr e) = Some f" using Cons.prems(2) by simp
  ultimately obtain x2 where x2: "device_signals cfg drv p sigs (l, x1) = Some (l, x2)"
    "uev_count x2 = (uev_count x1)(p := uev_count x1 p + of_nat (heard cfg (drv f) sigs))" "uev_seen x2 = uev_seen x1"
    using Cons.IH by blast
  have "heard cfg (drv f) (sig # sigs) = heard cfg (drv f) [sig] + heard cfg (drv f) sigs" by (simp add: heard_def)
  then have "uev_count x2 = (uev_count x)(p := uev_count x p + of_nat (heard cfg (drv f) (sig # sigs)))"
    using x1(2) x2(2) by (simp add: add.assoc)
  moreover have "device_signals cfg drv p (sig # sigs) (l, x) = Some (l, x2)"
    unfolding device_signals_Cons [of cfg drv p sig sigs] by (simp only: x1(1) x2(1) Option.bind.simps(2))
  ultimately show ?case using x1(3) x2(3) by (intro exI [of _ x2]) (simp only: simp_thms)
qed

subsection \<open>The device behind a file\<close>

lemma device_wired:
  assumes "kernel_fine cfg k" "all_wired cfg k" "device_at k (int i) = Some p" "k_heap k p = Some d"
  shows "wired cfg d" "i < CUDDLK_MAX_MANAGED_DEVICES" "managed_device k i = Some d"
proof -
  show i: "i < CUDDLK_MAX_MANAGED_DEVICES" "managed_device k i = Some d"
    using device_at_iff [OF manager_invD(1) [OF kernel_fineD(1) [OF assms(1)]], of "int i" p] assms(3,4)
    by (simp_all add: managed_device_def)
  show "wired cfg d" by (rule all_managedD [OF assms(2) i])
qed

lemma uio_pointer_unique:
  assumes "uio_numbers k" "i < CUDDLK_MAX_MANAGED_DEVICES" "managed_device k i = Some d" "uio_minor d = Some n"
  shows "uio_pointer k (uio_path n) = device_at k (int i)"
  using uio_slot_unique [OF assms(1,2), of n] assms(3,4) by (simp add: uio_pointer_def minor_at_def)

subsection \<open>Whatever the process does\<close>







subsection \<open>A sample process\<close>

definition no_events :: uio_events where
  "no_events = \<lparr>uev_count = (\<lambda>_. 0), uev_seen = (\<lambda>_. 0), uev_log = []\<rparr>"

definition blank_event :: cuddl_eventsrc where
  "blank_event = \<lparr>ue_flags = 0, ue_priv_fd = 0, ue_priv_token = \<lparr>device_index = 0, resource_index = 0\<rparr>\<rparr>"

abbreviation sample_process :: linux where
  "sample_process \<equiv> sample_linux (\<lambda>_. good_call) sample_state"

lemma sample_event0:
  obtains d e where "k_heap sample_state 1 = Some d" "get_eventsrc sample_state 1 0 = Some e"
    "ev_intr e = \<lparr>intr_handler = Some 1, intr_disable = Some 2, intr_enable = Some 3, intr_is_enabled = Some 4,
       intr_irq = 5, intr_flags = 0\<rparr>" "ev_uio_open_count e = 0" "d_events d ! 0 = e" "managed_device sample_state 0 = Some d"
    "registered sample_cfg 1 d"
proof -
  obtain d where d: "k_heap sample_state 1 = Some d" "registered sample_cfg 1 d" "same_identity d sample_device"
    using sample_state_facts(7) by blast
  from registered_event0 [OF d(1,2)] obtain e where e: "get_eventsrc sample_state 1 0 = Some e" "e = d_events d ! 0" by metis
  from arrays_ok_single [OF registered_arrays [OF d(2)]] obtain e1 where "d_events d = [e1]" ..
  with d(3) e have "ev_intr e = \<lparr>intr_handler = Some 1, intr_disable = Some 2, intr_enable = Some 3, intr_is_enabled = Some 4,
       intr_irq = 5, intr_flags = 0\<rparr>" "ev_uio_open_count e = 0"
    by (simp_all add: same_identity_def sample_device_def zero_eventsrc_def)
  moreover have "managed_device sample_state 0 = Some d" using d(1) by (simp add: managed_device_def sample_state_facts(4) CUDDLK_MAX_MANAGED_DEVICES_def)
  ultimately show thesis using that d e by blast
qed

lemma sample_event_fine: "event_fine sample_cfg (\<lambda>_. 0) (sample_process, x)"
proof -
  have "event_file sample_process = (\<lambda>_. None)" by (rule ext) (simp add: event_file_def)
  moreover have "n = 0" if at: "device_at sample_state i = Some p" "counted_opens sample_cfg sample_state p = Some n" for i p n
  proof -
    from at(1) have "p = 1" by (auto simp: device_at_def bind_eq_Some_conv arr_get_def sample_state_facts(4) nth_list_update split: if_splits)
    with at(2) show ?thesis by (rule_tac sample_event0) (auto simp: counted_opens_def split: if_splits)
  qed
  moreover have "linux_fine sample_cfg sample_process"
    by (rule sample_linux_fine) (simp add: errors_positive_def good_call_def)
  ultimately show ?thesis
    by (auto simp: event_fine_def sample_wired sample_numbers readers_counted_def)
qed

lemma sample_file: "uio_pointer sample_state ''/dev/uio3'' = Some 1"
proof -
  obtain d where d: "managed_device sample_state 0 = Some d" "uio_minor d = Some 3" by (rule sample_geometry)
  have "uio_pointer sample_state (uio_path 3) = device_at sample_state (int 0)"
    by (rule uio_pointer_unique [OF sample_numbers _ d]) (simp add: CUDDLK_MAX_MANAGED_DEVICES_def)
  moreover have "uio_path 3 = ''/dev/uio3''" by (simp add: uio_path_def dec_int_def dec_nat.simps digit_char_def)
  ultimately show ?thesis by (simp add: device_at_def arr_get_def sample_state_facts(4) CUDDLK_MAX_MANAGED_DEVICES_def)
qed

text \<open>The process after it has opened the event source of the sample device.\<close>

lemma sample_opened:
  obtains ev l x e where "event_fine sample_cfg (\<lambda>_. 0) (l, x)" "event_file l (ue_priv_fd ev) = Some 1" "has_irq (kern l) 1"
    "get_eventsrc (kern l) 1 0 = Some e" "uses_irq sample_cfg (ev_intr e)" "intr_handler (ev_intr e) = Some 1"
    "uev_seen x (ue_priv_fd ev) = uev_count x 1" "uev_count x 1 = 0" "now l = good_call"
    "cuddl_eventsrc_open (event_posix sample_cfg drv) blank_event
       \<lparr>ei_token = \<lparr>device_index = 0, resource_index = 0\<rparr>, ei_device_name = ''/dev/uio3'', ei_flags = 0\<rparr> 0
       (sample_process, no_events) = Some (0, ev, (l, x))"
proof -
  let ?info = "\<lparr>ei_token = \<lparr>device_index = 0, resource_index = 0\<rparr>, ei_device_name = ''/dev/uio3'', ei_flags = 0\<rparr>"
  obtain d e where d: "k_heap sample_state 1 = Some d" "get_eventsrc sample_state 1 0 = Some e"
    "ev_intr e = \<lparr>intr_handler = Some 1, intr_disable = Some 2, intr_enable = Some 3, intr_is_enabled = Some 4,
       intr_irq = 5, intr_flags = 0\<rparr>" "d_events d ! 0 = e" "managed_device sample_state 0 = Some d"
    by (rule sample_event0)
  have use: "uses_irq sample_cfg (ev_intr e)" using d(3) by (simp add: uses_irq_def)
  have "wired sample_cfg d"
    by (rule all_managedD [OF sample_wired _ d(5)]) (simp add: CUDDLK_MAX_MANAGED_DEVICES_def)
  with use d(3,4) have w: "uio_irq (d_uio d) \<noteq> 0" "uio_irqcontrol (d_uio d) \<noteq> None" by (auto simp: wired_def Let_def)
  have path: "uio_pointer (kern sample_process) (cstr (ei_device_name ?info)) = Some 1"
    using sample_file by (simp add: cstr_def)
  have env: "ce_open (now sample_process) = None" "lowest_fd (files sample_process) < FD_SETSIZE" by simp_all
  have k: "k_heap (kern sample_process) 1 = Some d" "get_eventsrc (kern sample_process) 1 0 = Some e" using d(1,2) by simp_all
  obtain ev l x where op: "cuddl_eventsrc_open (event_posix sample_cfg drv) blank_event ?info 0 (sample_process, no_events) =
      Some (0, ev, (l, x))" "event_fine sample_cfg (\<lambda>_. 0) (l, x)" "event_file l (ue_priv_fd ev) = Some 1"
    "same_but_opens (kern l) (kern sample_process)" "uev_count x = uev_count no_events"
    "uev_seen x (ue_priv_fd ev) = uev_count no_events 1" "now l = ahead sample_process 3"
    using event_open_connects [OF sample_event_fine env path k(1) w k(2), of drv blank_event 0 no_events] by blast
  note same = same_wiring_opens [OF op(4)]
  from same_wiring_intr [OF same, of 1 0] k(2) obtain e' where e': "get_eventsrc (kern l) 1 0 = Some e'" "ev_intr e' = ev_intr e" by auto
  have "has_irq (kern l) 1" using same_wiring_files(3) [OF same] d(1) w(1) by (simp add: has_irq_def)
  with that op e' use d(3) show thesis by (simp add: no_events_def)
qed

subsection \<open>Properties\<close>

text \<open>C26: no event is lost. A process has an event source of a device open and has seen every event
  so far; then the driver notifies and the interrupt of the device fires, in any order. Exactly
  the notifications, and the interrupts if the driver's handler accepts them, are events,
  under UIO and under UDD. Without an event, a poll times out; with one, fewer than \<open>2\<^sup>3\<^sup>2\<close>, both
  kinds of wait return at once with the count of all events, as an \<^verbatim>\<open>int\<close>, and leave nothing pending.\<close>

theorem signals_reach_reader:
  assumes "event_fine cfg others (l, x)" "event_file l (ue_priv_fd ev) = Some p" "has_irq (kern l) p"
    and "get_eventsrc (kern l) p 0 = Some e" "uses_irq cfg (ev_intr e)"
    and "Interrupt \<in> set sigs \<Longrightarrow> intr_handler (ev_intr e) = Some f"
    and "uev_seen x (ue_priv_fd ev) = uev_count x p" "heard cfg (drv f) sigs < 2 ^ 32" "ce_select (now l) = Inr any"
  shows "\<exists>x'. device_signals cfg drv p sigs (l, x) = Some (l, x') \<and>
    (let n = heard cfg (drv f) sigs; c = uev_count x p + of_nat n in
      (n = 0 \<longrightarrow> (\<exists>s'. cuddl_eventsrc_try_wait (event_posix cfg drv) ev (l, x') = Some (- ETIMEDOUT, s'))) \<and>
      (0 < n \<longrightarrow> (\<exists>s'. cuddl_eventsrc_wait (event_posix cfg drv) ev (l, x') = Some (c_int_wrap (uint c), s') \<and>
         event_counter s' (ue_priv_fd ev) = Some (c, c)) \<and>
       (\<forall>timeout. \<exists>s'. cuddl_eventsrc_timed_wait (event_posix cfg drv) ev timeout (l, x') = Some (c_int_wrap (uint c), s') \<and>
         event_counter s' (ue_priv_fd ev) = Some (c, c))))"
proof -
  let ?n = "heard cfg (drv f) sigs" and ?os = "event_posix cfg drv" and ?fd = "ue_priv_fd ev"
  let ?c = "uev_count x p + of_nat ?n"
  obtain x' where x': "device_signals cfg drv p sigs (l, x) = Some (l, x')"
    "uev_count x' = (uev_count x)(p := ?c)" "uev_seen x' = uev_seen x"
    using signals_counted [OF assms(1,2,4,5,6), where drv = drv] by blast
  have fine: "event_fine cfg others (l, x')" using assms(1) by (simp add: event_fine_def)
  have counter: "event_counter (l, x') ?fd = Some (?c, uev_count x p)"
    using assms(2,3,7) x'(2,3) by (simp add: event_counter_file)
  have sel: "\<forall>r e ready s'. sys_select ?os (?fd + 1) {?fd} tv (l, x') = Some (r, e, ready, s') \<longrightarrow> r \<noteq> - 1" for tv
    using assms(9) by (cases any) (auto simp: event_select_def Let_def)
  have new: "?c \<noteq> uev_count x p" if "0 < ?n"
    using that assms(8) by (simp add: of_nat_eq_0_iff nat_dvd_not_less word_of_nat_eq_0_iff)
  have timed: "\<exists>s'. cuddl_eventsrc_timed_wait ?os ev timeout (l, x') =
      Some (if ?c = uev_count x p then - ETIMEDOUT else c_int_wrap (uint ?c), s') \<and> event_counter s' ?fd = Some (?c, ?c)"
    if "?c \<noteq> uev_count x p \<or> tv_sec timeout = 0 \<and> tv_nsec timeout = 0" for timeout
    by (rule evw.timed_wait_hears [OF fine counter sel that]) blast
  have "\<exists>s'. cuddl_eventsrc_try_wait ?os ev (l, x') = Some (- ETIMEDOUT, s')" if "?n = 0"
    using timed [of "\<lparr>tv_sec = 0, tv_nsec = 0\<rparr>"] that unfolding cuddl_eventsrc_try_wait_def by auto
  moreover have "\<exists>s'. cuddl_eventsrc_wait ?os ev (l, x') = Some (c_int_wrap (uint ?c), s') \<and> event_counter s' ?fd = Some (?c, ?c)"
    if "0 < ?n" by (rule evw.wait_hears [OF fine counter new [OF that]]) blast
  moreover have "\<exists>s'. cuddl_eventsrc_timed_wait ?os ev timeout (l, x') = Some (c_int_wrap (uint ?c), s') \<and>
      event_counter s' ?fd = Some (?c, ?c)" if "0 < ?n" for timeout
    using timed [of timeout] new [OF that] by simp
  ultimately show ?thesis using x'(1) unfolding Let_def by (intro exI [of _ x'] conjI allI impI) blast+
qed

theorem signals_reach_reader_witness:
  "\<exists>ev l x x' s' s''. cuddl_eventsrc_open (event_posix sample_cfg (\<lambda>_. 1)) blank_event
       \<lparr>ei_token = \<lparr>device_index = 0, resource_index = 0\<rparr>, ei_device_name = ''/dev/uio3'', ei_flags = 0\<rparr> 0
       (sample_process, no_events) = Some (0, ev, (l, x)) \<and>
     device_signals sample_cfg (\<lambda>_. 1) 1 [Notify, Interrupt, Notify] (l, x) = Some (l, x') \<and>
     cuddl_eventsrc_wait (event_posix sample_cfg (\<lambda>_. 1)) ev (l, x') = Some (3, s') \<and>
     cuddl_eventsrc_try_wait (event_posix sample_cfg (\<lambda>_. 1)) ev (l, x) = Some (- ETIMEDOUT, s'')"
proof -
  let ?drv = "\<lambda>_. 1 :: c_int" and ?os = "event_posix sample_cfg (\<lambda>_. 1)" and ?sigs = "[Notify, Interrupt, Notify]"
  obtain ev l x e where o: "event_fine sample_cfg (\<lambda>_. 0) (l, x)" "event_file l (ue_priv_fd ev) = Some 1" "has_irq (kern l) 1"
    "get_eventsrc (kern l) 1 0 = Some e" "uses_irq sample_cfg (ev_intr e)" "intr_handler (ev_intr e) = Some 1"
    "uev_seen x (ue_priv_fd ev) = uev_count x 1" "uev_count x 1 = 0" "now l = good_call"
    "cuddl_eventsrc_open ?os blank_event
       \<lparr>ei_token = \<lparr>device_index = 0, resource_index = 0\<rparr>, ei_device_name = ''/dev/uio3'', ei_flags = 0\<rparr> 0
       (sample_process, no_events) = Some (0, ev, (l, x))" by (rule sample_opened)
  have sel: "ce_select (now l) = Inr (1, {0, 1, 2, 3})" using o(9) by (simp add: good_call_def)
  have n: "heard sample_cfg (?drv 1) ?sigs = 3" "heard sample_cfg (?drv 1) [] = 0" by (simp_all add: heard_def sample_cfg_def)
  have h: "heard sample_cfg (?drv 1) ?sigs < 2 ^ 32" "heard sample_cfg (?drv 1) [] < 2 ^ 32" unfolding n by simp_all
  from signals_reach_reader [OF o(1-5) _ o(7) h(1) sel] o(6) n(1) obtain x' s' where
    "device_signals sample_cfg ?drv 1 ?sigs (l, x) = Some (l, x')"
    "cuddl_eventsrc_wait ?os ev (l, x') = Some (c_int_wrap (uint (uev_count x 1 + of_nat 3)), s')" by (auto simp: Let_def)
  moreover have "c_int_wrap (uint (uev_count x 1 + of_nat 3)) = 3" using o(8) by (simp add: c_int_wrap_def)
  moreover from signals_reach_reader [OF o(1-5) _ o(7) h(2) sel] n(2) obtain s'' where
    "cuddl_eventsrc_try_wait ?os ev (l, x) = Some (- ETIMEDOUT, s'')" by (auto simp: Let_def)
  ultimately show ?thesis using o(10) by (intro exI [of _ ev] exI [of _ l] exI [of _ x] exI [of _ x'] exI [of _ s'] exI [of _ s'']) simp
qed

text \<open>C10: from the name to the events of the device. On the composed system, when the claim
  is granted and nothing fails, \<^verbatim>\<open>claim_and_open\<close> ends with a file of the very device whose event
  source was claimed: the process is one of its holders, the module counts it as a reader (the
  invariant holds), nothing is pending, and the driver was asked once to disable the
  interrupt. So every event from now on reaches the next wait.\<close>

theorem claimed_event_is_connected:
  assumes "event_fine cfg others (l, x)" "refs_exact (kern l)" "lowest_fd (files l) < FD_SETSIZE" "\<not> xeno ucfg"
    and "ce_open (ahead l 0) = None" "served l 1" "ce_close (ahead l 2) = None" "ce_open (ahead l 3) = None"
    and "lookup_eventsrc (kern l) (populate_id_from_args (garbage_id l) g d r n) = Some (i, j, e)"
    and "fst (spec_claim (has_flag (ev_flags e) CUDDLK_EVENTSRCF_SHARED) (has_flag copts CUDDL_EVENTSRC_CLAIMF_HOSTILE)
       (my_pid l) (event_holders (kern l) (int i) (int j))) = 0"
    and "intr_irq (ev_intr e) = irq_custom cfg \<or> 0 < intr_irq (ev_intr e) \<and> intr_handler (ev_intr e) \<noteq> None"
  shows "\<exists>ev l' x' p e'. cuddl_eventsrc_claim_and_open ucfg (event_posix cfg drv) eventsrc g d r n copts oopts (l, x) =
      Some (0, ev, (l', x')) \<and> device_at (kern l) (int i) = Some p \<and>
    event_holders (kern l') = set_holders (int i) (int j) (my_pid l # event_holders (kern l) (int i) (int j)) (event_holders (kern l)) \<and>
    event_fine cfg others (l', x') \<and> event_file l' (ue_priv_fd ev) = Some p \<and> has_irq (kern l') p \<and>
    get_eventsrc (kern l') p 0 = Some e' \<and> ev_intr e' = ev_intr e \<and> uses_irq cfg (ev_intr e') \<and>
    uev_count x' = uev_count x \<and> uev_seen x' (ue_priv_fd ev) = uev_count x' p \<and>
    uev_log x' = uev_log x @ (case intr_disable (ev_intr e) of Some f \<Rightarrow> [Driver_call f] | None \<Rightarrow> [])"
proof -
  note fine = event_fineD [OF assms(1)] and kf = fineD(1) [OF event_fineD(1) [OF assms(1)]]
  obtain k p dv info where c: "cuddl_eventsrc_claim ucfg (event_posix cfg drv) (garbage_eventinfo l) g d r n copts (l, x) =
      Some (0, info, (advance 3 (l\<lparr>kern := k\<rparr>), x))"
    "device_at (kern l) (int i) = Some p" "k_heap (kern l) p = Some dv" "e = d_events dv ! j" "registered cfg p dv"
    "j < CUDDLK_MAX_DEV_EVENTS" "fill_eventsrc_info False (int i) (int j) dv (garbage_eventinfo l) = Some info"
    "kernel_fine cfg k" "k_shape k = k_shape (kern l)"
    "event_holders k = set_holders (int i) (int j) (my_pid l # event_holders (kern l) (int i) (int j)) (event_holders (kern l))"
    by (rule claim_granted_event [OF kf assms(2,3,5-7,4,9,10)])
  have j: "j = 0" using c(6) by (simp add: CUDDLK_MAX_DEV_EVENTS_def)
  let ?l3 = "advance 3 (l\<lparr>kern := k\<rparr>)"
  note same = same_wiring_shape [OF c(9)]
  have fine3: "event_fine cfg others (?l3, x)"
  proof (rule event_fine_same [OF assms(1)])
    show "linux_fine cfg ?l3" using fine(1) c(8) by (simp add: linux_fine_ahead)
    show "k_shape (kern ?l3) = k_shape (kern l)" using c(9) by simp
    show "event_file ?l3 = event_file l" by (rule event_file_wiring) (use same in simp_all)
  qed
  note slot = device_wired [OF kf fine(2) c(2,3)]
  from c(5) obtain nn where nn: "uio_minor dv = Some nn" by (auto simp: registered_def uio_minor_def)
  with slot(2,3) uio_numbersD [OF fine(3) slot(2), of nn] have minor: "0 \<le> nn" "nn < 2 ^ 20" by (simp_all add: minor_at_def)
  note info = fill_event_fields [OF c(7) nn minor]
  have path: "uio_pointer (kern ?l3) (cstr (ei_device_name info)) = Some p"
    using uio_pointer_unique [OF fine(3) slot(2,3) nn] c(2) by (simp add: info(2) same_wiring_files(1) [OF same])
  have use: "uses_irq cfg (ev_intr e)" using assms(11) by (auto simp: uses_irq_def)
  obtain d3 where d3: "k_heap (kern ?l3) p = Some d3" "d_uio d3 = d_uio dv"
    using same_wiring_irqcontrol [OF same c(3)] by auto
  with slot(1) use assms(11) j c(4) have wired: "uio_irq (d_uio d3) \<noteq> 0" "uio_irqcontrol (d_uio d3) \<noteq> None"
    by (auto simp: wired_def Let_def)
  have "get_eventsrc (kern l) p 0 = Some e" using registered_event0 [OF c(3,5)] c(4) j by metis
  with same_wiring_intr [OF same, of p 0] obtain e3 where e3: "get_eventsrc (kern ?l3) p 0 = Some e3" "ev_intr e3 = ev_intr e" by auto
  have env3: "ce_open (now ?l3) = None" "lowest_fd (files ?l3) < FD_SETSIZE" using assms(3,8) by (simp_all add: ahead_def)
  obtain ev l' x' where op: "cuddl_eventsrc_open (event_posix cfg drv) eventsrc info oopts (?l3, x) = Some (0, ev, (l', x'))"
    "event_fine cfg others (l', x')" "event_file l' (ue_priv_fd ev) = Some p" "same_but_opens (kern l') (kern ?l3)"
    "uev_count x' = uev_count x" "uev_seen x' (ue_priv_fd ev) = uev_count x p"
    "uev_log x' = uev_log x @ snd (call_if_set drv (intr_disable (ev_intr e3)))"
    using event_open_connects [OF fine3 env3 path d3(1) wired e3(1)] by blast
  note same' = same_wiring_opens [OF op(4)]
  from same_wiring_intr [OF same', of p 0] e3 obtain e' where e': "get_eventsrc (kern l') p 0 = Some e'" "ev_intr e' = ev_intr e" by auto
  have "has_irq (kern l') p" using same_wiring_files(3) [OF same'] d3 wired(1) by (simp add: has_irq_def)
  moreover have "event_holders (kern l') = event_holders k" using op(4) by (simp add: event_holders_def same_but_opens_def)
  moreover have "uev_log x' = uev_log x @ (case intr_disable (ev_intr e) of Some f \<Rightarrow> [Driver_call f] | None \<Rightarrow> [])"
    using op(7) e3(2) by (simp add: call_if_set_def split: option.split)
  moreover have "cuddl_eventsrc_claim_and_open ucfg (event_posix cfg drv) eventsrc g d r n copts oopts (l, x) = Some (0, ev, (l', x'))"
    using c(1) op(1) by (simp add: cuddl_eventsrc_claim_and_open_def)
  ultimately show ?thesis using c(2,10) op(2,3,5,6) e' use by metis
qed

theorem claimed_event_is_connected_witness:
  "\<exists>ev l' x'. cuddl_eventsrc_claim_and_open \<lparr>xeno = False, u_commit_hash = [], u_repo_is_dirty = False\<rparr>
      (event_posix sample_cfg (\<lambda>_. 0)) blank_event (Some ''mfg'') (Some ''card'') (Some ''irq'') 1 0 0 (sample_process, no_events) =
      Some (0, ev, (l', x')) \<and> event_holders (kern l') 0 0 = [42] \<and> event_file l' (ue_priv_fd ev) = Some 1 \<and> uev_log x' = [Driver_call 2]"
proof -
  let ?ucfg = "\<lparr>xeno = False, u_commit_hash = [], u_repo_is_dirty = False\<rparr>"
  have names: "names_agree (populate_id_from_args sample_stack_id (Some ''mfg'') (Some ''card'') (Some ''irq'') 1)
      (sample_id\<lparr>id_resource := ''irq''\<rparr>)"
    by (simp add: names_agree_def populate_id_from_args_def populate_name_def sample_id_def
        CUDDLCI_MAX_STR_LEN_def cstr_strncpy)
  obtain e where e: "lookup_eventsrc sample_state (sample_id\<lparr>id_resource := ''irq''\<rparr>) = Some (0, 0, e)" "ev_flags e = 0"
    using sample_event_lookup by blast
  obtain d e0 where d: "managed_device sample_state 0 = Some d" "d_events d ! 0 = e0"
    "ev_intr e0 = \<lparr>intr_handler = Some 1, intr_disable = Some 2, intr_enable = Some 3, intr_is_enabled = Some 4,
       intr_irq = 5, intr_flags = 0\<rparr>" by (rule sample_event0)
  from e(1) d have e0: "e = e0" by (auto simp: lookup_eventsrc_def bind_eq_Some_conv)
  have lk: "lookup_eventsrc (kern sample_process)
      (populate_id_from_args (garbage_id sample_process) (Some ''mfg'') (Some ''card'') (Some ''irq'') 1) = Some (0, 0, e)"
    using lookup_names(2) [OF names] e(1) by simp
  have free: "fst (spec_claim (has_flag (ev_flags e) CUDDLK_EVENTSRCF_SHARED) (has_flag 0 CUDDL_EVENTSRC_CLAIMF_HOSTILE)
       (my_pid sample_process) (event_holders (kern sample_process) (int 0) (int 0))) = 0"
    by (simp add: sample_no_holders spec_claim_def)
  have h: "refs_exact (kern sample_process)" "lowest_fd (files sample_process) < FD_SETSIZE" "\<not> xeno ?ucfg"
    "ce_open (ahead sample_process 0) = None" "served sample_process 1" "ce_close (ahead sample_process 2) = None"
    "ce_open (ahead sample_process 3) = None"
    using sample_state_exact sample_served [of "\<lambda>_. good_call" 1] by simp_all
  have irq: "intr_irq (ev_intr e) = irq_custom sample_cfg \<or> 0 < intr_irq (ev_intr e) \<and> intr_handler (ev_intr e) \<noteq> None"
    using d(3) e0 by simp
  have at: "p = 1" if "device_at (kern sample_process) (int 0) = Some p" for p
    using that by (simp add: device_at_def arr_get_def sample_state_facts(4) CUDDLK_MAX_MANAGED_DEVICES_def)
  from claimed_event_is_connected [OF sample_event_fine h lk free irq, of "\<lambda>_. 0" blank_event 0 no_events]
  show ?thesis using at d(3) e0 by (auto simp: sample_no_holders set_holders_def no_events_def)
qed



end
