(* ===== verification/Shared_Kernel.thy ===== *)
theory Shared_Kernel
  imports Process_Life Kernel_Runs
begin

section \<open>What a call of the library does to the kernel that processes share\<close>

text \<open>
  The effect of one library call on the holders of regions and event sources, with every
  result of every system call on its way: a claim is granted once or not at all, a release
  takes back one claim of the caller or none, everything else leaves the holders alone.
  What is assumed of the kernel is that it can allocate the entry of its list and copy
  the result of a request that it grants to the user; both failures make it lose count (see
  \<open>Ioctl_Properties\<close>).
\<close>

definition kernel_serves :: "linux \<Rightarrow> bool" where
  "kernel_serves s \<longleftrightarrow> (\<forall>n. ref_kz_ok (ce_kernel (ahead s n)) \<and> ctu_ok (ce_kernel (ahead s n)))"

lemma serves_simps [simp]:
  "kernel_serves (s\<lparr>kern := k\<rparr>) = kernel_serves s" "kernel_serves (s\<lparr>files := fs\<rparr>) = kernel_serves s"
  by (simp_all add: kernel_serves_def)

lemma serves_advance [simp]: "kernel_serves s \<Longrightarrow> kernel_serves (advance n s)"
  by (simp add: kernel_serves_def)

lemma fine_advance:
  assumes "linux_fine cfg s" "kernel_fine cfg k" "files_fine fs"
  shows "linux_fine cfg (advance n (s\<lparr>kern := k, files := fs\<rparr>))"
proof -
  have "errors_positive (ahead s m)" for m using assms(1) by (cases m) (simp_all add: linux_fine_def)
  with assms show ?thesis by (simp add: linux_fine_def)
qed

lemma fine_advance_kern:
  "linux_fine cfg s \<Longrightarrow> kernel_fine cfg k \<Longrightarrow> linux_fine cfg (advance n (s\<lparr>kern := k\<rparr>))"
  using fine_advance [of cfg s k "files s" n] by (simp add: fineD)

lemma fine_advance_only: "linux_fine cfg s \<Longrightarrow> linux_fine cfg (advance n s)"
  using fine_advance_kern [of cfg s "kern s" n] by (simp add: fineD)

subsection \<open>Requests\<close>

text \<open>The holders of both kinds of resources, and the three ways in which they change.\<close>

datatype kind = Region | Event

fun holds :: "kind \<Rightarrow> kstate \<Rightarrow> holders" where
  "holds Region = mem_holders"
| "holds Event = event_holders"

definition holders_kept :: "kstate \<Rightarrow> kstate \<Rightarrow> bool" where
  "holders_kept k k' \<longleftrightarrow> mem_holders k' = mem_holders k \<and> event_holders k' = event_holders k"

definition gains :: "kind \<Rightarrow> pid_t \<Rightarrow> cuddlci_token \<Rightarrow> kstate \<Rightarrow> kstate \<Rightarrow> bool" where
  "gains c pid tok k k' \<longleftrightarrow> (\<forall>c'. holds c' k' =
     (if c' = c then set_holders (device_index tok) (resource_index tok)
        (pid # holds c k (device_index tok) (resource_index tok)) (holds c k) else holds c' k))"

definition loses :: "kind \<Rightarrow> pid_t \<Rightarrow> cuddlci_token \<Rightarrow> kstate \<Rightarrow> kstate \<Rightarrow> bool" where
  "loses c pid tok k k' \<longleftrightarrow> (\<forall>c'. holds c' k' =
     (if c' = c then set_holders (device_index tok) (resource_index tok)
        (remove1 pid (holds c k (device_index tok) (resource_index tok))) (holds c k) else holds c' k))"

lemma all_kinds: "(\<forall>c. P c) \<longleftrightarrow> P Region \<and> P Event"
  by (metis kind.exhaust)

lemmas change_defs = holders_kept_def gains_def loses_def all_kinds

text \<open>An orderly state after a request: the devices are the same, and so is their description.\<close>

definition orderly_next :: "kcfg \<Rightarrow> kstate \<Rightarrow> kstate \<Rightarrow> bool" where
  "orderly_next cfg k k' \<longleftrightarrow> orderly cfg k' \<and> k_shape k' = k_shape k"

lemma orderly_next_refl [simp]: "orderly_next cfg k k = orderly cfg k"
  by (simp add: orderly_next_def)

lemma orderly_next_trans: "orderly_next cfg k k1 \<Longrightarrow> orderly_next cfg k1 k2 \<Longrightarrow> orderly_next cfg k k2"
  by (simp add: orderly_next_def)

lemma orderly_by_shape:
  assumes "orderly cfg k" "kernel_fine cfg k'" "k_shape k' = k_shape k" "refs_exact k'"
    and "\<And>a b. length (mem_holders k' a b) \<le> length (mem_holders k a b)"
    and "\<And>a b. length (event_holders k' a b) \<le> length (event_holders k a b)"
  shows "orderly_next cfg k k'"
  using assms exclusive_fewer [OF orderlyD(3) [OF assms(1)] assms(5)] exclusive_fewer [OF orderlyD(4) [OF assms(1)] assms(6)]
  by (simp add: orderly_next_def orderly_def flags_shape [OF assms(3)])

lemma request_shape:
  assumes "orderly cfg k" "cuddlk_manager_ioctl cfg env cmd k = Some (ret, out, k')"
  shows "k_shape k' = k_shape k"
  using manager_ioctl_keeps [OF kernel_fineD [OF orderlyD(1) [OF assms(1)]], of env cmd] assms(2)
  by (metis option.inject prod.inject)

lemma request_env_copied:
  "cfu_mem_claim (request_env s n (Mem_Claim_Data d1)) = (if ce_copy_in (ahead s n) then Some d1 else None)"
  "cfu_event_claim (request_env s n (Event_Claim_Data d2)) = (if ce_copy_in (ahead s n) then Some d2 else None)"
  "cfu_mem_release (request_env s n (Mem_Release_Data d3)) = (if ce_copy_in (ahead s n) then Some d3 else None)"
  "cfu_event_release (request_env s n (Event_Release_Data d4)) = (if ce_copy_in (ahead s n) then Some d4 else None)"
  "kz_ok (request_env s n p) = kz_ok (ce_kernel (ahead s n))" "ctu_ok (request_env s n p) = ctu_ok (ce_kernel (ahead s n))"
  "ref_kz_ok (request_env s n p) \<longleftrightarrow> ref_kz_ok (ce_kernel (ahead s n)) \<and> refs_room (kern s)"
  by (simp_all add: request_env_def copied_in_def)

lemma refused_request:
  assumes "\<not> k_locked k" "(\<exists>n < 10. \<not> kz_ok env n) \<or> request_version env cmd = Some None"
    and "cuddlk_manager_ioctl cfg env cmd k = Some (ret, out, k')"
  shows "k' = k \<and> ret \<noteq> 0"
proof -
  from assms(2) obtain err where "refusal env cmd = Some err" "err \<noteq> 0"
    by (cases "\<exists>n < 10. \<not> kz_ok env n") (auto simp: refusal_def)
  with request_refused [OF assms(1), of env cmd err cfg] assms(3) show ?thesis by simp
qed

lemma mem_claim_meets_granted:
  assumes "mem_claim_meets st md ret out st'"
  shows "ret \<noteq> 0 \<and> mem_holders st' = mem_holders st \<or>
    ret = 0 \<and> (\<exists>md' i j. out = Some (Mem_Claim_Data md') \<and> mi_token (mc_info md') = \<lparr>device_index = i, resource_index = j\<rparr> \<and>
      mem_holders st' = set_holders i j (mc_pid md # mem_holders st i j) (mem_holders st))"
  using assms
  by (auto simp: mem_claim_meets_def spec_claim_def set_holders_same Let_def split: option.splits prod.splits if_splits)

lemma event_claim_meets_granted:
  assumes "event_claim_meets st ed ret out st'"
  shows "ret \<noteq> 0 \<and> event_holders st' = event_holders st \<or>
    ret = 0 \<and> (\<exists>ed' i j. out = Some (Event_Claim_Data ed') \<and> ei_token (ec_info ed') = \<lparr>device_index = i, resource_index = j\<rparr> \<and>
      event_holders st' = set_holders i j (ec_pid ed # event_holders st i j) (event_holders st))"
  using assms
  by (auto simp: event_claim_meets_def spec_claim_def set_holders_same Let_def split: option.splits prod.splits if_splits)

lemma claim_mem_request:
  assumes o: "orderly cfg (kern s)" and env: "kernel_serves s" "refs_room (kern s)"
    and md: "version_code_is_compat (mc_version_code md)" "\<not> has_flag (mc_options md) CUDDL_MEM_CLAIMF_HOSTILE"
    and cmd: "cmd = CUDDLCI_MEMREGION_CLAIM_UIO_IOCTL \<or> cmd = CUDDLCI_MEMREGION_CLAIM_UDD_IOCTL"
    and run: "cuddlk_manager_ioctl cfg (request_env s n (Mem_Claim_Data md)) cmd (kern s) = Some (ret, out, k)"
  shows "orderly_next cfg (kern s) k \<and>
    (ret \<noteq> 0 \<and> holders_kept (kern s) k \<or>
     ret = 0 \<and> (\<exists>md'. out = Some (Mem_Claim_Data md') \<and> gains Region (mc_pid md) (mi_token (mc_info md')) (kern s) k))"
proof (cases "(\<forall>n' < 10. kz_ok (ce_kernel (ahead s n)) n') \<and> ce_copy_in (ahead s n)")
  case False
  with cmd have "(\<exists>n' < 10. \<not> kz_ok (request_env s n (Mem_Claim_Data md)) n') \<or>
      request_version (request_env s n (Mem_Claim_Data md)) cmd = Some None"
    by (auto simp: request_env_copied request_version_def)
  from refused_request [OF kernel_fineD(4) [OF orderlyD(1) [OF o]] this run] o show ?thesis
    by (simp add: holders_kept_def)
next
  case True
  note k = kernel_fineD [OF orderlyD(1) [OF o]]
  let ?env = "request_env s n (Mem_Claim_Data md)"
  from True env have e: "all_succeed ?env" "cfu_mem_claim ?env = Some md"
    by (simp_all add: all_succeed_def request_env_copied kernel_serves_def)
  from mem_claim_ioctl [OF k(1,2) orderlyD(2) [OF o] k(4) e md(1) cmd] run
  have c: "mem_claim_meets (kern s) md ret out k" "event_holders k = event_holders (kern s)" by auto
  have "orderly_next cfg (kern s) k"
    using orderly_claim_mem [OF o e(1) env(2) e(2) md cmd run] request_shape [OF o run] by (simp add: orderly_next_def)
  with mem_claim_meets_granted [OF c(1)] c(2) show ?thesis by (auto simp: change_defs)
qed

lemma claim_event_request:
  assumes o: "orderly cfg (kern s)" and env: "kernel_serves s" "refs_room (kern s)"
    and ed: "version_code_is_compat (ec_version_code ed)" "\<not> has_flag (ec_options ed) CUDDL_EVENTSRC_CLAIMF_HOSTILE"
    and cmd: "cmd = CUDDLCI_EVENTSRC_CLAIM_UIO_IOCTL \<or> cmd = CUDDLCI_EVENTSRC_CLAIM_UDD_IOCTL"
    and run: "cuddlk_manager_ioctl cfg (request_env s n (Event_Claim_Data ed)) cmd (kern s) = Some (ret, out, k)"
  shows "orderly_next cfg (kern s) k \<and>
    (ret \<noteq> 0 \<and> holders_kept (kern s) k \<or>
     ret = 0 \<and> (\<exists>ed'. out = Some (Event_Claim_Data ed') \<and> gains Event (ec_pid ed) (ei_token (ec_info ed')) (kern s) k))"
proof (cases "(\<forall>n' < 10. kz_ok (ce_kernel (ahead s n)) n') \<and> ce_copy_in (ahead s n)")
  case False
  with cmd have "(\<exists>n' < 10. \<not> kz_ok (request_env s n (Event_Claim_Data ed)) n') \<or>
      request_version (request_env s n (Event_Claim_Data ed)) cmd = Some None"
    by (auto simp: request_env_copied request_version_def)
  from refused_request [OF kernel_fineD(4) [OF orderlyD(1) [OF o]] this run] o show ?thesis
    by (simp add: holders_kept_def)
next
  case True
  note k = kernel_fineD [OF orderlyD(1) [OF o]]
  let ?env = "request_env s n (Event_Claim_Data ed)"
  from True env have e: "all_succeed ?env" "cfu_event_claim ?env = Some ed"
    by (simp_all add: all_succeed_def request_env_copied kernel_serves_def)
  from event_claim_ioctl [OF k(1,2) orderlyD(2) [OF o] k(4) e ed(1) cmd] run
  have c: "event_claim_meets (kern s) ed ret out k" "mem_holders k = mem_holders (kern s)" by auto
  have "orderly_next cfg (kern s) k"
    using orderly_claim_event [OF o e(1) env(2) e(2) ed cmd run] request_shape [OF o run] by (simp add: orderly_next_def)
  with event_claim_meets_granted [OF c(1)] c(2) show ?thesis by (auto simp: change_defs)
qed

lemma loses_shrinks:
  assumes "loses c pid tok k k'"
  shows "length (mem_holders k' a b) \<le> length (mem_holders k a b)" "length (event_holders k' a b) \<le> length (event_holders k a b)"
  using assms by (cases c; auto simp: change_defs set_holders_def length_remove1)+

lemma release_mem_request:
  assumes o: "orderly cfg (kern s)" and v: "version_code_is_compat (mrel_version_code mr)"
    and h: "mrel_pid mr \<in> set (mem_holders (kern s) (device_index (mrel_token mr)) (resource_index (mrel_token mr)))"
    and cmd: "cmd = CUDDLCI_MEMREGION_RELEASE_UIO_IOCTL \<or> cmd = CUDDLCI_MEMREGION_RELEASE_UDD_IOCTL"
    and run: "cuddlk_manager_ioctl cfg (request_env s n (Mem_Release_Data mr)) cmd (kern s) = Some (ret, out, k)"
  shows "orderly_next cfg (kern s) k \<and> (holders_kept (kern s) k \<or> loses Region (mrel_pid mr) (mrel_token mr) (kern s) k)"
proof (cases "(\<forall>n' < 10. kz_ok (ce_kernel (ahead s n)) n') \<and> ce_copy_in (ahead s n)")
  case False
  with cmd have "(\<exists>n' < 10. \<not> kz_ok (request_env s n (Mem_Release_Data mr)) n') \<or>
      request_version (request_env s n (Mem_Release_Data mr)) cmd = Some None"
    by (auto simp: request_env_copied request_version_def)
  from refused_request [OF kernel_fineD(4) [OF orderlyD(1) [OF o]] this run] o show ?thesis by (simp add: holders_kept_def)
next
  case True
  note k = kernel_fineD [OF orderlyD(1) [OF o]]
  from True have e: "\<forall>n' < 10. kz_ok (request_env s n (Mem_Release_Data mr)) n'"
    "cfu_mem_release (request_env s n (Mem_Release_Data mr)) = Some mr" by (simp_all add: request_env_copied)
  have t: "mrel_token mr = \<lparr>device_index = device_index (mrel_token mr), resource_index = resource_index (mrel_token mr)\<rparr>" by simp
  from mem_release_ioctl [OF k(1,2) orderlyD(2) [OF o] k(4) e v cmd t h] run
  have r: "loses Region (mrel_pid mr) (mrel_token mr) (kern s) k" "refs_exact k" by (auto simp: change_defs)
  with loses_shrinks [OF r(1)] request_kernel_fine [OF orderlyD(1) [OF o] run] request_shape [OF o run]
  show ?thesis by (simp add: orderly_by_shape [OF o])
qed

lemma release_event_request:
  assumes o: "orderly cfg (kern s)" and v: "version_code_is_compat (erel_version_code er)"
    and h: "erel_pid er \<in> set (event_holders (kern s) (device_index (erel_token er)) (resource_index (erel_token er)))"
    and cmd: "cmd = CUDDLCI_EVENTSRC_RELEASE_UIO_IOCTL \<or> cmd = CUDDLCI_EVENTSRC_RELEASE_UDD_IOCTL"
    and run: "cuddlk_manager_ioctl cfg (request_env s n (Event_Release_Data er)) cmd (kern s) = Some (ret, out, k)"
  shows "orderly_next cfg (kern s) k \<and> (holders_kept (kern s) k \<or> loses Event (erel_pid er) (erel_token er) (kern s) k)"
proof (cases "(\<forall>n' < 10. kz_ok (ce_kernel (ahead s n)) n') \<and> ce_copy_in (ahead s n)")
  case False
  with cmd have "(\<exists>n' < 10. \<not> kz_ok (request_env s n (Event_Release_Data er)) n') \<or>
      request_version (request_env s n (Event_Release_Data er)) cmd = Some None"
    by (auto simp: request_env_copied request_version_def)
  from refused_request [OF kernel_fineD(4) [OF orderlyD(1) [OF o]] this run] o show ?thesis by (simp add: holders_kept_def)
next
  case True
  note k = kernel_fineD [OF orderlyD(1) [OF o]]
  from True have e: "\<forall>n' < 10. kz_ok (request_env s n (Event_Release_Data er)) n'"
    "cfu_event_release (request_env s n (Event_Release_Data er)) = Some er" by (simp_all add: request_env_copied)
  have t: "erel_token er = \<lparr>device_index = device_index (erel_token er), resource_index = resource_index (erel_token er)\<rparr>" by simp
  from eventsrc_release_refines [OF k(1,2) orderlyD(2) [OF o] k(4) e v cmd t h] run
  have r: "loses Event (erel_pid er) (erel_token er) (kern s) k" "refs_exact k" by (auto simp: change_defs)
  with loses_shrinks [OF r(1)] request_kernel_fine [OF orderlyD(1) [OF o] run] request_shape [OF o run]
  show ?thesis by (simp add: orderly_by_shape [OF o])
qed

subsection \<open>Calls\<close>

text \<open>A call takes some steps: it moves on in the environments, and changes the kernel and the files.\<close>

lemma files_kern: "s\<lparr>files := fs, kern := k\<rparr> = s\<lparr>kern := k, files := fs\<rparr>"
  by simp

lemmas moved_simps = advance_update [symmetric] tick_advance files_kern

lemma files_same [simp]: "s\<lparr>files := files s\<rparr> = s"
  by (cases s) simp

lemma freed_by_file_for [simp]: "freed_by (file_for path) = {}"
  by (simp add: file_for_def cuddlk_janitor_open_def new_file_def)

lemma linux_open_cases:
  assumes "linux_fine cfg s"
  obtains e where "0 < e" "linux_open path s = Some (- 1, e, advance 1 s)"
  | "lowest_fd (files s) < FD_SETSIZE" "ce_open (ahead s 0) = None"
    "linux_open path s = Some (lowest_fd (files s), 0, advance 1 (s\<lparr>files := (lowest_fd (files s), file_for path) # files s\<rparr>))"
proof (cases "ce_open (now s)")
  case (Some e)
  with fineD(3) [OF assms] that(1) show ?thesis by (simp add: linux_open_def errors_positive_def tick_advance)
next
  case None
  with that show ?thesis
    by (cases "lowest_fd (files s) < FD_SETSIZE") (auto simp: linux_open_def Let_def tick_advance EMFILE_def)
qed

lemma close_quiet:
  assumes "linux_fine cfg s" "map_of (files s) fd = Some f" "freed_by f = {}"
  shows "\<exists>r e. linux_close fd s = Some (r, e, advance 1 (s\<lparr>files := filter (\<lambda>f. fst f \<noteq> fd) (files s)\<rparr>)) \<and>
    (r = 0 \<or> r = - 1 \<and> 0 < e)"
proof -
  have "file_ok f" using file_ok_at [OF fineD(2) [OF assms(1)] map_of_SomeD [OF assms(2)]] .
  with assms(3) have k: "(case f of Janitor_File j \<Rightarrow> do { (_, _, k) \<leftarrow> cuddlk_janitor_release j (kern s); Some k }
      | _ \<Rightarrow> Some (kern s)) = Some (kern s)"
    by (cases f) (auto simp: cuddlk_janitor_release_def split: kptr.splits)
  have "fst (close_result s) = 0 \<or> fst (close_result s) = - 1 \<and> 0 < snd (close_result s)"
    using fineD(3) [OF assms(1)] by (auto simp: close_result_def errors_positive_def split: option.split)
  with assms(2) k show ?thesis by (cases "close_result s") (simp add: linux_close_def tick_advance)
qed

lemma data_call_runs:
  assumes "linux_fine cfg s" "manager_data_call (linux_posix cfg) cmd p s = Some (ret, out, s')"
  obtains "ret \<noteq> 0" "out = None" "s' = advance 1 s"
  | r q k where "cuddlk_manager_ioctl cfg (request_env s 1 p) cmd (kern s) = Some (r, q, k)"
      "s' = advance 3 (s\<lparr>kern := k\<rparr>)"
      "if r \<noteq> 0 then ret = r \<and> out = None else out = Some (case q of None \<Rightarrow> p | Some q \<Rightarrow> q)"
proof (cases rule: linux_open_cases [OF assms(1), of "''/dev/cuddl''"])
  case (1 e)
  with assms(2) that(1) show ?thesis by (simp add: manager_data_call_def)
next
  case 2
  obtain r q k where io: "cuddlk_manager_ioctl cfg (request_env s 1 p) cmd (kern s) = Some (r, q, k)"
    using kernel_ioctl [OF fineD(1) [OF assms(1)], of "ce_copy_in (ahead s 1)" "ce_kernel (ahead s 1)" p cmd]
    unfolding request_env_def [symmetric] by blast
  from linux_data_call [OF 2(2,1) io] assms(2) that(2) [OF io] show ?thesis by (auto split: if_splits)
qed

lemma mem_claim_effect:
  assumes fine: "linux_fine cfg s" and o: "orderly cfg (kern s)" and env: "kernel_serves s" "refs_room (kern s)"
    and h: "\<not> has_flag opts CUDDL_MEM_CLAIMF_HOSTILE"
    and run: "cuddl_memregion_claim ucfg (linux_posix cfg) meminfo g d r i opts s = Some (ret, meminfo', s')"
  obtains n k where "s' = advance n (s\<lparr>kern := k\<rparr>)" "orderly_next cfg (kern s) k"
    "ret \<noteq> 0 \<and> holders_kept (kern s) k \<or> gains Region (my_pid s) (mi_token meminfo') (kern s) k"
proof -
  let ?md = "mem_claim_request s g d r i opts" and ?cmd = "CUDDLCI_MEMREGION_CLAIM_IOCTL ucfg"
  have md: "version_code_is_compat (mc_version_code ?md)" "\<not> has_flag (mc_options ?md) CUDDL_MEM_CLAIMF_HOSTILE"
    "mc_pid ?md = my_pid s" using h by (simp_all add: mem_claim_request_def)
  have cmd: "?cmd = CUDDLCI_MEMREGION_CLAIM_UIO_IOCTL \<or> ?cmd = CUDDLCI_MEMREGION_CLAIM_UDD_IOCTL" by (simp add: user_cmd_defs)
  from run obtain ret1 out s1 where c: "manager_data_call (linux_posix cfg) ?cmd (Mem_Claim_Data ?md) s = Some (ret1, out, s1)"
    "(case out of None \<Rightarrow> Some (ret1, meminfo, s1) | Some (Mem_Claim_Data req) \<Rightarrow> Some (ret1, mc_info req, s1) | _ \<Rightarrow> None) =
       Some (ret, meminfo', s')"
    by (auto simp: cuddl_memregion_claim_def mem_claim_request_def Let_def bind_eq_Some_conv)
  show ?thesis
  proof (cases rule: data_call_runs [OF fine c(1)])
    case 1
    with c(2) o that [of 1 "kern s"] show ?thesis by (simp add: holders_kept_def)
  next
    case (2 r q k)
    from claim_mem_request [OF o env md(1,2) cmd 2(1)] md(3) have "orderly_next cfg (kern s) k"
      "r \<noteq> 0 \<and> holders_kept (kern s) k \<or>
       r = 0 \<and> (\<exists>md'. q = Some (Mem_Claim_Data md') \<and> gains Region (my_pid s) (mi_token (mc_info md')) (kern s) k)" by simp_all
    with c(2) 2(2,3) that [of 3 k] show ?thesis by (auto split: if_splits)
  qed
qed

lemma event_claim_effect:
  assumes fine: "linux_fine cfg s" and o: "orderly cfg (kern s)" and env: "kernel_serves s" "refs_room (kern s)"
    and h: "\<not> has_flag opts CUDDL_EVENTSRC_CLAIMF_HOSTILE"
    and run: "cuddl_eventsrc_claim ucfg (linux_posix cfg) eventinfo g d r i opts s = Some (ret, eventinfo', s')"
  obtains n k where "s' = advance n (s\<lparr>kern := k\<rparr>)" "orderly_next cfg (kern s) k"
    "ret \<noteq> 0 \<and> holders_kept (kern s) k \<or> gains Event (my_pid s) (ei_token eventinfo') (kern s) k"
proof -
  define ed where "ed = \<lparr>ec_version_code = CUDDL_VERSION_CODE, ec_id = populate_id_from_args (garbage_id s) g d r i,
    ec_info = garbage_eventinfo s, ec_pid = my_pid s, ec_options = opts\<rparr>"
  let ?cmd = "CUDDLCI_EVENTSRC_CLAIM_IOCTL ucfg"
  have ed: "version_code_is_compat (ec_version_code ed)" "\<not> has_flag (ec_options ed) CUDDL_EVENTSRC_CLAIMF_HOSTILE"
    "ec_pid ed = my_pid s" using h by (simp_all add: ed_def)
  have cmd: "?cmd = CUDDLCI_EVENTSRC_CLAIM_UIO_IOCTL \<or> ?cmd = CUDDLCI_EVENTSRC_CLAIM_UDD_IOCTL" by (simp add: user_cmd_defs)
  from run obtain ret1 out s1 where c: "manager_data_call (linux_posix cfg) ?cmd (Event_Claim_Data ed) s = Some (ret1, out, s1)"
    "(case out of None \<Rightarrow> Some (ret1, eventinfo, s1) | Some (Event_Claim_Data req) \<Rightarrow> Some (ret1, ec_info req, s1) | _ \<Rightarrow> None) =
       Some (ret, eventinfo', s')"
    by (auto simp: cuddl_eventsrc_claim_def ed_def Let_def bind_eq_Some_conv)
  show ?thesis
  proof (cases rule: data_call_runs [OF fine c(1)])
    case 1
    with c(2) o that [of 1 "kern s"] show ?thesis by (simp add: holders_kept_def)
  next
    case (2 r q k)
    from claim_event_request [OF o env ed(1,2) cmd 2(1)] ed(3) have "orderly_next cfg (kern s) k"
      "r \<noteq> 0 \<and> holders_kept (kern s) k \<or>
       r = 0 \<and> (\<exists>ed'. q = Some (Event_Claim_Data ed') \<and> gains Event (my_pid s) (ei_token (ec_info ed')) (kern s) k)" by simp_all
    with c(2) 2(2,3) that [of 3 k] show ?thesis by (auto split: if_splits)
  qed
qed

lemma release_effect:
  assumes fine: "linux_fine cfg s" and o: "orderly cfg (kern s)"
    and h: "my_pid s \<in> set (holds c (kern s) (device_index tok) (resource_index tok))"
    and run: "(case c of Region \<Rightarrow> cuddli_memregion_release_by_token ucfg (linux_posix cfg) tok s
      | Event \<Rightarrow> cuddli_eventsrc_release_by_token ucfg (linux_posix cfg) tok s) = Some (ret, s')"
  obtains n k where "s' = advance n (s\<lparr>kern := k\<rparr>)" "orderly_next cfg (kern s) k"
    "holders_kept (kern s) k \<or> loses c (my_pid s) tok (kern s) k"
proof (cases c)
  case Region
  let ?mr = "\<lparr>mrel_version_code = CUDDL_VERSION_CODE, mrel_token = tok, mrel_pid = my_pid s\<rparr>"
  let ?cmd = "CUDDLCI_MEMREGION_RELEASE_IOCTL ucfg"
  from run Region obtain out where c: "manager_data_call (linux_posix cfg) ?cmd (Mem_Release_Data ?mr) s = Some (ret, out, s')"
    by (auto simp: cuddli_memregion_release_by_token_def Let_def bind_eq_Some_conv)
  show ?thesis
  proof (cases rule: data_call_runs [OF fine c(1)])
    case 1
    with o that [of 1 "kern s"] show ?thesis by (simp add: holders_kept_def)
  next
    case (2 r q k)
    have "orderly_next cfg (kern s) k \<and> (holders_kept (kern s) k \<or> loses Region (mrel_pid ?mr) (mrel_token ?mr) (kern s) k)"
      by (rule release_mem_request [OF o _ _ _ 2(1)]) (use h Region in \<open>simp_all add: user_cmd_defs\<close>)
    with 2(2) that [of 3 k] Region show ?thesis by simp
  qed
next
  case Event
  let ?er = "\<lparr>erel_version_code = CUDDL_VERSION_CODE, erel_token = tok, erel_pid = my_pid s\<rparr>"
  let ?cmd = "CUDDLCI_EVENTSRC_RELEASE_IOCTL ucfg"
  from run Event obtain out where c: "manager_data_call (linux_posix cfg) ?cmd (Event_Release_Data ?er) s = Some (ret, out, s')"
    by (auto simp: cuddli_eventsrc_release_by_token_def Let_def bind_eq_Some_conv)
  show ?thesis
  proof (cases rule: data_call_runs [OF fine c(1)])
    case 1
    with o that [of 1 "kern s"] show ?thesis by (simp add: holders_kept_def)
  next
    case (2 r q k)
    have "orderly_next cfg (kern s) k \<and> (holders_kept (kern s) k \<or> loses Event (erel_pid ?er) (erel_token ?er) (kern s) k)"
      by (rule release_event_request [OF o _ _ _ 2(1)]) (use h Event in \<open>simp_all add: user_cmd_defs\<close>)
    with 2(2) that [of 3 k] Event show ?thesis by simp
  qed
qed

subsection \<open>Calls that leave the kernel alone\<close>

lemma mem_map_effect:
  assumes fine: "linux_fine cfg s"
    and run: "cuddl_memregion_map (linux_posix cfg) m0 info opts s = Some (ret, m, s')"
  obtains n where "ret \<noteq> 0" "s' = advance n s"
  | n f where "ret = 0" "um_priv_token m = mi_token info" "um_priv_fd m \<notin> open_fds s"
      "s' = advance n (s\<lparr>files := (um_priv_fd m, f) # files s\<rparr>)" "files_fine ((um_priv_fd m, f) # files s)" "freed_by f = {}"
proof (cases rule: linux_open_cases [OF fine, of "cstr (mi_device_name info)"])
  case (1 e)
  with run that(1) [of 1] show ?thesis by (simp add: cuddl_memregion_map_def)
next
  case 2
  let ?fd = "lowest_fd (files s)" and ?f = "file_for (cstr (mi_device_name info))"
  let ?s1 = "advance 1 (s\<lparr>files := (?fd, ?f) # files s\<rparr>)"
  note fd = lowest_fd_free [of "files s"]
  have ok: "files_fine ((?fd, ?f) # files s)" by (rule files_fine_open [OF fineD(2) [OF fine] 2(1)])
  then have fine1: "linux_fine cfg ?s1" using fine_advance [OF fine fineD(1) [OF fine] ok, of 1] by simp
  show ?thesis
  proof (cases "ce_mmap (ahead s 1)")
    case (Inl e)
    have mm: "linux_mmap len ?fd off ?s1 = Some (- 1, e, advance 1 ?s1)" for len off
      using Inl by (simp add: linux_mmap_def tick_advance)
    have "0 < e" using fineD(3) [OF fine1] Inl by (simp add: errors_positive_def)
    moreover obtain r e2 where "linux_close ?fd (advance 1 ?s1) = Some (r, e2, advance 3 s)"
      using close_quiet [OF fine_advance_only [OF fine1, of 1], of ?fd ?f] fd(2)
      by (auto simp: filter_fresh moved_simps numeral_3_eq_3)
    ultimately show ?thesis
      using run 2(3) fd(1) mm that(1) [of 3] by (auto simp: cuddl_memregion_map_def Let_def)
  next
    case (Inr addr)
    have mm: "linux_mmap len ?fd off ?s1 = Some (addr, 0, advance 2 (s\<lparr>files := (?fd, ?f) # files s\<rparr>))" for len off
      using Inr by (simp add: linux_mmap_def tick_advance numeral_2_eq_2)
    have "addr \<noteq> - 1" using fineD(3) [OF fine1] Inr by (auto simp: errors_positive_def)
    with run 2(3) fd(1) mm have "ret = 0" "um_priv_token m = mi_token info" "um_priv_fd m = ?fd"
      "s' = advance 2 (s\<lparr>files := (?fd, ?f) # files s\<rparr>)"
      by (auto simp: cuddl_memregion_map_def Let_def)
    with that(2) [of 2 ?f] fd(2) ok show ?thesis by (simp add: open_fds_def)
  qed
qed

lemma write_effect: "\<exists>n e. linux_write fd v s = Some (n, e, advance 1 s)"
  by (auto simp: linux_write_def tick_advance split: sum.split)

lemma switch_effect:
  "cuddl_eventsrc_enable (linux_posix cfg) e s = Some (ret, s') \<or> cuddl_eventsrc_disable (linux_posix cfg) e s = Some (ret, s') \<Longrightarrow>
    s' = advance 1 s"
  using write_effect [of "ue_priv_fd e" 1 s] write_effect [of "ue_priv_fd e" 0 s]
  by (auto simp: cuddl_eventsrc_enable_def cuddl_eventsrc_disable_def)

lemma wait_effect:
  assumes "cuddl_eventsrc_timed_wait (linux_posix cfg) e timeout s = Some (ret, s')"
  obtains n where "s' = advance n s"
proof -
  have "linux_read fd 0 (advance 1 s) = Some (r, e, v, t) \<Longrightarrow> t = advance 2 s" for fd r e v t
    by (auto simp: linux_read_def tick_advance numeral_2_eq_2 split: sum.splits)
  moreover have "linux_select n fds tv s = Some (r, e, ready, t) \<Longrightarrow> t = advance 1 s" for n fds tv r e ready t
    by (auto simp: linux_select_def tick_advance split: sum.splits)
  ultimately show ?thesis
    using assms that [of 1] that [of 2]
    by (fastforce simp: cuddl_eventsrc_timed_wait_def Let_def bind_eq_Some_conv split: if_splits)
qed

lemma event_open_effect:
  assumes fine: "linux_fine cfg s"
    and run: "cuddl_eventsrc_open (linux_posix cfg) e0 info opts s = Some (ret, e, s')"
  obtains n where "ret \<noteq> 0" "s' = advance n s"
  | n f where "ret = 0" "ue_priv_token e = ei_token info" "ue_priv_fd e \<notin> open_fds s"
      "s' = advance n (s\<lparr>files := (ue_priv_fd e, f) # files s\<rparr>)" "files_fine ((ue_priv_fd e, f) # files s)" "freed_by f = {}"
proof (cases rule: linux_open_cases [OF fine, of "cstr (ei_device_name info)"])
  case (1 err)
  with run that(1) [of 1] show ?thesis by (simp add: cuddl_eventsrc_open_def)
next
  case 2
  let ?fd = "lowest_fd (files s)" and ?f = "file_for (cstr (ei_device_name info))"
  let ?s1 = "s\<lparr>files := (?fd, ?f) # files s\<rparr>"
  note fd = lowest_fd_free [of "files s"]
  from run 2(3) fd(1) have "ret = 0" and e: "e = e0\<lparr>ue_flags := ei_flags info, ue_priv_token := ei_token info, ue_priv_fd := ?fd\<rparr>"
    by (auto simp: cuddl_eventsrc_open_def Let_def bind_eq_Some_conv)
  from run 2(3) fd(1) obtain r1 s2 r2 where "cuddl_eventsrc_disable (linux_posix cfg) e (advance 1 ?s1) = Some (r1, s2)"
    "cuddl_eventsrc_timed_wait (linux_posix cfg) e \<lparr>tv_sec = 0, tv_nsec = 0\<rparr> s2 = Some (r2, s')"
    by (auto simp: cuddl_eventsrc_open_def cuddl_eventsrc_try_wait_def Let_def bind_eq_Some_conv)
  with switch_effect obtain n where "s' = advance n (advance 1 (advance 1 ?s1))" by (metis wait_effect)
  then have "s' = advance (1 + (1 + n)) ?s1" by simp
  with that(2) [of "1 + (1 + n)" ?f] fd(2) \<open>ret = 0\<close> e files_fine_open [OF fineD(2) [OF fine] 2(1)]
  show ?thesis by (simp add: open_fds_def)
qed

lemma unmap_effect:
  assumes "linux_fine cfg s" "map_of (files s) (um_priv_fd m) = Some f" "freed_by f = {}"
    and "cuddl_memregion_unmap (linux_posix cfg) m s = Some (ret, s')"
  shows "s' = advance 2 (s\<lparr>files := filter (\<lambda>f. fst f \<noteq> um_priv_fd m) (files s)\<rparr>)"
proof -
  have "linux_munmap a len s = Some (r, e, t) \<Longrightarrow> t = advance 1 s" for a len r e t
    by (auto simp: linux_munmap_def tick_advance split: option.splits)
  with close_quiet [OF fine_advance_only [OF assms(1), of 1], of "um_priv_fd m" f] assms(2-4)
  show ?thesis
    by (fastforce simp: cuddl_memregion_unmap_def Let_def bind_eq_Some_conv moved_simps numeral_2_eq_2)
qed

lemma event_close_effect:
  assumes "linux_fine cfg s" "map_of (files s) (ue_priv_fd e) = Some f" "freed_by f = {}"
    and "cuddl_eventsrc_close (linux_posix cfg) e s = Some (ret, s')"
  shows "s' = advance 1 (s\<lparr>files := filter (\<lambda>f. fst f \<noteq> ue_priv_fd e) (files s)\<rparr>)"
  using close_quiet [OF assms(1-3)] assms(4) by (auto simp: cuddl_eventsrc_close_def split: if_splits)

subsection \<open>Questions\<close>

text \<open>The commands that only look: none of their branches changes the state.\<close>

definition asks_only :: "ioctl_cmd \<Rightarrow> bool" where
  "asks_only cmd \<longleftrightarrow> cmd \<in> {CUDDLCI_GET_MAX_MANAGED_DEVICES_IOCTL, CUDDLCI_GET_MAX_DEV_MEM_REGIONS_IOCTL,
     CUDDLCI_GET_MAX_DEV_EVENTS_IOCTL, CUDDLCI_GET_MEMREGION_ID_IOCTL, CUDDLCI_GET_EVENTSRC_ID_IOCTL,
     CUDDLCI_GET_MEMREGION_REF_COUNT_IOCTL, CUDDLCI_GET_EVENTSRC_REF_COUNT_IOCTL,
     CUDDLCI_GET_KERNEL_COMMIT_ID_IOCTL, CUDDLCI_GET_DRIVER_INFO_IOCTL, CUDDLCI_GET_HW_INFO_IOCTL,
     CUDDLCI_GET_KERNEL_VERSION_CODE_IOCTL, CUDDLCI_GET_KERNEL_VARIANT_IOCTL, CUDDLCI_EVENTSRC_IS_ENABLED_IOCTL}"

definition only_looks :: "kstate \<Rightarrow> ioctl_result \<Rightarrow> bool" where
  "only_looks st res \<longleftrightarrow> (\<forall>ret out st'. res = Some (ret, out, st') \<longrightarrow> st' = st)"

lemma looks_simps [simp]:
  "only_looks st None" "only_looks st (Some (ret, out, st)) = True"
  by (simp_all add: only_looks_def)

lemma looks_bind: "(\<And>x. r = Some x \<Longrightarrow> only_looks st (f x)) \<Longrightarrow> only_looks st (Option.bind r f)"
  by (cases r) simp_all

lemma looks_user_data:
  "(\<And>d. copied = Some d \<Longrightarrow> only_looks st (body d)) \<Longrightarrow> only_looks st (with_user_data copied vc st body)"
  by (cases copied) (simp_all add: with_user_data_def)

lemma looks_entry: "(\<And>p. only_looks st (body p)) \<Longrightarrow> only_looks st (with_entry st i body)"
  unfolding with_entry_def by (rule looks_bind) (simp split: option.split)

lemma looks_memregion: "(\<And>i j p d. only_looks st (body i j p d)) \<Longrightarrow> only_looks st (with_memregion st rid body)"
  unfolding with_memregion_def by (intro looks_bind) (simp add: looks_bind)

lemma looks_eventsrc: "(\<And>i j p d. only_looks st (body i j p d)) \<Longrightarrow> only_looks st (with_eventsrc st rid body)"
  unfolding with_eventsrc_def by (intro looks_bind) (simp add: looks_bind)

lemma looks_copy_result: "only_looks st (copy_result env q st)"
  by (simp add: copy_result_def)

lemmas looks_intros = looks_user_data looks_entry looks_memregion looks_eventsrc looks_bind looks_copy_result

lemma looks_cases:
  "only_looks st (constant_case env n st)" "only_looks st (memregion_id_case cfg env st)"
  "only_looks st (eventsrc_id_case cfg env st)" "only_looks st (memregion_ref_count_case env False st)"
  "only_looks st (eventsrc_ref_count_case env False st)" "only_looks st (commit_id_case cfg env st)"
  "only_looks st (driver_info_case env st)" "only_looks st (hw_info_case env st)"
  "only_looks st (variant_case cfg env st)" "only_looks st (is_enabled_case env st)"
  unfolding constant_case_def memregion_id_case_def eventsrc_id_case_def memregion_ref_count_case_def
    eventsrc_ref_count_case_def commit_id_case_def driver_info_case_def hw_info_case_def device_text_case_def
    variant_case_def is_enabled_case_def Let_def
  by (intro looks_user_data; auto intro!: looks_intros split: option.split)+

lemma question_keeps_state:
  assumes "asks_only cmd" "\<not> k_locked st" "cuddlk_manager_ioctl cfg env cmd st = Some (ret, out, st')"
  shows "st' = st"
proof (cases "\<forall>n < 10. kz_ok env n")
  case False
  then have "refusal env cmd = Some (- ENOMEM)" by (auto simp: refusal_def)
  from request_refused [OF assms(2) this, of cfg] assms(3) show ?thesis by simp
next
  case True
  have "only_looks (set_mutex True st) (manager_command cfg env cmd (set_mutex True st))"
    using assms(1) looks_cases by (auto simp: asks_only_def manager_command_def)
  with assms(2,3) alloc_all [OF True] show ?thesis
    by (auto simp: only_looks_def cuddlk_manager_ioctl_def cuddlk_manager_lock_def cuddlk_manager_unlock_def
        bind_eq_Some_conv set_mutex_back split: if_splits)
qed

lemma question_effect:
  assumes fine: "linux_fine cfg s" and q: "asks_only cmd"
    and run: "manager_data_call (linux_posix cfg) cmd p s = Some (ret, out, s') \<or>
      manager_value_call (linux_posix cfg) cmd p s = Some (ret, s')"
  obtains n where "s' = advance n s"
proof (cases rule: linux_open_cases [OF fine, of "''/dev/cuddl''"])
  case (1 e)
  with run that [of 1] show ?thesis by (auto simp: manager_data_call_def manager_value_call_def)
next
  case 2
  let ?fd = "lowest_fd (files s)" and ?s1 = "s\<lparr>files := (lowest_fd (files s), Manager_File) # files s\<rparr>"
  note fd = lowest_fd_free [of "files s"] and k = kernel_fineD(4) [OF fineD(1) [OF fine]]
  have o: "linux_open ''/dev/cuddl'' s = Some (?fd, 0, advance 1 ?s1)" using 2(3) by (simp add: file_for_def)
  obtain r q1 k1 where io: "cuddlk_manager_ioctl cfg (request_env s 1 p) cmd (kern s) = Some (r, q1, k1)"
    using kernel_ioctl [OF fineD(1) [OF fine], of "ce_copy_in (ahead s 1)" "ce_kernel (ahead s 1)" p cmd]
    unfolding request_env_def [symmetric] by blast
  with question_keeps_state [OF q k] have "cuddlk_manager_ioctl cfg (request_env s 1 p) cmd (kern s) = Some (r, q1, kern s)" by blast
  then have i: "\<exists>r e p'. linux_ioctl cfg ?fd cmd p (advance 1 ?s1) = Some (r, e, p', advance 2 ?s1)"
    by (auto simp: linux_ioctl_def request_env_def moved_simps numeral_2_eq_2 split: prod.split)
  have "files_fine ((?fd, Manager_File) # files s)"
    using files_fine_open [OF fineD(2) [OF fine] 2(1), of "''/dev/cuddl''"] by (simp add: file_for_def)
  with fine_advance [OF fine fineD(1) [OF fine], of _ 2] have "linux_fine cfg (advance 2 ?s1)" by simp
  from close_quiet [OF this, of ?fd Manager_File] fd(2)
  have c: "\<exists>r e. linux_close ?fd (advance 2 ?s1) = Some (r, e, advance 3 s)"
    by (auto simp: filter_fresh moved_simps numeral_3_eq_3)
  from run o i c fd(1) have "s' = advance 3 s"
    by (auto simp: manager_data_call_def manager_value_call_def Let_def split: if_splits)
  with that show ?thesis by blast
qed

subsection \<open>Claims with their files\<close>

lemma gain_then_loss:
  "gains c pid tok k k1 \<Longrightarrow> loses c pid tok k1 k2 \<Longrightarrow> holders_kept k k2"
  by (cases c) (auto simp: change_defs set_holders_def fun_eq_iff)

lemma gain_then_keep: "gains c pid tok k k1 \<Longrightarrow> holders_kept k1 k2 \<Longrightarrow> gains c pid tok k k2"
  by (simp add: change_defs)

lemma gained: "gains c pid tok k k1 \<Longrightarrow> pid \<in> set (holds c k1 (device_index tok) (resource_index tok))"
  by (cases c) (simp_all add: change_defs set_holders_def)

text \<open>What a failed claim leaves behind: nothing, or a claim that the caller does not know of.\<close>

definition at_most_gains :: "kind \<Rightarrow> pid_t \<Rightarrow> kstate \<Rightarrow> kstate \<Rightarrow> bool" where
  "at_most_gains c pid k k' \<longleftrightarrow> holders_kept k k' \<or> (\<exists>tok. gains c pid tok k k')"

lemma claim_and_map_effect:
  assumes fine: "linux_fine cfg s" and o: "orderly cfg (kern s)" and env: "kernel_serves s" "refs_room (kern s)"
    and h: "\<not> has_flag copts CUDDL_MEM_CLAIMF_HOSTILE"
    and run: "cuddl_memregion_claim_and_map ucfg (linux_posix cfg) m0 g d r i copts mopts s = Some (ret, m, s')"
  obtains n k where "ret \<noteq> 0" "s' = advance n (s\<lparr>kern := k\<rparr>)" "orderly_next cfg (kern s) k"
      "at_most_gains Region (my_pid s) (kern s) k"
  | n k f where "ret = 0" "s' = advance n (s\<lparr>kern := k, files := (um_priv_fd m, f) # files s\<rparr>)" "orderly_next cfg (kern s) k"
      "gains Region (my_pid s) (um_priv_token m) (kern s) k" "um_priv_fd m \<notin> open_fds s"
      "files_fine ((um_priv_fd m, f) # files s)" "freed_by f = {}"
proof -
  from run obtain ret1 info s1 where c: "cuddl_memregion_claim ucfg (linux_posix cfg) (garbage_meminfo s) g d r i copts s = Some (ret1, info, s1)"
    by (auto simp: cuddl_memregion_claim_and_map_def bind_eq_Some_conv)
  obtain n k where k: "s1 = advance n (s\<lparr>kern := k\<rparr>)" "orderly_next cfg (kern s) k"
    "ret1 \<noteq> 0 \<and> holders_kept (kern s) k \<or> gains Region (my_pid s) (mi_token info) (kern s) k"
    by (rule mem_claim_effect [OF fine o env h c])
  then have k1: "orderly cfg k" "linux_fine cfg s1" "kern s1 = k" "my_pid s1 = my_pid s"
    using fine_advance_kern [OF fine, of k n] by (simp_all add: orderly_next_def orderlyD)
  show ?thesis
  proof (cases "ret1 = 0")
    case False
    with run c k that(1) [of n k] show ?thesis
      by (auto simp: cuddl_memregion_claim_and_map_def at_most_gains_def)
  next
    case True
    with k(3) have gain: "gains Region (my_pid s) (mi_token info) (kern s) k" by simp
    from run c True obtain ret2 m2 s2 where m: "cuddl_memregion_map (linux_posix cfg) m0 info mopts s1 = Some (ret2, m2, s2)"
      by (auto simp: cuddl_memregion_claim_and_map_def bind_eq_Some_conv)
    show ?thesis
    proof (cases rule: mem_map_effect [OF k1(2) m])
      case (1 n2)
      then have s2: "s2 = advance (n + n2) (s\<lparr>kern := k\<rparr>)" "linux_fine cfg s2" "kern s2 = k" "my_pid s2 = my_pid s"
        using k(1) fine_advance_only [OF k1(2)] by simp_all
      from run c True m 1(1) obtain ret3 where rel: "cuddli_memregion_release_by_token ucfg (linux_posix cfg) (mi_token info) s2 = Some (ret3, s')"
        and "ret \<noteq> 0"
        by (auto simp: cuddl_memregion_claim_and_map_def cuddl_memregion_release_def bind_eq_Some_conv)
      obtain n3 k2 where "s' = advance n3 (s2\<lparr>kern := k2\<rparr>)" "orderly_next cfg k k2"
        "holders_kept k k2 \<or> loses Region (my_pid s) (mi_token info) k k2"
        using release_effect [OF s2(2), of Region "mi_token info" ucfg ret3 s'] k1(1) gained [OF gain] rel s2(3,4) by auto
      with that(1) [of "n + n2 + n3" k2] \<open>ret \<noteq> 0\<close> k(2) gain s2(1) show ?thesis
        by (auto simp: at_most_gains_def moved_simps intro: orderly_next_trans gain_then_keep gain_then_loss)
    next
      case (2 n2 f)
      with run c True m have "ret = 0" "m2 = m" "s' = s2" by (auto simp: cuddl_memregion_claim_and_map_def)
      with 2 that(2) [of "n + n2" f k] k gain show ?thesis by (simp add: moved_simps open_fds_def)
    qed
  qed
qed

lemma claim_and_open_effect:
  assumes fine: "linux_fine cfg s" and o: "orderly cfg (kern s)" and env: "kernel_serves s" "refs_room (kern s)"
    and h: "\<not> has_flag copts CUDDL_EVENTSRC_CLAIMF_HOSTILE"
    and run: "cuddl_eventsrc_claim_and_open ucfg (linux_posix cfg) e0 g d r i copts oopts s = Some (ret, e, s')"
  obtains n k where "ret \<noteq> 0" "s' = advance n (s\<lparr>kern := k\<rparr>)" "orderly_next cfg (kern s) k"
      "at_most_gains Event (my_pid s) (kern s) k"
  | n k f where "ret = 0" "s' = advance n (s\<lparr>kern := k, files := (ue_priv_fd e, f) # files s\<rparr>)" "orderly_next cfg (kern s) k"
      "gains Event (my_pid s) (ue_priv_token e) (kern s) k" "ue_priv_fd e \<notin> open_fds s"
      "files_fine ((ue_priv_fd e, f) # files s)" "freed_by f = {}"
proof -
  from run obtain ret1 info s1 where c: "cuddl_eventsrc_claim ucfg (linux_posix cfg) (garbage_eventinfo s) g d r i copts s = Some (ret1, info, s1)"
    by (auto simp: cuddl_eventsrc_claim_and_open_def bind_eq_Some_conv)
  obtain n k where k: "s1 = advance n (s\<lparr>kern := k\<rparr>)" "orderly_next cfg (kern s) k"
    "ret1 \<noteq> 0 \<and> holders_kept (kern s) k \<or> gains Event (my_pid s) (ei_token info) (kern s) k"
    by (rule event_claim_effect [OF fine o env h c])
  then have k1: "orderly cfg k" "linux_fine cfg s1" "kern s1 = k" "my_pid s1 = my_pid s"
    using fine_advance_kern [OF fine, of k n] by (simp_all add: orderly_next_def orderlyD)
  show ?thesis
  proof (cases "ret1 = 0")
    case False
    with run c k that(1) [of n k] show ?thesis
      by (auto simp: cuddl_eventsrc_claim_and_open_def at_most_gains_def)
  next
    case True
    with k(3) have gain: "gains Event (my_pid s) (ei_token info) (kern s) k" by simp
    from run c True obtain ret2 e2 s2 where m: "cuddl_eventsrc_open (linux_posix cfg) e0 info oopts s1 = Some (ret2, e2, s2)"
      by (auto simp: cuddl_eventsrc_claim_and_open_def bind_eq_Some_conv)
    show ?thesis
    proof (cases rule: event_open_effect [OF k1(2) m])
      case (1 n2)
      then have s2: "s2 = advance (n + n2) (s\<lparr>kern := k\<rparr>)" "linux_fine cfg s2" "kern s2 = k" "my_pid s2 = my_pid s"
        using k(1) fine_advance_only [OF k1(2)] by simp_all
      from run c True m 1(1) obtain ret3 where rel: "cuddli_eventsrc_release_by_token ucfg (linux_posix cfg) (ei_token info) s2 = Some (ret3, s')"
        and "ret \<noteq> 0"
        by (auto simp: cuddl_eventsrc_claim_and_open_def cuddl_eventsrc_release_def bind_eq_Some_conv)
      obtain n3 k2 where "s' = advance n3 (s2\<lparr>kern := k2\<rparr>)" "orderly_next cfg k k2"
        "holders_kept k k2 \<or> loses Event (my_pid s) (ei_token info) k k2"
        using release_effect [OF s2(2), of Event "ei_token info" ucfg ret3 s'] k1(1) gained [OF gain] rel s2(3,4) by auto
      with that(1) [of "n + n2 + n3" k2] \<open>ret \<noteq> 0\<close> k(2) gain s2(1) show ?thesis
        by (auto simp: at_most_gains_def moved_simps intro: orderly_next_trans gain_then_keep gain_then_loss)
    next
      case (2 n2 f)
      with run c True m have "ret = 0" "e2 = e" "s' = s2" by (auto simp: cuddl_eventsrc_claim_and_open_def)
      with 2 that(2) [of "n + n2" f k] k gain show ?thesis by (simp add: moved_simps open_fds_def)
    qed
  qed
qed

lemma unmap_and_release_effect:
  assumes fine: "linux_fine cfg s" and o: "orderly cfg (kern s)"
    and f: "map_of (files s) (um_priv_fd m) = Some f" "freed_by f = {}"
    and h: "my_pid s \<in> set (mem_holders (kern s) (device_index (um_priv_token m)) (resource_index (um_priv_token m)))"
    and run: "cuddl_memregion_unmap_and_release ucfg (linux_posix cfg) m s = Some (ret, s')"
  obtains n k where "s' = advance n (s\<lparr>kern := k, files := filter (\<lambda>f. fst f \<noteq> um_priv_fd m) (files s)\<rparr>)"
    "orderly_next cfg (kern s) k" "holders_kept (kern s) k \<or> loses Region (my_pid s) (um_priv_token m) (kern s) k"
proof -
  from run obtain ret1 s1 ret2 where u: "cuddl_memregion_unmap (linux_posix cfg) m s = Some (ret1, s1)"
    "cuddli_memregion_release_by_token ucfg (linux_posix cfg) (um_priv_token m) s1 = Some (ret2, s')"
    by (auto simp: cuddl_memregion_unmap_and_release_def bind_eq_Some_conv)
  note s1 = unmap_effect [OF fine f u(1)]
  have "linux_fine cfg s1"
    using fine_advance [OF fine fineD(1) [OF fine] files_fine_close [OF fineD(2) [OF fine]], of 2] by (simp add: s1)
  from release_effect [OF this, of Region "um_priv_token m" ucfg ret2 s'] o h u(2) obtain n k where
    "s' = advance n (s1\<lparr>kern := k\<rparr>)" "orderly_next cfg (kern s) k"
    "holders_kept (kern s) k \<or> loses Region (my_pid s) (um_priv_token m) (kern s) k"
    by (auto simp: s1)
  with that [of "2 + n" k] show ?thesis by (simp add: s1 moved_simps)
qed

lemma close_and_release_effect:
  assumes fine: "linux_fine cfg s" and o: "orderly cfg (kern s)"
    and f: "map_of (files s) (ue_priv_fd e) = Some f" "freed_by f = {}"
    and h: "my_pid s \<in> set (event_holders (kern s) (device_index (ue_priv_token e)) (resource_index (ue_priv_token e)))"
    and run: "cuddl_eventsrc_close_and_release ucfg (linux_posix cfg) e s = Some (ret, s')"
  obtains n k where "s' = advance n (s\<lparr>kern := k, files := filter (\<lambda>f. fst f \<noteq> ue_priv_fd e) (files s)\<rparr>)"
    "orderly_next cfg (kern s) k" "holders_kept (kern s) k \<or> loses Event (my_pid s) (ue_priv_token e) (kern s) k"
proof -
  from run obtain ret1 s1 ret2 where u: "cuddl_eventsrc_close (linux_posix cfg) e s = Some (ret1, s1)"
    "cuddli_eventsrc_release_by_token ucfg (linux_posix cfg) (ue_priv_token e) s1 = Some (ret2, s')"
    by (auto simp: cuddl_eventsrc_close_and_release_def bind_eq_Some_conv)
  note s1 = event_close_effect [OF fine f u(1)]
  have "linux_fine cfg s1"
    using fine_advance [OF fine fineD(1) [OF fine] files_fine_close [OF fineD(2) [OF fine]], of 1] by (simp add: s1)
  from release_effect [OF this, of Event "ue_priv_token e" ucfg ret2 s'] o h u(2) obtain n k where
    "s' = advance n (s1\<lparr>kern := k\<rparr>)" "orderly_next cfg (kern s) k"
    "holders_kept (kern s) k \<or> loses Event (my_pid s) (ue_priv_token e) (kern s) k"
    by (auto simp: s1)
  with that [of "1 + n" k] show ?thesis by (simp add: s1 moved_simps)
qed

end
