(* ===== verification/System_Runs.thy ===== *)
theory System_Runs
  imports Shared_Kernel
begin

section \<open>Drivers and processes on one kernel\<close>

text \<open>
  The whole system: drivers that enter and remove devices, and any number of processes, each
  with its own descriptors and the structures that the library filled in for it, over one
  state of the kernel modules. Calls of different processes interleave in any order. A
  process starts with the constructor of the library, whether it succeeds or not, and ends
  at any moment; \<open>sys_orphans\<close> are the processes that have ended without being
  registered with the janitor. A driver does not remove a device that is referenced, and
  processes do not claim hostilely.
\<close>

record system =
  sys_kern :: kstate
  sys_procs :: "pid_t \<Rightarrow> process option"
  sys_orphans :: "pid_t set"

text \<open>A process as it is when its next call begins: its kernel is the kernel of the system.\<close>

definition sync :: "kstate \<Rightarrow> process \<Rightarrow> process" where
  "sync k p = p\<lparr>p_linux := (p_linux p)\<lparr>kern := k\<rparr>\<rparr>"

lemma sync_simps [simp]:
  "kern (p_linux (sync k p)) = k" "files (p_linux (sync k p)) = files (p_linux p)" "my_pid (p_linux (sync k p)) = my_pid (p_linux p)"
  "p_regions (sync k p) = p_regions p" "p_events (sync k p) = p_events p" "sync k (sync k' p) = sync k p"
  "kernel_serves (p_linux (sync k p)) = kernel_serves (p_linux p)" "held_fds (sync k p) = held_fds p"
  by (simp_all add: sync_def held_fds_def)

inductive process_call :: "ucfg \<Rightarrow> kcfg \<Rightarrow> process \<Rightarrow> process \<Rightarrow> bool" for ucfg cfg where
  claim_region: "cuddl_memregion_claim_and_map ucfg (linux_posix cfg) m0 g d r i copts mopts (p_linux p) = Some (ret, m, s) \<Longrightarrow>
    \<not> has_flag copts CUDDL_MEM_CLAIMF_HOSTILE \<Longrightarrow> refs_room (kern (p_linux p)) \<Longrightarrow>
    process_call ucfg cfg p (p\<lparr>p_linux := s, p_regions := if ret = 0 then m # p_regions p else p_regions p\<rparr>)"
| release_region: "m \<in> set (p_regions p) \<Longrightarrow>
    cuddl_memregion_unmap_and_release ucfg (linux_posix cfg) m (p_linux p) = Some (ret, s) \<Longrightarrow>
    process_call ucfg cfg p (p\<lparr>p_linux := s, p_regions := remove1 m (p_regions p)\<rparr>)"
| claim_event: "cuddl_eventsrc_claim_and_open ucfg (linux_posix cfg) e0 g d r i copts oopts (p_linux p) = Some (ret, e, s) \<Longrightarrow>
    \<not> has_flag copts CUDDL_EVENTSRC_CLAIMF_HOSTILE \<Longrightarrow> refs_room (kern (p_linux p)) \<Longrightarrow>
    process_call ucfg cfg p (p\<lparr>p_linux := s, p_events := if ret = 0 then e # p_events p else p_events p\<rparr>)"
| release_event: "e \<in> set (p_events p) \<Longrightarrow>
    cuddl_eventsrc_close_and_release ucfg (linux_posix cfg) e (p_linux p) = Some (ret, s) \<Longrightarrow>
    process_call ucfg cfg p (p\<lparr>p_linux := s, p_events := remove1 e (p_events p)\<rparr>)"
| wait: "cuddl_eventsrc_timed_wait (linux_posix cfg) e timeout (p_linux p) = Some (ret, s) \<Longrightarrow>
    process_call ucfg cfg p (p\<lparr>p_linux := s\<rparr>)"
| switch: "cuddl_eventsrc_enable (linux_posix cfg) e (p_linux p) = Some (ret, s) \<or>
      cuddl_eventsrc_disable (linux_posix cfg) e (p_linux p) = Some (ret, s) \<Longrightarrow>
    process_call ucfg cfg p (p\<lparr>p_linux := s\<rparr>)"
| ask: "asks_only cmd \<Longrightarrow> manager_data_call (linux_posix cfg) cmd payload (p_linux p) = Some (ret, out, s) \<or>
      manager_value_call (linux_posix cfg) cmd payload (p_linux p) = Some (ret, s) \<Longrightarrow>
    process_call ucfg cfg p (p\<lparr>p_linux := s\<rparr>)"

inductive driver_step :: "kcfg \<Rightarrow> kstate \<Rightarrow> kstate \<Rightarrow> bool" for cfg where
  prepare: "not_managed p st \<Longrightarrow> driver_step cfg st (set_dev p d st)"
| manage: "not_managed p st \<Longrightarrow> k_heap st p = Some d \<Longrightarrow> fresh_device d \<Longrightarrow> resources_named cfg d \<Longrightarrow>
    cuddlk_device_manage cfg env p st = Some (ret, st') \<Longrightarrow> driver_step cfg st st'"
| remove: "\<not> not_managed p st \<Longrightarrow> unreferenced p st \<Longrightarrow>
    cuddlk_device_release cfg env p st = Some (ret, st') \<Longrightarrow> driver_step cfg st st'"

inductive system_step :: "ucfg \<Rightarrow> kcfg \<Rightarrow> system \<Rightarrow> system \<Rightarrow> bool" for ucfg cfg where
  driver: "driver_step cfg (sys_kern y) k \<Longrightarrow> system_step ucfg cfg y (y\<lparr>sys_kern := k\<rparr>)"
| start: "sys_procs y pid = None \<Longrightarrow> my_pid l = pid \<Longrightarrow> kern l = sys_kern y \<Longrightarrow> linux_fine cfg l \<Longrightarrow>
    kernel_serves l \<Longrightarrow> only_own l \<Longrightarrow> cuddl_startup ucfg (linux_posix cfg) (linux_posix cfg) l = Some (jfd, l') \<Longrightarrow>
    system_step ucfg cfg y (y\<lparr>sys_kern := kern l',
      sys_procs := (sys_procs y)(pid \<mapsto> \<lparr>p_linux = l', p_regions = [], p_events = []\<rparr>)\<rparr>)"
| call: "sys_procs y pid = Some p \<Longrightarrow> process_call ucfg cfg (sync (sys_kern y) p) p' \<Longrightarrow>
    system_step ucfg cfg y (y\<lparr>sys_kern := kern (p_linux p'), sys_procs := (sys_procs y)(pid \<mapsto> p')\<rparr>)"
| finish: "sys_procs y pid = Some p \<Longrightarrow> process_exit (p_linux (sync (sys_kern y) p)) = Some l \<Longrightarrow>
    system_step ucfg cfg y (y\<lparr>sys_kern := kern l, sys_procs := (sys_procs y)(pid := None),
      sys_orphans := if pid_registered (p_linux p) then sys_orphans y else insert pid (sys_orphans y)\<rparr>)"

definition no_processes :: "kstate \<Rightarrow> system" where
  "no_processes k = \<lparr>sys_kern = k, sys_procs = (\<lambda>_. None), sys_orphans = {}\<rparr>"

subsection \<open>The invariant\<close>

text \<open>The tokens that the structures of a process carry: each is backed by a claim of its own.\<close>

fun held_tokens :: "kind \<Rightarrow> process \<Rightarrow> cuddlci_token list" where
  "held_tokens Region p = map um_priv_token (p_regions p)"
| "held_tokens Event p = map ue_priv_token (p_events p)"

definition claims_of :: "kind \<Rightarrow> kstate \<Rightarrow> pid_t \<Rightarrow> cuddlci_token \<Rightarrow> nat" where
  "claims_of c k pid tok = count_list (holds c k (device_index tok) (resource_index tok)) pid"

definition backed :: "process \<Rightarrow> bool" where
  "backed p \<longleftrightarrow> (\<forall>c tok. count_list (held_tokens c p) tok \<le> claims_of c (kern (p_linux p)) (my_pid (p_linux p)) tok)"

definition quiet_fds :: "process \<Rightarrow> bool" where
  "quiet_fds p \<longleftrightarrow> distinct (held_fds p) \<and>
     (\<forall>fd \<in> set (held_fds p). \<exists>f. map_of (files (p_linux p)) fd = Some f \<and> freed_by f = {})"

definition process_ok :: "kcfg \<Rightarrow> process \<Rightarrow> bool" where
  "process_ok cfg p \<longleftrightarrow> linux_fine cfg (p_linux p) \<and> kernel_serves (p_linux p) \<and> only_own (p_linux p) \<and>
     quiet_fds p \<and> backed p"

definition others_keep :: "pid_t \<Rightarrow> kstate \<Rightarrow> kstate \<Rightarrow> bool" where
  "others_keep pid k k' \<longleftrightarrow> (\<forall>c q tok. q \<noteq> pid \<longrightarrow> claims_of c k' q tok = claims_of c k q tok)"

definition system_ok :: "kcfg \<Rightarrow> system \<Rightarrow> bool" where
  "system_ok cfg y \<longleftrightarrow> orderly cfg (sys_kern y) \<and>
     (\<forall>pid p. sys_procs y pid = Some p \<longrightarrow> my_pid (p_linux p) = pid \<and> process_ok cfg (sync (sys_kern y) p)) \<and>
     (\<forall>c pid tok. claims_of c (sys_kern y) pid tok \<noteq> 0 \<longrightarrow> sys_procs y pid \<noteq> None \<or> pid \<in> sys_orphans y)"

subsection \<open>Counting\<close>

lemma count_list_remove1: "count_list (remove1 x xs) y = count_list xs y - (if x = y then 1 else 0)"
  by (induction xs) auto

lemma count_map_remove1:
  "x \<in> set xs \<Longrightarrow> count_list (map f (remove1 x xs)) y = count_list (map f xs) y - (if f x = y then 1 else 0)"
proof (induction xs)
  case (Cons z xs)
  then have "count_list (map f xs) (f x) \<noteq> 0" if "x \<noteq> z" using that by (auto simp: count_list_0_iff)
  with Cons show ?case by (cases "x = z") (auto simp: Suc_diff_le)
qed simp

lemma claims_kept: "holders_kept k k' \<Longrightarrow> claims_of c k' pid tok = claims_of c k pid tok"
  by (cases c) (simp_all add: holders_kept_def claims_of_def)

lemma claims_gained:
  "gains c pid tok k k' \<Longrightarrow> claims_of c' k' q tok' = claims_of c' k q tok' + (if c' = c \<and> q = pid \<and> tok' = tok then 1 else 0)"
  by (cases tok; cases tok') (auto simp: gains_def claims_of_def set_holders_def)

lemma claims_lost:
  "loses c pid tok k k' \<Longrightarrow> claims_of c' k' q tok' = claims_of c' k q tok' - (if c' = c \<and> q = pid \<and> tok' = tok then 1 else 0)"
  by (cases tok; cases tok') (auto simp: loses_def claims_of_def set_holders_def count_list_remove1)

lemma others_changes:
  "holders_kept k k' \<Longrightarrow> others_keep pid k k'" "gains c pid tok k k' \<Longrightarrow> others_keep pid k k'"
  "loses c pid tok k k' \<Longrightarrow> others_keep pid k k'" "at_most_gains c pid k k' \<Longrightarrow> others_keep pid k k'"
  by (auto simp: others_keep_def claims_kept claims_gained claims_lost at_most_gains_def)

lemma held_claimed:
  assumes "backed p" "tok \<in> set (held_tokens c p)"
  shows "my_pid (p_linux p) \<in> set (holds c (kern (p_linux p)) (device_index tok) (resource_index tok))"
proof -
  from assms(2) have "count_list (held_tokens c p) tok \<noteq> 0" by (simp add: count_list_0_iff)
  with assms(1) have "claims_of c (kern (p_linux p)) (my_pid (p_linux p)) tok \<noteq> 0"
    unfolding backed_def by (metis le_zero_eq)
  then show ?thesis by (simp add: claims_of_def count_list_0_iff)
qed

lemma backedI:
  assumes "\<And>c tok. count_list (held_tokens c p') tok \<le> claims_of c (kern (p_linux p')) (my_pid (p_linux p')) tok"
  shows "backed p'"
  using assms by (simp add: backed_def)

subsection \<open>Calls keep the invariant\<close>

lemma map_of_filter_other: "x \<noteq> fd \<Longrightarrow> map_of (filter (\<lambda>f. fst f \<noteq> fd) fs) x = map_of fs x"
  by (induction fs) auto

text \<open>A call after which the process holds the same structures, or one more, or one less.\<close>

lemma call_same:
  assumes p: "process_ok cfg p" and k: "orderly_next cfg (kern (p_linux p)) k"
    and b: "at_most_gains c (my_pid (p_linux p)) (kern (p_linux p)) k"
  shows "process_ok cfg (p\<lparr>p_linux := advance n ((p_linux p)\<lparr>kern := k\<rparr>)\<rparr>)"
proof -
  let ?p = "p\<lparr>p_linux := advance n ((p_linux p)\<lparr>kern := k\<rparr>)\<rparr>"
  have t: "held_tokens c' ?p = held_tokens c' p" for c' by (cases c') simp_all
  have m: "claims_of c' (kern (p_linux p)) pid tok \<le> claims_of c' k pid tok" for c' pid tok
    using b by (auto simp: at_most_gains_def claims_kept claims_gained)
  have "backed ?p"
    using p by (intro backedI) (auto simp: t process_ok_def backed_def intro: order_trans [OF _ m])
  then show ?thesis
    using p k fine_advance_kern [of cfg "p_linux p" k n]
    by (simp add: process_ok_def quiet_fds_def held_fds_def only_own_def orderly_next_def orderlyD)
qed

lemma fine_files_of: "process_ok cfg p \<Longrightarrow> files_fine (files (p_linux p))"
  by (auto simp: process_ok_def intro: fineD)

lemma call_adds:
  assumes p: "process_ok cfg p" and k: "orderly_next cfg (kern (p_linux p)) k"
    and g: "gains c (my_pid (p_linux p)) tok (kern (p_linux p)) k"
    and f: "fd \<notin> open_fds (p_linux p)" "files_fine ((fd, f) # files (p_linux p))" "freed_by f = {}"
    and p': "p_linux p' = advance n ((p_linux p)\<lparr>kern := k, files := (fd, f) # files (p_linux p)\<rparr>)"
      "mset (held_fds p') = add_mset fd (mset (held_fds p))"
      "\<And>c' tok'. count_list (held_tokens c' p') tok' = count_list (held_tokens c' p) tok' + (if c' = c \<and> tok' = tok then 1 else 0)"
  shows "process_ok cfg p'"
proof -
  have old: "fd' \<in> open_fds (p_linux p)" if "fd' \<in> set (held_fds p)" for fd'
    using p that by (force simp: process_ok_def quiet_fds_def open_fds_def dest: map_of_SomeD)
  then have fds: "fd \<notin> set (held_fds p)" "set (held_fds p') = insert fd (set (held_fds p))"
    using f(1) p'(2) by (blast, metis set_mset_add_mset_insert set_mset_mset)
  have d: "distinct (held_fds p')"
    using p fds(1) p'(2) by (metis distinct.simps(2) mset.simps(2) mset_eq_imp_distinct_iff process_ok_def quiet_fds_def)
  have "quiet_fds p'"
    using p fds f(3) by (auto simp: quiet_fds_def d p'(1) process_ok_def)
  moreover have "backed p'"
    using p by (intro backedI) (simp add: p' claims_gained [OF g] process_ok_def backed_def)
  moreover have "only_own (p_linux p')" using p f(3) by (simp add: process_ok_def only_own_def p'(1))
  ultimately show ?thesis
    using p k fine_advance [OF _ _ f(2), of cfg "p_linux p" k n]
    by (simp add: process_ok_def p'(1) orderly_next_def orderlyD)
qed

lemma call_drops:
  assumes p: "process_ok cfg p" and k: "orderly_next cfg (kern (p_linux p)) k"
    and l: "holders_kept (kern (p_linux p)) k \<or> loses c (my_pid (p_linux p)) tok (kern (p_linux p)) k"
    and p': "p_linux p' = advance n ((p_linux p)\<lparr>kern := k, files := filter (\<lambda>f. fst f \<noteq> fd) (files (p_linux p))\<rparr>)"
      "distinct (held_fds p')" "set (held_fds p') = set (held_fds p) - {fd}"
      "\<And>c' tok'. count_list (held_tokens c' p') tok' = count_list (held_tokens c' p) tok' - (if c' = c \<and> tok' = tok then 1 else 0)"
  shows "process_ok cfg p'"
proof -
  have "quiet_fds p'"
    using p p'(2,3) by (auto simp: quiet_fds_def p'(1) process_ok_def map_of_filter_other)
  moreover have "backed p'"
  proof (rule backedI)
    fix c' tok'
    from p have "count_list (held_tokens c' p) tok' \<le> claims_of c' (kern (p_linux p)) (my_pid (p_linux p)) tok'"
      by (simp add: process_ok_def backed_def)
    with l show "count_list (held_tokens c' p') tok' \<le> claims_of c' (kern (p_linux p')) (my_pid (p_linux p')) tok'"
      by (auto simp: p' claims_kept claims_lost diff_le_mono le_diff_conv)
  qed
  moreover have "only_own (p_linux p')" using p by (auto simp: process_ok_def only_own_def p'(1))
  ultimately show ?thesis
    using p k fine_advance [OF _ _ files_fine_close [OF fine_files_of [OF p]], of cfg "p_linux p" k n fd]
    by (simp add: process_ok_def p'(1) orderly_next_def orderlyD)
qed

lemma held_quiet:
  assumes "quiet_fds p"
  shows "m \<in> set (p_regions p) \<Longrightarrow> \<exists>f. map_of (files (p_linux p)) (um_priv_fd m) = Some f \<and> freed_by f = {}"
    "e \<in> set (p_events p) \<Longrightarrow> \<exists>f. map_of (files (p_linux p)) (ue_priv_fd e) = Some f \<and> freed_by f = {}"
  using assms by (simp_all add: quiet_fds_def held_fds_def)

lemma kern_same [simp]: "s\<lparr>kern := kern s\<rparr> = s"
  by (cases s) simp

lemma call_moves_on:
  assumes "orderly cfg (kern (p_linux p))" "process_ok cfg p"
  shows "orderly_next cfg (kern (p_linux p)) (kern (p_linux p)) \<and> process_ok cfg (p\<lparr>p_linux := advance n (p_linux p)\<rparr>) \<and>
    others_keep pid (kern (p_linux p)) (kern (p_linux p))"
  using call_same [OF assms(2), of "kern (p_linux p)" Region n] assms(1)
  by (simp add: at_most_gains_def holders_kept_def others_keep_def)

lemma call_keeps:
  assumes "process_call ucfg cfg p p'" "orderly cfg (kern (p_linux p))" "process_ok cfg p"
  shows "orderly_next cfg (kern (p_linux p)) (kern (p_linux p')) \<and> process_ok cfg p' \<and>
    my_pid (p_linux p') = my_pid (p_linux p) \<and> others_keep (my_pid (p_linux p)) (kern (p_linux p)) (kern (p_linux p'))"
  using assms
proof (induction rule: process_call.induct)
  case (claim_region m0 g d r i copts mopts p ret m s)
  then have ok: "linux_fine cfg (p_linux p)" "kernel_serves (p_linux p)" by (simp_all add: process_ok_def)
  show ?case
  proof (cases rule: claim_and_map_effect [OF ok(1) claim_region.prems(1) ok(2) claim_region.hyps(3,2,1)])
    case (1 n k)
    with call_same [OF claim_region.prems(2) 1(3,4), of n] others_changes(4) [OF 1(4)] show ?thesis by simp
  next
    case (2 n k f)
    have "process_ok cfg (p\<lparr>p_linux := s, p_regions := m # p_regions p\<rparr>)"
    proof (rule call_adds [OF claim_region.prems(2) 2(3,4,5,6,7)])
      show "p_linux (p\<lparr>p_linux := s, p_regions := m # p_regions p\<rparr>) =
          advance n ((p_linux p)\<lparr>kern := k, files := (um_priv_fd m, f) # files (p_linux p)\<rparr>)" by (simp add: 2(2))
      show "count_list (held_tokens c' (p\<lparr>p_linux := s, p_regions := m # p_regions p\<rparr>)) tok' =
          count_list (held_tokens c' p) tok' + (if c' = Region \<and> tok' = um_priv_token m then 1 else 0)" for c' tok'
        by (cases c') auto
    qed (simp add: held_fds_def)
    with 2 others_changes(2) [OF 2(4)] show ?thesis by simp
  qed
next
  case (release_region m p ret s)
  then have ok: "linux_fine cfg (p_linux p)" "backed p" "quiet_fds p" by (simp_all add: process_ok_def)
  then obtain f where f: "map_of (files (p_linux p)) (um_priv_fd m) = Some f" "freed_by f = {}"
    using held_quiet(1) [OF _ release_region.hyps(1)] by blast
  have h: "my_pid (p_linux p) \<in> set (mem_holders (kern (p_linux p)) (device_index (um_priv_token m)) (resource_index (um_priv_token m)))"
    using held_claimed [OF ok(2), of "um_priv_token m" Region] release_region.hyps(1) by simp
  let ?p = "p\<lparr>p_linux := s, p_regions := remove1 m (p_regions p)\<rparr>"
  obtain n k where e: "s = advance n ((p_linux p)\<lparr>kern := k, files := filter (\<lambda>f. fst f \<noteq> um_priv_fd m) (files (p_linux p))\<rparr>)"
    "orderly_next cfg (kern (p_linux p)) k"
    "holders_kept (kern (p_linux p)) k \<or> loses Region (my_pid (p_linux p)) (um_priv_token m) (kern (p_linux p)) k"
    by (rule unmap_and_release_effect [OF ok(1) release_region.prems(1) f h release_region.hyps(2)])
  have d: "distinct (held_fds p)" using ok(3) by (simp add: quiet_fds_def)
  have "process_ok cfg ?p"
  proof (rule call_drops [OF release_region.prems(2) e(2,3)])
    show "p_linux ?p = advance n ((p_linux p)\<lparr>kern := k, files := filter (\<lambda>f. fst f \<noteq> um_priv_fd m) (files (p_linux p))\<rparr>)"
      by (simp add: e(1))
    show "distinct (held_fds ?p)" "set (held_fds ?p) = set (held_fds p) - {um_priv_fd m}"
      using held_remove1(1) [OF d release_region.hyps(1) refl, of s] by simp_all
    show "count_list (held_tokens c' ?p) tok' =
        count_list (held_tokens c' p) tok' - (if c' = Region \<and> tok' = um_priv_token m then 1 else 0)" for c' tok'
      using count_map_remove1 [OF release_region.hyps(1), of um_priv_token tok'] by (cases c') auto
  qed
  with e others_changes(1,3) show ?case by (auto simp: orderly_next_def)
next
  case (claim_event e0 g d r i copts oopts p ret e s)
  then have ok: "linux_fine cfg (p_linux p)" "kernel_serves (p_linux p)" by (simp_all add: process_ok_def)
  show ?case
  proof (cases rule: claim_and_open_effect [OF ok(1) claim_event.prems(1) ok(2) claim_event.hyps(3,2,1)])
    case (1 n k)
    with call_same [OF claim_event.prems(2) 1(3,4), of n] others_changes(4) [OF 1(4)] show ?thesis by simp
  next
    case (2 n k f)
    have "process_ok cfg (p\<lparr>p_linux := s, p_events := e # p_events p\<rparr>)"
    proof (rule call_adds [OF claim_event.prems(2) 2(3,4,5,6,7)])
      show "p_linux (p\<lparr>p_linux := s, p_events := e # p_events p\<rparr>) =
          advance n ((p_linux p)\<lparr>kern := k, files := (ue_priv_fd e, f) # files (p_linux p)\<rparr>)" by (simp add: 2(2))
      show "count_list (held_tokens c' (p\<lparr>p_linux := s, p_events := e # p_events p\<rparr>)) tok' =
          count_list (held_tokens c' p) tok' + (if c' = Event \<and> tok' = ue_priv_token e then 1 else 0)" for c' tok'
        by (cases c') auto
    qed (simp add: held_fds_def)
    with 2 others_changes(2) [OF 2(4)] show ?thesis by simp
  qed
next
  case (release_event e p ret s)
  then have ok: "linux_fine cfg (p_linux p)" "backed p" "quiet_fds p" by (simp_all add: process_ok_def)
  then obtain f where f: "map_of (files (p_linux p)) (ue_priv_fd e) = Some f" "freed_by f = {}"
    using held_quiet(2) [OF _ release_event.hyps(1)] by blast
  have h: "my_pid (p_linux p) \<in> set (event_holders (kern (p_linux p)) (device_index (ue_priv_token e)) (resource_index (ue_priv_token e)))"
    using held_claimed [OF ok(2), of "ue_priv_token e" Event] release_event.hyps(1) by simp
  let ?p = "p\<lparr>p_linux := s, p_events := remove1 e (p_events p)\<rparr>"
  obtain n k where e: "s = advance n ((p_linux p)\<lparr>kern := k, files := filter (\<lambda>f. fst f \<noteq> ue_priv_fd e) (files (p_linux p))\<rparr>)"
    "orderly_next cfg (kern (p_linux p)) k"
    "holders_kept (kern (p_linux p)) k \<or> loses Event (my_pid (p_linux p)) (ue_priv_token e) (kern (p_linux p)) k"
    by (rule close_and_release_effect [OF ok(1) release_event.prems(1) f h release_event.hyps(2)])
  have d: "distinct (held_fds p)" using ok(3) by (simp add: quiet_fds_def)
  have "process_ok cfg ?p"
  proof (rule call_drops [OF release_event.prems(2) e(2,3)])
    show "p_linux ?p = advance n ((p_linux p)\<lparr>kern := k, files := filter (\<lambda>f. fst f \<noteq> ue_priv_fd e) (files (p_linux p))\<rparr>)"
      by (simp add: e(1))
    show "distinct (held_fds ?p)" "set (held_fds ?p) = set (held_fds p) - {ue_priv_fd e}"
      using held_remove1(2) [OF d release_event.hyps(1) refl, of s] by simp_all
    show "count_list (held_tokens c' ?p) tok' =
        count_list (held_tokens c' p) tok' - (if c' = Event \<and> tok' = ue_priv_token e then 1 else 0)" for c' tok'
      using count_map_remove1 [OF release_event.hyps(1), of ue_priv_token tok'] by (cases c') auto
  qed
  with e others_changes(1,3) show ?case by (auto simp: orderly_next_def)
next
  case (wait e timeout p ret s)
  from wait_effect [OF wait.hyps] obtain n where "s = advance n (p_linux p)" .
  with call_moves_on [OF wait.prems, of n] show ?case by simp
next
  case (switch e p ret s)
  from switch_effect [OF switch.hyps] call_moves_on [OF switch.prems, of 1] show ?case by simp
next
  case (ask cmd payload p ret out s)
  then have "linux_fine cfg (p_linux p)" by (simp add: process_ok_def)
  from question_effect [OF this ask.hyps] obtain n where "s = advance n (p_linux p)" .
  with call_moves_on [OF ask.prems, of n] show ?case by simp
qed

subsection \<open>Steps of the system keep the invariant\<close>

lemma driver_orderly: "driver_step cfg k k' \<Longrightarrow> orderly_step cfg k k'"
  by (induction rule: driver_step.induct) (auto intro: orderly_step.intros)

lemma driver_keeps_holders:
  assumes "driver_step cfg k k'" "orderly cfg k"
  shows "holders_kept k k'"
  using assms
proof (induction rule: driver_step.induct)
  case (prepare p st d)
  then show ?case by (simp add: holders_kept_def mem_holders_def event_holders_def)
next
  case (manage p st d env ret st')
  note k = kernel_fineD [OF orderlyD(1) [OF manage.prems]]
  have "arrays_ok d" "holds_nothing d" using manage.hyps(3) by (simp_all add: fresh_device_def)
  from manage_outcome [OF manager_inv_table_ok [OF k(1)] k(4) manage.hyps(1,2) this, of cfg env] manage.hyps(5)
  have "but_for p st' st" by (metis option.inject prod.inject)
  from holders_but_for [OF this] show ?case by (simp add: holders_kept_def)
next
  case (remove p st env ret st')
  note k = kernel_fineD [OF orderlyD(1) [OF remove.prems]]
  note ok = manager_invD [OF k(1)]
  from remove.hyps(1) obtain n where n: "n < length (k_table st)" "k_table st ! n = Some p"
    by (auto simp: not_managed_def in_set_conv_nth)
  with ok(1) have "device_at st (int n) = Some p" by (simp add: device_at_nth table_len_def)
  with devices_registeredD [OF ok(3)] obtain d where d: "k_heap st p = Some d" "registered cfg p d" by blast
  from release_outcome [OF ok(1) k(4) d remove.hyps(1), of env] remove.hyps(3)
  have "but_for p st' st" by (metis option.inject prod.inject)
  from holders_but_for [OF this] show ?case by (simp add: holders_kept_def)
qed

lemma sync_ok:
  assumes "process_ok cfg (sync k p)" "kernel_fine cfg k'"
    and "\<And>c tok. claims_of c k' (my_pid (p_linux p)) tok = claims_of c k (my_pid (p_linux p)) tok"
  shows "process_ok cfg (sync k' p)"
proof -
  have t: "held_tokens c (sync k p) = held_tokens c p" for c k by (cases c) simp_all
  have "only_own (p_linux (sync k' p)) = only_own (p_linux (sync k p))" "quiet_fds (sync k' p) = quiet_fds (sync k p)"
    by (simp_all add: only_own_def quiet_fds_def)
  moreover have "linux_fine cfg (p_linux (sync k' p))"
    using assms(1,2) by (simp add: process_ok_def linux_fine_def sync_def)
  ultimately show ?thesis using assms(1,3) by (simp add: process_ok_def backed_def t)
qed

lemma system_okI:
  assumes "orderly cfg (sys_kern y)"
    and "\<And>pid p. sys_procs y pid = Some p \<Longrightarrow> my_pid (p_linux p) = pid \<and> process_ok cfg (sync (sys_kern y) p)"
    and "\<And>c pid tok. claims_of c (sys_kern y) pid tok \<noteq> 0 \<Longrightarrow> sys_procs y pid \<noteq> None \<or> pid \<in> sys_orphans y"
  shows "system_ok cfg y"
  using assms unfolding system_ok_def by blast

lemma system_okD:
  assumes "system_ok cfg y"
  shows "orderly cfg (sys_kern y)"
    and "sys_procs y pid = Some p \<Longrightarrow> my_pid (p_linux p) = pid \<and> process_ok cfg (sync (sys_kern y) p)"
    and "claims_of c (sys_kern y) pid tok \<noteq> 0 \<Longrightarrow> sys_procs y pid \<noteq> None \<or> pid \<in> sys_orphans y"
  using assms unfolding system_ok_def by blast+

lemma janitor_os_same: "janitor_os cfg os os = os"
  by (simp add: janitor_os_def)

lemma startup_outcome:
  assumes fine: "linux_fine cfg l" and own: "only_own l" and serves: "kernel_serves l"
    and run: "cuddl_startup ucfg (linux_posix cfg) (linux_posix cfg) l = Some (jfd, l')"
  shows "process_ok cfg \<lparr>p_linux = l', p_regions = [], p_events = []\<rparr> \<and> kern l' = kern l \<and> my_pid l' = my_pid l \<and>
    (0 \<le> jfd \<longrightarrow> pid_registered l')"
proof -
  let ?ucfg = "ucfg\<lparr>xeno := False\<rparr>"
  have run': "cuddl_startup ?ucfg (linux_posix cfg) (linux_posix cfg) l = Some (jfd, l')"
    using run unfolding cuddl_startup_def cuddli_open_janitor_def janitor_os_same .
  have "linux_fine cfg l' \<and> kernel_serves l' \<and> only_own l' \<and> kern l' = kern l \<and> my_pid l' = my_pid l \<and>
    (0 \<le> jfd \<longrightarrow> pid_registered l')"
  proof (cases rule: linux_open_cases [OF fine, of "''/dev/cuddl_janitor''"])
    case (1 e)
    then have "l' = advance 1 l" "jfd < 0"
      using run' by (simp_all add: cuddl_startup_def cuddli_open_janitor_def janitor_os_def)
    with fine_advance_only [OF fine, of 1] own serves show ?thesis by (simp add: only_own_def)
  next
    case 2
    show ?thesis
    proof (rule startup_cases [OF fine _ 2(1), of ?ucfg "linux_posix cfg"])
      show "\<not> xeno ?ucfg" by simp
    next
      fix e
      assume "ce_open (ahead l 0) = Some e"
      with 2(2) show ?thesis by simp
    next
      fix ret j
      assume j: "cuddl_startup ?ucfg (linux_posix cfg) (linux_posix cfg) l = Some (if ret < 0 then ret else lowest_fd (files l),
           advance 2 (l\<lparr>files := (lowest_fd (files l), Janitor_File j) # files l\<rparr>))"
        "linux_fine cfg (advance 2 (l\<lparr>files := (lowest_fd (files l), Janitor_File j) # files l\<rparr>))"
        "if ce_copy_in (ahead l 1) \<and> ce_kzalloc (ahead l 1) then ret = 0 \<and> private_data j = Live (my_pid l)
         else ret < 0 \<and> private_data j = Null"
      have "freed_by (Janitor_File j) \<subseteq> {my_pid l}" using j(3) by (auto split: if_splits)
      with own have "only_own (advance 2 (l\<lparr>files := (lowest_fd (files l), Janitor_File j) # files l\<rparr>))"
        by (simp add: only_own_def)
      moreover have "0 \<le> jfd \<Longrightarrow> private_data j = Live (my_pid l)" using j(1,3) run' by (simp split: if_splits)
      ultimately show ?thesis using j(1,2) run' serves by (simp add: pid_registered_def)
    qed
  qed
  moreover have "held_tokens c \<lparr>p_linux = l', p_regions = [], p_events = []\<rparr> = []" for c by (cases c) simp_all
  ultimately show ?thesis by (simp add: process_ok_def quiet_fds_def held_fds_def backed_def)
qed

lemma own_freed:
  assumes "only_own s"
  shows "my_pid s \<in> freed_with (open_fds s) (files s) \<longleftrightarrow> pid_registered s"
proof
  assume "my_pid s \<in> freed_with (open_fds s) (files s)"
  then obtain fd f where f: "(fd, f) \<in> set (files s)" "my_pid s \<in> freed_by f" by (auto simp: freed_with_def)
  with assms have "freed_by f = {my_pid s}" by (auto simp: only_own_def)
  with f(1) show "pid_registered s" by (auto simp: pid_registered_def)
next
  assume "pid_registered s"
  then obtain fd f where f: "(fd, f) \<in> set (files s)" "freed_by f = {my_pid s}" by (auto simp: pid_registered_def)
  then have "fd \<in> open_fds s" by (auto simp: open_fds_def intro: image_eqI [of _ _ "(fd, f)"])
  with f show "my_pid s \<in> freed_with (open_fds s) (files s)" by (auto simp: freed_with_def)
qed

lemma exit_outcome:
  assumes ok: "process_ok cfg p" and o: "orderly cfg (kern (p_linux p))" and run: "process_exit (p_linux p) = Some l"
  shows "orderly_next cfg (kern (p_linux p)) (kern l) \<and> others_keep (my_pid (p_linux p)) (kern (p_linux p)) (kern l) \<and>
    (\<forall>c tok. claims_of c (kern l) (my_pid (p_linux p)) tok =
       (if pid_registered (p_linux p) then 0 else claims_of c (kern (p_linux p)) (my_pid (p_linux p)) tok))"
proof -
  let ?s = "p_linux p" and ?F = "freed_with (open_fds (p_linux p)) (files (p_linux p))"
  have fine: "linux_fine cfg ?s" and own: "only_own ?s" using ok by (simp_all add: process_ok_def)
  obtain s' where x: "process_exit ?s = Some s'" "linux_fine cfg s'" "refs_exact (kern ?s) \<longrightarrow> refs_exact (kern s')"
    "mem_holders (kern s') = (\<lambda>a b. filter (\<lambda>q. q \<notin> ?F) (mem_holders (kern ?s) a b))"
    "event_holders (kern s') = (\<lambda>a b. filter (\<lambda>q. q \<notin> ?F) (event_holders (kern ?s) a b))"
    "k_shape (kern s') = k_shape (kern ?s)"
    by (rule process_exit_outcome [OF fine])
  have l: "l = s'" using run x(1) by simp
  have F: "?F \<subseteq> {my_pid ?s}" using own by (auto simp: only_own_def freed_with_def)
  have reg: "my_pid ?s \<in> ?F \<longleftrightarrow> pid_registered ?s" by (rule own_freed [OF own])
  have h: "holds c (kern s') a b = filter (\<lambda>q. q \<notin> ?F) (holds c (kern ?s) a b)" for c a b
    by (cases c) (simp_all add: x(4,5))
  have cnt: "count_list (filter P xs) q = (if P q then count_list xs q else 0)" for P xs and q :: pid_t
    by (induction xs) auto
  have "orderly_next cfg (kern ?s) (kern s')"
    using x(3,6) fineD(1) [OF x(2)] orderlyD(2) [OF o] by (intro orderly_by_shape [OF o]) (simp_all add: x(4,5))
  moreover have "q \<notin> ?F" if "q \<noteq> my_pid ?s" for q using F that by blast
  ultimately show ?thesis by (simp add: l others_keep_def claims_of_def h cnt reg)
qed

lemma system_step_keeps:
  assumes "system_step ucfg cfg y y'" "system_ok cfg y"
  shows "system_ok cfg y'"
  using assms
proof (induction rule: system_step.induct)
  case (driver y k)
  note D = system_okD [OF driver.prems]
  have k: "orderly cfg k" "holders_kept (sys_kern y) k"
    using orderly_step_keeps [OF driver_orderly [OF driver.hyps] D(1)] driver_keeps_holders [OF driver.hyps D(1)] by simp_all
  have "my_pid (p_linux p) = pid \<and> process_ok cfg (sync k p)" if "sys_procs y pid = Some p" for pid p
    using D(2) [OF that] sync_ok [OF _ orderlyD(1) [OF k(1)], of "sys_kern y" p] by (simp add: claims_kept [OF k(2)])
  with k D(3) show ?case by (simp add: system_ok_def claims_kept [OF k(2)])
next
  case (start y pid l jfd l')
  note D = system_okD [OF start.prems]
  from startup_outcome [OF start.hyps(4,6,5,7)]
  have n: "process_ok cfg \<lparr>p_linux = l', p_regions = [], p_events = []\<rparr>" "kern l' = sys_kern y" "my_pid l' = pid"
    using start.hyps(2,3) by simp_all
  then have "sync (sys_kern y) \<lparr>p_linux = l', p_regions = [], p_events = []\<rparr> = \<lparr>p_linux = l', p_regions = [], p_events = []\<rparr>"
    by (simp add: sync_def flip: n(2))
  have same: "y\<lparr>sys_kern := kern l'\<rparr> = y" by (cases y) (use n(2) in simp)
  show ?case unfolding same
  proof (rule system_okI)
    fix q p
    assume "sys_procs (y\<lparr>sys_procs := (sys_procs y)(pid \<mapsto> \<lparr>p_linux = l', p_regions = [], p_events = []\<rparr>)\<rparr>) q = Some p"
    with n D(2) \<open>sync _ _ = _\<close> show "my_pid (p_linux p) = q \<and>
        process_ok cfg (sync (sys_kern (y\<lparr>sys_procs := (sys_procs y)(pid \<mapsto> \<lparr>p_linux = l', p_regions = [], p_events = []\<rparr>)\<rparr>)) p)"
      by (auto split: if_splits)
  qed (use D(1,3) in auto)
next
  case (call y pid p p')
  note D = system_okD [OF call.prems]
  from D(2) [OF call.hyps(1)] have p: "my_pid (p_linux p) = pid" "process_ok cfg (sync (sys_kern y) p)" by simp_all
  from call_keeps [OF call.hyps(2)] D(1) p
  have c: "orderly_next cfg (sys_kern y) (kern (p_linux p'))" "process_ok cfg p'" "my_pid (p_linux p') = pid"
    "others_keep pid (sys_kern y) (kern (p_linux p'))" by simp_all
  have s: "sync (kern (p_linux p')) p' = p'" by (simp add: sync_def)
  have k: "orderly cfg (kern (p_linux p'))" using c(1) by (simp add: orderly_next_def)
  have o: "process_ok cfg (sync (kern (p_linux p')) q)" if "sys_procs y qid = Some q" "qid \<noteq> pid" for qid q
    using sync_ok [OF _ orderlyD(1) [OF k], of "sys_kern y" q] D(2) [OF that(1)] c(4) that(2) by (simp add: others_keep_def)
  have r: "sys_procs y q \<noteq> None \<or> q \<in> sys_orphans y"
    if "claims_of c' (kern (p_linux p')) q tok \<noteq> 0" "q \<noteq> pid" for c' q tok
    using that D(3) [of c' q tok] c(4) by (simp add: others_keep_def)
  show ?case
    by (rule system_okI) (use k c(2,3) s o r D(2) in \<open>auto split: if_splits\<close>)
next
  case (finish y pid p l)
  note D = system_okD [OF finish.prems]
  from D(2) [OF finish.hyps(1)] have p: "my_pid (p_linux p) = pid" "process_ok cfg (sync (sys_kern y) p)" by simp_all
  have reg: "pid_registered (p_linux (sync (sys_kern y) p)) = pid_registered (p_linux p)" by (simp add: pid_registered_def)
  from exit_outcome [OF p(2) _ finish.hyps(2)] D(1) p(1)
  have c: "orderly_next cfg (sys_kern y) (kern l)" "others_keep pid (sys_kern y) (kern l)"
    "claims_of c tok' pid tok = claims_of c tok' pid tok"
    "pid_registered (p_linux p) \<Longrightarrow> claims_of c (kern l) pid tok = 0" for c tok tok'
    by (simp_all add: reg)
  have k: "orderly cfg (kern l)" using c(1) by (simp add: orderly_next_def)
  have o: "process_ok cfg (sync (kern l) q)" if "sys_procs y qid = Some q" "qid \<noteq> pid" for qid q
    using sync_ok [OF _ orderlyD(1) [OF k], of "sys_kern y" q] D(2) [OF that(1)] c(2) that(2) by (simp add: others_keep_def)
  have r: "q \<noteq> pid \<and> (sys_procs y q \<noteq> None \<or> q \<in> sys_orphans y) \<or> q = pid \<and> \<not> pid_registered (p_linux p)"
    if "claims_of c' (kern l) q tok \<noteq> 0" for c' q tok
    using that D(3) [of c' q tok] c(2) c(4) [of c' tok] by (cases "q = pid") (auto simp: others_keep_def)
  show ?case
  proof (rule system_okI)
    fix c q tok
    assume "claims_of c (sys_kern (y\<lparr>sys_kern := kern l, sys_procs := (sys_procs y)(pid := None),
      sys_orphans := if pid_registered (p_linux p) then sys_orphans y else insert pid (sys_orphans y)\<rparr>)) q tok \<noteq> 0"
    then have "claims_of c (kern l) q tok \<noteq> 0" by simp
    from r [OF this] show "sys_procs (y\<lparr>sys_kern := kern l, sys_procs := (sys_procs y)(pid := None),
        sys_orphans := if pid_registered (p_linux p) then sys_orphans y else insert pid (sys_orphans y)\<rparr>) q \<noteq> None \<or>
      q \<in> sys_orphans (y\<lparr>sys_kern := kern l, sys_procs := (sys_procs y)(pid := None),
        sys_orphans := if pid_registered (p_linux p) then sys_orphans y else insert pid (sys_orphans y)\<rparr>)"
      by auto
  qed (use k o D(2) in \<open>auto split: if_splits\<close>)
qed

lemma system_run_ok: "(system_step ucfg cfg)\<^sup>*\<^sup>* y y' \<Longrightarrow> system_ok cfg y \<Longrightarrow> system_ok cfg y'"
  by (induction rule: rtranclp_induct) (simp_all add: system_step_keeps)

lemma system_start_ok: "system_ok cfg (no_processes (empty_kstate heap))"
proof -
  have "claims_of c (empty_kstate heap) pid tok = 0" for c pid tok
    by (cases c) (simp_all add: claims_of_def mem_holders_def event_holders_def holders_of_def)
  then show ?thesis using orderly_empty [of cfg heap] by (simp add: system_ok_def no_processes_def)
qed

end
