(* ===== verification/System_Properties.thy ===== *)
theory System_Properties
  imports System_Runs
begin

section \<open>What the whole system guarantees\<close>

text \<open>
  Over all runs of drivers and processes on one kernel: how many structures of the library, in
  all processes together, can stand for one resource, and what is left when they are gone.
\<close>

text \<open>The structures that stand for a resource: the process, and the position in its list.\<close>

definition holdings :: "kind \<Rightarrow> system \<Rightarrow> cuddlci_token \<Rightarrow> (pid_t \<times> nat) set" where
  "holdings c y tok = {(pid, n). \<exists>p. sys_procs y pid = Some p \<and> n < length (held_tokens c p) \<and> held_tokens c p ! n = tok}"

fun resource_flags :: "kind \<Rightarrow> kstate \<Rightarrow> cuddlci_token \<Rightarrow> c_int option" where
  "resource_flags Region k tok = mem_flags_at k (device_index tok) (resource_index tok)"
| "resource_flags Event k tok = event_flags_at k (device_index tok) (resource_index tok)"

fun shared_flag :: "kind \<Rightarrow> c_int" where
  "shared_flag Region = CUDDLK_MEMF_SHARED"
| "shared_flag Event = CUDDLK_EVENTSRCF_SHARED"

fun ref_count_at :: "kind \<Rightarrow> kstate \<Rightarrow> cuddlci_token \<Rightarrow> c_int option" where
  "ref_count_at Region k tok = do { p \<leftarrow> device_at k (device_index tok); memregion_count k p (resource_index tok) }"
| "ref_count_at Event k tok = do { p \<leftarrow> device_at k (device_index tok); eventsrc_count k p (resource_index tok) }"

lemma positions_count: "card {n. n < length xs \<and> xs ! n = x} = count_list xs x"
  by (simp add: count_list_eq_length_filter length_filter_conv_card eq_commute)

lemma holdings_card:
  assumes "system_ok cfg y"
  shows "finite (holdings c y tok) \<and>
    card (holdings c y tok) \<le> length (holds c (sys_kern y) (device_index tok) (resource_index tok))"
proof -
  let ?hs = "holds c (sys_kern y) (device_index tok) (resource_index tok)"
  define at where "at pid = {n. \<exists>p. sys_procs y pid = Some p \<and> n < length (held_tokens c p) \<and> held_tokens c p ! n = tok}" for pid
  have fin: "finite (at pid)" for pid by (cases "sys_procs y pid") (simp_all add: at_def)
  have le: "card (at pid) \<le> count_list ?hs pid" for pid
  proof (cases "sys_procs y pid")
    case (Some p)
    with system_okD(2) [OF assms Some] have "backed (sync (sys_kern y) p)" "my_pid (p_linux p) = pid" by (simp_all add: process_ok_def)
    moreover have "held_tokens c (sync (sys_kern y) p) = held_tokens c p" by (cases c) simp_all
    ultimately have "count_list (held_tokens c p) tok \<le> count_list ?hs pid" by (metis backed_def claims_of_def sync_simps(1,3))
    with Some show ?thesis by (simp add: at_def positions_count)
  qed (simp add: at_def)
  have "pid \<in> set ?hs" if "n \<in> at pid" for pid n
  proof -
    from that fin [of pid] have "card (at pid) \<noteq> 0" by (auto simp: card_eq_0_iff)
    with le [of pid] have "count_list ?hs pid \<noteq> 0" by linarith
    then show ?thesis by (simp add: count_list_0_iff)
  qed
  then have "Sigma UNIV at = Sigma (set ?hs) at" by blast
  moreover have "holdings c y tok = Sigma UNIV at" by (simp add: holdings_def at_def Sigma_def set_eq_iff)
  moreover have "card (Sigma (set ?hs) at) = (\<Sum>pid \<in> set ?hs. card (at pid))"
    using fin by (simp add: card_SigmaI)
  moreover have "\<dots> \<le> (\<Sum>pid \<in> set ?hs. count_list ?hs pid)" by (rule sum_mono) (rule le)
  moreover have "(\<Sum>pid \<in> set ?hs. count_list ?hs pid) = length ?hs" by (rule sum_count_set) simp_all
  ultimately show ?thesis using fin by simp
qed

lemma held_resource:
  assumes "orderly cfg k" "holds c k (device_index tok) (resource_index tok) \<noteq> []"
  shows "resource_flags c k tok \<noteq> None \<and>
    ref_count_at c k tok = Some (int (length (holds c k (device_index tok) (resource_index tok))))"
proof -
  note o = orderlyD(2) [OF assms(1)] and inv = manager_invD [OF kernel_fineD(1) [OF orderlyD(1) [OF assms(1)]]]
  show ?thesis
  proof (cases c)
    case Region
    with assms(2) have "count_where (tok_at (device_index tok) (resource_index tok)) (cuddlk_mem_refs k) \<noteq> 0"
      by (simp add: mem_holders_def length_holders_of flip: length_0_conv)
    then obtain r where "r \<in> set (cuddlk_mem_refs k)" "tok_at (device_index tok) (resource_index tok) r"
      by (auto simp: count_where_def filter_empty_conv)
    with inv(4) obtain p n where p: "device_at k (device_index tok) = Some p" "memregion_count k p (resource_index tok) = Some n"
      by (fastforce simp: refs_ok_def refs_placed_def tok_at_def)
    with o Region show ?thesis
      by (auto simp: refs_exact_def counts_exact_def mem_holders_def length_holders_of mem_flags_at_def memregion_count_def)
  next
    case Event
    with assms(2) have "count_where (tok_at (device_index tok) (resource_index tok)) (cuddlk_event_refs k) \<noteq> 0"
      by (simp add: event_holders_def length_holders_of flip: length_0_conv)
    then obtain r where "r \<in> set (cuddlk_event_refs k)" "tok_at (device_index tok) (resource_index tok) r"
      by (auto simp: count_where_def filter_empty_conv)
    with inv(4) obtain p n where p: "device_at k (device_index tok) = Some p" "eventsrc_count k p (resource_index tok) = Some n"
      by (fastforce simp: refs_ok_def refs_placed_def tok_at_def)
    with o Event show ?thesis
      by (auto simp: refs_exact_def counts_exact_def event_holders_def length_holders_of event_flags_at_def eventsrc_count_def)
  qed
qed

lemma orderly_exclusive:
  assumes "orderly cfg k" "resource_flags c k tok = Some f" "\<not> has_flag f (shared_flag c)"
  shows "length (holds c k (device_index tok) (resource_index tok)) \<le> 1"
  using assms orderlyD(3,4) [OF assms(1)] by (cases c) (auto simp: exclusive_def)

lemma reached_ok:
  "(system_step ucfg cfg)\<^sup>*\<^sup>* (no_processes (empty_kstate heap)) y \<Longrightarrow> system_ok cfg y"
  by (rule system_run_ok [OF _ system_start_ok])

lemma device_can_leave:
  assumes o: "orderly cfg k" and none: "\<And>c a b. holds c k a b = []" and p: "device_at k a = Some p"
  obtains ret k' where "cuddlk_device_release cfg env p k = Some (ret, k')" "orderly cfg k'" "device_at k' a = None"
proof -
  note kf = kernel_fineD [OF orderlyD(1) [OF o]]
  note ok = manager_invD [OF kf(1)]
  from devices_registeredD [OF ok(3) p] obtain d where d: "k_heap k p = Some d" "registered cfg p d" by blast
  have m: "\<not> not_managed p k" using p not_managed_at by blast
  have "cuddlk_mem_refs k = []" "cuddlk_event_refs k = []"
  proof -
    have "r \<notin> set (cuddlk_mem_refs k)" "r \<notin> set (cuddlk_event_refs k)" for r
      using none [of Region "device_index (ref_token r)" "resource_index (ref_token r)"]
        none [of Event "device_index (ref_token r)" "resource_index (ref_token r)"]
      by (auto simp: mem_holders_def event_holders_def holders_of_def filter_empty_conv tok_at_def)
    then show "cuddlk_mem_refs k = []" "cuddlk_event_refs k = []" by (metis list.set_intros(1) neq_Nil_conv)+
  qed
  then have u: "unreferenced p k" by (simp add: unreferenced_def)
  obtain i k' where r: "cuddlk_device_release cfg env p k = Some (if use_udd cfg then udd_unregister_ret env else 0, k')"
    "\<not> k_locked k'" "but_for p k' k" "i < CUDDLK_MAX_MANAGED_DEVICES" "k_table k ! i = Some p" "k_table k' = (k_table k)[i := None]"
    using release_outcome [OF ok(1) kf(4) d m, of env] by metis
  from device_at_nth [OF ok(1) r(4)] r(5) have "device_at k (int i) = Some p" by simp
  from device_at_inj [OF ok(2) p this] have "a = int i" .
  with device_at_update [OF ok(1) r(4,6)] have "device_at k' a = None" by simp
  with that [OF r(1) orderly_remove [OF o m u r(1)]] show thesis .
qed

subsection \<open>Properties\<close>

text \<open>C3: what is not shared is used once. In every state that drivers and processes reach, in any
  interleaving of their calls and with any results, all processes together have at most
  one structure for a region (mapped) or an event source (open) that its driver did not declare
  shared.\<close>

theorem unshared_is_used_once:
  assumes "(system_step ucfg cfg)\<^sup>*\<^sup>* (no_processes (empty_kstate heap)) y"
    and "resource_flags c (sys_kern y) tok = Some f" "\<not> has_flag f (shared_flag c)"
  shows "\<exists>x. holdings c y tok \<subseteq> {x}"
proof -
  note ok = reached_ok [OF assms(1)]
  from holdings_card [OF ok, of c tok] orderly_exclusive [OF system_okD(1) [OF ok] assms(2,3)]
  have "finite (holdings c y tok)" "card (holdings c y tok) \<le> Suc 0" by simp_all
  then have "\<forall>x \<in> holdings c y tok. \<forall>x' \<in> holdings c y tok. x = x'" by (simp add: card_le_Suc0_iff_eq)
  then show ?thesis by blast
qed

text \<open>C4: structures do not dangle. Whatever structure a process has for a region or an event
  source, the resource of its token is still there, and the reference count that the manager keeps
  for it is at least the number of structures of all processes for it; so a driver that looks
  at the references never removes a device that is in use.\<close>

theorem structures_never_dangle:
  assumes "(system_step ucfg cfg)\<^sup>*\<^sup>* (no_processes (empty_kstate heap)) y"
    and "sys_procs y pid = Some p" "tok \<in> set (held_tokens c p)"
  shows "resource_flags c (sys_kern y) tok \<noteq> None \<and> finite (holdings c y tok) \<and> holdings c y tok \<noteq> {} \<and>
    (\<exists>n. ref_count_at c (sys_kern y) tok = Some n \<and> int (card (holdings c y tok)) \<le> n)"
proof -
  note ok = reached_ok [OF assms(1)]
  from assms(3) obtain n where "n < length (held_tokens c p)" "held_tokens c p ! n = tok" by (auto simp: in_set_conv_nth)
  with assms(2) have "(pid, n) \<in> holdings c y tok" by (simp add: holdings_def)
  moreover note card = holdings_card [OF ok, of c tok]
  ultimately have "card (holdings c y tok) \<noteq> 0" by (auto simp: card_eq_0_iff)
  with card have "holds c (sys_kern y) (device_index tok) (resource_index tok) \<noteq> []" by auto
  from held_resource [OF system_okD(1) [OF ok] this] card \<open>(pid, n) \<in> _\<close> show ?thesis by auto
qed

text \<open>C5: when everybody is gone, everything is free. When all processes that were registered with
  the janitor have ended and there were no others, nobody holds anything, and every driver can
  remove its device, which leaves the kernel in order and the slot empty.\<close>

theorem all_ended_all_free:
  assumes "(system_step ucfg cfg)\<^sup>*\<^sup>* (no_processes (empty_kstate heap)) y"
    and "sys_procs y = (\<lambda>_. None)" "sys_orphans y = {}"
  shows "(\<forall>c a b. holds c (sys_kern y) a b = []) \<and>
    (\<forall>a p env. device_at (sys_kern y) a = Some p \<longrightarrow>
       (\<exists>ret k. cuddlk_device_release cfg env p (sys_kern y) = Some (ret, k) \<and> orderly cfg k \<and> device_at k a = None))"
proof -
  note ok = reached_ok [OF assms(1)]
  have none: "holds c (sys_kern y) a b = []" for c a b
  proof (rule ccontr)
    assume "holds c (sys_kern y) a b \<noteq> []"
    then obtain pid where "pid \<in> set (holds c (sys_kern y) a b)" by (cases "holds c (sys_kern y) a b") auto
    then have "claims_of c (sys_kern y) pid \<lparr>device_index = a, resource_index = b\<rparr> \<noteq> 0"
      by (simp add: claims_of_def count_list_0_iff)
    from system_okD(3) [OF ok this] assms(2,3) show False by simp
  qed
  show ?thesis
    using none device_can_leave [OF system_okD(1) [OF ok] none] by metis
qed

subsection \<open>A sample run\<close>

text \<open>The driver of the sample device enters it; process 42 starts, maps the region, and ends.\<close>

abbreviation sample_entered :: system where
  "sample_entered \<equiv> no_processes sample_state"

abbreviation sample_running :: system where
  "sample_running \<equiv> sample_entered\<lparr>sys_procs := (sys_procs sample_entered)(42 \<mapsto> sample_process)\<rparr>"

lemma sample_to_running: "(system_step sample_ucfg sample_cfg)\<^sup>*\<^sup>* (no_processes (empty_kstate sample_heap)) sample_running"
proof -
  have "resources_named sample_cfg sample_device"
    by (simp add: resources_named_def sample_device_def sample_cfg_def CUDDLK_MAX_DEV_MEM_REGIONS_def
        zero_memregion_def eval_nat_numeral)
  then have "driver_step sample_cfg (empty_kstate sample_heap) sample_state"
    by (intro driver_step.manage [OF _ _ fresh_sample _ sample_state_facts(1)]) simp_all
  from system_step.driver [of sample_cfg "no_processes (empty_kstate sample_heap)" sample_state sample_ucfg] this
  have 1: "system_step sample_ucfg sample_cfg (no_processes (empty_kstate sample_heap)) sample_entered"
    by (simp add: no_processes_def)
  let ?l = "sample_linux (\<lambda>_. good_call) sample_state"
  have "kernel_serves ?l" "only_own ?l" by (simp_all add: kernel_serves_def only_own_def good_call_def quiet_env_def)
  from system_step.start [where y = sample_entered and pid = 42, OF _ _ _ sample_start_hyps(1) this sample_startup]
  have "system_step sample_ucfg sample_cfg sample_entered sample_running" by (simp add: no_processes_def)
  with 1 show ?thesis by (rule converse_rtranclp_into_rtranclp [OF _ r_into_rtranclp])
qed

lemma sample_sync: "sync sample_state sample_process = sample_process"
  using kern_same [of sample_started] by (simp add: sync_def)

lemma sample_claim_shape:
  assumes c: "cuddl_memregion_claim_and_map sample_ucfg (linux_posix sample_cfg) sample_region
      (Some ''mfg'') (Some ''card'') (Some ''regs'') 1 0 0 sample_started = Some (0, m, s)"
    and h: "mem_holders (kern s) 0 0 = [42]"
  shows "um_priv_token m = \<lparr>device_index = 0, resource_index = 0\<rparr> \<and> k_shape (kern s) = k_shape sample_state \<and> pid_registered s"
proof -
  have ok: "system_ok sample_cfg sample_running" by (rule reached_ok [OF sample_to_running])
  then have o: "orderly sample_cfg (kern sample_started)" using system_okD(1) [OF ok] by (simp add: no_processes_def)
  have fine: "linux_fine sample_cfg sample_started" "kernel_serves sample_started"
    using system_okD(2) [OF ok, of 42 sample_process] sample_sync by (simp_all add: process_ok_def no_processes_def)
  have room: "refs_room (kern sample_started)" "\<not> has_flag 0 CUDDL_MEM_CLAIMF_HOSTILE" using sample_room by simp_all
  show ?thesis
  proof (cases rule: claim_and_map_effect [OF fine(1) o fine(2) room c])
    case (2 n k f)
    then have k: "kern s = k" "k_shape k = k_shape sample_state"
      "mem_holders k = set_holders (device_index (um_priv_token m)) (resource_index (um_priv_token m)) [42] (\<lambda>_ _. [])"
      by (simp_all add: orderly_next_def change_defs sample_no_holders)
    with h have "device_index (um_priv_token m) = 0" "resource_index (um_priv_token m) = 0"
      by (auto simp: set_holders_def split: if_splits)
    moreover have "pid_registered s" using 2(2) by (simp add: pid_registered_def)
    ultimately show ?thesis using k by (cases "um_priv_token m") simp
  qed simp
qed

lemma sample_mapped:
  obtains m s where
    "(system_step sample_ucfg sample_cfg)\<^sup>*\<^sup>* (no_processes (empty_kstate sample_heap))
       \<lparr>sys_kern = kern s, sys_procs = (\<lambda>_. None)(42 \<mapsto> \<lparr>p_linux = s, p_regions = [m], p_events = []\<rparr>), sys_orphans = {}\<rparr>"
    "um_priv_token m = \<lparr>device_index = 0, resource_index = 0\<rparr>" "k_shape (kern s) = k_shape sample_state"
    "pid_registered s" "my_pid s = 42"
proof (rule sample_claim_and_map)
  fix m s
  assume h: "mem_holders (kern s) 0 0 = [42]" "my_pid s = 42"
    and c: "cuddl_memregion_claim_and_map sample_ucfg (linux_posix sample_cfg) sample_region
       (Some ''mfg'') (Some ''card'') (Some ''regs'') 1 0 0 sample_started = Some (0, m, s)"
  have "process_call sample_ucfg sample_cfg sample_process \<lparr>p_linux = s, p_regions = [m], p_events = []\<rparr>"
    using process_call.claim_region [of sample_ucfg sample_cfg sample_region _ _ _ _ 0 0 sample_process 0 m s] c sample_room
    by simp
  with system_step.call [of sample_running 42 sample_process sample_ucfg sample_cfg] sample_sync
  have "system_step sample_ucfg sample_cfg sample_running
      \<lparr>sys_kern = kern s, sys_procs = (\<lambda>_. None)(42 \<mapsto> \<lparr>p_linux = s, p_regions = [m], p_events = []\<rparr>), sys_orphans = {}\<rparr>"
    by (fastforce simp: no_processes_def)
  moreover have "um_priv_token m = \<lparr>device_index = 0, resource_index = 0\<rparr> \<and> k_shape (kern s) = k_shape sample_state \<and> pid_registered s"
    using sample_claim_shape [OF c] h(1) .
  ultimately show thesis using sample_to_running h(2) that [of s m] by (simp add: rtranclp.rtrancl_into_rtrancl)
qed

lemma sample_flags: "k_shape k = k_shape sample_state \<Longrightarrow> resource_flags Region k \<lparr>device_index = 0, resource_index = 0\<rparr> = Some 0"
  using sample_lookup lookup_flags(1) [OF sample_state_facts(2)] flags_shape(1) [of k sample_state] by force

theorem unshared_is_used_once_witness:
  "\<exists>y. (system_step sample_ucfg sample_cfg)\<^sup>*\<^sup>* (no_processes (empty_kstate sample_heap)) y \<and>
    holdings Region y \<lparr>device_index = 0, resource_index = 0\<rparr> = {(42, 0)}"
proof (rule sample_mapped)
  fix s m
  let ?y = "\<lparr>sys_kern = kern s, sys_procs = (\<lambda>_. None)(42 \<mapsto> \<lparr>p_linux = s, p_regions = [m], p_events = []\<rparr>), sys_orphans = {}\<rparr>"
  assume run: "(system_step sample_ucfg sample_cfg)\<^sup>*\<^sup>* (no_processes (empty_kstate sample_heap)) ?y"
    and m: "um_priv_token m = \<lparr>device_index = 0, resource_index = 0\<rparr>" "k_shape (kern s) = k_shape sample_state"
  have "(42, 0) \<in> holdings Region ?y \<lparr>device_index = 0, resource_index = 0\<rparr>" using m(1) by (simp add: holdings_def)
  moreover have "\<exists>x. holdings Region ?y \<lparr>device_index = 0, resource_index = 0\<rparr> \<subseteq> {x}"
    by (rule unshared_is_used_once [OF run, of _ _ 0]) (use sample_flags [OF m(2)] in simp_all)
  ultimately show ?thesis using run by blast
qed

theorem structures_never_dangle_witness:
  "\<exists>y n. holdings Region y \<lparr>device_index = 0, resource_index = 0\<rparr> \<noteq> {} \<and>
    ref_count_at Region (sys_kern y) \<lparr>device_index = 0, resource_index = 0\<rparr> = Some n \<and> 1 \<le> n"
proof (rule sample_mapped)
  fix s m
  let ?y = "\<lparr>sys_kern = kern s, sys_procs = (\<lambda>_. None)(42 \<mapsto> \<lparr>p_linux = s, p_regions = [m], p_events = []\<rparr>), sys_orphans = {}\<rparr>"
  assume run: "(system_step sample_ucfg sample_cfg)\<^sup>*\<^sup>* (no_processes (empty_kstate sample_heap)) ?y"
    and m: "um_priv_token m = \<lparr>device_index = 0, resource_index = 0\<rparr>"
  let ?h = "holdings Region ?y (um_priv_token m)"
  from structures_never_dangle [OF run, of 42 _ "um_priv_token m" Region] m obtain n where
    h: "finite ?h" "?h \<noteq> {}" and n: "ref_count_at Region (sys_kern ?y) (um_priv_token m) = Some n" "int (card ?h) \<le> n"
    by (auto simp del: ref_count_at.simps)
  from h have "0 < card ?h" by (simp add: card_gt_0_iff)
  with n(2) have "1 \<le> n" by linarith
  with h(2) n(1) have "?h \<noteq> {} \<and> ref_count_at Region (sys_kern ?y) (um_priv_token m) = Some n \<and> 1 \<le> n" by blast
  then show ?thesis unfolding m by blast
qed

theorem all_ended_all_free_witness:
  "\<exists>k ret k'. device_at k 0 = Some 1 \<and> mem_holders k 0 0 = [] \<and>
    cuddlk_device_release sample_cfg sample_env 1 k = Some (ret, k') \<and> device_at k' 0 = None"
proof (rule sample_mapped)
  fix s m
  let ?p = "\<lparr>p_linux = s, p_regions = [m], p_events = []\<rparr>"
  let ?y = "\<lparr>sys_kern = kern s, sys_procs = (\<lambda>_. None)(42 \<mapsto> ?p), sys_orphans = {}\<rparr>"
  assume run: "(system_step sample_ucfg sample_cfg)\<^sup>*\<^sup>* (no_processes (empty_kstate sample_heap)) ?y"
    and s: "k_shape (kern s) = k_shape sample_state" "pid_registered s"
  from system_okD(2) [OF reached_ok [OF run], of 42 ?p] have ok: "process_ok sample_cfg ?p" by (simp add: sync_def)
  then have "linux_fine sample_cfg s" by (simp add: process_ok_def)
  then obtain l where l: "process_exit s = Some l" "k_shape (kern l) = k_shape (kern s)" by (rule process_exit_outcome) blast
  let ?z = "\<lparr>sys_kern = kern l, sys_procs = (\<lambda>_. None), sys_orphans = {}\<rparr>"
  have "system_step sample_ucfg sample_cfg ?y ?z"
    using system_step.finish [of ?y 42 ?p l sample_ucfg sample_cfg] l(1) s(2) by (simp add: sync_def)
  with run have "(system_step sample_ucfg sample_cfg)\<^sup>*\<^sup>* (no_processes (empty_kstate sample_heap)) ?z" by simp
  from all_ended_all_free [OF this] have "\<forall>c a b. holds c (kern l) a b = []"
    "\<forall>a p env. device_at (kern l) a = Some p \<longrightarrow> (\<exists>ret k. cuddlk_device_release sample_cfg env p (kern l) = Some (ret, k) \<and>
       orderly sample_cfg k \<and> device_at k a = None)" by simp_all
  moreover have "device_at (kern l) 0 = Some 1"
    using k_shape_device_at [OF trans [OF l(2) s(1)]] sample_device_at by simp
  ultimately show ?thesis by (metis holds.simps(1))
qed

end
