(* ===== verification/Spec2Isabelle.thy ===== *)
theory Spec2Isabelle
  imports Event_Delivery Module_Init User_Properties Process_Life Kernel_Runs Cpp_Properties Io_Properties Event_Properties
    System_Properties
begin

text \<open>
  Cuddl gives user-space programs access to the memory regions and interrupts of hardware
  devices. A kernel driver fills in a device structure and hands it to the manager; a
  user-space process asks the manager, through a character device, for a resource by name,
  maps the region or waits for the interrupt through UIO (Linux) or UDD (Xenomai), and
  gives the resource back; a second character device, the janitor, gives back what a process
  holds when it ends.

  Parts of the program and the theories that model them. Each operation is a definition with
  the name of the C function.

  \<^item> \<open>Prelude\<close>, \<open>C_Strings\<close>: C integers, pointers, arrays, error numbers and the string
    functions of the C library. Undefined behaviour is \<open>None\<close>.
  \<^item> \<open>Common_Types\<close>: the headers of \<^verbatim>\<open>src/common/include/cuddl\<close>, with the data and the number of
    every IOCTL. \<open>Kernel_Types\<close>: the structures of \<^verbatim>\<open>src/kernel/include/cuddlk\<close> and the
    global state of the kernel modules, \<open>kstate\<close>: a heap of devices, the manager's table and
    mutex, and the two lists of references.
  \<^item> \<open>Kernel_Common\<close> (\<^verbatim>\<open>cuddlk_common.c\<close>), \<open>Manager_Table\<close> and \<open>Device_Lifecycle\<close>
    (\<^verbatim>\<open>cuddlk_manager_common.c\<close>), \<open>Device_Registration\<close> and \<open>Event_Delivery\<close> (\<^verbatim>\<open>cuddlk_linux.c\<close>):
    searches, the table, managing and releasing a device, registration with UIO and UDD,
    interrupts and notifications.
  \<^item> \<open>Ref_Counting\<close> and \<open>Manager_Ioctl\<close> (\<^verbatim>\<open>cuddlk_manager_linux.c\<close>): claims, releases, the
    clean-up of a process and the IOCTL handler, one definition per group of commands.
    \<open>Janitor\<close> and \<open>Module_Init\<close> (also \<^verbatim>\<open>cuddlk_janitor_linux.c\<close>): the janitor's file operations,
    loading and unloading of both modules.
  \<^item> \<open>User_Types\<close>, \<open>User_Resources\<close>, \<open>User_Queries\<close> (\<^verbatim>\<open>src/user/src/cuddl_linux.c\<close>): the
    user-space library over a record \<open>'s posix\<close> of the system calls it makes.
  \<^item> \<open>Cpp_Values\<close> (\<^verbatim>\<open>utility.hpp\<close>, \<^verbatim>\<open>general.hpp\<close>, \<^verbatim>\<open>version.hpp\<close>), \<open>Cpp_Objects\<close> (\<^verbatim>\<open>memregion.hpp\<close>,
    \<^verbatim>\<open>eventsrc.hpp\<close>) and \<open>Cpp_Queries\<close> (\<^verbatim>\<open>manager.hpp\<close>): the C++ classes over the library; a
    method \<^verbatim>\<open>C::m\<close> is \<open>C_m\<close>, an exception is the left side of a sum.
  \<^item> \<open>Io_Memory\<close> (\<^verbatim>\<open>iomem.h\<close> of both sides, \<^verbatim>\<open>iomem.hpp\<close>, the accessors of \<^verbatim>\<open>memregion.h\<close> and
    \<^verbatim>\<open>memregion.hpp\<close>): reads and writes of device registers over a record \<open>'s io_bus\<close>, which
    moves bytes between the processor and an address. \<open>Address_Space\<close>: the address space of a
    process and what \<^verbatim>\<open>mmap\<close> of a UIO device file makes visible in it.
  \<^item> \<open>Event_Files\<close>: the event counters that UIO keeps for a device and its open files, the system
    calls on them, which run the module's open, release and switch functions, and the signals of
    driver and hardware, which run its notification and its interrupt handlers.
  \<^item> \<open>Linux_System\<close>: the composition, a process whose \<^verbatim>\<open>open\<close>, \<^verbatim>\<open>ioctl\<close> and \<^verbatim>\<open>close\<close> run the
    handlers of the kernel modules on one \<open>kstate\<close>.

  Interfaces. \<open>slot_table\<close> (the manager's table), \<open>ref_counted\<close> (the protocol of a counted
  resource, interpreted for regions and for event sources), \<open>kernel_module\<close> (load and unload,
  interpreted for both modules), \<open>posix_files\<close> and \<open>small_files\<close> (what the library relies on
  the system for). The last two are interpreted on \<open>Linux_System\<close> twice: as it is (\<open>Linux_Process\<close>),
  and with the janitor's file hidden and its registration added to the invariant
  (\<open>Process_Life\<close>), which shows that no function of the library touches that file.
  \<open>claiming_files\<close> extends \<open>small_files\<close> with what the C++ objects need, and is interpreted on
  \<open>Linux_System\<close> in \<open>Cpp_Properties\<close>. \<open>io_memory\<close> (a bus that behaves as plain memory) is
  interpreted on the address space of a process in \<open>Io_Memory\<close>; \<open>device_memory\<close> extends
  \<open>posix_files\<close> with what \<^verbatim>\<open>mmap\<close> and \<^verbatim>\<open>munmap\<close> do to the address space, and is interpreted on
  \<open>Linux_System\<close> with an address space in \<open>Address_Space\<close>. \<open>event_waits\<close> extends \<open>small_files\<close> with
  what reads and polls of an event counter return; both are interpreted on \<open>Linux_System\<close> with the
  counters of UIO, in \<open>Event_Counts\<close> and \<open>Event_Properties\<close>.

  What the lemmas show.

  \<^item> \<open>Device_Lifecycle\<close>, \<open>Ioctl_Safety\<close>, \<open>Ioctl_Frame\<close>: the invariant \<open>manager_inv\<close> and that every
    operation is defined on it and keeps it.
  \<^item> \<open>Ioctl_Semantics\<close>, \<open>Ioctl_Properties\<close>: the abstract view, a table of holders per resource, and
    that claims, releases and the clean-up implement it while counts are exact; the error
    paths; the requests after which counts and references disagree.
  \<^item> \<open>Kernel_Runs\<close>: reachable states of the kernel modules; mutual exclusion on resources that
    are not shared.
  \<^item> \<open>User_Discipline\<close>, \<open>Linux_Process\<close>, \<open>End_To_End\<close>, \<open>Linux_Properties\<close>, \<open>User_Properties\<close>: the
    library as such and over the kernel: descriptors, names, claims end to end, failures, waits.
  \<^item> \<open>Cpp_Text\<close>: full names and their round trip, versions, durations, flags, commits.
    \<open>Cpp_Lifetime\<close>, \<open>Cpp_Properties\<close>: constructors as claims, destructors as releases, blocks with
    local objects under exceptions.
  \<^item> \<open>Region_Geometry\<close>: what registration makes of the lengths of a region, when the region fits
    into the pages that are mapped for it, and that UIO is told what the manager hands out.
    \<open>Io_Properties\<close>: from the driver's description to the bytes that an accessor reaches, shared
    regions, accesses after unmapping, byte order.
  \<^item> \<open>Managed_Devices\<close>: what holds of every managed device, and what managing one more has to show;
    used by \<open>Region_Geometry\<close> and by \<open>Event_Wiring\<close> (interrupt and callbacks as registration sets
    them). \<open>Open_Counts\<close>, \<open>Event_Counts\<close>: the count of readers in the kernel is the number of open
    files, whatever calls a process makes. \<open>Event_Claims\<close>, \<open>Event_Properties\<close>: from the claim of
    an event source by name to the wait that returns after an event.
  \<^item> \<open>Process_End\<close>, \<open>Process_Life\<close>: start and end of a process and whole runs in between.
  \<^item> \<open>Shared_Kernel\<close>: what each call of the library does to the holders that all processes share,
    with every result of every system call on its way. \<open>System_Runs\<close>: drivers and any number of
    processes on one kernel, whose calls interleave in any order, as the step relation
    \<open>system_step\<close>, with the invariant that every structure of a process is backed by a claim of
    its own. \<open>System_Properties\<close>: exclusive use of what is not shared, structures that do not
    dangle, and what is left when all processes have ended.

  Bounds. Arrays have the sizes of the headers. The lists of references are kept below
  \<open>2\<^sup>3\<^sup>1 - 1\<close> entries (\<open>refs_few\<close>), so that an \<^verbatim>\<open>int\<close> can count them; the composed system
  cannot allocate beyond that. A process has at most \<open>FD_SETSIZE\<close> descriptors, the usual limit.
  No definition needs fuel: every loop of the program is bounded and is a structural
  recursion or a search over the slots.

  Assumed of code outside the repository: what kernel services leave behind when they succeed
  (\<open>reg_env\<close>, \<open>init_env\<close>), \<^verbatim>\<open>copy_from_user\<close>, \<^verbatim>\<open>copy_to_user\<close> and \<^verbatim>\<open>kzalloc\<close> succeed or fail as the
  environment says, a driver's callbacks return a number. A theorem holds for all of these
  environments unless it names one. The runs of \<open>System_Runs\<close> take place on a kernel that can
  allocate the entry of a granted claim and copy its result to the user (\<open>kernel_serves\<close>; what
  happens otherwise is in \<open>Ioctl_Properties\<close>), with drivers that do not remove a device that is
  referenced and processes that do not use the hostile option; what happens otherwise is in
  \<open>Janitor\<close> and \<open>Ioctl_Properties\<close>.

  Of the C++ standard library the model has what the code uses: \<^verbatim>\<open>find\<close> and \<^verbatim>\<open>substr\<close> on strings,
  \<^verbatim>\<open>std::stoi\<close>, \<^verbatim>\<open>std::to_string\<close>, \<^verbatim>\<open>duration_cast\<close> and the code and text of a \<^verbatim>\<open>std::system_error\<close>.

  Of Linux and UIO the model has what their documentation promises: descriptors, \<^verbatim>\<open>errno\<close>, one
  minor number per device, memory \<open>j\<close> of a device at the offset of \<open>j\<close> pages of its file, a counter of
  events per device and the value that each open file has read last. What
  the kernel's own \<^verbatim>\<open>ioread32\<close> and its family do is a parameter.

  Not modelled: the RTEMS headers, whose sources are not in the repository; the memory mapper
  of Xenomai UDD and the waits of a Xenomai process on a UDD file, the order in which a device observes two accesses; debug printing, and the output of the address of a
  region, whose format the compiler chooses. Two threads inside one handler are not interleaved: the
  mutex covers every handler from its first access to the state to its last. Requests of
  different processes interleave at the granularity of whole calls.
\<close>

end
